(* ===== verification/Prelude.thy ===== *)
theory Prelude
  imports Main "HOL-Library.Word"
begin

text \<open>
  Shared vocabulary of the development: the outcome of a Rust call (a value, an error,
  a panic, or no return at all), machine integers written as \<open>int\<close> and \<open>nat\<close> with the wrap-around of the
  release profile spelled out, and the \<open>Vec<u8>\<close> primitives (indexing by a range,
  \<open>resize\<close>, \<open>splice\<close>, \<open>copy_from_slice\<close>, \<open>truncate\<close>) that every backend uses.

  Conventions. A byte is HOL's \<open>char\<close>, which has exactly 256 values, so that a
  \<open>Vec<u8>\<close> and the UTF-8 bytes of a Rust \<open>String\<close> are both of type \<open>string\<close> and
  \<open>into_bytes\<close> is the identity. \<open>usize\<close> has 64 bits. The length of a vector never
  exceeds \<open>isize::MAX\<close>; a request for a longer one is Rust's capacity-overflow panic.
\<close>

named_theorems outcome_simps \<open>unfolding of outcomes\<close>
named_theorems vec_simps \<open>lengths and contents of vectors\<close>

type_synonym byte = char
type_synonym bytes = "char list"

text \<open>\<open>Hang\<close> is a call that never returns.\<close>

datatype ('a, 'e) outcome = Ok 'a | Err 'e | Panic | Hang

fun is_ok :: "('a, 'e) outcome \<Rightarrow> bool" where
  "is_ok (Ok _) = True"
| "is_ok _ = False"

fun and_then :: "('a, 'e) outcome \<Rightarrow> ('a \<Rightarrow> ('b, 'e) outcome) \<Rightarrow> ('b, 'e) outcome" where
  "and_then (Ok a) f = f a"
| "and_then (Err e) f = Err e"
| "and_then Panic f = Panic"
| "and_then Hang f = Hang"

definition ok_or :: "'a option \<Rightarrow> 'e \<Rightarrow> ('a, 'e) outcome" where
  "ok_or x e = (case x of Some a \<Rightarrow> Ok a | None \<Rightarrow> Err e)"

lemma and_then_eq_Ok [outcome_simps]:
  "and_then r f = Ok b \<longleftrightarrow> (\<exists>a. r = Ok a \<and> f a = Ok b)"
  by (cases r) auto

lemma ok_or_simps [simp]: "ok_or (Some a) e = Ok a" "ok_or None e = Err e"
  by (simp_all add: ok_or_def)

lemma ok_or_eq_Ok [outcome_simps]: "ok_or x e = Ok a \<longleftrightarrow> x = Some a"
  by (cases x) auto

lemma is_ok_iff: "is_ok r \<longleftrightarrow> (\<exists>a. r = Ok a)"
  by (cases r) auto

subsection \<open>Machine integers\<close>

abbreviation i64_max :: int where "i64_max \<equiv> 9223372036854775807"
abbreviation i64_min :: int where "i64_min \<equiv> - 9223372036854775808"
abbreviation u64_modulus :: int where "u64_modulus \<equiv> 18446744073709551616"
abbreviation isize_max :: nat where "isize_max \<equiv> 9223372036854775807"
abbreviation u64_max :: nat where "u64_max \<equiv> 18446744073709551615"

definition is_i64 :: "int \<Rightarrow> bool" where
  "is_i64 x \<longleftrightarrow> i64_min \<le> x \<and> x \<le> i64_max"

text \<open>Two's complement wrap-around of a signed 64-bit result.\<close>

definition i64_wrap :: "int \<Rightarrow> int" where
  "i64_wrap x = (x - i64_min) mod u64_modulus + i64_min"

definition i64_add :: "int \<Rightarrow> int \<Rightarrow> int" where
  "i64_add a b = i64_wrap (a + b)"

text \<open>\<open>i64::saturating_add\<close>.\<close>

definition i64_saturating_add :: "int \<Rightarrow> int \<Rightarrow> int" where
  "i64_saturating_add a b = max i64_min (min i64_max (a + b))"

text \<open>\<open>x as usize\<close> for a signed \<open>x\<close>: the same 64 bits read as unsigned.\<close>

definition as_usize :: "int \<Rightarrow> nat" where
  "as_usize x = nat (x mod u64_modulus)"

text \<open>\<open>+\<close> on \<open>u64\<close> and \<open>usize\<close> in the release profile.\<close>

definition u64_add :: "nat \<Rightarrow> nat \<Rightarrow> nat" where
  "u64_add a b = (a + b) mod (u64_max + 1)"

text \<open>\<open>as i32\<close>: the low 32 bits read as signed.\<close>

definition as_i32 :: "nat \<Rightarrow> int" where
  "as_i32 n = (int n + 2147483648) mod 4294967296 - 2147483648"

lemma as_i32_small: "n \<le> 2147483647 \<Longrightarrow> as_i32 n = int n"
  by (simp add: as_i32_def)

lemma is_i64_wrap: "is_i64 (i64_wrap x)"
  using pos_mod_bound [of u64_modulus "x - i64_min"] pos_mod_sign [of u64_modulus "x - i64_min"]
  by (simp add: is_i64_def i64_wrap_def)

lemma i64_wrap_id [simp]: "is_i64 x \<Longrightarrow> i64_wrap x = x"
  by (simp add: is_i64_def i64_wrap_def mod_pos_pos_trivial)

lemma i64_wrap_high:
  "i64_max < x \<Longrightarrow> x \<le> 2 * i64_max \<Longrightarrow> i64_wrap x = x - u64_modulus"
proof -
  assume h: "i64_max < x" "x \<le> 2 * i64_max"
  have "(x - i64_min) mod u64_modulus = (x - i64_min - u64_modulus) mod u64_modulus"
    by (rule minus_mod_self2 [symmetric])
  also have "\<dots> = x - i64_min - u64_modulus"
    by (rule mod_pos_pos_trivial) (use h in auto)
  finally show ?thesis by (simp add: i64_wrap_def)
qed

lemma as_usize_nonneg [simp]: "0 \<le> x \<Longrightarrow> x \<le> i64_max \<Longrightarrow> as_usize x = nat x"
  by (simp add: as_usize_def mod_pos_pos_trivial)

lemma as_usize_neg: "i64_min \<le> x \<Longrightarrow> x < 0 \<Longrightarrow> as_usize x = nat (x + u64_modulus)"
proof -
  assume h: "i64_min \<le> x" "x < 0"
  have "x mod u64_modulus = (x + u64_modulus) mod u64_modulus" by simp
  also have "\<dots> = x + u64_modulus"
    by (rule mod_pos_pos_trivial) (use h in auto)
  finally show ?thesis by (simp add: as_usize_def)
qed

lemma as_usize_neg_gt: "i64_min \<le> x \<Longrightarrow> x < 0 \<Longrightarrow> isize_max < as_usize x"
  by (simp add: as_usize_neg)

lemma u64_add_small [simp]: "a + b \<le> u64_max \<Longrightarrow> u64_add a b = a + b"
  by (simp add: u64_add_def)

lemma i64_saturating_add_range:
  "is_i64 (i64_saturating_add a b)"
  by (simp add: is_i64_def i64_saturating_add_def)

subsection \<open>Vectors of bytes\<close>

text \<open>\<open>&v[s..e]\<close>: panics unless \<open>s \<le> e \<le> len\<close>.\<close>

definition index_range :: "'a list \<Rightarrow> nat \<Rightarrow> nat \<Rightarrow> ('a list, 'e) outcome" where
  "index_range v s e = (if s \<le> e \<and> e \<le> length v then Ok (take (e - s) (drop s v)) else Panic)"

text \<open>\<open>v.resize(n, 0)\<close>: shrinks, or pads with zero bytes; capacity overflow panics.\<close>

definition vec_resize :: "nat \<Rightarrow> bytes \<Rightarrow> (bytes, 'e) outcome" where
  "vec_resize n v =
     (if n \<le> length v then Ok (take n v)
      else if isize_max < n then Panic
      else Ok (v @ replicate (n - length v) (CHR 0x00)))"

text \<open>\<open>v[s..e].copy_from_slice(d)\<close>: panics on a bad range or a length mismatch.\<close>

definition vec_copy_from_slice :: "nat \<Rightarrow> nat \<Rightarrow> bytes \<Rightarrow> bytes \<Rightarrow> (bytes, 'e) outcome" where
  "vec_copy_from_slice s e d v =
     (if s \<le> e \<and> e \<le> length v \<and> length d = e - s
      then Ok (take s v @ d @ drop e v) else Panic)"

text \<open>\<open>v.splice(s..e, d)\<close>, dropped at once: panics on a bad range.\<close>

definition vec_splice :: "nat \<Rightarrow> nat \<Rightarrow> bytes \<Rightarrow> bytes \<Rightarrow> (bytes, 'e) outcome" where
  "vec_splice s e d v =
     (if s \<le> e \<and> e \<le> length v then Ok (take s v @ d @ drop e v) else Panic)"

text \<open>
  The bytes a POSIX write leaves behind: \<open>d\<close> at \<open>off\<close>, the rest of \<open>v\<close> kept, a gap
  filled with zero bytes. The reference the backends' \<open>write\<close> is compared with.
\<close>

definition posix_write :: "nat \<Rightarrow> bytes \<Rightarrow> bytes \<Rightarrow> bytes" where
  "posix_write off d v =
     take off v @ replicate (off - length v) (CHR 0x00) @ d @ drop (off + length d) v"

text \<open>The bytes a POSIX read returns.\<close>

definition posix_read :: "nat \<Rightarrow> nat \<Rightarrow> bytes \<Rightarrow> bytes" where
  "posix_read off n v = take n (drop off v)"

lemma length_posix_write [vec_simps]:
  "length (posix_write off d v) = max (length v) (off + length d)"
  by (simp add: posix_write_def)

lemma posix_read_write [vec_simps]: "posix_read off (length d) (posix_write off d v) = d"
proof -
  have "length (take off v @ replicate (off - length v) (CHR 0x00)) = off" by simp
  then have "drop off (posix_write off d v) = d @ drop (off + length d) v"
    unfolding posix_write_def
    by (metis append.assoc append_eq_conv_conj)
  then show ?thesis by (simp add: posix_read_def)
qed

lemma posix_write_end [vec_simps]: "posix_write (length v) d v = v @ d"
  by (simp add: posix_write_def)

end
