(* ===== verification/Rust_Maps.thy ===== *)
theory Rust_Maps
  imports Prelude "HOL-Library.List_Lexorder" "HOL-Library.Char_ord"
begin

text \<open>
  The maps of Rust's standard library. A \<open>HashMap\<close> is an association list whose order
  is one of the iteration orders the library may choose; keys are compared with the
  equality of the key type, which for \<open>PathBuf\<close> is coarser than equality of the stored
  text, so the equality is an argument. Inserting under an equal key keeps the stored
  key and replaces the value, as \<open>HashMap::insert\<close> documents. A \<open>BTreeMap\<close> is an
  association list sorted by its keys.

  The locale \<open>map_provider\<close> is what the backends rely on; it is interpreted for hash
  maps over any key equivalence and for ordered maps over any linear order.
\<close>

named_theorems map_laws \<open>laws of get, insert and remove\<close>

type_synonym ('k, 'v) hash_map = "('k \<times> 'v) list"

subsection \<open>Hash maps\<close>

fun hm_get :: "('k \<Rightarrow> 'k \<Rightarrow> bool) \<Rightarrow> ('k, 'v) hash_map \<Rightarrow> 'k \<Rightarrow> 'v option" where
  "hm_get eq [] k = None"
| "hm_get eq ((k', v) # m) k = (if eq k' k then Some v else hm_get eq m k)"

fun hm_insert :: "('k \<Rightarrow> 'k \<Rightarrow> bool) \<Rightarrow> ('k, 'v) hash_map \<Rightarrow> 'k \<Rightarrow> 'v \<Rightarrow> ('k, 'v) hash_map" where
  "hm_insert eq [] k v = [(k, v)]"
| "hm_insert eq ((k', v') # m) k v =
     (if eq k' k then (k', v) # m else (k', v') # hm_insert eq m k v)"

definition hm_remove :: "('k \<Rightarrow> 'k \<Rightarrow> bool) \<Rightarrow> ('k, 'v) hash_map \<Rightarrow> 'k \<Rightarrow> ('k, 'v) hash_map" where
  "hm_remove eq m k = filter (\<lambda>(k', _). \<not> eq k' k) m"

definition hm_contains :: "('k \<Rightarrow> 'k \<Rightarrow> bool) \<Rightarrow> ('k, 'v) hash_map \<Rightarrow> 'k \<Rightarrow> bool" where
  "hm_contains eq m k \<longleftrightarrow> hm_get eq m k \<noteq> None"

text \<open>\<open>retain\<close> on the keys.\<close>

definition hm_retain :: "('k \<Rightarrow> bool) \<Rightarrow> ('k, 'v) hash_map \<Rightarrow> ('k, 'v) hash_map" where
  "hm_retain P m = filter (\<lambda>(k, _). P k) m"

text \<open>No two stored keys are equal.\<close>

fun hm_inv :: "('k \<Rightarrow> 'k \<Rightarrow> bool) \<Rightarrow> ('k, 'v) hash_map \<Rightarrow> bool" where
  "hm_inv eq [] = True"
| "hm_inv eq ((k, v) # m) = (hm_get eq m k = None \<and> hm_inv eq m)"

subsection \<open>Ordered maps\<close>

fun bt_get :: "('k::linorder \<times> 'v) list \<Rightarrow> 'k \<Rightarrow> 'v option" where
  "bt_get [] k = None"
| "bt_get ((k', v) # m) k = (if k' = k then Some v else bt_get m k)"

fun bt_insert :: "('k::linorder \<times> 'v) list \<Rightarrow> 'k \<Rightarrow> 'v \<Rightarrow> ('k \<times> 'v) list" where
  "bt_insert [] k v = [(k, v)]"
| "bt_insert ((k', v') # m) k v =
     (if k < k' then (k, v) # (k', v') # m
      else if k' = k then (k', v) # m
      else (k', v') # bt_insert m k v)"

definition bt_remove :: "('k::linorder \<times> 'v) list \<Rightarrow> 'k \<Rightarrow> ('k \<times> 'v) list" where
  "bt_remove m k = filter (\<lambda>(k', _). k' \<noteq> k) m"

definition bt_inv :: "('k::linorder \<times> 'v) list \<Rightarrow> bool" where
  "bt_inv m \<longleftrightarrow> sorted_wrt (<) (map fst m)"

subsection \<open>The interface\<close>

locale map_provider =
  fixes eq :: "'k \<Rightarrow> 'k \<Rightarrow> bool"
    and empty :: 'm
    and get :: "'m \<Rightarrow> 'k \<Rightarrow> 'v option"
    and insert :: "'m \<Rightarrow> 'k \<Rightarrow> 'v \<Rightarrow> 'm"
    and remove :: "'m \<Rightarrow> 'k \<Rightarrow> 'm"
    and entries :: "'m \<Rightarrow> ('k \<times> 'v) list"
    and inv :: "'m \<Rightarrow> bool"
  assumes eq_refl: "eq k k"
    and eq_sym: "eq k k' \<Longrightarrow> eq k' k"
    and eq_trans: "eq k k' \<Longrightarrow> eq k' k'' \<Longrightarrow> eq k k''"
    and get_empty: "get empty k = None"
    and get_insert: "inv m \<Longrightarrow> get (insert m k v) k' = (if eq k k' then Some v else get m k')"
    and get_remove: "inv m \<Longrightarrow> get (remove m k) k' = (if eq k k' then None else get m k')"
    and get_entries: "inv m \<Longrightarrow>
      get m k = Some v \<longleftrightarrow> (\<exists>k'. eq k' k \<and> (k', v) \<in> set (entries m))"
    and inv_empty: "inv empty"
    and inv_insert: "inv m \<Longrightarrow> inv (insert m k v)"
    and inv_remove: "inv m \<Longrightarrow> inv (remove m k)"
begin

lemma get_cong: "inv m \<Longrightarrow> eq k k' \<Longrightarrow> get m k = get m k'"
  by (metis eq_sym eq_trans get_entries not_None_eq)

lemma get_insert_same: "inv m \<Longrightarrow> get (insert m k v) k = Some v"
  by (simp add: get_insert eq_refl)

lemma get_insert_other: "inv m \<Longrightarrow> \<not> eq k k' \<Longrightarrow> get (insert m k v) k' = get m k'"
  by (simp add: get_insert)

lemma get_remove_same: "inv m \<Longrightarrow> get (remove m k) k = None"
  by (simp add: get_remove eq_refl)

lemma get_None_entries:
  assumes "inv m"
  shows "get m k = None \<longleftrightarrow> (\<forall>(k', _) \<in> set (entries m). \<not> eq k' k)"
proof (cases "get m k")
  case None
  then have "\<not> (\<exists>k'. eq k' k \<and> (k', v) \<in> set (entries m))" for v
    using get_entries [OF assms, of k v] by simp
  with None show ?thesis by auto
next
  case (Some v)
  then have "\<exists>k'. eq k' k \<and> (k', v) \<in> set (entries m)"
    using get_entries [OF assms, of k v] by simp
  with Some show ?thesis by auto
qed

text \<open>Moving a value to a fresh key, as the backends' \<open>rename\<close> does.\<close>

lemma get_move:
  assumes "inv m" "\<not> eq k k'"
  shows "get (insert (remove m k) k' v) q =
    (if eq k' q then Some v else if eq k q then None else get m q)"
  using assms by (simp add: get_insert get_remove inv_remove)

text \<open>Removing a key and putting its value back is invisible to every lookup.\<close>

lemma get_put_back:
  assumes "inv m" "get m k = Some v"
  shows "get (insert (remove m k) k v) q = get m q"
  using assms get_cong by (auto simp: get_insert get_remove inv_remove)

end

subsection \<open>Hash maps provide it\<close>

lemma hm_get_None: "hm_get eq m k = None \<longleftrightarrow> (\<forall>(k', _) \<in> set m. \<not> eq k' k)"
  by (induction m) (auto split: if_splits)

lemma hm_get_SomeD: "hm_get eq m k = Some v \<Longrightarrow> \<exists>k'. eq k' k \<and> (k', v) \<in> set m"
  by (induction m) (auto split: if_splits)

lemma hm_remove_simps [simp]:
  "hm_remove eq [] k = []"
  "hm_remove eq ((k', v) # m) k = (if eq k' k then hm_remove eq m k else (k', v) # hm_remove eq m k)"
  by (simp_all add: hm_remove_def)

lemma hm_retain_simps [simp]:
  "hm_retain P [] = []"
  "hm_retain P ((k, v) # m) = (if P k then (k, v) # hm_retain P m else hm_retain P m)"
  by (simp_all add: hm_retain_def)

lemma length_hm_insert:
  "length (hm_insert eq m k v) = (if hm_get eq m k = None then Suc (length m) else length m)"
  by (induction m) (auto split: if_splits)

lemma length_hm_remove: "length (hm_remove eq m k) \<le> length m"
  by (simp add: hm_remove_def)

text \<open>A comparison that is an equivalence: what \<open>Eq\<close> and \<open>Hash\<close> together demand.\<close>

locale key_equivalence =
  fixes eq :: "'k \<Rightarrow> 'k \<Rightarrow> bool"
  assumes refl [simp]: "eq k k"
    and sym: "eq k k' \<Longrightarrow> eq k' k"
    and trans: "eq k k' \<Longrightarrow> eq k' k'' \<Longrightarrow> eq k k''"
begin

lemma eq_left: "eq k k' \<Longrightarrow> eq k q \<longleftrightarrow> eq k' q"
  using sym trans by blast

lemma eq_right: "eq k k' \<Longrightarrow> eq q k \<longleftrightarrow> eq q k'"
  using sym trans by blast

lemma hm_get_eq: "eq k k' \<Longrightarrow> hm_get eq m k = hm_get eq m k'"
  by (induction m) (simp_all add: split_paired_all eq_right [of k k'])

lemma hm_get_insert:
  "hm_get eq (hm_insert eq m k v) k' = (if eq k k' then Some v else hm_get eq m k')"
proof (induction m)
  case (Cons kv m)
  obtain c w where "kv = (c, w)" by (cases kv)
  with Cons show ?case
    by (cases "eq c k"; cases "eq c k'") (auto simp: eq_left dest: eq_right)
qed simp

lemma hm_get_remove:
  "hm_get eq (hm_remove eq m k) k' = (if eq k k' then None else hm_get eq m k')"
proof (induction m)
  case (Cons kv m)
  obtain c w where "kv = (c, w)" by (cases kv)
  with Cons show ?case
    by (cases "eq c k"; cases "eq c k'") (auto simp: eq_left dest: eq_right)
qed simp

lemma hm_inv_insert: "hm_inv eq m \<Longrightarrow> hm_inv eq (hm_insert eq m k v)"
  by (induction m) (auto simp: hm_get_insert dest: sym)

lemma hm_inv_filter: "hm_inv eq m \<Longrightarrow> hm_inv eq (filter P m)"
proof (induction m)
  case (Cons kv m)
  obtain k v where kv: "kv = (k, v)" by (cases kv)
  from Cons.prems kv have "hm_get eq (filter P m) k = None"
    by (auto simp: hm_get_None)
  with Cons kv show ?case by auto
qed simp

lemma hm_inv_remove: "hm_inv eq m \<Longrightarrow> hm_inv eq (hm_remove eq m k)"
  unfolding hm_remove_def by (rule hm_inv_filter)

lemma hm_inv_retain: "hm_inv eq m \<Longrightarrow> hm_inv eq (hm_retain P m)"
  unfolding hm_retain_def by (rule hm_inv_filter)

lemma hm_get_entry: "hm_inv eq m \<Longrightarrow> (k', v) \<in> set m \<Longrightarrow> eq k' k \<Longrightarrow> hm_get eq m k = Some v"
proof (induction m)
  case (Cons kv m)
  obtain c w where kv: "kv = (c, w)" by (cases kv)
  show ?case
  proof (cases "(k', v) = kv")
    case True
    with kv Cons.prems show ?thesis by simp
  next
    case False
    with Cons.prems have k': "(k', v) \<in> set m" by auto
    from kv Cons.prems have "hm_get eq m c = None" by simp
    with k' have "\<not> eq k' c" by (auto simp: hm_get_None)
    with Cons.prems(3) have "\<not> eq c k" by (metis sym trans)
    with Cons k' kv show ?thesis by auto
  qed
qed simp

lemma hm_get_retain:
  assumes "\<And>a b. eq a b \<Longrightarrow> P a = P b"
  shows "hm_get eq (hm_retain P m) k = (if P k then hm_get eq m k else None)"
  by (induction m) (auto dest: assms)

sublocale map_provider eq "[]" "hm_get eq" "hm_insert eq" "hm_remove eq" "\<lambda>m. m" "hm_inv eq"
proof unfold_locales
  fix m :: "('k \<times> 'b) list" and k v
  assume inv: "hm_inv eq m"
  show "hm_get eq m k = Some v \<longleftrightarrow> (\<exists>k'. eq k' k \<and> (k', v) \<in> set m)"
    using hm_get_SomeD hm_get_entry [OF inv] by metis
qed (auto simp: hm_get_insert hm_get_remove hm_inv_insert hm_inv_remove intro: sym trans)

end

interpretation str_map: key_equivalence "(=)"
  by unfold_locales auto

subsection \<open>Ordered maps provide it\<close>

lemma bt_inv_simps [simp]:
  "bt_inv []"
  "bt_inv ((k, v) # m) \<longleftrightarrow> (\<forall>(k', _) \<in> set m. k < k') \<and> bt_inv m"
  by (auto simp: bt_inv_def)

lemma bt_remove_simps [simp]:
  "bt_remove [] k = []"
  "bt_remove ((k', v) # m) k = (if k' = k then bt_remove m k else (k', v) # bt_remove m k)"
  by (simp_all add: bt_remove_def)

lemma bt_get_map_of: "bt_get m k = map_of m k"
  by (induction m) auto

lemma bt_get_insert: "bt_get (bt_insert m k v) k' = (if k = k' then Some v else bt_get m k')"
  by (induction m) auto

lemma bt_get_remove: "bt_get (bt_remove m k) k' = (if k = k' then None else bt_get m k')"
  by (induction m) auto

lemma set_bt_insertD: "(k', v') \<in> set (bt_insert m k v) \<Longrightarrow> k' = k \<or> (k', v') \<in> set m"
  by (induction m) (auto split: if_splits)

lemma bt_inv_insert: "bt_inv m \<Longrightarrow> bt_inv (bt_insert m k v)"
proof (induction m)
  case (Cons kv m)
  obtain c w where kv: "kv = (c, w)" by (cases kv)
  show ?case
  proof (cases "k < c")
    case True
    with Cons.prems kv show ?thesis by (auto dest: less_trans)
  next
    case False
    with Cons kv show ?thesis by (force dest!: set_bt_insertD)
  qed
qed simp

lemma bt_inv_filter: "bt_inv m \<Longrightarrow> bt_inv (filter P m)"
  by (induction m) auto

lemma bt_inv_remove: "bt_inv m \<Longrightarrow> bt_inv (bt_remove m k)"
  unfolding bt_remove_def by (rule bt_inv_filter)

lemma bt_inv_distinct: "bt_inv m \<Longrightarrow> distinct (map fst m)"
  by (induction m) force+

lemma bt_inv_sorted: "bt_inv m \<Longrightarrow> sorted (map fst m)"
  by (induction m) force+

lemma length_bt_insert:
  "length (bt_insert m k v) = (if bt_get m k = None then Suc (length m) else length m)"
  if "bt_inv m"
  using that
proof (induction m)
  case (Cons kv m)
  obtain c w where kv: "kv = (c, w)" by (cases kv)
  show ?case
  proof (cases "k < c")
    case True
    with Cons.prems kv have "k \<notin> fst ` set m" by force
    with True kv show ?thesis by (simp add: bt_get_map_of map_of_eq_None_iff)
  next
    case False
    with Cons kv show ?thesis by simp
  qed
qed simp

text \<open>A key beyond all stored ones goes to the end.\<close>

lemma bt_insert_append:
  "\<forall>(k', _) \<in> set m. k' < k \<Longrightarrow> bt_insert m k v = m @ [(k, v)]"
  by (induction m) auto

interpretation bt_map: map_provider "(=)" "[]" bt_get bt_insert bt_remove "\<lambda>m. m" bt_inv
proof unfold_locales
  fix m :: "('a \<times> 'b) list" and k v
  assume "bt_inv m"
  then show "bt_get m k = Some v \<longleftrightarrow> (\<exists>k'. k' = k \<and> (k', v) \<in> set m)"
    by (auto simp: bt_get_map_of dest: bt_inv_distinct map_of_SomeD)
qed (auto simp: bt_get_insert bt_get_remove bt_inv_insert bt_inv_remove)

end
