(* ===== verification/Rust_Strings.thy ===== *)
theory Rust_Strings
  imports Rust_Maps
begin

text \<open>
  The string functions of Rust's standard library that the program uses: splitting and
  joining, prefix and suffix stripping, trimming of Unicode white space, decimal
  formatting (\<open>{}\<close>, \<open>{:03}\<close>, \<open>{:06}\<close>) and parsing of unsigned integers, and UTF-8
  validation with its lossy variant. A Rust string is the list of its UTF-8 bytes.
\<close>

subsection \<open>Splitting and joining\<close>

fun split_on :: "char \<Rightarrow> string \<Rightarrow> string list" where
  "split_on c [] = [[]]"
| "split_on c (x # xs) =
     (if x = c then [] # split_on c xs
      else (case split_on c xs of [] \<Rightarrow> [[x]] | s # ss \<Rightarrow> (x # s) # ss))"

fun join :: "string \<Rightarrow> string list \<Rightarrow> string" where
  "join sep [] = []"
| "join sep [s] = s"
| "join sep (s # t # ts) = s @ sep @ join sep (t # ts)"

definition starts_with :: "string \<Rightarrow> string \<Rightarrow> bool" where
  "starts_with s p \<longleftrightarrow> take (length p) s = p"

definition ends_with :: "string \<Rightarrow> string \<Rightarrow> bool" where
  "ends_with s p \<longleftrightarrow> starts_with (rev s) (rev p)"

definition str_strip_prefix :: "string \<Rightarrow> string \<Rightarrow> string option" where
  "str_strip_prefix s p = (if starts_with s p then Some (drop (length p) s) else None)"

definition str_strip_suffix :: "string \<Rightarrow> string \<Rightarrow> string option" where
  "str_strip_suffix s p = (if ends_with s p then Some (take (length s - length p) s) else None)"

text \<open>\<open>str::contains\<close> for a string pattern.\<close>

fun str_contains :: "string \<Rightarrow> string \<Rightarrow> bool" where
  "str_contains [] p = (p = [])"
| "str_contains (c # s) p = (starts_with (c # s) p \<or> str_contains s p)"

definition trim_start_char :: "char \<Rightarrow> string \<Rightarrow> string" where
  "trim_start_char c s = dropWhile (\<lambda>x. x = c) s"

definition trim_end_char :: "char \<Rightarrow> string \<Rightarrow> string" where
  "trim_end_char c s = rev (dropWhile (\<lambda>x. x = c) (rev s))"

lemma split_on_not_Nil [simp]: "split_on c s \<noteq> []"
  by (induction s) (auto split: list.splits)

lemma join_split_on: "join [c] (split_on c s) = s"
proof (induction s)
  case (Cons x xs)
  obtain t ts where t: "split_on c xs = t # ts" by (cases "split_on c xs") auto
  with Cons show ?case by (cases ts) auto
qed simp

lemma split_on_no_sep: "t \<in> set (split_on c s) \<Longrightarrow> c \<notin> set t"
  by (induction s arbitrary: t) (auto split: list.splits if_splits)

lemma split_on_id: "c \<notin> set s \<Longrightarrow> split_on c s = [s]"
  by (induction s) auto

lemma split_on_append: "c \<notin> set s \<Longrightarrow> split_on c (s @ c # t) = s # split_on c t"
  by (induction s) auto

lemma split_on_join:
  "ss \<noteq> [] \<Longrightarrow> \<forall>s \<in> set ss. c \<notin> set s \<Longrightarrow> split_on c (join [c] ss) = ss"
proof (induction ss rule: induct_list012)
  case (3 s t ts)
  then show ?case by (simp add: split_on_append)
qed (auto simp: split_on_id)

lemma join_append: "ss \<noteq> [] \<Longrightarrow> ts \<noteq> [] \<Longrightarrow> join c (ss @ ts) = join c ss @ c @ join c ts"
proof (induction ss rule: induct_list012)
  case (2 s)
  then show ?case by (cases ts) auto
qed auto

lemma join_snoc: "ss \<noteq> [] \<Longrightarrow> join c (ss @ [t]) = join c ss @ c @ t"
  using join_append [of ss "[t]" c] by simp

lemma starts_with_append [simp]: "starts_with (p @ s) p"
  by (simp add: starts_with_def)

lemma starts_with_iff: "starts_with s p \<longleftrightarrow> (\<exists>t. s = p @ t)"
  unfolding starts_with_def by (metis append_eq_conv_conj append_take_drop_id)

lemma starts_with_Nil [simp]: "starts_with s []"
  by (simp add: starts_with_def)

lemma str_strip_prefix_eq_Some: "str_strip_prefix s p = Some t \<longleftrightarrow> s = p @ t"
  by (auto simp: str_strip_prefix_def starts_with_iff)

lemma str_contains_iff: "str_contains s p \<longleftrightarrow> (\<exists>a b. s = a @ p @ b)"
proof (induction s)
  case (Cons c s)
  have "(\<exists>a b. c # s = a @ p @ b) \<longleftrightarrow> (\<exists>b. c # s = p @ b) \<or> (\<exists>a b. s = a @ p @ b)"
    (is "?l \<longleftrightarrow> ?r")
  proof
    assume ?l
    then obtain a b where ab: "c # s = a @ p @ b" by blast
    then show ?r by (cases a) auto
  next
    assume ?r
    then show ?l
    proof
      assume "\<exists>b. c # s = p @ b"
      then show ?l by (metis append_Nil)
    next
      assume "\<exists>a b. s = a @ p @ b"
      then show ?l by (metis append_Cons)
    qed
  qed
  with Cons show ?case by (simp add: starts_with_iff)
qed auto

subsection \<open>Decimal numbers\<close>

definition digit :: "nat \<Rightarrow> char" where
  "digit d = ''0123456789'' ! d"

fun dec :: "nat \<Rightarrow> string" where
  "dec n = (if n < 10 then [digit n] else dec (n div 10) @ [digit (n mod 10)])"

declare dec.simps [simp del]

text \<open>\<open>{:0w}\<close>: zero padding to at least \<open>w\<close> characters.\<close>

text \<open>Signed numbers.\<close>

definition int_dec :: "int \<Rightarrow> string" where
  "int_dec i = (if i < 0 then CHR ''-'' # dec (nat (- i)) else dec (nat i))"

definition pad_zero :: "nat \<Rightarrow> string \<Rightarrow> string" where
  "pad_zero w s = replicate (w - length s) (CHR ''0'') @ s"

definition digit_val :: "char \<Rightarrow> nat option" where
  "digit_val c = (let n = of_char c :: nat in if 48 \<le> n \<and> n \<le> 57 then Some (n - 48) else None)"

fun parse_digits :: "nat \<Rightarrow> nat \<Rightarrow> string \<Rightarrow> nat option" where
  "parse_digits limit acc [] = Some acc"
| "parse_digits limit acc (c # cs) =
     (case digit_val c of
        None \<Rightarrow> None
      | Some d \<Rightarrow> if limit < acc * 10 + d then None else parse_digits limit (acc * 10 + d) cs)"

text \<open>\<open>str::parse::<u64>()\<close> (and \<open>usize\<close>): one optional plus sign, then digits.\<close>

definition parse_u64 :: "string \<Rightarrow> nat option" where
  "parse_u64 s =
     (let ds = (case s of c # t \<Rightarrow> if c = CHR ''+'' then t else s | [] \<Rightarrow> [])
      in if ds = [] then None else parse_digits u64_max 0 ds)"

lemma digit_cases:
  assumes "d < (10::nat)"
  shows "d = 0 \<or> d = 1 \<or> d = 2 \<or> d = 3 \<or> d = 4 \<or> d = 5 \<or> d = 6 \<or> d = 7 \<or> d = 8 \<or> d = 9"
  using assms by presburger

lemma digit_val_digit [simp]: "d < 10 \<Longrightarrow> digit_val (digit d) = Some d"
  by (drule digit_cases) (auto simp: digit_def digit_val_def Let_def)

lemma digit_not_sep [simp]:
  "d < 10 \<Longrightarrow> digit d \<noteq> CHR ''/''" "d < 10 \<Longrightarrow> digit d \<noteq> CHR ''+''"
  "d < 10 \<Longrightarrow> digit d \<noteq> CHR ''.''"
  by (drule digit_cases, auto simp: digit_def)+

lemma of_char_digit: "d < 10 \<Longrightarrow> of_char (digit d) = (48 + d :: nat)"
  by (drule digit_cases) (auto simp: digit_def)

lemma digit_less: "a < b \<Longrightarrow> b < 10 \<Longrightarrow> digit a < digit b"
  by (simp add: less_char_def of_char_digit)

lemma digit_inj: "a < 10 \<Longrightarrow> b < 10 \<Longrightarrow> digit a = digit b \<Longrightarrow> a = b"
  by (metis digit_val_digit option.inject)

lemma dec_not_Nil [simp]: "dec n \<noteq> []"
  by (subst dec.simps) simp

lemma dec_digits: "c \<in> set (dec n) \<Longrightarrow> \<exists>d < 10. c = digit d"
proof (induction n rule: dec.induct)
  case (1 n)
  show ?case
  proof (cases "n < 10")
    case True
    with "1.prems" show ?thesis by (subst (asm) dec.simps) auto
  next
    case False
    with "1.prems" have "c \<in> set (dec (n div 10)) \<or> c = digit (n mod 10)"
      by (subst (asm) dec.simps) auto
    then show ?thesis
    proof
      assume "c = digit (n mod 10)"
      then show ?thesis by (intro exI [of _ "n mod 10"]) simp
    qed (rule "1.IH" [OF False])
  qed
qed

lemma parse_digits_mono_None:
  "parse_digits l a (xs @ ys) =
     (case parse_digits l a xs of None \<Rightarrow> None | Some b \<Rightarrow> parse_digits l b ys)"
  by (induction xs arbitrary: a) (auto split: option.splits)

lemma parse_digits_dec: "n \<le> l \<Longrightarrow> parse_digits l 0 (dec n) = Some n"
proof (induction n rule: dec.induct)
  case (1 n)
  show ?case
  proof (cases "n < 10")
    case True
    with "1.prems" show ?thesis by (subst dec.simps) simp
  next
    case False
    from "1.prems" have "n div 10 \<le> l" by linarith
    with "1.IH" False have "parse_digits l 0 (dec (n div 10)) = Some (n div 10)" by simp
    moreover have "n div 10 * 10 + n mod 10 = n" by simp
    ultimately show ?thesis using False "1.prems"
      by (subst dec.simps) (simp add: parse_digits_mono_None)
  qed
qed

lemma parse_digits_zeros: "parse_digits l 0 (replicate k (CHR ''0'') @ s) = parse_digits l 0 s"
proof (induction k)
  case (Suc k)
  have "digit_val (CHR ''0'') = Some 0" by (simp add: digit_val_def)
  with Suc show ?case by simp
qed simp

lemma pad_zero_not_Nil: "s \<noteq> [] \<Longrightarrow> pad_zero w s \<noteq> []"
  by (simp add: pad_zero_def)

lemma dec_no_plus: "CHR ''+'' \<notin> set (dec n)"
  by (metis dec_digits digit_not_sep(2))

lemma parse_u64_pad_dec: "n \<le> u64_max \<Longrightarrow> parse_u64 (pad_zero w (dec n)) = Some n"
proof -
  assume n: "n \<le> u64_max"
  have ne: "pad_zero w (dec n) \<noteq> []" by (simp add: pad_zero_not_Nil)
  have "CHR ''+'' \<notin> set (pad_zero w (dec n))"
    by (simp add: pad_zero_def dec_no_plus)
  then have "(case pad_zero w (dec n) of c # t \<Rightarrow> if c = CHR ''+'' then t else pad_zero w (dec n)
      | [] \<Rightarrow> []) = pad_zero w (dec n)"
    using ne by (cases "pad_zero w (dec n)") auto
  then have "parse_u64 (pad_zero w (dec n)) = parse_digits u64_max 0 (pad_zero w (dec n))"
    using ne by (simp add: parse_u64_def)
  also have "\<dots> = Some n"
    unfolding pad_zero_def parse_digits_zeros using n by (rule parse_digits_dec)
  finally show ?thesis .
qed

lemma pad_dec_no_sep:
  "CHR ''/'' \<notin> set (pad_zero w (dec n))" "CHR ''.'' \<notin> set (pad_zero w (dec n))"
  using dec_digits [of "CHR ''/''" n] dec_digits [of "CHR ''.''" n] digit_not_sep(1,3)
  by (auto simp: pad_zero_def) (metis digit_not_sep(1,3))+

subsection \<open>Zero-padded numbers compare as numbers\<close>

fun fixed_dec :: "nat \<Rightarrow> nat \<Rightarrow> string" where
  "fixed_dec 0 n = []"
| "fixed_dec (Suc w) n = fixed_dec w (n div 10) @ [digit (n mod 10)]"

lemma length_fixed_dec [simp]: "length (fixed_dec w n) = w"
  by (induction w arbitrary: n) auto

lemma fixed_dec_zero: "fixed_dec w 0 = replicate w (CHR ''0'')"
proof (induction w)
  case (Suc w)
  have "digit 0 = CHR ''0''" by (simp add: digit_def)
  with Suc show ?case by (simp add: replicate_append_same)
qed simp

lemma pad_dec_fixed: "n < 10 ^ Suc w \<Longrightarrow> pad_zero (Suc w) (dec n) = fixed_dec (Suc w) n"
proof (induction w arbitrary: n)
  case 0
  then show ?case by (subst dec.simps) (simp add: pad_zero_def)
next
  case (Suc w)
  show ?case
  proof (cases "n < 10")
    case True
    then have "n div 10 = 0" "n mod 10 = n" by simp_all
    with True show ?thesis
      by (subst dec.simps) (simp add: pad_zero_def fixed_dec_zero replicate_append_same)
  next
    case False
    have "n div 10 < 10 ^ Suc w" using Suc.prems by (simp add: less_mult_imp_div_less mult.commute)
    then have "pad_zero (Suc w) (dec (n div 10)) = fixed_dec (Suc w) (n div 10)" by (rule Suc.IH)
    moreover have "pad_zero (Suc (Suc w)) (dec n) =
        pad_zero (Suc w) (dec (n div 10)) @ [digit (n mod 10)]"
      using False by (subst dec.simps) (simp add: pad_zero_def)
    ultimately show ?thesis by simp
  qed
qed

lemma list_less_snoc:
  fixes xs ys :: "'a::linorder list"
  assumes "length xs = length ys"
  shows "xs @ [x] < ys @ [y] \<longleftrightarrow> xs < ys \<or> xs = ys \<and> x < y"
  using assms by (induction xs ys rule: list_induct2) auto

lemma fixed_dec_less: "a < b \<Longrightarrow> b < 10 ^ w \<Longrightarrow> fixed_dec w a < fixed_dec w b"
proof (induction w arbitrary: a b)
  case (Suc w)
  have b: "b div 10 < 10 ^ w" using Suc.prems by (simp add: less_mult_imp_div_less mult.commute)
  show ?case
  proof (cases "a div 10 < b div 10")
    case True
    with Suc.IH b show ?thesis by (simp add: list_less_snoc)
  next
    case False
    with Suc.prems have eq: "a div 10 = b div 10" using div_le_mono [of a b 10] by linarith
    have "a mod 10 < b mod 10"
      using Suc.prems(1) eq by (metis mult_div_mod_eq nat_add_left_cancel_less)
    then have "digit (a mod 10) < digit (b mod 10)" by (simp add: digit_less)
    with eq show ?thesis by (simp add: list_less_snoc)
  qed
qed simp

lemma pad_dec_less:
  "a < b \<Longrightarrow> b < 10 ^ Suc w \<Longrightarrow> pad_zero (Suc w) (dec a) < pad_zero (Suc w) (dec b)"
  by (simp add: pad_dec_fixed fixed_dec_less del: fixed_dec.simps)

subsection \<open>UTF-8\<close>

abbreviation byte_val :: "char \<Rightarrow> nat" where "byte_val c \<equiv> of_char c"

definition is_cont :: "char \<Rightarrow> bool" where
  "is_cont c \<longleftrightarrow> 128 \<le> byte_val c \<and> byte_val c < 192"

datatype utf8_step = Utf8_Char nat | Utf8_Bad nat | Utf8_Incomplete

definition second_ok :: "nat \<Rightarrow> nat \<Rightarrow> bool" where
  "second_ok x y \<longleftrightarrow>
     (if x = 224 then 160 \<le> y \<and> y \<le> 191
      else if x = 237 then 128 \<le> y \<and> y \<le> 159
      else if x = 240 then 144 \<le> y \<and> y \<le> 191
      else if x = 244 then 128 \<le> y \<and> y \<le> 143
      else 128 \<le> y \<and> y \<le> 191)"

text \<open>The step of \<open>core::str\<close>'s validator at the head of a string.\<close>

fun utf8_tail :: "nat \<Rightarrow> nat \<Rightarrow> string \<Rightarrow> utf8_step" where
  "utf8_tail seen 0 cs = Utf8_Char seen"
| "utf8_tail seen (Suc k) [] = Utf8_Incomplete"
| "utf8_tail seen (Suc k) (c # cs) =
     (if is_cont c then utf8_tail (Suc seen) k cs else Utf8_Bad seen)"

fun utf8_first :: "string \<Rightarrow> utf8_step" where
  "utf8_first [] = Utf8_Incomplete"
| "utf8_first (c # cs) =
     (let x = byte_val c in
      if x < 128 then Utf8_Char 1
      else if x < 194 \<or> 244 < x then Utf8_Bad 1
      else case cs of
          [] \<Rightarrow> Utf8_Incomplete
        | d # ds \<Rightarrow>
            if \<not> second_ok x (byte_val d) then Utf8_Bad 1
            else utf8_tail 2 (if x < 224 then 0 else if x < 240 then 1 else 2) ds)"

lemma utf8_tail_pos: "utf8_tail s k cs = Utf8_Char n \<Longrightarrow> s \<le> n"
  "utf8_tail s k cs = Utf8_Bad n \<Longrightarrow> s \<le> n"
  by (induction s k cs rule: utf8_tail.induct) (auto split: if_splits)

lemma utf8_first_pos:
  "utf8_first s = Utf8_Char n \<Longrightarrow> 0 < n" "utf8_first s = Utf8_Bad n \<Longrightarrow> 0 < n"
  by (cases s; fastforce simp: Let_def dest: utf8_tail_pos split: if_splits list.splits)+

text \<open>Where validation fails: the valid prefix length and the error length.\<close>

function utf8_error :: "nat \<Rightarrow> string \<Rightarrow> (nat \<times> nat option) option" where
  "utf8_error i s =
     (if s = [] then None
      else case utf8_first s of
          Utf8_Char n \<Rightarrow> utf8_error (i + n) (drop n s)
        | Utf8_Bad n \<Rightarrow> Some (i, Some n)
        | Utf8_Incomplete \<Rightarrow> Some (i, None))"
  by pat_completeness auto
termination
  by (relation "measure (\<lambda>(i, s). length s)") (auto dest: utf8_first_pos)

declare utf8_error.simps [simp del]

definition utf8_error_message :: "nat \<times> nat option \<Rightarrow> string" where
  "utf8_error_message e =
     (case snd e of
        Some n \<Rightarrow> ''invalid utf-8 sequence of '' @ dec n @ '' bytes from index '' @ dec (fst e)
      | None \<Rightarrow> ''incomplete utf-8 byte sequence from index '' @ dec (fst e))"

definition utf8_valid :: "string \<Rightarrow> bool" where
  "utf8_valid s \<longleftrightarrow> utf8_error 0 s = None"

function from_utf8_lossy :: "string \<Rightarrow> string" where
  "from_utf8_lossy s =
     (if s = [] then []
      else case utf8_first s of
          Utf8_Char n \<Rightarrow> take n s @ from_utf8_lossy (drop n s)
        | Utf8_Bad n \<Rightarrow> [CHR 0xEF, CHR 0xBF, CHR 0xBD] @ from_utf8_lossy (drop n s)
        | Utf8_Incomplete \<Rightarrow> [CHR 0xEF, CHR 0xBF, CHR 0xBD])"
  by pat_completeness auto
termination
  by (relation "measure length") (auto dest: utf8_first_pos)

declare from_utf8_lossy.simps [simp del]

lemma from_utf8_lossy_valid: "utf8_error i s = None \<Longrightarrow> from_utf8_lossy s = s"
proof (induction i s rule: utf8_error.induct)
  case (1 i s)
  show ?case
  proof (cases "s = []")
    case True
    then show ?thesis by (simp add: from_utf8_lossy.simps)
  next
    case False
    with "1.prems" obtain n where n: "utf8_first s = Utf8_Char n"
      "utf8_error (i + n) (drop n s) = None"
      by (subst (asm) utf8_error.simps) (auto split: utf8_step.splits)
    with False "1.IH" have "from_utf8_lossy (drop n s) = drop n s" by blast
    with False n show ?thesis by (subst from_utf8_lossy.simps) simp
  qed
qed

subsection \<open>White space\<close>

text \<open>The UTF-8 encodings of the characters with the Unicode property \<open>White_Space\<close>.\<close>

definition ws_seqs :: "string list" where
  "ws_seqs =
     [[CHR 0x09], [CHR 0x0A], [CHR 0x0B], [CHR 0x0C], [CHR 0x0D], [CHR 0x20],
      [CHR 0xC2, CHR 0x85], [CHR 0xC2, CHR 0xA0], [CHR 0xE1, CHR 0x9A, CHR 0x80],
      [CHR 0xE2, CHR 0x80, CHR 0x80], [CHR 0xE2, CHR 0x80, CHR 0x81],
      [CHR 0xE2, CHR 0x80, CHR 0x82], [CHR 0xE2, CHR 0x80, CHR 0x83],
      [CHR 0xE2, CHR 0x80, CHR 0x84], [CHR 0xE2, CHR 0x80, CHR 0x85],
      [CHR 0xE2, CHR 0x80, CHR 0x86], [CHR 0xE2, CHR 0x80, CHR 0x87],
      [CHR 0xE2, CHR 0x80, CHR 0x88], [CHR 0xE2, CHR 0x80, CHR 0x89],
      [CHR 0xE2, CHR 0x80, CHR 0x8A], [CHR 0xE2, CHR 0x80, CHR 0xA8],
      [CHR 0xE2, CHR 0x80, CHR 0xA9], [CHR 0xE2, CHR 0x80, CHR 0xAF],
      [CHR 0xE2, CHR 0x81, CHR 0x9F], [CHR 0xE3, CHR 0x80, CHR 0x80]]"

function strip_seqs :: "string list \<Rightarrow> string \<Rightarrow> string" where
  "strip_seqs ws s =
     (case List.find (\<lambda>w. w \<noteq> [] \<and> starts_with s w) ws of
        None \<Rightarrow> s
      | Some w \<Rightarrow> strip_seqs ws (drop (length w) s))"
  by pat_completeness auto
termination
proof (relation "measure (\<lambda>(ws, s). length s)", simp)
  fix ws :: "string list" and s w :: string
  assume "List.find (\<lambda>w. w \<noteq> [] \<and> starts_with s w) ws = Some w"
  then have "w \<noteq> []" "starts_with s w" by (auto simp: find_Some_iff)
  then have "0 < length w" "length w \<le> length s" by (auto simp: starts_with_iff)
  then have "length s - length w < length s" by linarith
  then show "((ws, drop (length w) s), (ws, s)) \<in> measure (\<lambda>(ws, s). length s)" by simp
qed

declare strip_seqs.simps [simp del]

definition trim :: "string \<Rightarrow> string" where
  "trim s = rev (strip_seqs (map rev ws_seqs) (rev (strip_seqs ws_seqs s)))"

text \<open>
  \<open>split_whitespace\<close>, scanning from the left: the encoding of a character with white space property can only start where a
  character starts.
\<close>

function split_words :: "string \<Rightarrow> string \<Rightarrow> string list" where
  "split_words cur [] = (if cur = [] then [] else [cur])"
| "split_words cur (c # cs) =
     (case List.find (\<lambda>w. starts_with (c # cs) w) ws_seqs of
        None \<Rightarrow> split_words (cur @ [c]) cs
      | Some w \<Rightarrow> (if cur = [] then [] else [cur]) @ split_words [] (drop (length w - 1) cs))"
  by pat_completeness auto
termination
  by (relation "measure (\<lambda>(cur, s). length s)") auto

definition split_whitespace :: "string \<Rightarrow> string list" where
  "split_whitespace s = split_words [] s"

text \<open>\<open>lines\<close>: the pieces between line feeds, without a final carriage return, and no last empty piece.\<close>

definition strip_cr :: "string \<Rightarrow> string" where
  "strip_cr s = (if s \<noteq> [] \<and> last s = CHR 0x0D then butlast s else s)"

definition str_lines :: "string \<Rightarrow> string list" where
  "str_lines s =
     (let ls = split_on (CHR 0x0A) s
      in map strip_cr (butlast ls) @ (if last ls = [] then [] else [last ls]))"

text \<open>\<open>parse\<close> for an unsigned type with this maximum.\<close>

definition parse_uint :: "nat \<Rightarrow> string \<Rightarrow> nat option" where
  "parse_uint limit s =
     (let ds = (case s of c # t \<Rightarrow> if c = CHR ''+'' then t else s | [] \<Rightarrow> [])
      in if ds = [] then None else parse_digits limit 0 ds)"

text \<open>
  \<open>str::to_uppercase\<close> as far as a comparison with an ASCII text sees it: the ASCII letters, and the other characters whose
  upper case is ASCII (the long and the sharp s, the dotless i and the ligatures of f and s).
\<close>

definition upper_seqs :: "(string \<times> string) list" where
  "upper_seqs =
     [([CHR 0xC5, CHR 0xBF], ''S''), ([CHR 0xC3, CHR 0x9F], ''SS''), ([CHR 0xC4, CHR 0xB1], ''I''),
      ([CHR 0xEF, CHR 0xAC, CHR 0x80], ''FF''), ([CHR 0xEF, CHR 0xAC, CHR 0x81], ''FI''),
      ([CHR 0xEF, CHR 0xAC, CHR 0x82], ''FL''), ([CHR 0xEF, CHR 0xAC, CHR 0x83], ''FFI''),
      ([CHR 0xEF, CHR 0xAC, CHR 0x84], ''FFL''), ([CHR 0xEF, CHR 0xAC, CHR 0x85], ''ST''),
      ([CHR 0xEF, CHR 0xAC, CHR 0x86], ''ST'')]"

definition ascii_upper :: "char \<Rightarrow> char" where
  "ascii_upper c = (if 97 \<le> byte_val c \<and> byte_val c \<le> 122 then char_of (byte_val c - 32) else c)"

function to_uppercase :: "string \<Rightarrow> string" where
  "to_uppercase [] = []"
| "to_uppercase (c # s) =
     (case List.find (\<lambda>(w, _). starts_with (c # s) w) upper_seqs of
        Some (w, u) \<Rightarrow> u @ to_uppercase (drop (length w - 1) s)
      | None \<Rightarrow> ascii_upper c # to_uppercase s)"
  by pat_completeness auto
termination
  by (relation "measure length") auto

definition eq_ignore_ascii_case :: "string \<Rightarrow> string \<Rightarrow> bool" where
  "eq_ignore_ascii_case s t \<longleftrightarrow> map ascii_upper s = map ascii_upper t"

text \<open>\<open>trim_matches\<close> for one character.\<close>

definition trim_char :: "char \<Rightarrow> string \<Rightarrow> string" where
  "trim_char c s = trim_end_char c (trim_start_char c s)"

subsection \<open>Numbers in texts\<close>

lemma parse_uint_dec: "n \<le> l \<Longrightarrow> parse_uint l (dec n) = Some n"
  using dec_no_plus [of n] parse_digits_dec [of n l] dec_not_Nil [of n] unfolding parse_uint_def
  by (cases "dec n") auto

lemma parse_u64_dec: "n \<le> u64_max \<Longrightarrow> parse_u64 (dec n) = Some n"
  using parse_u64_pad_dec [of n 0] by (simp add: pad_zero_def)

lemma trim_id:
  assumes "s \<noteq> []" "\<And>w. w \<in> set ws_seqs \<Longrightarrow> hd s \<noteq> hd w \<and> last s \<noteq> last w"
  shows "trim s = s"
proof -
  have w: "\<forall>w \<in> set ws_seqs. w \<noteq> []" by (simp add: ws_seqs_def)
  have "strip_seqs ws t = t" if "t \<noteq> []" "\<forall>w \<in> set ws. w \<noteq> [] \<longrightarrow> hd t \<noteq> hd w" for ws t
  proof -
    have "\<not> (w \<noteq> [] \<and> starts_with t w)" if "w \<in> set ws" for w
      using \<open>t \<noteq> []\<close> \<open>\<forall>w \<in> set ws. _\<close> that by (auto simp: starts_with_iff hd_append)
    then have "List.find (\<lambda>w. w \<noteq> [] \<and> starts_with t w) ws = None" by (auto simp: find_None_iff)
    then show ?thesis by (subst strip_seqs.simps) (simp del: find_None_iff)
  qed
  then have "strip_seqs ws_seqs s = s" "strip_seqs (map rev ws_seqs) (rev s) = rev s"
    using assms w by (auto simp: hd_rev)
  then show ?thesis by (simp add: trim_def)
qed

lemma byte_digit: "d < 10 \<Longrightarrow> byte_val (digit d) = 48 + d"
  by (auto simp: digit_def less_Suc_eq numeral_eq_Suc)

lemma ws_not_digit:
  "w \<in> set ws_seqs \<Longrightarrow> byte_val (hd w) \<notin> {48..57} \<and> byte_val (last w) \<notin> {48..57}"
proof -
  have "\<forall>w \<in> set ws_seqs. byte_val (hd w) \<notin> {48..57} \<and> byte_val (last w) \<notin> {48..57}" by code_simp
  then show "w \<in> set ws_seqs \<Longrightarrow> ?thesis" by blast
qed

lemma dec_byte: "c \<in> set (dec n) \<Longrightarrow> byte_val c \<in> {48..57}"
  using dec_digits [of c n] by (auto simp: byte_digit)

lemma trim_dec: "trim (dec n) = dec n"
proof (rule trim_id)
  fix w assume "w \<in> set ws_seqs"
  with ws_not_digit [of w] dec_byte [of "hd (dec n)" n] dec_byte [of "last (dec n)" n]
  show "hd (dec n) \<noteq> hd w \<and> last (dec n) \<noteq> last w" by (metis dec_not_Nil hd_in_set last_in_set)
qed simp

lemma utf8_error_ascii: "(\<And>c. c \<in> set s \<Longrightarrow> byte_val c < 128) \<Longrightarrow> utf8_error i s = None"
proof (induction s arbitrary: i)
  case Nil then show ?case by (simp add: utf8_error.simps)
next
  case (Cons c s)
  then have "utf8_first (c # s) = Utf8_Char 1" by simp
  with Cons show ?case by (subst utf8_error.simps) simp
qed

lemma utf8_dec: "utf8_error i (dec n) = None"
  by (rule utf8_error_ascii) (use dec_byte in force)

end
