(* ===== verification/Rust_Paths.thy ===== *)
theory Rust_Paths
  imports Rust_Strings
begin

text \<open>
  \<open>std::path\<close> on Unix: a path is its bytes; its components drop repeated separators and
  interior \<open>.\<close> segments; two paths are equal when their components are. \<open>parent\<close>,
  \<open>strip_prefix\<close>, \<open>push\<close> and \<open>pop\<close> return or edit the bytes, so they keep interior
  \<open>//\<close> and \<open>/./\<close> as the library does. Paths are taken to be valid UTF-8, for which
  \<open>to_string_lossy\<close> and \<open>to_str\<close> return the bytes unchanged.

  \<open>render\<close> builds the paths in normal form (optional root, then proper names); the
  lemmas about it carry the proofs on normalisation and on mounts.
\<close>

named_theorems path_simps \<open>operations on rendered paths\<close>

type_synonym path = string

abbreviation slash :: char where "slash \<equiv> CHR ''/''"

datatype component = RootDir | CurDir | ParentDir | Normal string

text \<open>The derived order of \<open>Component\<close>: the order of the variants, then of the names.\<close>

fun component_rank :: "component \<Rightarrow> nat \<times> string" where
  "component_rank RootDir = (0, [])"
| "component_rank CurDir = (1, [])"
| "component_rank ParentDir = (2, [])"
| "component_rank (Normal n) = (3, n)"

lemma component_rank_inj: "component_rank a = component_rank b \<Longrightarrow> a = b"
  by (cases a; cases b) auto

instantiation component :: linorder
begin

definition less_eq_component :: "component \<Rightarrow> component \<Rightarrow> bool" where
  "a \<le> b \<longleftrightarrow> fst (component_rank a) < fst (component_rank b) \<or>
     fst (component_rank a) = fst (component_rank b) \<and> snd (component_rank a) \<le> snd (component_rank b)"

definition less_component :: "component \<Rightarrow> component \<Rightarrow> bool" where
  "a < b \<longleftrightarrow> a \<le> b \<and> \<not> b \<le> (a :: component)"

instance
proof
  fix a b c :: component
  show "a < b \<longleftrightarrow> a \<le> b \<and> \<not> b \<le> a" by (simp add: less_component_def)
  show "a \<le> a" by (simp add: less_eq_component_def)
  show "a \<le> b \<Longrightarrow> b \<le> c \<Longrightarrow> a \<le> c" by (auto simp: less_eq_component_def)
  show "a \<le> b \<Longrightarrow> b \<le> a \<Longrightarrow> a = b"
    by (rule component_rank_inj) (auto simp: less_eq_component_def prod_eq_iff)
  show "a \<le> b \<or> b \<le> a" by (auto simp: less_eq_component_def)
qed

end

subsection \<open>Components\<close>

definition has_root :: "path \<Rightarrow> bool" where
  "has_root p = (case p of c # _ \<Rightarrow> c = slash | [] \<Rightarrow> False)"

fun include_cur_dir :: "path \<Rightarrow> bool" where
  "include_cur_dir [] = False"
| "include_cur_dir [c] = (c = CHR ''.'')"
| "include_cur_dir (c # d # _) = (c = CHR ''.'' \<and> d = slash)"

definition len_before_body :: "path \<Rightarrow> nat" where
  "len_before_body p = (if has_root p \<or> include_cur_dir p then 1 else 0)"

definition body_segs :: "path \<Rightarrow> string list" where
  "body_segs p = split_on slash (drop (len_before_body p) p)"

definition trivial_seg :: "string \<Rightarrow> bool" where
  "trivial_seg s \<longleftrightarrow> s = [] \<or> s = ''.''"

definition seg_component :: "string \<Rightarrow> component" where
  "seg_component s = (if s = ''..'' then ParentDir else Normal s)"

definition components :: "path \<Rightarrow> component list" where
  "components p =
     (if has_root p then [RootDir] else if include_cur_dir p then [CurDir] else []) @
     map seg_component (filter (\<lambda>s. \<not> trivial_seg s) (body_segs p))"

definition path_eq :: "path \<Rightarrow> path \<Rightarrow> bool" where
  "path_eq p q \<longleftrightarrow> components p = components q"

text \<open>\<open>Path::starts_with\<close>: whole components, not bytes.\<close>

definition path_starts_with :: "path \<Rightarrow> path \<Rightarrow> bool" where
  "path_starts_with p base \<longleftrightarrow> take (length (components base)) (components p) = components base"

text \<open>\<open>Path::ends_with\<close>.\<close>

definition path_ends_with :: "path \<Rightarrow> path \<Rightarrow> bool" where
  "path_ends_with p child \<longleftrightarrow>
     length (components child) \<le> length (components p) \<and>
     drop (length (components p) - length (components child)) (components p) = components child"

fun component_str :: "component \<Rightarrow> string" where
  "component_str RootDir = ''/''"
| "component_str CurDir = ''.''"
| "component_str ParentDir = ''..''"
| "component_str (Normal n) = n"

text \<open>\<open>Path::iter\<close>.\<close>

definition path_iter :: "path \<Rightarrow> string list" where
  "path_iter p = map component_str (components p)"

definition trim_right_segs :: "string list \<Rightarrow> string list" where
  "trim_right_segs ss = rev (dropWhile trivial_seg (rev ss))"

definition parent :: "path \<Rightarrow> path option" where
  "parent p =
     (let segs = trim_right_segs (body_segs p)
      in if segs = [] then (if include_cur_dir p then Some [] else None)
         else Some (take (len_before_body p) p @ join [slash] (trim_right_segs (butlast segs))))"

definition file_name :: "path \<Rightarrow> string option" where
  "file_name p = (case rev (components p) of Normal n # _ \<Rightarrow> Some n | _ \<Rightarrow> None)"

text \<open>\<open>PathBuf::push\<close> and \<open>Path::join\<close>: an absolute argument replaces the path.\<close>

definition push :: "path \<Rightarrow> path \<Rightarrow> path" where
  "push p q =
     (if has_root q then q
      else if p \<noteq> [] \<and> last p \<noteq> slash then p @ [slash] @ q
      else p @ q)"

text \<open>\<open>PathBuf::pop\<close>: truncates to the parent, which is a leading slice of the bytes.\<close>

definition pop :: "path \<Rightarrow> path" where
  "pop p = (case parent p of Some q \<Rightarrow> q | None \<Rightarrow> p)"

fun consume_segs :: "nat \<Rightarrow> string list \<Rightarrow> string list" where
  "consume_segs 0 ss = ss"
| "consume_segs (Suc n) ss =
     (case dropWhile trivial_seg ss of [] \<Rightarrow> [] | _ # t \<Rightarrow> consume_segs n t)"

definition path_strip_prefix :: "path \<Rightarrow> path \<Rightarrow> path option" where
  "path_strip_prefix p base =
     (let cb = components base
      in if \<not> path_starts_with p base then None
         else if cb = [] then
           Some (take (len_before_body p) p @ join [slash] (trim_right_segs (body_segs p)))
         else Some (join [slash] (trim_right_segs (dropWhile trivial_seg
           (consume_segs (length cb - len_before_body p) (body_segs p))))))"

definition path_le :: "path \<Rightarrow> path \<Rightarrow> bool" where
  "path_le p q \<longleftrightarrow> components p \<le> components q"

interpretation path_map: key_equivalence path_eq
  by unfold_locales (auto simp: path_eq_def)

abbreviation pm_get :: "(path \<times> 'v) list \<Rightarrow> path \<Rightarrow> 'v option" where
  "pm_get \<equiv> hm_get path_eq"
abbreviation pm_insert :: "(path \<times> 'v) list \<Rightarrow> path \<Rightarrow> 'v \<Rightarrow> (path \<times> 'v) list" where
  "pm_insert \<equiv> hm_insert path_eq"
abbreviation pm_remove :: "(path \<times> 'v) list \<Rightarrow> path \<Rightarrow> (path \<times> 'v) list" where
  "pm_remove \<equiv> hm_remove path_eq"
abbreviation pm_contains :: "(path \<times> 'v) list \<Rightarrow> path \<Rightarrow> bool" where
  "pm_contains \<equiv> hm_contains path_eq"
abbreviation pm_inv :: "(path \<times> 'v) list \<Rightarrow> bool" where
  "pm_inv \<equiv> hm_inv path_eq"

lemma path_eq_refl [simp]: "path_eq p p"
  by (simp add: path_eq_def)

lemma path_starts_with_refl [simp]: "path_starts_with p p"
  by (simp add: path_starts_with_def)

lemma path_starts_with_cong:
  "path_eq p p' \<Longrightarrow> path_starts_with p b = path_starts_with p' b"
  by (simp add: path_eq_def path_starts_with_def)

lemma path_eq_starts_with: "path_eq p q \<Longrightarrow> path_starts_with p q"
  by (simp add: path_eq_def path_starts_with_def)

subsection \<open>Paths in normal form\<close>

definition valid_name :: "string \<Rightarrow> bool" where
  "valid_name n \<longleftrightarrow> n \<noteq> [] \<and> slash \<notin> set n \<and> n \<noteq> ''.'' \<and> n \<noteq> ''..''"

definition render :: "bool \<Rightarrow> string list \<Rightarrow> path" where
  "render absolute ns = (if absolute then [slash] else []) @ join [slash] ns"

definition lead :: "bool \<Rightarrow> component list" where
  "lead absolute = (if absolute then [RootDir] else [])"

abbreviation valid_names :: "string list \<Rightarrow> bool" where
  "valid_names ns \<equiv> \<forall>n \<in> set ns. valid_name n"

lemma valid_nameD:
  "valid_name n \<Longrightarrow> \<not> trivial_seg n" "valid_name n \<Longrightarrow> seg_component n = Normal n"
  "valid_name n \<Longrightarrow> slash \<notin> set n" "valid_name n \<Longrightarrow> n \<noteq> []"
  by (auto simp: valid_name_def trivial_seg_def seg_component_def)

lemma filter_valid_names: "valid_names ns \<Longrightarrow> filter (\<lambda>s. \<not> trivial_seg s) ns = ns"
  by (simp add: filter_id_conv valid_nameD)

lemma map_valid_names: "valid_names ns \<Longrightarrow> map seg_component ns = map Normal ns"
  by (simp add: valid_nameD)

lemma join_Cons: "join [slash] (n # ns) = n @ (if ns = [] then [] else slash # join [slash] ns)"
  by (cases ns) simp_all

lemma join_not_Nil: "valid_names (n # ns) \<Longrightarrow> join [slash] (n # ns) \<noteq> []"
  by (simp add: join_Cons valid_nameD)

lemma valid_name_hd: "valid_name n \<Longrightarrow> hd n \<noteq> slash"
  by (metis list.set_sel(1) valid_nameD(3,4))

lemma has_root_iff: "has_root p \<longleftrightarrow> p \<noteq> [] \<and> hd p = slash"
  by (cases p) (simp_all add: has_root_def)

lemma has_root_render [path_simps]:
  "valid_names ns \<Longrightarrow> has_root (render a ns) = a"
  by (cases ns) (simp_all add: has_root_iff render_def join_Cons valid_nameD valid_name_hd)

text \<open>A path starts with a current-directory component iff its first segment is a dot.\<close>

lemma include_cur_dir_split: "include_cur_dir s \<longleftrightarrow> hd (split_on slash s) = ''.''"
proof (cases s rule: include_cur_dir.cases)
  case (3 c d t)
  obtain u us where u: "split_on slash (d # t) = u # us"
    by (metis split_on_not_Nil list.exhaust)
  have "u = [] \<longleftrightarrow> d = slash" using u by (auto split: if_splits list.splits)
  with 3 u show ?thesis by simp
qed simp_all

lemma include_cur_dir_render [path_simps]:
  assumes v: "valid_names ns"
  shows "\<not> include_cur_dir (render a ns)"
proof -
  have "\<not> include_cur_dir (slash # s)" for s by (cases s) auto
  moreover have "\<not> include_cur_dir (join [slash] ns)"
  proof (cases "ns = []")
    case False
    with v have "split_on slash (join [slash] ns) = ns" "valid_name (hd ns)"
      by (auto intro!: split_on_join simp: valid_nameD)
    then show ?thesis by (auto simp: include_cur_dir_split valid_name_def)
  qed simp
  ultimately show ?thesis by (simp add: render_def)
qed

lemma len_before_body_render [path_simps]:
  "valid_names ns \<Longrightarrow> len_before_body (render a ns) = (if a then 1 else 0)"
  by (simp add: len_before_body_def path_simps)

lemma body_segs_render [path_simps]:
  "valid_names ns \<Longrightarrow> body_segs (render a ns) = (if ns = [] then [[]] else ns)"
  by (simp add: body_segs_def path_simps)
    (auto simp: render_def split_on_join valid_nameD)

lemma components_render [path_simps]:
  "valid_names ns \<Longrightarrow> components (render a ns) = lead a @ map Normal ns"
  by (simp add: components_def path_simps lead_def filter_valid_names map_valid_names)
    (auto simp: trivial_seg_def)

lemma take_lead_render:
  "valid_names ns \<Longrightarrow> take (len_before_body (render a ns)) (render a ns) = (if a then [slash] else [])"
  by (simp add: path_simps) (simp add: render_def)

lemma trim_right_valid: "valid_names ns \<Longrightarrow> trim_right_segs ns = ns"
  by (cases ns rule: rev_cases) (auto simp: trim_right_segs_def valid_nameD)

lemma trim_left_valid: "valid_names ns \<Longrightarrow> dropWhile trivial_seg ns = ns"
  by (cases ns) (auto simp: valid_nameD)

lemma parent_render [path_simps]:
  "valid_names ns \<Longrightarrow>
     parent (render a ns) = (if ns = [] then None else Some (render a (butlast ns)))"
proof -
  assume v: "valid_names ns"
  then have v': "valid_names (butlast ns)" by (auto dest: in_set_butlastD)
  have "trim_right_segs [[]] = []" by (simp add: trim_right_segs_def trivial_seg_def)
  with v v' show ?thesis
    by (simp add: parent_def Let_def body_segs_render include_cur_dir_render
        take_lead_render trim_right_valid) (simp add: render_def)
qed

lemma pop_render [path_simps]: "valid_names ns \<Longrightarrow> pop (render a ns) = render a (butlast ns)"
  by (simp add: pop_def parent_render)

lemma last_join: "valid_names (ns @ [n]) \<Longrightarrow> last (join [slash] (ns @ [n])) = last n"
proof (cases "ns = []")
  case False
  assume "valid_names (ns @ [n])"
  with False show ?thesis by (simp add: join_snoc valid_nameD)
qed simp

lemma push_render [path_simps]:
  "valid_names ns \<Longrightarrow> valid_name n \<Longrightarrow> push (render a ns) n = render a (ns @ [n])"
proof (cases ns rule: rev_cases)
  case Nil
  assume "valid_name n"
  then have "\<not> has_root n" by (cases n) (auto simp: has_root_def valid_name_def)
  with Nil show ?thesis by (auto simp: push_def render_def)
next
  case (snoc ms m)
  assume v: "valid_names ns" and n: "valid_name n"
  from n have nr: "\<not> has_root n" by (cases n) (auto simp: has_root_def valid_name_def)
  from v snoc have m: "valid_name m" by simp
  have ne: "join [slash] ns \<noteq> []"
    using v snoc join_not_Nil [of "hd ns" "tl ns"] by (simp add: hd_Cons_tl)
  have "last (render a ns) = last m"
    using v snoc ne last_join [of ms m] by (simp add: render_def)
  moreover have "last m \<noteq> slash" using m by (metis last_in_set valid_nameD(3,4))
  moreover have "render a ns \<noteq> []" using ne by (simp add: render_def)
  moreover have "ns \<noteq> []" using snoc by simp
  ultimately show ?thesis using nr by (simp add: push_def render_def join_snoc)
qed

text \<open>Names in a path's components are proper.\<close>

lemma components_Normal_valid: "Normal n \<in> set (components p) \<Longrightarrow> valid_name n"
proof -
  assume "Normal n \<in> set (components p)"
  then have "Normal n \<in> seg_component ` {s \<in> set (body_segs p). \<not> trivial_seg s}"
    unfolding components_def by (auto split: if_splits)
  then obtain s where s: "s \<in> set (body_segs p)" "\<not> trivial_seg s" "seg_component s = Normal n"
    by auto
  then have "s = n" "s \<noteq> ''..''" by (auto simp: seg_component_def split: if_splits)
  moreover have "slash \<notin> set s" using s(1) split_on_no_sep unfolding body_segs_def by blast
  ultimately show "valid_name n" using s(2) by (simp add: valid_name_def trivial_seg_def)
qed

lemma components_body_no_root: "RootDir \<notin> set (map seg_component ss)"
  by (auto simp: seg_component_def)

lemma map_Normal_eq [simp]:
  "map Normal ns = map Normal ms \<longleftrightarrow> ns = ms"
  "RootDir # cs \<noteq> map Normal ns" "map Normal ns \<noteq> RootDir # cs"
  by (auto simp: inj_map_eq_map inj_def)

lemma component_path_eq_render:
  "valid_names ns \<Longrightarrow> valid_names ms \<Longrightarrow> path_eq (render a ns) (render b ms) \<longleftrightarrow> a = b \<and> ns = ms"
  by (cases a; cases b)
    (auto simp: path_eq_def components_render lead_def map_Normal_eq)

lemma consume_valid:
  "valid_names ns \<Longrightarrow> k \<le> length ns \<Longrightarrow> consume_segs k ns = drop k ns"
proof (induction k arbitrary: ns)
  case (Suc k)
  then show ?case by (cases ns) (auto simp: valid_nameD)
qed simp

lemma path_starts_with_render [path_simps]:
  assumes "valid_names ns" "components b = lead True @ map Normal ms"
  shows "path_starts_with (render True ns) b \<longleftrightarrow> take (length ms) ns = ms"
  using assms
  by (simp add: path_starts_with_def components_render lead_def take_map map_Normal_eq)

lemma path_strip_prefix_render [path_simps]:
  assumes v: "valid_names (ms @ ns)" and b: "components b = lead True @ map Normal ms"
  shows "path_strip_prefix (render True (ms @ ns)) b = Some (join [slash] ns)"
proof -
  have vn: "valid_names ns" "valid_names ms" using v by auto
  have sw: "path_starts_with (render True (ms @ ns)) b"
    using path_starts_with_render [OF v b] by simp
  show ?thesis
  proof (cases "ms @ ns = []")
    case True
    have "trim_right_segs [] = []" by (simp add: trim_right_segs_def)
    with True sw b show ?thesis
      by (simp add: path_strip_prefix_def Let_def body_segs_render len_before_body_render
          lead_def trivial_seg_def)
  next
    case False
    have "consume_segs (length ms) (ms @ ns) = ns" using consume_valid [OF v] by simp
    moreover have "body_segs (render True (ms @ ns)) = ms @ ns"
      using v False body_segs_render [OF v, of True] by presburger
    ultimately show ?thesis using sw b vn v
      by (simp add: path_strip_prefix_def Let_def len_before_body_render
          lead_def trim_left_valid trim_right_valid)
  qed
qed

text \<open>A trailing separator does not change the components.\<close>

lemma components_render_slash:
  assumes v: "valid_names ns" and ne: "ns \<noteq> []"
  shows "components (render True ns @ [slash]) = lead True @ map Normal ns"
proof -
  have eq: "render True ns @ [slash] = slash # join [slash] (ns @ [[]])"
    using ne by (simp add: render_def join_snoc)
  have segs: "split_on slash (join [slash] (ns @ [[]])) = ns @ [[]]"
    using v by (intro split_on_join) (auto simp: valid_nameD)
  have "has_root (slash # s)" for s by (simp add: has_root_def)
  moreover have "trivial_seg []" by (simp add: trivial_seg_def)
  ultimately show ?thesis using v segs
    by (simp add: eq components_def body_segs_def len_before_body_def lead_def
        filter_valid_names map_valid_names)
qed

end
