(* ===== verification/Core_Types.thy ===== *)
theory Core_Types
  imports Rust_Paths
begin

text \<open>
  The crate \<open>racfs-core\<close>: errors (\<open>error.rs\<close>), flags (\<open>flags.rs\<close>), metadata
  (\<open>metadata.rs\<close>), file handles (\<open>file_handle.rs\<close>) and, from \<open>filesystem.rs\<close>, the
  path utilities, the default methods of the trait \<open>FileSystem\<close> and the trait itself as
  a record of operations over a backend state.

  Time is an argument: an operation that calls \<open>Utc::now()\<close> or \<open>Instant::now()\<close> takes
  the reading as its parameter \<open>now\<close> (several readings within one call are identified).
\<close>

unbundle bit_operations_syntax

subsection \<open>Errors\<close>

datatype FSError =
    NotFound path
  | PermissionDenied path
  | AlreadyExists path
  | IsDirectory path
  | NotADirectory path
  | InvalidInput string
  | Io string
  | NotSupported string
  | AlreadyInUse string
  | InvalidHandle string
  | OutOfMemory
  | PathTooLong
  | FilenameTooLong
  | ReadOnly
  | StorageFull
  | TooManyOpenFiles
  | DirectoryNotEmpty
  | CrossDeviceLink
  | InvalidUtf8 string
  | Timeout

type_synonym 'a fs_result = "('a, FSError) outcome"

fun fs_error_display :: "FSError \<Rightarrow> string" where
  "fs_error_display (NotFound p) = ''path not found: '' @ p"
| "fs_error_display (PermissionDenied p) = ''permission denied: '' @ p"
| "fs_error_display (AlreadyExists p) = ''path already exists: '' @ p"
| "fs_error_display (IsDirectory p) = ''path is a directory: '' @ p"
| "fs_error_display (NotADirectory p) = ''path is not a directory: '' @ p"
| "fs_error_display (InvalidInput m) = ''invalid input: '' @ m"
| "fs_error_display (Io m) = ''I/O error: '' @ m"
| "fs_error_display (NotSupported m) = ''operation not supported: '' @ m"
| "fs_error_display (AlreadyInUse h) = ''handle already in use: '' @ h"
| "fs_error_display (InvalidHandle h) = ''invalid handle: '' @ h"
| "fs_error_display OutOfMemory = ''out of memory''"
| "fs_error_display PathTooLong = ''path too long''"
| "fs_error_display FilenameTooLong = ''filename too long''"
| "fs_error_display ReadOnly = ''read-only filesystem''"
| "fs_error_display StorageFull = ''storage full''"
| "fs_error_display TooManyOpenFiles = ''too many open files''"
| "fs_error_display DirectoryNotEmpty = ''directory not empty''"
| "fs_error_display CrossDeviceLink = ''cross-device link not allowed''"
| "fs_error_display (InvalidUtf8 m) = ''invalid UTF-8: '' @ m"
| "fs_error_display Timeout = ''timeout''"

text \<open>The kinds of \<open>std::io::Error\<close> that the conversion tells apart.\<close>

datatype io_error_kind =
    Kind_NotFound | Kind_PermissionDenied | Kind_AlreadyExists | Kind_IsADirectory
  | Kind_NotADirectory | Kind_InvalidInput | Kind_Unsupported | Kind_OutOfMemory
  | Kind_FileTooLarge | Kind_DirectoryNotEmpty | Kind_ReadOnlyFilesystem | Kind_StorageFull
  | Kind_Other

fun from_io_error :: "io_error_kind \<Rightarrow> string \<Rightarrow> FSError" where
  "from_io_error Kind_NotFound m = NotFound []"
| "from_io_error Kind_PermissionDenied m = PermissionDenied []"
| "from_io_error Kind_AlreadyExists m = AlreadyExists []"
| "from_io_error Kind_IsADirectory m = IsDirectory []"
| "from_io_error Kind_NotADirectory m = NotADirectory []"
| "from_io_error Kind_InvalidInput m = InvalidInput m"
| "from_io_error Kind_Unsupported m = NotSupported m"
| "from_io_error Kind_OutOfMemory m = OutOfMemory"
| "from_io_error Kind_FileTooLarge m = InvalidInput ''file too large''"
| "from_io_error Kind_DirectoryNotEmpty m = DirectoryNotEmpty"
| "from_io_error Kind_ReadOnlyFilesystem m = ReadOnly"
| "from_io_error Kind_StorageFull m = StorageFull"
| "from_io_error Kind_Other m = Io m"

definition from_utf8_error :: "string \<Rightarrow> FSError" where
  "from_utf8_error m = InvalidUtf8 m"

subsection \<open>Flags\<close>

type_synonym flags = "32 word"

definition flags_contains :: "flags \<Rightarrow> flags \<Rightarrow> bool" where
  "flags_contains f g \<longleftrightarrow> f AND g = g"

definition flags_is_empty :: "flags \<Rightarrow> bool" where
  "flags_is_empty f \<longleftrightarrow> f = 0"

definition OF_READ :: flags where "OF_READ = 0x0001"
definition OF_WRITE :: flags where "OF_WRITE = 0x0002"
definition OF_APPEND :: flags where "OF_APPEND = 0x0004"
definition OF_CREATE :: flags where "OF_CREATE = 0x0008"
definition OF_EXCLUSIVE :: flags where "OF_EXCLUSIVE = 0x0010"
definition OF_TRUNCATE :: flags where "OF_TRUNCATE = 0x0020"
definition OF_SYNC :: flags where "OF_SYNC = 0x0040"
definition OF_NO_ATIME :: flags where "OF_NO_ATIME = 0x0080"
definition OF_NON_BLOCK :: flags where "OF_NON_BLOCK = 0x0100"
definition OF_DIRECTORY :: flags where "OF_DIRECTORY = 0x0200"

lemmas open_flag_defs = OF_READ_def OF_WRITE_def OF_APPEND_def OF_CREATE_def OF_EXCLUSIVE_def
  OF_TRUNCATE_def OF_SYNC_def OF_NO_ATIME_def OF_NON_BLOCK_def OF_DIRECTORY_def

definition open_flags_read :: flags where "open_flags_read = OF_READ"
definition open_flags_write :: flags where "open_flags_write = OF_READ OR OF_WRITE"
definition open_flags_read_write :: flags where "open_flags_read_write = OF_READ OR OF_WRITE"
definition open_flags_create :: flags where
  "open_flags_create = OF_READ OR OF_WRITE OR OF_CREATE"
definition open_flags_create_truncate :: flags where
  "open_flags_create_truncate = OF_READ OR OF_WRITE OR OF_CREATE OR OF_TRUNCATE"

definition is_read_only :: "flags \<Rightarrow> bool" where
  "is_read_only f \<longleftrightarrow> f AND OF_WRITE = 0"

definition is_write_only :: "flags \<Rightarrow> bool" where
  "is_write_only f \<longleftrightarrow> f AND OF_READ = 0 \<and> f AND OF_WRITE \<noteq> 0"

definition is_read_write :: "flags \<Rightarrow> bool" where
  "is_read_write f \<longleftrightarrow> f AND OF_READ \<noteq> 0 \<and> f AND OF_WRITE \<noteq> 0"

definition open_flags_display :: "flags \<Rightarrow> string" where
  "open_flags_display f =
     join ''|''
      ((if flags_contains f OF_READ then [''READ''] else []) @
       (if flags_contains f OF_WRITE then [''WRITE''] else []) @
       (if flags_contains f OF_APPEND then [''APPEND''] else []) @
       (if flags_contains f OF_CREATE then [''CREATE''] else []) @
       (if flags_contains f OF_EXCLUSIVE then [''EXCLUSIVE''] else []) @
       (if flags_contains f OF_TRUNCATE then [''TRUNCATE''] else []) @
       (if flags_contains f OF_SYNC then [''SYNC''] else []) @
       (if flags_contains f OF_NO_ATIME then [''NO_ATIME''] else []) @
       (if flags_contains f OF_NON_BLOCK then [''NON_BLOCK''] else []) @
       (if flags_contains f OF_DIRECTORY then [''DIRECTORY''] else []))"

definition WF_NONE :: flags where "WF_NONE = 0x0000"
definition WF_SYNC :: flags where "WF_SYNC = 0x0001"
definition WF_APPEND :: flags where "WF_APPEND = 0x0002"

lemmas write_flag_defs = WF_NONE_def WF_SYNC_def WF_APPEND_def

definition contains_append :: "flags \<Rightarrow> bool" where
  "contains_append f \<longleftrightarrow> flags_contains f WF_APPEND"

definition contains_sync :: "flags \<Rightarrow> bool" where
  "contains_sync f \<longleftrightarrow> flags_contains f WF_SYNC"

definition write_flags_display :: "flags \<Rightarrow> string" where
  "write_flags_display f =
     (if flags_is_empty f then ''NONE''
      else join ''|''
       ((if flags_contains f WF_SYNC then [''SYNC''] else []) @
        (if flags_contains f WF_APPEND then [''APPEND''] else [])))"

lemma contains_append_simps [simp]: "contains_append WF_APPEND" "\<not> contains_append WF_NONE"
  by (simp_all add: contains_append_def flags_contains_def write_flag_defs)

subsection \<open>Metadata\<close>

type_synonym mode = "32 word"
type_synonym time = nat

definition S_IFMT :: mode where "S_IFMT = 0xF000"
definition S_IFIFO :: mode where "S_IFIFO = 0x1000"
definition S_IFCHR :: mode where "S_IFCHR = 0x2000"
definition S_IFDIR :: mode where "S_IFDIR = 0x4000"
definition S_IFBLK :: mode where "S_IFBLK = 0x6000"
definition S_IFREG :: mode where "S_IFREG = 0x8000"
definition S_IFLNK :: mode where "S_IFLNK = 0xA000"
definition S_IFSOCK :: mode where "S_IFSOCK = 0xC000"
definition S_IRWXU :: mode where "S_IRWXU = 448"
definition S_IRUSR :: mode where "S_IRUSR = 256"
definition S_IWUSR :: mode where "S_IWUSR = 128"
definition S_IRGRP :: mode where "S_IRGRP = 32"
definition S_IXGRP :: mode where "S_IXGRP = 8"
definition S_IROTH :: mode where "S_IROTH = 4"
definition S_IXOTH :: mode where "S_IXOTH = 1"

lemmas mode_defs = S_IFMT_def S_IFIFO_def S_IFCHR_def S_IFDIR_def S_IFBLK_def S_IFREG_def
  S_IFLNK_def S_IFSOCK_def S_IRWXU_def S_IRUSR_def S_IWUSR_def S_IRGRP_def S_IXGRP_def
  S_IROTH_def S_IXOTH_def

record FileMetadata =
  md_path :: path
  md_size :: nat
  md_mode :: mode
  md_created :: "time option"
  md_modified :: "time option"
  md_accessed :: "time option"
  md_is_symlink :: bool
  md_symlink_target :: "path option"

definition file_mode :: mode where
  "file_mode = S_IFREG OR S_IRUSR OR S_IWUSR OR S_IRGRP OR S_IROTH"

definition dir_mode :: mode where
  "dir_mode = S_IFDIR OR S_IRWXU OR S_IRGRP OR S_IXGRP OR S_IROTH OR S_IXOTH"

definition metadata_new :: "path \<Rightarrow> mode \<Rightarrow> FileMetadata" where
  "metadata_new p m = \<lparr>md_path = p, md_size = 0, md_mode = m, md_created = None,
     md_modified = None, md_accessed = None, md_is_symlink = False, md_symlink_target = None\<rparr>"

definition metadata_file :: "time \<Rightarrow> path \<Rightarrow> nat \<Rightarrow> FileMetadata" where
  "metadata_file now p n = \<lparr>md_path = p, md_size = n,
     md_mode = S_IFREG OR S_IRUSR OR S_IWUSR OR S_IRGRP OR S_IROTH, md_created = Some now,
     md_modified = Some now, md_accessed = Some now, md_is_symlink = False,
     md_symlink_target = None\<rparr>"

definition metadata_directory :: "time \<Rightarrow> path \<Rightarrow> FileMetadata" where
  "metadata_directory now p = \<lparr>md_path = p, md_size = 0,
     md_mode = S_IFDIR OR S_IRWXU OR S_IRGRP OR S_IXGRP OR S_IROTH OR S_IXOTH,
     md_created = Some now, md_modified = Some now, md_accessed = Some now,
     md_is_symlink = False, md_symlink_target = None\<rparr>"

definition metadata_symlink :: "time \<Rightarrow> path \<Rightarrow> path \<Rightarrow> FileMetadata" where
  "metadata_symlink now p target = \<lparr>md_path = p, md_size = length target,
     md_mode = S_IFLNK OR S_IRWXU OR S_IRGRP OR S_IXGRP OR S_IROTH OR S_IXOTH,
     md_created = Some now, md_modified = Some now, md_accessed = Some now,
     md_is_symlink = True, md_symlink_target = Some target\<rparr>"

definition is_file :: "FileMetadata \<Rightarrow> bool" where
  "is_file m \<longleftrightarrow> md_mode m AND S_IFMT = S_IFREG"

definition is_directory :: "FileMetadata \<Rightarrow> bool" where
  "is_directory m \<longleftrightarrow> md_mode m AND S_IFMT = S_IFDIR"

definition is_symlink :: "FileMetadata \<Rightarrow> bool" where
  "is_symlink m \<longleftrightarrow> md_is_symlink m \<or> md_mode m AND S_IFMT = S_IFLNK"

definition permissions :: "FileMetadata \<Rightarrow> mode" where
  "permissions m = md_mode m AND 0x1FF"

definition set_permissions :: "mode \<Rightarrow> FileMetadata \<Rightarrow> FileMetadata" where
  "set_permissions p m = m\<lparr>md_mode := (md_mode m AND S_IFMT) OR (p AND 0x1FF)\<rparr>"

definition file_type :: "FileMetadata \<Rightarrow> string" where
  "file_type m =
     (let t = md_mode m AND S_IFMT in
      if t = S_IFREG then ''file''
      else if t = S_IFDIR then ''directory''
      else if t = S_IFLNK then ''symlink''
      else if t = S_IFCHR then ''character device''
      else if t = S_IFBLK then ''block device''
      else if t = S_IFIFO then ''FIFO''
      else if t = S_IFSOCK then ''socket''
      else ''unknown'')"

lemma metadata_kinds [simp]:
  "is_file (metadata_file now p n)" "\<not> is_directory (metadata_file now p n)"
  "is_directory (metadata_directory now p)" "\<not> is_file (metadata_directory now p)"
  "is_symlink (metadata_symlink now p t)" "\<not> is_directory (metadata_symlink now p t)"
  "\<not> is_file (metadata_symlink now p t)"
  by (simp_all add: is_file_def is_directory_def is_symlink_def metadata_file_def
      metadata_directory_def metadata_symlink_def mode_defs)

lemma metadata_sizes [simp]:
  "md_size (metadata_file now p n) = n" "md_size (metadata_directory now p) = 0"
  "md_path (metadata_file now p n) = p" "md_path (metadata_directory now p) = p"
  "md_is_symlink (metadata_file now p n) = False"
  "md_size (metadata_symlink now p t) = length t"
  by (simp_all add: metadata_file_def metadata_directory_def metadata_symlink_def)

lemma set_permissions_type: "md_mode (set_permissions p m) AND S_IFMT = md_mode m AND S_IFMT"
proof -
  have "(p AND 0x1FF) AND S_IFMT = 0"
    by (simp add: S_IFMT_def and.assoc)
  then show ?thesis
    by (simp add: set_permissions_def bit.conj_disj_distrib2 and.assoc)
qed

lemma set_permissions_kinds [simp]:
  "is_file (set_permissions p m) = is_file m"
  "is_directory (set_permissions p m) = is_directory m"
  "md_size (set_permissions p m) = md_size m"
  "md_path (set_permissions p m) = md_path m"
  "md_is_symlink (set_permissions p m) = md_is_symlink m"
  by (simp_all add: is_file_def is_directory_def set_permissions_type)
    (simp_all add: set_permissions_def)

lemma permissions_set_permissions: "permissions (set_permissions p m) = p AND 0x1FF"
proof -
  have "(md_mode m AND S_IFMT) AND 0x1FF = 0" by (simp add: S_IFMT_def and.assoc)
  then show ?thesis
    by (simp add: permissions_def set_permissions_def bit.conj_disj_distrib2 and.assoc)
qed

lemma metadata_update_kinds [simp]:
  "is_directory (m\<lparr>md_size := n\<rparr>) = is_directory m"
  "is_directory (m\<lparr>md_modified := t\<rparr>) = is_directory m"
  "is_directory (m\<lparr>md_accessed := t\<rparr>) = is_directory m"
  "is_directory (m\<lparr>md_path := p\<rparr>) = is_directory m"
  "is_file (m\<lparr>md_size := n\<rparr>) = is_file m"
  "is_file (m\<lparr>md_modified := t\<rparr>) = is_file m"
  "is_file (m\<lparr>md_accessed := t\<rparr>) = is_file m"
  by (simp_all add: is_directory_def is_file_def)

subsection \<open>File handles\<close>

text \<open>A handle id is a UUID, drawn by the crate \<open>uuid\<close> and passed in as a number.\<close>

type_synonym handle_id = nat

record FileHandle =
  fh_id :: handle_id
  fh_path :: path
  fh_flags :: flags
  fh_offset :: int
  fh_valid :: bool

definition file_handle_new :: "handle_id \<Rightarrow> path \<Rightarrow> flags \<Rightarrow> FileHandle" where
  "file_handle_new uuid p f =
     \<lparr>fh_id = uuid, fh_path = p, fh_flags = f, fh_offset = 0, fh_valid = True\<rparr>"

definition is_readable :: "FileHandle \<Rightarrow> bool" where
  "is_readable h \<longleftrightarrow> is_read_only (fh_flags h) \<or> is_read_write (fh_flags h)"

definition is_writable :: "FileHandle \<Rightarrow> bool" where
  "is_writable h \<longleftrightarrow> is_write_only (fh_flags h) \<or> is_read_write (fh_flags h)"

definition handle_advance :: "int \<Rightarrow> FileHandle \<Rightarrow> FileHandle" where
  "handle_advance n h = h\<lparr>fh_offset := i64_saturating_add (fh_offset h) n\<rparr>"

definition handle_seek :: "int \<Rightarrow> FileHandle \<Rightarrow> FileHandle" where
  "handle_seek off h = h\<lparr>fh_offset := off\<rparr>"

definition handle_invalidate :: "FileHandle \<Rightarrow> FileHandle" where
  "handle_invalidate h = h\<lparr>fh_valid := False\<rparr>"

subsection \<open>Path utilities\<close>

fun normalize_step :: "path \<Rightarrow> component \<Rightarrow> path" where
  "normalize_step r ParentDir = pop r"
| "normalize_step r CurDir = r"
| "normalize_step r RootDir = push r ''/''"
| "normalize_step r (Normal n) = push r n"

definition normalize_path :: "path \<Rightarrow> path" where
  "normalize_path p = foldl normalize_step [] (components p)"

definition utils_join :: "path \<Rightarrow> string list \<Rightarrow> path" where
  "utils_join base parts = foldl push base parts"

text \<open>What normalisation computes, on names: a stack that \<open>..\<close> pops and never underflows.\<close>

fun name_step :: "string list \<Rightarrow> component \<Rightarrow> string list" where
  "name_step ns ParentDir = butlast ns"
| "name_step ns (Normal n) = ns @ [n]"
| "name_step ns _ = ns"

definition norm_names :: "path \<Rightarrow> string list" where
  "norm_names p = foldl name_step [] (components p)"

lemma name_step_valid:
  "valid_names ns \<Longrightarrow> (\<And>n. c = Normal n \<Longrightarrow> valid_name n) \<Longrightarrow> valid_names (name_step ns c)"
  by (cases c) (auto dest: in_set_butlastD)

lemma fold_name_step_valid:
  "valid_names ns \<Longrightarrow> \<forall>n. Normal n \<in> set cs \<longrightarrow> valid_name n \<Longrightarrow> valid_names (foldl name_step ns cs)"
proof (induction cs arbitrary: ns)
  case (Cons c cs)
  have "valid_names (name_step ns c)"
    using Cons.prems by (intro name_step_valid) auto
  then have "valid_names (foldl name_step (name_step ns c) cs)"
    by (rule Cons.IH) (use Cons.prems(2) in auto)
  then show ?case by simp
qed simp

lemma norm_names_valid: "valid_names (norm_names p)"
  unfolding norm_names_def by (rule fold_name_step_valid) (auto dest: components_Normal_valid)

lemma fold_normalize_render:
  "valid_names ns \<Longrightarrow> \<forall>n. Normal n \<in> set cs \<longrightarrow> valid_name n \<Longrightarrow> RootDir \<notin> set cs \<Longrightarrow>
     foldl normalize_step (render a ns) cs = render a (foldl name_step ns cs)"
proof (induction cs arbitrary: ns)
  case (Cons c cs)
  have step: "normalize_step (render a ns) c = render a (name_step ns c)"
    using Cons.prems by (cases c) (auto simp: path_simps)
  have "valid_names (name_step ns c)"
    using Cons.prems by (intro name_step_valid) auto
  with Cons.prems show ?case by (simp add: step Cons.IH)
qed simp

lemma components_split:
  "\<exists>cs. components p = lead (has_root p) @ cs \<and> RootDir \<notin> set cs"
  using components_body_no_root [of "filter (\<lambda>s. \<not> trivial_seg s) (body_segs p)"]
  by (auto simp: components_def lead_def)

lemma normalize_path_render: "normalize_path p = render (has_root p) (norm_names p)"
proof -
  obtain cs where cs: "components p = lead (has_root p) @ cs" "RootDir \<notin> set cs"
    using components_split by blast
  have v: "\<forall>n. Normal n \<in> set cs \<longrightarrow> valid_name n"
    using cs(1) components_Normal_valid [of _ p] by simp
  have start: "foldl normalize_step [] (lead (has_root p)) = render (has_root p) []"
    by (simp add: lead_def render_def push_def has_root_def)
  have "normalize_path p = foldl normalize_step (render (has_root p) []) cs"
    by (simp add: normalize_path_def cs(1) start)
  also have "\<dots> = render (has_root p) (foldl name_step [] cs)"
    using v cs(2) by (intro fold_normalize_render) auto
  also have "foldl name_step [] cs = norm_names p"
    by (simp add: norm_names_def cs(1) lead_def)
  finally show ?thesis .
qed

lemma components_normalize_path:
  "components (normalize_path p) = lead (has_root p) @ map Normal (norm_names p)"
  by (simp add: normalize_path_render components_render norm_names_valid)

lemma foldl_name_step_Normals: "foldl name_step ms (map Normal ns) = ms @ ns"
  by (induction ns arbitrary: ms) auto

lemma norm_names_render: "valid_names ns \<Longrightarrow> norm_names (render a ns) = ns"
  using foldl_name_step_Normals [of "[]" ns]
  by (simp add: norm_names_def components_render lead_def)

subsection \<open>The trait \<open>FileSystem\<close>\<close>

text \<open>
  A backend is a state \<open>'s\<close> and this record of operations; each takes the clock reading
  and the state and returns the outcome and the new state. The read, write, directory and
  permission operations are required; the others have the default bodies below.
\<close>

type_synonym ('s, 'a) fs_op = "time \<Rightarrow> 's \<Rightarrow> 'a fs_result \<times> 's"

record 's FileSystem =
  fs_read :: "path \<Rightarrow> int \<Rightarrow> int \<Rightarrow> ('s, bytes) fs_op"
  fs_stat :: "path \<Rightarrow> ('s, FileMetadata) fs_op"
  fs_create :: "path \<Rightarrow> ('s, unit) fs_op"
  fs_write :: "path \<Rightarrow> bytes \<Rightarrow> int \<Rightarrow> flags \<Rightarrow> ('s, nat) fs_op"
  fs_mkdir :: "path \<Rightarrow> mode \<Rightarrow> ('s, unit) fs_op"
  fs_read_dir :: "path \<Rightarrow> ('s, FileMetadata list) fs_op"
  fs_remove :: "path \<Rightarrow> ('s, unit) fs_op"
  fs_remove_all :: "path \<Rightarrow> ('s, unit) fs_op"
  fs_rename :: "path \<Rightarrow> path \<Rightarrow> ('s, unit) fs_op"
  fs_chmod :: "path \<Rightarrow> mode \<Rightarrow> ('s, unit) fs_op"
  fs_truncate :: "path \<Rightarrow> nat \<Rightarrow> ('s, unit) fs_op"
  fs_touch :: "path \<Rightarrow> ('s, unit) fs_op"
  fs_readlink :: "path \<Rightarrow> ('s, path) fs_op"
  fs_symlink :: "path \<Rightarrow> path \<Rightarrow> ('s, unit) fs_op"
  fs_get_xattr :: "path \<Rightarrow> string \<Rightarrow> ('s, bytes) fs_op"
  fs_set_xattr :: "path \<Rightarrow> string \<Rightarrow> bytes \<Rightarrow> ('s, unit) fs_op"
  fs_remove_xattr :: "path \<Rightarrow> string \<Rightarrow> ('s, unit) fs_op"
  fs_list_xattr :: "path \<Rightarrow> ('s, string list) fs_op"

definition default_truncate :: "path \<Rightarrow> nat \<Rightarrow> ('s, unit) fs_op" where
  "default_truncate p n now s = (Err (NotSupported ''truncate not implemented''), s)"

definition default_touch :: "path \<Rightarrow> ('s, unit) fs_op" where
  "default_touch p now s = (Err (NotSupported ''touch not implemented''), s)"

definition default_readlink :: "path \<Rightarrow> ('s, path) fs_op" where
  "default_readlink p now s = (Err (NotSupported ''readlink not implemented''), s)"

definition default_symlink :: "path \<Rightarrow> path \<Rightarrow> ('s, unit) fs_op" where
  "default_symlink t l now s = (Err (NotSupported ''symlink not implemented''), s)"

definition default_get_xattr :: "path \<Rightarrow> string \<Rightarrow> ('s, bytes) fs_op" where
  "default_get_xattr p n now s = (Err (NotSupported ''get_xattr not implemented''), s)"

definition default_set_xattr :: "path \<Rightarrow> string \<Rightarrow> bytes \<Rightarrow> ('s, unit) fs_op" where
  "default_set_xattr p n v now s = (Err (NotSupported ''set_xattr not implemented''), s)"

definition default_remove_xattr :: "path \<Rightarrow> string \<Rightarrow> ('s, unit) fs_op" where
  "default_remove_xattr p n now s = (Err (NotSupported ''remove_xattr not implemented''), s)"

definition default_list_xattr :: "path \<Rightarrow> ('s, string list) fs_op" where
  "default_list_xattr p now s = (Err (NotSupported ''list_xattr not implemented''), s)"

subsection \<open>The read window\<close>

text \<open>
  The byte window every in-memory backend computes from \<open>offset\<close> and \<open>size\<close>
  (\<open>QueueFS::read_slice\<close>; the other backends repeat its lines). Signed addition wraps,
  the cast to \<open>usize\<close> reinterprets, and slicing out of range panics.
\<close>

definition read_slice :: "bytes \<Rightarrow> int \<Rightarrow> int \<Rightarrow> bytes fs_result" where
  "read_slice data offset sz =
     (let start = as_usize (max offset 0);
          stop = (if sz < 0 then length data
                  else as_usize (min (i64_add offset sz) (int (length data))))
      in if start \<ge> length data then Ok [] else index_range data start stop)"

lemma index_range_min:
  "s < length v \<Longrightarrow> index_range v s (min (s + n) (length v)) = Ok (take n (drop s v))"
  by (cases "s + n \<le> length v") (simp_all add: index_range_def min_def)

lemma read_slice_all:
  "is_i64 offset \<Longrightarrow> sz < 0 \<Longrightarrow> read_slice data offset sz = Ok (drop (nat offset) data)"
  by (cases "offset < 0")
    (auto simp: read_slice_def Let_def index_range_def is_i64_def max_def)

lemma read_slice_window:
  assumes "0 \<le> offset" "0 \<le> sz" "offset + sz \<le> i64_max"
  shows "read_slice data offset sz = Ok (posix_read (nat offset) (nat sz) data)"
proof -
  have add: "i64_add offset sz = offset + sz"
    using assms by (simp add: i64_add_def is_i64_def)
  have start: "as_usize (max offset 0) = nat offset" using assms by (simp add: max_def)
  have "as_usize (min (offset + sz) (int (length data)))
      = nat (min (offset + sz) (int (length data)))"
    using assms by (intro as_usize_nonneg) auto
  also have "\<dots> = min (nat offset + nat sz) (length data)"
    using assms by (simp add: nat_add_distrib min_def nat_le_eq_zle) linarith
  finally have stop: "as_usize (min (offset + sz) (int (length data)))
      = min (nat offset + nat sz) (length data)" .
  show ?thesis
    using assms(2)
    by (simp add: read_slice_def Let_def add start stop posix_read_def index_range_min)
qed

text \<open>
  The one panicking case is a window whose end is below zero, before or after wrapping.
  (A Rust vector is never longer than \<open>isize::MAX\<close>.)
\<close>

lemma read_slice_negative_end:
  assumes len: "length data \<le> isize_max" and start: "as_usize (max offset 0) < length data"
    and sz: "0 \<le> sz" and low: "i64_min \<le> i64_add offset sz" "i64_add offset sz < 0"
  shows "read_slice data offset sz = Panic"
proof -
  have "min (i64_add offset sz) (int (length data)) = i64_add offset sz"
    using low by simp
  moreover have "isize_max < as_usize (i64_add offset sz)"
    using low by (rule as_usize_neg_gt)
  ultimately show ?thesis
    using len start sz by (simp add: read_slice_def Let_def index_range_def)
qed

lemma read_slice_clipped:
  assumes "is_i64 sz" "offset < 0" "0 \<le> offset + sz"
  shows "read_slice data offset sz = Ok (take (nat (offset + sz)) data)"
proof -
  have add: "i64_add offset sz = offset + sz"
    using assms by (simp add: i64_add_def is_i64_def)
  have "as_usize (min (offset + sz) (int (length data)))
      = nat (min (offset + sz) (int (length data)))"
    using assms by (intro as_usize_nonneg) (auto simp: is_i64_def)
  then have stop: "as_usize (min (offset + sz) (int (length data)))
      = min (0 + nat (offset + sz)) (length data)"
    using assms(3) by (simp add: min_def nat_le_iff)
  have "as_usize (max offset 0) = 0" "\<not> sz < 0" using assms by (simp_all add: max_def)
  then show ?thesis
    using index_range_min [of 0 data "nat (offset + sz)"]
    by (cases "data = []") (auto simp: read_slice_def Let_def add stop)
qed

lemma read_slice_panic:
  assumes i: "is_i64 offset" "is_i64 sz" and len: "length data \<le> isize_max"
  shows "read_slice data offset sz = Panic \<longleftrightarrow>
    0 \<le> sz \<and> nat offset < length data \<and> (offset + sz < 0 \<or> i64_max < offset + sz)"
proof (cases "sz < 0")
  case True
  with i show ?thesis by (simp add: read_slice_all)
next
  case pos: False
  have start: "as_usize (max offset 0) = nat offset"
    using i by (cases "offset < 0") (auto simp: is_i64_def max_def)
  have empty: "read_slice data offset sz = Ok []" if "length data \<le> nat offset"
    using that start by (simp add: read_slice_def)
  consider (ok) "0 \<le> offset" "offset + sz \<le> i64_max"
    | (neg) "offset < 0" "offset + sz < 0"
    | (mid) "offset < 0" "0 \<le> offset + sz"
    | (high) "0 \<le> offset" "i64_max < offset + sz" by linarith
  then show ?thesis
  proof cases
    case ok
    with pos show ?thesis by (simp add: read_slice_window)
  next
    case neg
    have add: "i64_add offset sz = offset + sz"
      using i pos neg by (simp add: i64_add_def is_i64_def)
    show ?thesis
    proof (cases "nat offset < length data")
      case True
      have "read_slice data offset sz = Panic"
        using True start len pos add neg i
        by (intro read_slice_negative_end) (auto simp: is_i64_def)
      with True neg pos show ?thesis by simp
    qed (use empty in simp)
  next
    case mid
    with i pos show ?thesis by (simp add: read_slice_clipped is_i64_def)
  next
    case high
    have add: "i64_add offset sz = offset + sz - u64_modulus"
      unfolding i64_add_def using i high by (intro i64_wrap_high) (auto simp: is_i64_def)
    show ?thesis
    proof (cases "nat offset < length data")
      case True
      have "read_slice data offset sz = Panic"
        using True start len pos add high i
        by (intro read_slice_negative_end) (auto simp: is_i64_def)
      with True high pos show ?thesis by simp
    qed (use empty in simp)
  qed
qed

end
