(* ===== verification/Fs_Contract.thy ===== *)
theory Fs_Contract
  imports Core_Types
begin

text \<open>
  What a client may rely on when it uses a backend as a store of byte files: \<open>create\<close>
  makes an empty file, \<open>write\<close> with the append flag extends it, \<open>read\<close> of the whole file
  returns its bytes, and none of them disturbs another path. The client lemma is proved
  once here: a file written by successive appends reads back as their concatenation.
\<close>

subsection \<open>Sequencing\<close>

text \<open>
  \<open>?\<close> in an operation that has a state, and a call to something outside of the program (the host, a service, the
  network) whose errors are turned into errors of the file system; \<open>bind_op\<close> runs one operation after another.
\<close>

fun try_then :: "'a fs_result \<Rightarrow> ('a \<Rightarrow> 's \<Rightarrow> 'b fs_result \<times> 's) \<Rightarrow> 's \<Rightarrow> 'b fs_result \<times> 's" where
  "try_then (Ok a) f s = f a s"
| "try_then (Err e) f s = (Err e, s)"
| "try_then Panic f s = (Panic, s)"
| "try_then Hang f s = (Hang, s)"

definition call_then :: "('e \<Rightarrow> FSError) \<Rightarrow> ('w \<Rightarrow> ('e + 'a) \<times> 'w) \<Rightarrow> ('a \<Rightarrow> 'w \<Rightarrow> 'b fs_result \<times> 'w) \<Rightarrow> 'w \<Rightarrow> 'b fs_result \<times> 'w" where
  "call_then f call k w = (case call w of (Inl e, w') \<Rightarrow> (Err (f e), w') | (Inr a, w') \<Rightarrow> k a w')"

definition bind_op :: "('w \<Rightarrow> 'a fs_result \<times> 'w) \<Rightarrow> ('a \<Rightarrow> 'w \<Rightarrow> 'b fs_result \<times> 'w) \<Rightarrow> 'w \<Rightarrow> 'b fs_result \<times> 'w" where
  "bind_op m f w = (let (r, w') = m w in try_then r f w')"

lemma try_then_cong: "(\<And>a. r = Ok a \<Longrightarrow> k a = k' a) \<Longrightarrow> try_then r k = try_then r k'"
  by (rule ext, cases r) auto

lemma try_then_fails:
  "try_then r0 f s = (r, s') \<Longrightarrow> r \<noteq> Ok () \<Longrightarrow> (\<And>a. r0 = Ok a \<Longrightarrow> f a s = (r, s') \<Longrightarrow> P s') \<Longrightarrow> P s \<Longrightarrow> P s'"
  by (cases r0) auto

subsection \<open>Byte files\<close>

fun append_all :: "(path \<Rightarrow> bytes \<Rightarrow> int \<Rightarrow> flags \<Rightarrow> ('s, nat) fs_op) \<Rightarrow>
    path \<Rightarrow> bytes list \<Rightarrow> time \<Rightarrow> 's \<Rightarrow> 's" where
  "append_all wr p [] now s = s"
| "append_all wr p (d # ds) now s = append_all wr p ds now (snd (wr p d 0 WF_APPEND now s))"

locale byte_store =
  fixes contents :: "'s \<Rightarrow> path \<Rightarrow> bytes option"
    and create :: "path \<Rightarrow> ('s, unit) fs_op"
    and wr :: "path \<Rightarrow> bytes \<Rightarrow> int \<Rightarrow> flags \<Rightarrow> ('s, nat) fs_op"
    and rd :: "path \<Rightarrow> int \<Rightarrow> int \<Rightarrow> ('s, bytes) fs_op"
    and inv :: "'s \<Rightarrow> bool"
  assumes create_ok: "inv s \<Longrightarrow> create p now s = (Ok (), s') \<Longrightarrow>
      inv s' \<and> (\<forall>q. contents s' q = (if path_eq p q then Some [] else contents s q))"
    and create_fail: "create p now s = (r, s') \<Longrightarrow> r \<noteq> Ok () \<Longrightarrow> s' = s"
    and append_ok: "inv s \<Longrightarrow> contents s p = Some old \<Longrightarrow>
      fst (wr p d 0 WF_APPEND now s) = Ok (length d) \<and> inv (snd (wr p d 0 WF_APPEND now s)) \<and>
      (\<forall>q. contents (snd (wr p d 0 WF_APPEND now s)) q =
        (if path_eq p q then Some (old @ d) else contents s q))"
    and read_all: "inv s \<Longrightarrow> contents s p = Some d \<Longrightarrow> fst (rd p 0 (- 1) now s) = Ok d"
begin

lemma append_all_contents:
  "inv s \<Longrightarrow> (\<And>q. path_eq p q \<Longrightarrow> contents s q = Some old) \<Longrightarrow>
     inv (append_all wr p ds now s) \<and>
     (\<forall>q. contents (append_all wr p ds now s) q =
       (if path_eq p q then Some (old @ concat ds) else contents s q))"
proof (induction ds arbitrary: s old)
  case Nil
  then show ?case by auto
next
  case (Cons d ds)
  let ?s = "snd (wr p d 0 WF_APPEND now s)"
  have ap: "inv ?s" "contents ?s q = (if path_eq p q then Some (old @ d) else contents s q)" for q
    using append_ok [OF Cons.prems(1), of p old] Cons.prems(2) [of p] by simp_all
  have "inv (append_all wr p ds now ?s) \<and>
     (\<forall>q. contents (append_all wr p ds now ?s) q =
       (if path_eq p q then Some ((old @ d) @ concat ds) else contents ?s q))"
    by (rule Cons.IH) (simp_all add: ap)
  then show ?case by (simp add: ap)
qed

lemma log_readback:
  assumes "inv s" "create p now s = (Ok (), s')"
  shows "fst (rd p 0 (- 1) now (append_all wr p ds now s')) = Ok (concat ds)"
    and "\<not> path_eq p q \<Longrightarrow> contents (append_all wr p ds now s') q = contents s q"
proof -
  have c: "inv s'" "contents s' q = (if path_eq p q then Some [] else contents s q)" for q
    using create_ok [OF assms] by simp_all
  have all: "inv (append_all wr p ds now s') \<and>
     (\<forall>q. contents (append_all wr p ds now s') q =
       (if path_eq p q then Some ([] @ concat ds) else contents s' q))"
    by (rule append_all_contents) (simp_all add: c)
  then show "fst (rd p 0 (- 1) now (append_all wr p ds now s')) = Ok (concat ds)"
    by (intro read_all) simp_all
  show "\<not> path_eq p q \<Longrightarrow> contents (append_all wr p ds now s') q = contents s q"
    using all by (simp add: c)
qed

end

subsection \<open>Runs of a backend\<close>

text \<open>One call of any trait operation, whatever it returns, and the states calls can reach.\<close>

inductive fs_step :: "'s FileSystem \<Rightarrow> 's \<Rightarrow> 's \<Rightarrow> bool" for V where
  read: "fs_step V s (snd (fs_read V p off sz now s))"
| stat: "fs_step V s (snd (fs_stat V p now s))"
| create: "fs_step V s (snd (fs_create V p now s))"
| store: "fs_step V s (snd (fs_write V p d off fl now s))"
| mkdir: "fs_step V s (snd (fs_mkdir V p m now s))"
| read_dir: "fs_step V s (snd (fs_read_dir V p now s))"
| remove: "fs_step V s (snd (fs_remove V p now s))"
| remove_all: "fs_step V s (snd (fs_remove_all V p now s))"
| rename: "fs_step V s (snd (fs_rename V p q now s))"
| chmod: "fs_step V s (snd (fs_chmod V p m now s))"
| truncate: "fs_step V s (snd (fs_truncate V p n now s))"
| touch: "fs_step V s (snd (fs_touch V p now s))"
| readlink: "fs_step V s (snd (fs_readlink V p now s))"
| symlink: "fs_step V s (snd (fs_symlink V p q now s))"
| get_xattr: "fs_step V s (snd (fs_get_xattr V p a now s))"
| set_xattr: "fs_step V s (snd (fs_set_xattr V p a d now s))"
| remove_xattr: "fs_step V s (snd (fs_remove_xattr V p a now s))"
| list_xattr: "fs_step V s (snd (fs_list_xattr V p now s))"

inductive fs_reachable :: "'s FileSystem \<Rightarrow> 's \<Rightarrow> 's \<Rightarrow> bool" for V s0 where
  start: "fs_reachable V s0 s0"
| step: "fs_reachable V s0 s \<Longrightarrow> fs_step V s t \<Longrightarrow> fs_reachable V s0 t"

lemma fs_reachable_inv:
  assumes "fs_reachable V s0 s" "P s0" "\<And>s t. fs_step V s t \<Longrightarrow> P s \<Longrightarrow> P t"
  shows "P s"
  using assms by (induction rule: fs_reachable.induct) auto

subsection \<open>Read-only backends\<close>

text \<open>
  A backend that refuses every change: no call moves its state, so every query is answered from the
  state it was created in.
\<close>

definition refuses :: "('s, 'a) fs_op \<Rightarrow> bool" where
  "refuses op \<longleftrightarrow> (\<forall>now s. \<exists>e. op now s = (Err e, s))"

definition observes :: "('s, 'a) fs_op \<Rightarrow> bool" where
  "observes op \<longleftrightarrow> (\<forall>now s. snd (op now s) = s)"

lemma refuses_observes: "refuses op \<Longrightarrow> observes op"
  unfolding refuses_def observes_def by (metis snd_conv)

locale read_only_fs =
  fixes V :: "'s FileSystem"
  assumes changes: "refuses (fs_create V p)" "refuses (fs_write V p d off fl)" "refuses (fs_mkdir V p m)"
      "refuses (fs_remove V p)" "refuses (fs_remove_all V p)" "refuses (fs_rename V p q)" "refuses (fs_chmod V p m)"
      "refuses (fs_truncate V p n)" "refuses (fs_touch V p)" "refuses (fs_symlink V p q)"
      "refuses (fs_set_xattr V p a d)" "refuses (fs_remove_xattr V p a)"
    and queries: "observes (fs_read V p off sz)" "observes (fs_stat V p)" "observes (fs_read_dir V p)"
      "observes (fs_readlink V p)" "observes (fs_get_xattr V p a)" "observes (fs_list_xattr V p)"
begin

lemmas state_kept = queries [unfolded observes_def, rule_format]
  changes [THEN refuses_observes, unfolded observes_def, rule_format]

lemma step_same: "fs_step V s t \<Longrightarrow> t = s"
  by (erule fs_step.cases) (simp_all add: state_kept)

lemma reachable_same: "fs_reachable V s0 s \<Longrightarrow> s = s0"
  by (induction rule: fs_reachable.induct) (auto dest: step_same)

end

subsection \<open>A flat store of nodes\<close>

text \<open>
  The abstract file system a path-keyed backend implements: a partial map from paths
  (up to component equality) to nodes, changed by one node at a time, by dropping a
  subtree, or by moving a node to a free path. Nodes never change their kind.
\<close>

datatype node = AFile bytes | ADir | ALink path

definition node_upd :: "(path \<Rightarrow> node option) \<Rightarrow> path \<Rightarrow> node option \<Rightarrow> (path \<Rightarrow> node option)" where
  "node_upd a p x = (\<lambda>q. if path_eq p q then x else a q)"

inductive flat_step :: "(path \<Rightarrow> node option) \<Rightarrow> (path \<Rightarrow> node option) \<Rightarrow> bool" where
  stutter: "flat_step a a"
| add: "a p = None \<Longrightarrow> n = AFile [] \<or> n = ADir \<or> n = ALink t \<Longrightarrow> flat_step a (node_upd a p (Some n))"
| store: "a p = Some (AFile d) \<Longrightarrow> flat_step a (node_upd a p (Some (AFile d')))"
| delete: "a p = Some n \<Longrightarrow> flat_step a (node_upd a p None)"
| prune: "flat_step a (\<lambda>q. if path_starts_with q p then None else a q)"
| move: "a p = Some n \<Longrightarrow> a q = None \<Longrightarrow> \<not> path_eq p q \<Longrightarrow>
    flat_step a (node_upd (node_upd a p None) q (Some n))"

text \<open>The nodes a hash map of entries stands for, and how the map operations act on them.\<close>

definition abs_map :: "('v \<Rightarrow> node) \<Rightarrow> (path \<times> 'v) list \<Rightarrow> path \<Rightarrow> node option" where
  "abs_map f m = (\<lambda>q. map_option f (pm_get m q))"

lemma abs_map_insert: "abs_map f (pm_insert m p v) = node_upd (abs_map f m) p (Some (f v))"
  by (simp add: abs_map_def node_upd_def path_map.hm_get_insert fun_eq_iff)

lemma abs_map_remove: "abs_map f (pm_remove m p) = node_upd (abs_map f m) p None"
  by (simp add: abs_map_def node_upd_def path_map.hm_get_remove fun_eq_iff)

lemma abs_map_eq: "path_eq p q \<Longrightarrow> abs_map f m p = abs_map f m q"
  unfolding abs_map_def by (simp add: path_map.hm_get_eq [of p q])

lemma abs_map_same: "abs_map f m p = Some n \<Longrightarrow> node_upd (abs_map f m) p (Some n) = abs_map f m"
  using abs_map_eq [of p _ f m] by (auto simp: node_upd_def fun_eq_iff)

lemma abs_map_prune:
  "abs_map f (hm_retain (\<lambda>q. \<not> path_starts_with q p) m) =
     (\<lambda>q. if path_starts_with q p then None else abs_map f m q)"
proof -
  have "pm_get (hm_retain (\<lambda>q. \<not> path_starts_with q p) m) q =
      (if \<not> path_starts_with q p then pm_get m q else None)" for q
    by (rule path_map.hm_get_retain) (simp add: path_starts_with_cong)
  then show ?thesis by (simp add: abs_map_def fun_eq_iff)
qed

text \<open>Taking an entry out and inserting it elsewhere is a move, or no change at all.\<close>

lemma abs_map_move:
  assumes p: "pm_get m p = Some v" and free: "pm_get (pm_remove m p) q = None"
  shows "flat_step (abs_map f m) (abs_map f (pm_insert (pm_remove m p) q v))"
proof -
  have n: "abs_map f m p = Some (f v)" using p by (simp add: abs_map_def)
  have up: "abs_map f (pm_insert (pm_remove m p) q v) =
      node_upd (node_upd (abs_map f m) p None) q (Some (f v))"
    by (simp add: abs_map_insert abs_map_remove)
  show ?thesis
  proof (cases "path_eq p q")
    case True
    then have "node_upd (node_upd (abs_map f m) p None) q (Some (f v)) = abs_map f m"
      using n abs_map_eq [of p _ f m] path_map.eq_left [OF True]
      unfolding node_upd_def fun_eq_iff by (metis (no_types))
    then show ?thesis unfolding up by (simp add: flat_step.stutter)
  next
    case False
    with free have "abs_map f m q = None"
      by (simp add: abs_map_def path_map.hm_get_remove)
    with n False show ?thesis unfolding up by (intro flat_step.move)
  qed
qed

end
