(* ===== verification/Mem_FS.thy ===== *)
theory Mem_FS
  imports Fs_Contract
begin

text \<open>
  The crate \<open>racfs-plugin-memfs\<close>: the in-memory file system. Its state is the map from
  paths to entries, the extended attributes and the optional metrics; every operation of
  the traits \<open>ReadFS\<close>, \<open>WriteFS\<close>, \<open>DirFS\<close>, \<open>ChmodFS\<close> and \<open>FileSystem\<close> is modelled,
  metrics included. \<open>read\<close> follows symbolic links by recursion without a bound; the
  model runs it with fuel one above the number of entries and calls the result \<open>Hang\<close>
  when the fuel runs out, which \<open>follow_hang\<close> shows to be exactly the endless case.
\<close>

subsection \<open>State\<close>

record MemFSMetrics =
  mm_entries :: int
  mm_operations :: "(string \<times> nat) list"

record mem_entry =
  me_data :: bytes
  me_metadata :: FileMetadata
  me_is_symlink :: bool
  me_symlink_target :: "path option"

record MemFS =
  mem_files :: "(path \<times> mem_entry) list"
  mem_xattrs :: "(path \<times> (string \<times> bytes) list) list"
  mem_metrics :: "MemFSMetrics option"

definition mem_inc_op :: "string \<Rightarrow> MemFS \<Rightarrow> MemFS" where
  "mem_inc_op op fs =
     (case mem_metrics fs of
        None \<Rightarrow> fs
      | Some m \<Rightarrow> fs\<lparr>mem_metrics := Some (m\<lparr>mm_operations :=
          hm_insert (=) (mm_operations m) op
            (Suc (case hm_get (=) (mm_operations m) op of None \<Rightarrow> 0 | Some n \<Rightarrow> n))\<rparr>)\<rparr>)"

definition mem_inc_entries :: "int \<Rightarrow> MemFS \<Rightarrow> MemFS" where
  "mem_inc_entries d fs =
     (case mem_metrics fs of
        None \<Rightarrow> fs
      | Some m \<Rightarrow> fs\<lparr>mem_metrics := Some (m\<lparr>mm_entries := mm_entries m + d\<rparr>)\<rparr>)"

text \<open>\<open>PluginMetrics::register\<close>; \<open>registered\<close> is whether the registry accepts both metrics.\<close>

definition mem_register :: "bool \<Rightarrow> MemFS \<Rightarrow> bool \<times> MemFS" where
  "mem_register registered fs =
     (if registered
      then (True, fs\<lparr>mem_metrics := Some \<lparr>mm_entries = int (length (mem_files fs)),
        mm_operations = []\<rparr>\<rparr>)
      else (False, fs))"

definition mem_plain_entry :: "bytes \<Rightarrow> FileMetadata \<Rightarrow> mem_entry" where
  "mem_plain_entry d m =
     \<lparr>me_data = d, me_metadata = m, me_is_symlink = False, me_symlink_target = None\<rparr>"

definition mem_put :: "path \<Rightarrow> mem_entry \<Rightarrow> MemFS \<Rightarrow> MemFS" where
  "mem_put p e fs = fs\<lparr>mem_files := pm_insert (mem_files fs) p e\<rparr>"

definition mem_mkdir_sync :: "path \<Rightarrow> mode \<Rightarrow> (MemFS, unit) fs_op" where
  "mem_mkdir_sync p perm now fs =
     (if pm_contains (mem_files fs) p then (Err (AlreadyExists p), fs)
      else (Ok (), mem_put p
        (mem_plain_entry [] (set_permissions perm (metadata_directory now p))) fs))"

definition mem_new :: "time \<Rightarrow> MemFS" where
  "mem_new now =
     snd (mem_mkdir_sync ''/'' 493 now
       \<lparr>mem_files = [], mem_xattrs = [], mem_metrics = None\<rparr>)"

definition mem_with_data :: "time \<Rightarrow> (path \<times> bytes) list \<Rightarrow> MemFS" where
  "mem_with_data now data =
     \<lparr>mem_files = pm_insert
        (foldl (\<lambda>m (p, d). pm_insert m p (mem_plain_entry d (metadata_file now p (length d)))) [] data)
        ''/'' (mem_plain_entry [] (metadata_directory now ''/'')),
      mem_xattrs = [], mem_metrics = None\<rparr>"

definition mem_get_entry :: "MemFS \<Rightarrow> path \<Rightarrow> mem_entry fs_result" where
  "mem_get_entry fs p = ok_or (pm_get (mem_files fs) p) (NotFound p)"

definition mem_ensure_parent_exists :: "MemFS \<Rightarrow> path \<Rightarrow> unit fs_result" where
  "mem_ensure_parent_exists fs p =
     (case parent p of
        None \<Rightarrow> Ok ()
      | Some par \<Rightarrow>
          if par = ''/'' then Ok ()
          else (case pm_get (mem_files fs) par of
              None \<Rightarrow> Err (NotFound par)
            | Some e \<Rightarrow>
                if is_directory (me_metadata e) then Ok () else Err (NotADirectory par)))"

subsection \<open>Reading\<close>

text \<open>Following symbolic links: the recursive calls of \<open>read\<close>, with fuel.\<close>

fun mem_follow :: "nat \<Rightarrow> MemFS \<Rightarrow> path \<Rightarrow> mem_entry fs_result option" where
  "mem_follow 0 fs p = None"
| "mem_follow (Suc k) fs p =
     (case pm_get (mem_files fs) p of
        None \<Rightarrow> Some (Err (NotFound p))
      | Some e \<Rightarrow>
          if is_directory (me_metadata e) then Some (Err (IsDirectory p))
          else if me_is_symlink e then
            (case me_symlink_target e of
               Some t \<Rightarrow> mem_follow k fs t
             | None \<Rightarrow> Some (Ok e))
          else Some (Ok e))"

definition mem_read :: "path \<Rightarrow> int \<Rightarrow> int \<Rightarrow> (MemFS, bytes) fs_op" where
  "mem_read p offset sz now fs =
     (case mem_follow (Suc (length (mem_files fs))) fs p of
        None \<Rightarrow> (Hang, fs)
      | Some (Ok e) \<Rightarrow>
          (read_slice (me_data e) offset sz,
           if as_usize (max offset 0) \<ge> length (me_data e) then fs else mem_inc_op ''read'' fs)
      | Some (Err x) \<Rightarrow> (Err x, fs)
      | Some Panic \<Rightarrow> (Panic, fs)
      | Some Hang \<Rightarrow> (Hang, fs))"

definition mem_stat :: "path \<Rightarrow> (MemFS, FileMetadata) fs_op" where
  "mem_stat p now fs =
     (case pm_get (mem_files fs) p of
        None \<Rightarrow> (Err (NotFound p), fs)
      | Some e \<Rightarrow> (Ok (me_metadata e), mem_inc_op ''stat'' fs))"

subsection \<open>Writing\<close>

definition mem_create :: "path \<Rightarrow> (MemFS, unit) fs_op" where
  "mem_create p now fs =
     (case mem_ensure_parent_exists fs p of
        Ok _ \<Rightarrow>
          if pm_contains (mem_files fs) p then (Err (AlreadyExists p), fs)
          else (Ok (), mem_inc_entries 1 (mem_inc_op ''create''
            (mem_put p (mem_plain_entry [] (metadata_file now p 0)) fs)))
      | r \<Rightarrow> (r, fs))"

text \<open>The new contents that \<open>write\<close> computes from the old ones.\<close>

definition mem_write_data :: "bytes \<Rightarrow> bytes \<Rightarrow> int \<Rightarrow> flags \<Rightarrow> bytes fs_result" where
  "mem_write_data old data offset flags =
     (if contains_append flags \<or> as_usize offset \<ge> length old then
        (let stop = as_usize (max offset 0) in
         and_then (if stop > length old then vec_resize stop old else Ok old)
           (\<lambda>d. Ok (d @ data)))
      else if offset \<le> 0 then Ok data
      else
        (let start = as_usize offset in
         and_then (if start > length old then vec_resize start old else Ok old) (\<lambda>d.
         and_then (if start + length data > length d then vec_resize (start + length data) d
                   else Ok d) (\<lambda>d'.
         vec_copy_from_slice start (start + length data) data d'))))"

definition mem_write :: "path \<Rightarrow> bytes \<Rightarrow> int \<Rightarrow> flags \<Rightarrow> (MemFS, nat) fs_op" where
  "mem_write p data offset flags now fs =
     (case pm_get (mem_files fs) p of
        None \<Rightarrow> (Err (NotFound p), fs)
      | Some e \<Rightarrow>
          if is_directory (me_metadata e) then (Err (IsDirectory p), fs)
          else (case mem_write_data (me_data e) data offset flags of
              Ok d \<Rightarrow>
                (Ok (length data), mem_inc_op ''write'' (mem_put p
                  (e\<lparr>me_data := d, me_metadata :=
                     (me_metadata e)\<lparr>md_size := length d, md_modified := Some now\<rparr>\<rparr>) fs))
            | Err x \<Rightarrow> (Err x, fs)
            | Panic \<Rightarrow> (Panic, fs)
            | Hang \<Rightarrow> (Hang, fs)))"

subsection \<open>Directories\<close>

definition mem_mkdir :: "path \<Rightarrow> mode \<Rightarrow> (MemFS, unit) fs_op" where
  "mem_mkdir p perm now fs =
     (case (case parent p of
              Some par \<Rightarrow> if par = ''/'' then Ok () else mem_ensure_parent_exists fs par
            | None \<Rightarrow> Ok ()) of
        Ok _ \<Rightarrow>
          if pm_contains (mem_files fs) p then (Err (AlreadyExists p), fs)
          else (Ok (), mem_inc_entries 1 (mem_inc_op ''mkdir''
            (mem_put p (mem_plain_entry []
              (set_permissions perm (metadata_directory now p))) fs)))
      | r \<Rightarrow> (r, fs))"

definition dir_entry :: "string \<Rightarrow> path \<Rightarrow> FileMetadata \<Rightarrow> FileMetadata option" where
  "dir_entry prefix p m =
     (let relative = (if prefix = [] then p
                      else case path_strip_prefix p prefix of Some r \<Rightarrow> r | None \<Rightarrow> p);
          cs = components relative
      in if relative = ''/'' then None
         else if length cs = 1 \<or> length cs = 2 \<and> hd cs = RootDir then
           Some (m\<lparr>md_path := if starts_with relative ''/'' then relative
                                else push ''/'' relative\<rparr>)
         else None)"

definition list_dir :: "path \<Rightarrow> (path \<times> FileMetadata) list \<Rightarrow> FileMetadata list" where
  "list_dir p files =
     (let prefix = (if p = ''/'' then [] else p)
      in List.map_filter (\<lambda>(q, m). dir_entry prefix q m)
           (filter (\<lambda>(q, _). starts_with q prefix \<and> q \<noteq> prefix) files))"

definition mem_read_dir :: "path \<Rightarrow> (MemFS, FileMetadata list) fs_op" where
  "mem_read_dir p now fs =
     (Ok (list_dir p (map (\<lambda>(q, e). (q, me_metadata e)) (mem_files fs))),
      mem_inc_op ''readdir'' fs)"

definition mem_remove :: "path \<Rightarrow> (MemFS, unit) fs_op" where
  "mem_remove p now fs =
     (case pm_get (mem_files fs) p of
        None \<Rightarrow> (Err (NotFound p), fs)
      | Some e \<Rightarrow>
          let files' = pm_remove (mem_files fs) p; fs' = fs\<lparr>mem_files := files'\<rparr>
          in if is_directory (me_metadata e) \<and>
                (\<exists>(q, _) \<in> set files'. \<not> path_eq q p \<and> path_starts_with q p)
             then (Err DirectoryNotEmpty, fs')
             else (Ok (), mem_inc_entries (- 1) (mem_inc_op ''remove''
               (fs'\<lparr>mem_xattrs := pm_remove (mem_xattrs fs) p\<rparr>))))"

definition mem_remove_all :: "path \<Rightarrow> (MemFS, unit) fs_op" where
  "mem_remove_all p now fs =
     (if \<not> pm_contains (mem_files fs) p then (Err (NotFound p), fs)
      else
        (let removed = length (filter (\<lambda>(q, _). path_eq q p \<or> path_starts_with q p) (mem_files fs));
             keep = (\<lambda>q. \<not> path_eq q p \<and> \<not> path_starts_with q p)
         in (Ok (), mem_inc_entries (- int removed) (mem_inc_op ''remove_all''
              (fs\<lparr>mem_files := hm_retain keep (mem_files fs),
                  mem_xattrs := hm_retain keep (mem_xattrs fs)\<rparr>)))))"

definition mem_rename :: "path \<Rightarrow> path \<Rightarrow> (MemFS, unit) fs_op" where
  "mem_rename old new now fs =
     (case pm_get (mem_files fs) old of
        None \<Rightarrow> (Err (NotFound old), fs)
      | Some e \<Rightarrow>
          let files' = pm_remove (mem_files fs) old
          in if pm_contains files' new
             then (Err (AlreadyExists new), fs\<lparr>mem_files := pm_insert files' old e\<rparr>)
             else
               (let e' = e\<lparr>me_metadata := (me_metadata e)\<lparr>md_path := new\<rparr>\<rparr>;
                    xs = (case pm_get (mem_xattrs fs) old of
                            Some attrs \<Rightarrow> pm_insert (pm_remove (mem_xattrs fs) old) new attrs
                          | None \<Rightarrow> mem_xattrs fs)
                in (Ok (), mem_inc_op ''rename''
                     (fs\<lparr>mem_files := pm_insert files' new e', mem_xattrs := xs\<rparr>))))"

subsection \<open>Permissions, sizes, times, links\<close>

definition mem_chmod :: "path \<Rightarrow> mode \<Rightarrow> (MemFS, unit) fs_op" where
  "mem_chmod p m now fs =
     (case pm_get (mem_files fs) p of
        None \<Rightarrow> (Err (NotFound p), fs)
      | Some e \<Rightarrow> (Ok (), mem_inc_op ''chmod'' (mem_put p (e\<lparr>me_metadata :=
          (set_permissions m (me_metadata e))\<lparr>md_modified := Some now\<rparr>\<rparr>) fs)))"

definition mem_truncate :: "path \<Rightarrow> nat \<Rightarrow> (MemFS, unit) fs_op" where
  "mem_truncate p n now fs =
     (case pm_get (mem_files fs) p of
        None \<Rightarrow> (Err (NotFound p), fs)
      | Some e \<Rightarrow>
          if is_directory (me_metadata e) then (Err (IsDirectory p), fs)
          else (case (if n < length (me_data e) then Ok (take n (me_data e))
                      else if n > length (me_data e) then vec_resize n (me_data e)
                      else Ok (me_data e)) of
              Ok d \<Rightarrow> (Ok (), mem_inc_op ''truncate'' (mem_put p
                (e\<lparr>me_data := d, me_metadata :=
                   (me_metadata e)\<lparr>md_size := n, md_modified := Some now\<rparr>\<rparr>) fs))
            | Err x \<Rightarrow> (Err x, fs)
            | Panic \<Rightarrow> (Panic, fs)
            | Hang \<Rightarrow> (Hang, fs)))"

definition mem_touch :: "path \<Rightarrow> (MemFS, unit) fs_op" where
  "mem_touch p now fs =
     (case pm_get (mem_files fs) p of
        Some e \<Rightarrow> (Ok (), mem_inc_op ''touch'' (mem_put p (e\<lparr>me_metadata :=
          (me_metadata e)\<lparr>md_accessed := Some now, md_modified := Some now\<rparr>\<rparr>) fs))
      | None \<Rightarrow> (Ok (), mem_inc_op ''touch'' (mem_inc_entries 1
          (mem_put p (mem_plain_entry [] (metadata_file now p 0)) fs))))"

definition mem_readlink :: "path \<Rightarrow> (MemFS, path) fs_op" where
  "mem_readlink p now fs =
     (case pm_get (mem_files fs) p of
        None \<Rightarrow> (Err (NotFound p), fs)
      | Some e \<Rightarrow>
          if \<not> me_is_symlink e then (Err (InvalidInput ''not a symlink''), fs)
          else (ok_or (me_symlink_target e) (InvalidInput ''symlink has no target''), fs))"

definition mem_symlink :: "path \<Rightarrow> path \<Rightarrow> (MemFS, unit) fs_op" where
  "mem_symlink target link now fs =
     (case mem_ensure_parent_exists fs link of
        Ok _ \<Rightarrow>
          if pm_contains (mem_files fs) link then (Err (AlreadyExists link), fs)
          else (Ok (), mem_inc_entries 1 (mem_inc_op ''symlink'' (mem_put link
            \<lparr>me_data = [], me_metadata = metadata_symlink now link target,
             me_is_symlink = True, me_symlink_target = Some target\<rparr> fs)))
      | r \<Rightarrow> (r, fs))"

definition mem_get_xattr :: "path \<Rightarrow> string \<Rightarrow> (MemFS, bytes) fs_op" where
  "mem_get_xattr p name now fs =
     (if \<not> pm_contains (mem_files fs) p then (Err (NotFound p), fs)
      else (case pm_get (mem_xattrs fs) p of
          None \<Rightarrow> (Err (InvalidInput ''extended attribute not found''), fs)
        | Some m \<Rightarrow>
            (ok_or (hm_get (=) m name) (InvalidInput ''extended attribute not found''), fs)))"

definition mem_set_xattr :: "path \<Rightarrow> string \<Rightarrow> bytes \<Rightarrow> (MemFS, unit) fs_op" where
  "mem_set_xattr p name v now fs =
     (if \<not> pm_contains (mem_files fs) p then (Err (NotFound p), fs)
      else
        (let m = (case pm_get (mem_xattrs fs) p of Some m \<Rightarrow> m | None \<Rightarrow> [])
         in (Ok (), mem_inc_op ''set_xattr''
              (fs\<lparr>mem_xattrs := pm_insert (mem_xattrs fs) p (hm_insert (=) m name v)\<rparr>))))"

definition mem_remove_xattr :: "path \<Rightarrow> string \<Rightarrow> (MemFS, unit) fs_op" where
  "mem_remove_xattr p name now fs =
     (if \<not> pm_contains (mem_files fs) p then (Err (NotFound p), fs)
      else (case pm_get (mem_xattrs fs) p of
          None \<Rightarrow> (Err (InvalidInput ''extended attribute not found''), fs)
        | Some m \<Rightarrow>
            if hm_get (=) m name = None
            then (Err (InvalidInput ''extended attribute not found''), fs)
            else (Ok (), mem_inc_op ''remove_xattr''
              (fs\<lparr>mem_xattrs := pm_insert (mem_xattrs fs) p (hm_remove (=) m name)\<rparr>))))"

definition mem_list_xattr :: "path \<Rightarrow> (MemFS, string list) fs_op" where
  "mem_list_xattr p now fs =
     (if \<not> pm_contains (mem_files fs) p then (Err (NotFound p), fs)
      else (Ok (case pm_get (mem_xattrs fs) p of Some m \<Rightarrow> map fst m | None \<Rightarrow> []),
            mem_inc_op ''list_xattr'' fs))"

text \<open>The trait implementation.\<close>

definition mem_fs :: "MemFS FileSystem" where
  "mem_fs = \<lparr>fs_read = mem_read, fs_stat = mem_stat, fs_create = mem_create,
     fs_write = mem_write, fs_mkdir = mem_mkdir, fs_read_dir = mem_read_dir,
     fs_remove = mem_remove, fs_remove_all = mem_remove_all, fs_rename = mem_rename,
     fs_chmod = mem_chmod, fs_truncate = mem_truncate, fs_touch = mem_touch,
     fs_readlink = mem_readlink, fs_symlink = mem_symlink, fs_get_xattr = mem_get_xattr,
     fs_set_xattr = mem_set_xattr, fs_remove_xattr = mem_remove_xattr,
     fs_list_xattr = mem_list_xattr\<rparr>"

subsection \<open>Metrics do not influence the files\<close>

lemma mem_metrics_frame [simp]:
  "mem_files (mem_inc_op op fs) = mem_files fs"
  "mem_xattrs (mem_inc_op op fs) = mem_xattrs fs"
  "mem_files (mem_inc_entries d fs) = mem_files fs"
  "mem_xattrs (mem_inc_entries d fs) = mem_xattrs fs"
  "mem_files (mem_put p e fs) = pm_insert (mem_files fs) p e"
  "mem_xattrs (mem_put p e fs) = mem_xattrs fs"
  by (simp_all add: mem_inc_op_def mem_inc_entries_def mem_put_def split: option.splits)

lemma mem_plain_entry_simps [simp]:
  "me_data (mem_plain_entry d m) = d" "me_metadata (mem_plain_entry d m) = m"
  "me_is_symlink (mem_plain_entry d m) = False" "me_symlink_target (mem_plain_entry d m) = None"
  by (simp_all add: mem_plain_entry_def)

subsection \<open>Invariant\<close>

text \<open>
  Keys are distinct as paths; a directory holds no bytes and is no link; a link has a
  target and only a link has one; the recorded size of anything but a link is the number
  of its bytes.
\<close>

definition mem_entry_ok :: "mem_entry \<Rightarrow> bool" where
  "mem_entry_ok e \<longleftrightarrow>
     (me_is_symlink e \<longleftrightarrow> me_symlink_target e \<noteq> None) \<and>
     (is_directory (me_metadata e) \<longrightarrow> me_data e = [] \<and> \<not> me_is_symlink e) \<and>
     (\<not> me_is_symlink e \<longrightarrow> md_size (me_metadata e) = length (me_data e))"

definition mem_inv :: "MemFS \<Rightarrow> bool" where
  "mem_inv fs \<longleftrightarrow>
     pm_inv (mem_files fs) \<and> pm_inv (mem_xattrs fs) \<and>
     (\<forall>(p, e) \<in> set (mem_files fs). mem_entry_ok e)"

lemma mem_inv_metrics [simp]:
  "mem_inv (mem_inc_op op fs) = mem_inv fs" "mem_inv (mem_inc_entries d fs) = mem_inv fs"
  by (simp_all add: mem_inv_def)

lemma set_hm_insert:
  "(k', v') \<in> set (hm_insert eq m k v) \<Longrightarrow> v' = v \<or> (k', v') \<in> set m"
  by (induction m) (auto split: if_splits)

lemma mem_inv_put: "mem_inv fs \<Longrightarrow> mem_entry_ok e \<Longrightarrow> mem_inv (mem_put p e fs)"
  by (auto simp: mem_inv_def path_map.hm_inv_insert dest!: set_hm_insert)

lemma mem_inv_get: "mem_inv fs \<Longrightarrow> pm_get (mem_files fs) p = Some e \<Longrightarrow> mem_entry_ok e"
  by (auto simp: mem_inv_def dest!: hm_get_SomeD)

lemma mem_entry_ok_new [simp]:
  "mem_entry_ok (mem_plain_entry [] (metadata_file now p 0))"
  "mem_entry_ok (mem_plain_entry [] (set_permissions m (metadata_directory now p)))"
  "mem_entry_ok (mem_plain_entry d (metadata_file now p (length d)))"
  by (simp_all add: mem_entry_ok_def)

lemma mem_new_inv: "mem_inv (mem_new now)"
  by (auto simp: mem_new_def mem_mkdir_sync_def hm_contains_def intro!: mem_inv_put)
    (simp add: mem_inv_def)

lemma mem_files_insert_ok:
  assumes "pm_inv m \<and> (\<forall>(p, e) \<in> set m. mem_entry_ok e)" "mem_entry_ok e"
  shows "pm_inv (pm_insert m p e) \<and> (\<forall>(p, e) \<in> set (pm_insert m p e). mem_entry_ok e)"
  using assms by (auto simp: path_map.hm_inv_insert dest!: set_hm_insert)

lemma mem_with_data_inv: "mem_inv (mem_with_data now data)"
proof -
  let ?P = "\<lambda>m. pm_inv m \<and> (\<forall>(p, e) \<in> set m. mem_entry_ok e)"
  let ?f = "\<lambda>m (p, d). pm_insert m p (mem_plain_entry d (metadata_file now p (length d)))"
  have fold: "?P m \<Longrightarrow> ?P (foldl ?f m data)" for m
  proof (induction data arbitrary: m)
    case (Cons pd data)
    obtain p d where pd: "pd = (p, d)" by (cases pd)
    have "?P (?f m pd)" unfolding pd prod.case by (rule mem_files_insert_ok [OF Cons.prems]) simp
    from Cons.IH [OF this] show ?case by simp
  qed simp
  have "?P (foldl ?f [] data)" by (rule fold) simp
  from mem_files_insert_ok [OF this, of "mem_plain_entry [] (metadata_directory now ''/'')" "''/''"]
  show ?thesis by (simp add: mem_with_data_def mem_inv_def mem_entry_ok_def)
qed

lemma mem_create_inv: "mem_inv fs \<Longrightarrow> mem_inv (snd (mem_create p now fs))"
  by (auto simp: mem_create_def intro!: mem_inv_put split: outcome.splits)

lemma mem_mkdir_inv: "mem_inv fs \<Longrightarrow> mem_inv (snd (mem_mkdir p m now fs))"
  by (auto simp: mem_mkdir_def intro!: mem_inv_put split: outcome.splits)

lemma mem_symlink_inv: "mem_inv fs \<Longrightarrow> mem_inv (snd (mem_symlink t l now fs))"
  by (auto simp: mem_symlink_def mem_entry_ok_def intro!: mem_inv_put split: outcome.splits)

lemma mem_write_inv: "mem_inv fs \<Longrightarrow> mem_inv (snd (mem_write p d off fl now fs))"
  by (auto simp: mem_write_def mem_entry_ok_def dest: mem_inv_get intro!: mem_inv_put
      split: outcome.splits option.splits)

lemma mem_truncate_inv: "mem_inv fs \<Longrightarrow> mem_inv (snd (mem_truncate p n now fs))"
  by (auto simp: mem_truncate_def mem_entry_ok_def vec_resize_def dest: mem_inv_get
      intro!: mem_inv_put split: outcome.splits option.splits if_splits)

lemma mem_touch_inv: "mem_inv fs \<Longrightarrow> mem_inv (snd (mem_touch p now fs))"
  by (auto simp: mem_touch_def intro!: mem_inv_put split: option.splits)
    (auto simp: mem_entry_ok_def dest: mem_inv_get)

lemma mem_chmod_inv: "mem_inv fs \<Longrightarrow> mem_inv (snd (mem_chmod p m now fs))"
  by (auto simp: mem_chmod_def intro!: mem_inv_put split: option.splits)
    (auto simp: mem_entry_ok_def dest: mem_inv_get)

lemma mem_remove_inv: "mem_inv fs \<Longrightarrow> mem_inv (snd (mem_remove p now fs))"
  by (auto simp: mem_remove_def mem_inv_def Let_def path_map.hm_inv_remove
      split: option.splits) (auto simp: hm_remove_def)

lemma mem_remove_all_inv: "mem_inv fs \<Longrightarrow> mem_inv (snd (mem_remove_all p now fs))"
  by (auto simp: mem_remove_all_def mem_inv_def Let_def path_map.hm_inv_retain)
    (auto simp: hm_retain_def)

lemma mem_rename_inv: "mem_inv fs \<Longrightarrow> mem_inv (snd (mem_rename a b now fs))"
proof (cases "pm_get (mem_files fs) a")
  case (Some e)
  assume inv: "mem_inv fs"
  with Some have e: "mem_entry_ok e" by (blast dest: mem_inv_get)
  then have e': "mem_entry_ok (e\<lparr>me_metadata := (me_metadata e)\<lparr>md_path := b\<rparr>\<rparr>)"
    by (auto simp: mem_entry_ok_def)
  from inv have "\<forall>(p, e) \<in> set (pm_remove (mem_files fs) a). mem_entry_ok e"
    by (auto simp: mem_inv_def hm_remove_def)
  with inv Some e e' show ?thesis
    by (auto simp: mem_rename_def mem_inv_def Let_def path_map.hm_inv_insert
        path_map.hm_inv_remove dest!: set_hm_insert split: option.splits)
qed (simp add: mem_rename_def)

lemma mem_xattr_inv:
  "mem_inv fs \<Longrightarrow> mem_inv (snd (mem_set_xattr p n v now fs))"
  "mem_inv fs \<Longrightarrow> mem_inv (snd (mem_remove_xattr p n now fs))"
  "mem_inv fs \<Longrightarrow> mem_inv (snd (mem_get_xattr p n now fs))"
  "mem_inv fs \<Longrightarrow> mem_inv (snd (mem_list_xattr p now fs))"
  by (auto simp: mem_set_xattr_def mem_remove_xattr_def mem_get_xattr_def mem_list_xattr_def
      mem_inv_def Let_def path_map.hm_inv_insert split: option.splits)

lemma mem_read_inv:
  "mem_inv fs \<Longrightarrow> mem_inv (snd (mem_read p off sz now fs))"
  "mem_inv fs \<Longrightarrow> mem_inv (snd (mem_stat p now fs))"
  "mem_inv fs \<Longrightarrow> mem_inv (snd (mem_read_dir p now fs))"
  by (auto simp: mem_read_def mem_stat_def mem_read_dir_def split: option.splits outcome.splits)

lemma mem_step_inv: "fs_step mem_fs s t \<Longrightarrow> mem_inv s \<Longrightarrow> mem_inv t"
  by (induction rule: fs_step.induct)
    (simp_all add: mem_fs_def mem_read_inv mem_create_inv mem_write_inv mem_mkdir_inv
      mem_remove_inv mem_remove_all_inv mem_rename_inv mem_chmod_inv mem_truncate_inv
      mem_touch_inv mem_symlink_inv mem_xattr_inv mem_readlink_def split: option.splits)

subsection \<open>Following links\<close>

definition mem_next :: "MemFS \<Rightarrow> path \<Rightarrow> path option" where
  "mem_next fs p =
     (case pm_get (mem_files fs) p of
        None \<Rightarrow> None
      | Some e \<Rightarrow> if is_directory (me_metadata e) \<or> \<not> me_is_symlink e then None
                  else me_symlink_target e)"

fun mem_chain :: "MemFS \<Rightarrow> path \<Rightarrow> nat \<Rightarrow> path option" where
  "mem_chain fs p 0 = Some p"
| "mem_chain fs p (Suc i) = (case mem_chain fs p i of None \<Rightarrow> None | Some q \<Rightarrow> mem_next fs q)"

lemma mem_chain_Suc_left:
  "mem_chain fs p (Suc i) = (case mem_next fs p of None \<Rightarrow> None | Some t \<Rightarrow> mem_chain fs t i)"
  by (induction i) (auto split: option.splits)

lemma mem_follow_chain: "mem_follow k fs p = None \<longleftrightarrow> mem_chain fs p k \<noteq> None"
proof (induction k arbitrary: p)
  case (Suc k)
  show ?case
    unfolding mem_chain_Suc_left
    by (auto simp: mem_next_def Suc split: option.splits)
qed simp

lemma mem_chain_down: "mem_chain fs p j \<noteq> None \<Longrightarrow> i \<le> j \<Longrightarrow> mem_chain fs p i \<noteq> None"
proof (induction j)
  case (Suc j)
  then show ?case by (cases "i = Suc j") (auto split: option.splits)
qed simp

lemma mem_chain_shift:
  assumes "mem_chain fs p i = mem_chain fs p j"
  shows "mem_chain fs p (i + m) = mem_chain fs p (j + m)"
  by (induction m) (simp_all add: assms)

text \<open>A chain that comes back to an earlier point never ends.\<close>

lemma mem_chain_cycle:
  assumes eq: "mem_chain fs p i = mem_chain fs p (i + d)" and d: "0 < d"
    and i: "mem_chain fs p i \<noteq> None"
  shows "mem_chain fs p k \<noteq> None"
proof -
  have "mem_chain fs p (i + t * d) = mem_chain fs p i" for t
  proof (induction t)
    case (Suc t)
    have "mem_chain fs p (i + t * d + 0) = mem_chain fs p (i + 0)" using Suc by simp
    then have "mem_chain fs p (i + t * d + d) = mem_chain fs p (i + d)"
      using mem_chain_shift [of fs p "i + t * d" i d] by simp
    with eq show ?case by (simp add: algebra_simps)
  qed simp
  then have "mem_chain fs p (i + k * d) \<noteq> None" using i by simp
  moreover have "k \<le> i + k * d" using d by (simp add: trans_le_add2)
  ultimately show ?thesis by (rule mem_chain_down)
qed

definition entry_index :: "(path \<times> 'v) list \<Rightarrow> path \<Rightarrow> nat" where
  "entry_index m p = (LEAST i. i < length m \<and> path_eq (fst (m ! i)) p)"

lemma entry_index_props:
  assumes "pm_get m p \<noteq> None"
  shows "entry_index m p < length m" "path_eq (fst (m ! entry_index m p)) p"
proof -
  obtain k v where "path_eq k p" "(k, v) \<in> set m"
    using assms by (auto dest!: hm_get_SomeD)
  then have "\<exists>i. i < length m \<and> path_eq (fst (m ! i)) p"
    by (metis fst_conv in_set_conv_nth)
  then have "entry_index m p < length m \<and> path_eq (fst (m ! entry_index m p)) p"
    unfolding entry_index_def by (rule LeastI_ex)
  then show "entry_index m p < length m" "path_eq (fst (m ! entry_index m p)) p" by simp_all
qed

lemma mem_next_cong: "path_eq p q \<Longrightarrow> mem_next fs p = mem_next fs q"
  unfolding mem_next_def using path_map.hm_get_eq [of p q "mem_files fs"] by simp

text \<open>By counting: more links in a row than entries means a link was met twice.\<close>

lemma mem_chain_long:
  assumes long: "mem_chain fs p (Suc (length (mem_files fs))) \<noteq> None"
  shows "mem_chain fs p k \<noteq> None"
proof -
  let ?n = "length (mem_files fs)"
  define at where "at i = the (mem_chain fs p i)" for i
  have at: "mem_chain fs p i = Some (at i)" if "i \<le> Suc ?n" for i
    using mem_chain_down [OF long that] by (simp add: at_def)
  have nxt: "mem_next fs (at i) = Some (at (Suc i))" if "i \<le> ?n" for i
    using at [of i] at [of "Suc i"] that by simp
  have dom: "pm_get (mem_files fs) (at i) \<noteq> None" if "i \<le> ?n" for i
    using nxt [OF that] by (cases "pm_get (mem_files fs) (at i)") (auto simp: mem_next_def)
  have "(\<lambda>i. entry_index (mem_files fs) (at i)) ` {..?n} \<subseteq> {..<?n}"
    using entry_index_props(1) [OF dom] by auto
  then have "card ((\<lambda>i. entry_index (mem_files fs) (at i)) ` {..?n}) \<le> card {..<?n}"
    by (rule card_mono [OF finite_lessThan])
  then have "card ((\<lambda>i. entry_index (mem_files fs) (at i)) ` {..?n}) < card {..?n}"
    unfolding card_lessThan card_atMost by (rule le_imp_less_Suc)
  then have "\<not> inj_on (\<lambda>i. entry_index (mem_files fs) (at i)) {..?n}"
    by (rule pigeonhole)
  then obtain i j where ij: "i \<le> ?n" "j \<le> ?n" "i < j"
    "entry_index (mem_files fs) (at i) = entry_index (mem_files fs) (at j)"
    unfolding inj_on_def by (metis atMost_iff linorder_neqE_nat)
  have "path_eq (at i) (at j)"
    using entry_index_props(2) [OF dom [OF ij(1)]] entry_index_props(2) [OF dom [OF ij(2)]] ij(4)
    by (metis path_map.sym path_map.trans)
  then have "mem_next fs (at i) = mem_next fs (at j)" by (rule mem_next_cong)
  then have "mem_chain fs p (Suc i) = mem_chain fs p (Suc j)"
    using at [of i] at [of j] ij by simp
  then have "mem_chain fs p (Suc i) = mem_chain fs p (Suc i + (j - i))"
    using ij(3) by simp
  moreover have "0 < j - i" using ij(3) by simp
  moreover have "mem_chain fs p (Suc i) \<noteq> None"
    using long ij by (intro mem_chain_down [OF long]) linarith
  ultimately show ?thesis by (rule mem_chain_cycle)
qed

lemma follow_hang:
  "mem_follow (Suc (length (mem_files fs))) fs p = None \<Longrightarrow> mem_follow k fs p = None"
  unfolding mem_follow_chain by (rule mem_chain_long)

lemma mem_follow_mono: "mem_follow k fs p = Some r \<Longrightarrow> mem_follow (k + m) fs p = Some r"
proof (induction k arbitrary: p)
  case (Suc k)
  then show ?case by (auto split: option.splits if_splits)
qed simp

subsection \<open>As a store of byte files\<close>

definition mem_node :: "mem_entry \<Rightarrow> node" where
  "mem_node e =
     (if is_directory (me_metadata e) then ADir
      else case (me_is_symlink e, me_symlink_target e) of
             (True, Some t) \<Rightarrow> ALink t
           | _ \<Rightarrow> AFile (me_data e))"

definition mem_abs :: "MemFS \<Rightarrow> path \<Rightarrow> node option" where
  "mem_abs fs p = map_option mem_node (pm_get (mem_files fs) p)"

definition mem_contents :: "MemFS \<Rightarrow> path \<Rightarrow> bytes option" where
  "mem_contents fs p = (case mem_abs fs p of Some (AFile d) \<Rightarrow> Some d | _ \<Rightarrow> None)"

lemma mem_abs_metrics [simp]:
  "mem_abs (mem_inc_op op fs) = mem_abs fs" "mem_abs (mem_inc_entries d fs) = mem_abs fs"
  by (simp_all add: mem_abs_def fun_eq_iff)

lemma mem_abs_put: "mem_abs (mem_put p e fs) = node_upd (mem_abs fs) p (Some (mem_node e))"
  by (simp add: mem_abs_def node_upd_def path_map.hm_get_insert fun_eq_iff)

lemma mem_abs_eq: "path_eq p q \<Longrightarrow> mem_abs fs p = mem_abs fs q"
  unfolding mem_abs_def by (simp add: path_map.hm_get_eq [of p q])

lemma mem_abs_same: "mem_abs fs p = Some n \<Longrightarrow> node_upd (mem_abs fs) p (Some n) = mem_abs fs"
  using mem_abs_eq [of p _ fs] by (auto simp: node_upd_def fun_eq_iff)

lemma mem_node_plain [simp]:
  "mem_node (mem_plain_entry d (metadata_file now p n)) = AFile d"
  "mem_node (mem_plain_entry d (set_permissions m (metadata_directory now p))) = ADir"
  by (simp_all add: mem_node_def mem_plain_entry_def)

lemma mem_contents_get:
  "mem_contents fs p = Some d \<longleftrightarrow>
     (\<exists>e. pm_get (mem_files fs) p = Some e \<and> mem_node e = AFile d)"
  by (auto simp: mem_contents_def mem_abs_def split: option.splits node.splits)

lemma mem_node_AFile:
  "mem_node e = AFile d \<Longrightarrow> mem_entry_ok e \<Longrightarrow>
     \<not> is_directory (me_metadata e) \<and> \<not> me_is_symlink e \<and> me_data e = d"
  by (auto simp: mem_node_def mem_entry_ok_def split: option.splits if_splits bool.splits)

lemma mem_write_append [simp]: "mem_write_data old d 0 WF_APPEND = Ok (old @ d)"
  by (simp add: mem_write_data_def Let_def contains_append_def flags_contains_def)

lemma mem_create_abs:
  "mem_create p now fs = (Ok (), fs') \<Longrightarrow>
     mem_abs fs p = None \<and> mem_abs fs' = node_upd (mem_abs fs) p (Some (AFile []))"
  by (auto simp: mem_create_def mem_abs_put mem_abs_def hm_contains_def split: outcome.splits if_splits)

lemma mem_create_unchanged: "mem_create p now fs = (r, fs') \<Longrightarrow> r \<noteq> Ok () \<Longrightarrow> fs' = fs"
  by (auto simp: mem_create_def split: outcome.splits if_splits)

lemma mem_read_file:
  assumes "mem_inv fs" "mem_contents fs p = Some d"
  shows "fst (mem_read p off sz now fs) = read_slice d off sz"
proof -
  obtain e where e: "pm_get (mem_files fs) p = Some e" "mem_node e = AFile d"
    using assms(2) by (auto simp: mem_contents_get)
  with mem_node_AFile mem_inv_get assms(1)
  have "\<not> is_directory (me_metadata e) \<and> \<not> me_is_symlink e \<and> me_data e = d" by blast
  with e show ?thesis by (simp add: mem_read_def)
qed

lemma mem_append_abs:
  assumes "mem_inv fs" "mem_contents fs p = Some old"
  shows "fst (mem_write p d 0 WF_APPEND now fs) = Ok (length d)"
    and "mem_abs (snd (mem_write p d 0 WF_APPEND now fs)) =
      node_upd (mem_abs fs) p (Some (AFile (old @ d)))"
proof -
  obtain e where e: "pm_get (mem_files fs) p = Some e" "mem_node e = AFile old"
    using assms(2) by (auto simp: mem_contents_get)
  with mem_node_AFile mem_inv_get assms(1)
  have ok: "\<not> is_directory (me_metadata e) \<and> \<not> me_is_symlink e \<and> me_data e = old" by blast
  with e show "fst (mem_write p d 0 WF_APPEND now fs) = Ok (length d)"
    by (simp add: mem_write_def)
  from e ok show "mem_abs (snd (mem_write p d 0 WF_APPEND now fs)) =
      node_upd (mem_abs fs) p (Some (AFile (old @ d)))"
    by (simp add: mem_write_def mem_abs_put mem_node_def is_directory_def)
qed

interpretation mem_store: byte_store mem_contents mem_create mem_write mem_read mem_inv
proof unfold_locales
  fix s p now s'
  assume "mem_inv s" "mem_create p now s = (Ok (), s')"
  then show "mem_inv s' \<and>
      (\<forall>q. mem_contents s' q = (if path_eq p q then Some [] else mem_contents s q))"
    using mem_create_inv [of s p now] mem_create_abs [of p now s s']
    by (auto simp: mem_contents_def node_upd_def)
next
  fix s p old d now
  assume "mem_inv s" "mem_contents s p = Some old"
  then show "fst (mem_write p d 0 WF_APPEND now s) = Ok (length d) \<and>
      mem_inv (snd (mem_write p d 0 WF_APPEND now s)) \<and>
      (\<forall>q. mem_contents (snd (mem_write p d 0 WF_APPEND now s)) q =
        (if path_eq p q then Some (old @ d) else mem_contents s q))"
    using mem_append_abs [of s p old] mem_write_inv [of s p d 0 WF_APPEND now]
    by (auto simp: mem_contents_def node_upd_def)
qed (simp_all add: mem_create_unchanged mem_read_file read_slice_all is_i64_def)

subsection \<open>Effect of each operation on the nodes\<close>

lemma mem_abs_set_files:
  "mem_abs (fs\<lparr>mem_files := m\<rparr>) = (\<lambda>q. map_option mem_node (pm_get m q))"
  "mem_abs (fs\<lparr>mem_files := m, mem_xattrs := x\<rparr>) = (\<lambda>q. map_option mem_node (pm_get m q))"
  "mem_abs (fs\<lparr>mem_xattrs := x\<rparr>) = mem_abs fs"
  by (simp_all add: mem_abs_def fun_eq_iff)

lemma mem_abs_remove: "(\<lambda>q. map_option mem_node (pm_get (pm_remove (mem_files fs) p) q)) =
    node_upd (mem_abs fs) p None"
  by (simp add: mem_abs_def node_upd_def path_map.hm_get_remove fun_eq_iff)

lemma mem_node_update [simp]:
  "mem_node (e\<lparr>me_metadata := set_permissions m (me_metadata e)\<lparr>md_modified := t\<rparr>\<rparr>) = mem_node e"
  "mem_node (e\<lparr>me_metadata := (me_metadata e)\<lparr>md_accessed := t, md_modified := t\<rparr>\<rparr>) = mem_node e"
  "mem_node (e\<lparr>me_metadata := (me_metadata e)\<lparr>md_path := q\<rparr>\<rparr>) = mem_node e"
  "mem_node (e\<lparr>me_metadata := (me_metadata e)\<lparr>md_size := n, md_modified := t\<rparr>\<rparr>) = mem_node e"
  by (simp_all add: mem_node_def split: option.splits bool.splits)

lemma mem_node_data:
  "mem_node (e\<lparr>me_data := d, me_metadata := (me_metadata e)\<lparr>md_size := n, md_modified := t\<rparr>\<rparr>) =
     (case mem_node e of AFile _ \<Rightarrow> AFile d | x \<Rightarrow> x)"
  by (auto simp: mem_node_def split: option.splits bool.splits)

lemma flat_same: "mem_abs fs p = Some n \<Longrightarrow> flat_step (mem_abs fs) (node_upd (mem_abs fs) p (Some n))"
  by (simp add: mem_abs_same flat_step.stutter)

lemma flat_data:
  assumes "mem_abs fs p = Some n"
  shows "flat_step (mem_abs fs)
    (node_upd (mem_abs fs) p (Some (case n of AFile _ \<Rightarrow> AFile d | x \<Rightarrow> x)))"
proof (cases n)
  case (AFile x1)
  with assms show ?thesis by (auto intro: flat_step.store)
qed (use assms in \<open>simp_all add: flat_same\<close>)

lemma mem_abs_Some: "pm_get (mem_files fs) p = Some e \<Longrightarrow> mem_abs fs p = Some (mem_node e)"
  by (simp add: mem_abs_def)

lemma mem_abs_None: "mem_abs fs p = None \<longleftrightarrow> pm_get (mem_files fs) p = None"
  by (simp add: mem_abs_def)

lemma mem_flat_create: "flat_step (mem_abs fs) (mem_abs (snd (mem_create p now fs)))"
  by (auto simp: mem_create_def mem_abs_put hm_contains_def mem_abs_None
      intro: flat_step.intros split: outcome.splits)

lemma mem_flat_mkdir: "flat_step (mem_abs fs) (mem_abs (snd (mem_mkdir p m now fs)))"
  by (auto simp: mem_mkdir_def mem_abs_put hm_contains_def mem_abs_None
      intro: flat_step.intros split: outcome.splits)

lemma mem_node_link [simp]:
  "mem_node \<lparr>me_data = [], me_metadata = metadata_symlink now l t, me_is_symlink = True,
     me_symlink_target = Some t\<rparr> = ALink t"
  by (simp add: mem_node_def)

lemma mem_flat_symlink: "flat_step (mem_abs fs) (mem_abs (snd (mem_symlink t l now fs)))"
  by (auto simp: mem_symlink_def mem_abs_put hm_contains_def mem_abs_None
      intro: flat_step.intros split: outcome.splits)

lemma mem_flat_write: "flat_step (mem_abs fs) (mem_abs (snd (mem_write p d off fl now fs)))"
  by (auto simp: mem_write_def mem_abs_put mem_node_data mem_abs_Some
      intro!: flat_data intro: flat_step.stutter split: outcome.splits option.splits)

lemma mem_flat_truncate: "flat_step (mem_abs fs) (mem_abs (snd (mem_truncate p n now fs)))"
  by (auto simp: mem_truncate_def mem_abs_put mem_node_data mem_abs_Some
      intro: flat_data flat_same flat_step.stutter split: outcome.splits option.splits)

lemma mem_flat_meta:
  "flat_step (mem_abs fs) (mem_abs (snd (mem_chmod p m now fs)))"
  "flat_step (mem_abs fs) (mem_abs (snd (mem_touch p now fs)))"
  by (auto simp: mem_chmod_def mem_touch_def mem_abs_put mem_abs_Some mem_abs_None
      intro: flat_same flat_step.intros split: option.splits)

lemma mem_flat_remove: "flat_step (mem_abs fs) (mem_abs (snd (mem_remove p now fs)))"
  by (auto simp: mem_remove_def mem_abs_set_files mem_abs_remove mem_abs_Some Let_def
      intro: flat_step.intros split: option.splits)

lemma mem_remove_all_abs:
  assumes "pm_contains (mem_files fs) p"
  shows "mem_abs (snd (mem_remove_all p now fs)) =
    (\<lambda>q. if path_starts_with q p then None else mem_abs fs q)"
proof -
  have "pm_get (hm_retain (\<lambda>q. \<not> path_eq q p \<and> \<not> path_starts_with q p) (mem_files fs)) q =
      (if \<not> path_eq q p \<and> \<not> path_starts_with q p then pm_get (mem_files fs) q else None)" for q
    by (rule path_map.hm_get_retain) (auto dest: path_starts_with_cong path_map.sym path_map.trans)
  with assms show ?thesis
    by (auto simp: mem_remove_all_def Let_def mem_abs_set_files mem_abs_def fun_eq_iff
        dest: path_eq_starts_with)
qed

lemma mem_flat_remove_all: "flat_step (mem_abs fs) (mem_abs (snd (mem_remove_all p now fs)))"
proof (cases "pm_contains (mem_files fs) p")
  case True
  then obtain n where "mem_abs fs p = Some n" by (auto simp: hm_contains_def mem_abs_def)
  with True show ?thesis by (auto simp: mem_remove_all_abs intro: flat_step.prune)
qed (simp add: mem_remove_all_def flat_step.stutter)

text \<open>
  A rename either moves the node to a free path, or changes nothing: the entry it took
  out of the map before looking at the target is put back.
\<close>

lemma mem_rename_spec_aux:
  assumes inv: "mem_inv fs"
  shows "mem_rename a b now fs = (r, fs') \<Longrightarrow>
    (case mem_abs fs a of
       None \<Rightarrow> r = Err (NotFound a) \<and> mem_abs fs' = mem_abs fs
     | Some n \<Rightarrow>
         if \<not> path_eq a b \<and> mem_abs fs b \<noteq> None
         then r = Err (AlreadyExists b) \<and> mem_abs fs' = mem_abs fs
         else r = Ok () \<and> mem_abs fs' = node_upd (node_upd (mem_abs fs) a None) b (Some n))"
proof (cases "pm_get (mem_files fs) a")
  case None
  assume "mem_rename a b now fs = (r, fs')"
  with None show ?thesis by (auto simp: mem_rename_def mem_abs_def)
next
  case (Some e)
  assume r: "mem_rename a b now fs = (r, fs')"
  have free: "pm_contains (pm_remove (mem_files fs) a) b \<longleftrightarrow>
      \<not> path_eq a b \<and> mem_abs fs b \<noteq> None"
    by (auto simp: hm_contains_def path_map.hm_get_remove mem_abs_def)
  have put_back: "pm_get (pm_insert (pm_remove (mem_files fs) a) a e) q = pm_get (mem_files fs) q" for q
    using inv Some by (intro path_map.get_put_back) (auto simp: mem_inv_def)
  show ?thesis
  proof (cases "\<not> path_eq a b \<and> mem_abs fs b \<noteq> None")
    case True
    with r Some free show ?thesis
      by (auto simp: mem_rename_def Let_def mem_abs_set_files put_back mem_abs_Some)
        (auto simp: mem_abs_def)
  next
    case False
    with free have "\<not> pm_contains (pm_remove (mem_files fs) a) b" by simp
    with r Some False show ?thesis
      by (auto simp: mem_rename_def Let_def mem_abs_set_files mem_abs_Some node_upd_def
          path_map.hm_get_insert path_map.hm_get_remove fun_eq_iff) (auto simp: mem_abs_def)
  qed
qed

lemma mem_flat_rename:
  assumes inv: "mem_inv fs"
  shows "flat_step (mem_abs fs) (mem_abs (snd (mem_rename a b now fs)))"
proof -
  obtain r fs' where "mem_rename a b now fs = (r, fs')" by fastforce
  note sp = mem_rename_spec_aux [OF inv this] this
  show ?thesis
  proof (cases "mem_abs fs a")
    case None
    with sp show ?thesis by (auto intro: flat_step.stutter)
  next
    case (Some n)
    show ?thesis
    proof (cases "path_eq a b")
      case True
      with Some have "node_upd (node_upd (mem_abs fs) a None) b (Some n) = mem_abs fs"
        unfolding node_upd_def fun_eq_iff
        using mem_abs_eq [of a _ fs] path_map.eq_left [OF True] by (metis (no_types))
      with sp Some True show ?thesis by (auto intro: flat_step.stutter)
    next
      case False
      with sp Some show ?thesis
        by (auto intro: flat_step.stutter flat_step.move split: if_splits)
    qed
  qed
qed

lemma mem_flat_quiet:
  "mem_abs (snd (mem_read p off sz now fs)) = mem_abs fs"
  "mem_abs (snd (mem_stat p now fs)) = mem_abs fs"
  "mem_abs (snd (mem_read_dir p now fs)) = mem_abs fs"
  "mem_abs (snd (mem_readlink p now fs)) = mem_abs fs"
  "mem_abs (snd (mem_get_xattr p n now fs)) = mem_abs fs"
  "mem_abs (snd (mem_set_xattr p n v now fs)) = mem_abs fs"
  "mem_abs (snd (mem_remove_xattr p n now fs)) = mem_abs fs"
  "mem_abs (snd (mem_list_xattr p now fs)) = mem_abs fs"
  by (simp_all add: mem_read_def mem_stat_def mem_read_dir_def mem_readlink_def mem_get_xattr_def
      mem_set_xattr_def mem_remove_xattr_def mem_list_xattr_def Let_def mem_abs_set_files
      split: option.splits outcome.splits)

lemmas mem_flat_simps = mem_flat_quiet mem_flat_create mem_flat_mkdir mem_flat_symlink
  mem_flat_write mem_flat_truncate mem_flat_meta mem_flat_remove mem_flat_remove_all

subsection \<open>What a write stores\<close>

text \<open>
  The reference: append (asked for, or implied by an offset at or past the end or by a
  negative one), replacement of the whole file at offset zero, and a POSIX overwrite in
  between; \<open>None\<close> where the vector cannot grow that far.
\<close>

definition mem_write_ref :: "bytes \<Rightarrow> bytes \<Rightarrow> int \<Rightarrow> flags \<Rightarrow> bytes option" where
  "mem_write_ref old data offset flags =
     (if contains_append flags \<or> offset < 0 \<or> int (length old) \<le> offset
      then Some (if int (length old) < offset then posix_write (nat offset) data old else old @ data)
      else if offset = 0 then Some data
      else if isize_max < nat offset + length data \<and> length old < nat offset + length data then None
      else Some (posix_write (nat offset) data old))"

lemma mem_write_data_low:
  assumes "is_i64 offset" "length old \<le> isize_max"
  shows "as_usize offset \<ge> length old \<longleftrightarrow> offset < 0 \<or> int (length old) \<le> offset"
proof (cases "offset < 0")
  case True
  then show ?thesis using as_usize_neg_gt [of offset] assms by (simp add: is_i64_def)
next
  case False
  then show ?thesis using assms by (auto simp: is_i64_def)
qed

lemma mem_write_data_eq:
  assumes i: "is_i64 offset" and len: "length old \<le> isize_max"
  shows "mem_write_data old data offset flags =
    (case mem_write_ref old data offset flags of Some d \<Rightarrow> Ok d | None \<Rightarrow> Panic)"
proof (cases "contains_append flags \<or> offset < 0 \<or> int (length old) \<le> offset")
  case True
  have stop: "as_usize (max offset 0) = nat offset"
    using i by (cases "offset < 0") (auto simp: is_i64_def max_def)
  have "nat offset \<le> isize_max" using i by (auto simp: is_i64_def)
  with True stop show ?thesis
    using mem_write_data_low [OF i len]
    by (auto simp: mem_write_data_def mem_write_ref_def Let_def vec_resize_def posix_write_def)
next
  case False
  then have pos: "0 \<le> offset" "as_usize offset = nat offset" "\<not> length old \<le> as_usize offset"
    using i mem_write_data_low [OF i len] by (auto simp: is_i64_def)
  then have "\<not> length old < nat offset" by simp
  with False pos show ?thesis
    by (auto simp: mem_write_data_def mem_write_ref_def Let_def vec_resize_def posix_write_def
        vec_copy_from_slice_def)
qed

lemma mem_write_ref_read:
  assumes "mem_write_ref old data offset flags = Some new" "\<not> contains_append flags" "0 \<le> offset"
  shows "posix_read (nat offset) (length data) new = data"
  using assms by (auto simp: mem_write_ref_def posix_read_write split: if_splits)
    (auto simp: posix_read_def)

subsection \<open>Directory listings\<close>

lemma list_dir_split: "list_dir p files = concat (map (\<lambda>f. list_dir p [f]) files)"
  by (induction files) (auto simp: list_dir_def Let_def List.map_filter_def)

lemma render_prefix: "ms \<noteq> [] \<Longrightarrow> ns \<noteq> [] \<Longrightarrow> starts_with (render True (ms @ ns)) (render True ms)"
  by (simp add: render_def join_append starts_with_iff)

lemma join_render: "join [slash] ns = render False ns"
  by (simp add: render_def)

lemma dir_entry_below:
  assumes v: "valid_names (ms @ ns)" and ne: "ms \<noteq> []" "ns \<noteq> []"
  shows "dir_entry (render True ms) (render True (ms @ ns)) m =
    (if length ns = 1 then Some (m\<lparr>md_path := render True ns\<rparr>) else None)"
proof -
  have vs: "valid_names ms" "valid_names ns" using v by auto
  have strip: "path_strip_prefix (render True (ms @ ns)) (render True ms) = Some (render False ns)"
    using path_strip_prefix_render [OF v, of "render True ms"] vs
    by (simp add: components_render join_render)
  have pne: "render True ms \<noteq> []" by (simp add: render_def)
  have cs: "components (render False ns) = map Normal ns"
    using vs by (simp add: components_render lead_def)
  then have hd: "hd (components (render False ns)) \<noteq> RootDir"
    using ne by (cases ns) auto
  have rel: "\<not> starts_with (render False ns) ''/''"
    using has_root_render [OF vs(2), of False]
    by (auto simp: has_root_iff starts_with_iff)
  then have rel': "render False ns \<noteq> ''/''" by (auto simp: starts_with_def)
  show ?thesis
  proof (cases "length ns = 1")
    case True
    then obtain n where n: "ns = [n]" by (auto simp: length_Suc_conv)
    have "push ''/'' (render False ns) = render True ns"
      using push_render [of "[]" n True] vs n by (simp add: render_def)
    with True strip pne cs rel rel' show ?thesis by (simp add: dir_entry_def Let_def)
  next
    case False
    with strip pne cs hd rel rel' show ?thesis by (simp add: dir_entry_def Let_def)
  qed
qed

lemma dir_entry_beside:
  assumes "valid_names ks" "ks \<noteq> []"
    and "prefix = [] \<or> path_strip_prefix (render True ks) prefix = None"
  shows "dir_entry prefix (render True ks) m =
    (if length ks = 1 then Some (m\<lparr>md_path := render True ks\<rparr>) else None)"
proof -
  have "join [slash] ks \<noteq> []" using assms(1,2) join_not_Nil by (cases ks) auto
  then have ne: "render True ks \<noteq> ''/''" by (simp add: render_def)
  have "starts_with (render True ks) ''/''" by (simp add: render_def starts_with_def)
  with assms ne show ?thesis
    by (auto simp: dir_entry_def Let_def components_render lead_def)
qed

lemma list_dir_single:
  "list_dir p [(q, m)] =
     (let prefix = (if p = ''/'' then [] else p)
      in if starts_with q prefix \<and> q \<noteq> prefix
         then (case dir_entry prefix q m of None \<Rightarrow> [] | Some x \<Rightarrow> [x]) else [])"
  by (simp add: list_dir_def Let_def List.map_filter_def split: option.splits)

text \<open>One file's contribution to the listing of \<open>ms\<close>.\<close>

definition listed :: "string list \<Rightarrow> string list \<Rightarrow> FileMetadata \<Rightarrow> FileMetadata list" where
  "listed ms ks m =
     (if ks \<noteq> [] \<and> butlast ks = ms then [m\<lparr>md_path := render True [last ks]\<rparr>]
      else if length ks = 1 \<and> ks \<noteq> ms \<and> starts_with (render True ks) (render True ms)
        then [m\<lparr>md_path := render True ks\<rparr>] else [])"

lemma render_eq_root: "valid_names ms \<Longrightarrow> render True ms = ''/'' \<longleftrightarrow> ms = []"
  by (cases ms) (auto simp: render_def join_Cons valid_nameD)

lemma render_inj:
  "valid_names ms \<Longrightarrow> valid_names ks \<Longrightarrow> render True ms = render True ks \<longleftrightarrow> ms = ks"
  using component_path_eq_render [of ms ks True True] by (metis path_eq_refl)

lemma list_dir_root:
  assumes v: "valid_names ks"
  shows "list_dir (render True []) [(render True ks, m)] = listed [] ks m"
proof (cases "ks = []")
  case True
  then show ?thesis by (simp add: list_dir_single listed_def render_def dir_entry_def)
next
  case False
  then have "butlast ks = [] \<longleftrightarrow> length ks = 1" "length ks = 1 \<Longrightarrow> [last ks] = ks"
    by (cases ks; simp)+
  moreover have "render True ks \<noteq> []" "render True [] = ''/''" by (simp_all add: render_def)
  ultimately show ?thesis
    using False dir_entry_beside [OF v False, of "[]" m]
    by (auto simp: list_dir_single listed_def)
qed

lemma list_dir_below:
  assumes v: "valid_names (ms @ ns)" and ne: "ms \<noteq> []" "ns \<noteq> []"
  shows "list_dir (render True ms) [(render True (ms @ ns), m)] = listed ms (ms @ ns) m"
proof -
  have "render True (ms @ ns) \<noteq> render True ms" "render True ms \<noteq> ''/''"
    using v ne render_inj [of "ms @ ns" ms] render_eq_root [of ms] by auto
  moreover have "butlast (ms @ ns) = ms \<longleftrightarrow> length ns = 1" "length ns = 1 \<Longrightarrow> [last (ms @ ns)] = ns"
    using ne by (cases ns rule: rev_cases; auto simp: butlast_append)+
  moreover have "length (ms @ ns) \<noteq> 1" using ne by (cases ms; cases ns) auto
  ultimately show ?thesis
    using render_prefix [OF ne] dir_entry_below [OF v ne, of m]
    by (auto simp: list_dir_single listed_def)
qed

lemma list_dir_beside:
  assumes v: "valid_names ms" "valid_names ks" and no: "take (length ms) ks \<noteq> ms"
  shows "list_dir (render True ms) [(render True ks, m)] = listed ms ks m"
proof (cases "ks = []")
  case True
  with no v have "ms \<noteq> []" "render True ms \<noteq> ''/''" by (auto simp: render_eq_root)
  moreover have "\<not> starts_with ''/'' (render True ms)"
    using calculation by (auto simp: starts_with_iff render_def)
  ultimately show ?thesis using True by (simp add: list_dir_single listed_def render_def)
next
  case False
  have ms: "butlast ks \<noteq> ms" "ks \<noteq> ms" "render True ms \<noteq> ''/''"
    using no v render_eq_root [of ms] by (auto simp: butlast_conv_take min_def split: if_splits)
  have "path_strip_prefix (render True ks) (render True ms) = None"
    using no path_starts_with_render [OF v(2) components_render [OF v(1), of True]]
    by (simp add: path_strip_prefix_def)
  with ms show ?thesis
    using render_inj [OF v(2,1)] dir_entry_beside [OF v(2) False, of "render True ms" m]
    by (auto simp: list_dir_single listed_def Let_def)
qed

lemma list_dir_one:
  assumes v: "valid_names ms" "valid_names ks"
  shows "list_dir (render True ms) [(render True ks, m)] = listed ms ks m"
proof (cases "take (length ms) ks = ms")
  case True
  then obtain ns where ks: "ks = ms @ ns" by (metis append_take_drop_id)
  show ?thesis
  proof (cases "ms = []")
    case False
    show ?thesis
    proof (cases "ns = []")
      case True
      with ks False v show ?thesis
        by (cases ms rule: rev_cases) (auto simp: list_dir_single listed_def render_eq_root)
    qed (use ks False v list_dir_below in auto)
  qed (use v list_dir_root in simp)
qed (use v list_dir_beside in simp)

subsection \<open>Properties\<close>

text \<open>
  \<^bold>\<open>C38\<close>. Whatever sequence of trait calls a fresh MemFS has served, its state is well formed:
  keys are distinct up to path equality, directories hold no bytes, links have their
  target, and the size reported for a file is the number of its bytes.
\<close>

theorem mem_reachable_inv: "fs_reachable mem_fs (mem_new t) fs \<Longrightarrow> mem_inv fs"
  by (erule fs_reachable_inv) (auto intro: mem_new_inv mem_step_inv)

theorem mem_reachable_inv_witness:
  "mem_inv (snd (mem_write ''/a'' ''xy'' 0 0 2 (snd (mem_create ''/a'' 1 (mem_new 0)))))"
proof (rule mem_reachable_inv)
  have c: "fs_reachable mem_fs (mem_new 0) (snd (fs_create mem_fs ''/a'' 1 (mem_new 0)))"
    by (rule fs_reachable.step [OF fs_reachable.start fs_step.create])
  have "fs_reachable mem_fs (mem_new 0)
      (snd (fs_write mem_fs ''/a'' ''xy'' 0 0 2 (snd (fs_create mem_fs ''/a'' 1 (mem_new 0)))))"
    by (rule fs_reachable.step [OF c fs_step.store])
  then show "fs_reachable mem_fs (mem_new 0)
      (snd (mem_write ''/a'' ''xy'' 0 0 2 (snd (mem_create ''/a'' 1 (mem_new 0)))))"
    by (simp add: mem_fs_def)
qed



text \<open>
  A log kept in MemFS reads back: after a successful \<open>create\<close> and any number of
  appending writes, reading the whole file gives the concatenation of what was written,
  and no other file has changed.
\<close>

theorem mem_log_readback:
  assumes "mem_inv s" "mem_create p now s = (Ok (), s')"
  shows "fst (mem_read p 0 (- 1) now (append_all mem_write p ds now s')) = Ok (concat ds) \<and>
    (\<forall>q. path_eq p q \<or> mem_contents (append_all mem_write p ds now s') q = mem_contents s q)"
  using mem_store.log_readback [OF assms] by blast

theorem mem_log_readback_witness:
  "fst (mem_read ''/a'' 0 (- 1) 1 (append_all mem_write ''/a'' [''xy'', ''z''] 1
     (snd (mem_create ''/a'' 1 (mem_new 0))))) = Ok ''xyz''"
proof -
  have "fst (mem_create ''/a'' 1 (mem_new 0)) = Ok ()" by code_simp
  then have "mem_create ''/a'' 1 (mem_new 0) = (Ok (), snd (mem_create ''/a'' 1 (mem_new 0)))"
    by (simp add: prod_eq_iff)
  from mem_log_readback [OF mem_new_inv this, of "[''xy'', ''z'']"] show ?thesis by simp
qed



text \<open>
  Read your writes: after a non-appending write at an offset that is not negative,
  reading as many bytes at the same offset returns exactly the bytes written.
\<close>

theorem mem_read_your_write:
  assumes "mem_inv fs" "mem_contents fs p = Some old" "length old \<le> isize_max"
    and "0 \<le> offset" "offset + int (length data) \<le> i64_max" "\<not> contains_append flags"
    and w: "mem_write p data offset flags now fs = (Ok n, fs')"
  shows "n = length data \<and> fst (mem_read p offset (int n) now fs') = Ok data"
proof -
  have i: "is_i64 offset" using assms(4,5) by (simp add: is_i64_def)
  obtain e where e: "pm_get (mem_files fs) p = Some e" "mem_node e = AFile old"
    using assms(2) by (auto simp: mem_contents_get)
  with mem_node_AFile mem_inv_get assms(1)
  have ok: "\<not> is_directory (me_metadata e)" "me_data e = old" by blast+
  then obtain new where new: "mem_write_ref old data offset flags = Some new"
    using w e by (auto simp: mem_write_def mem_write_data_eq [OF i assms(3)] split: option.splits)
  with w e ok have n: "n = length data" "mem_abs fs' = node_upd (mem_abs fs) p (Some (AFile new))"
    by (auto simp: mem_write_def mem_write_data_eq [OF i assms(3)] mem_abs_put mem_node_data)
  then have "mem_contents fs' p = Some new" by (simp add: mem_contents_def node_upd_def)
  moreover have "mem_inv fs'" using mem_write_inv [OF assms(1), of p data offset flags now] w by simp
  ultimately show ?thesis
    using n assms(4,5) mem_write_ref_read [OF new assms(6,4)]
    by (simp add: mem_read_file read_slice_window)
qed

theorem mem_read_your_write_witness:
  "fst (mem_read ''/a'' 1 2 2 (snd (mem_write ''/a'' ''zz'' 1 0 2
     (mem_with_data 0 [(''/a'', ''wxy'')])))) = Ok ''zz''"
proof -
  let ?fs = "mem_with_data 0 [(''/a'', ''wxy'')]"
  have c: "mem_contents ?fs ''/a'' = Some ''wxy''" "\<not> contains_append 0"
    "fst (mem_write ''/a'' ''zz'' 1 0 2 ?fs) = Ok 2" by code_simp+
  have "mem_write ''/a'' ''zz'' 1 0 2 ?fs = (Ok 2, snd (mem_write ''/a'' ''zz'' 1 0 2 ?fs))"
    using c(3) by (simp add: prod_eq_iff)
  from mem_read_your_write [OF mem_with_data_inv c(1) _ _ _ c(2) this] show ?thesis by simp
qed

text \<open>
  \<open>read\<close> through symbolic links does not return exactly when no number of link
  steps is enough, that is, when the links form a cycle; there is no loop detection. In every
  other case it returns.
\<close>

theorem mem_read_hang:
  "fst (mem_read p offset sz now fs) = Hang \<longleftrightarrow> (\<forall>k. mem_follow k fs p = None)"
proof
  assume l: "fst (mem_read p offset sz now fs) = Hang"
  have "mem_follow k fs p \<noteq> Some Hang" for k
    by (induction k arbitrary: p) (auto split: option.splits)
  then have "mem_follow (Suc (length (mem_files fs))) fs p = None"
    using l by (auto simp: mem_read_def read_slice_def index_range_def Let_def
        split: option.splits outcome.splits if_splits simp del: mem_follow.simps)
  then show "\<forall>k. mem_follow k fs p = None" using follow_hang by blast
next
  assume "\<forall>k. mem_follow k fs p = None"
  then show "fst (mem_read p offset sz now fs) = Hang"
    by (simp add: mem_read_def del: mem_follow.simps)
qed

text \<open>
  \<open>remove\<close> on every branch: a missing path is reported and nothing changes; any
  other path loses its node whatever is returned, and \<open>DirectoryNotEmpty\<close> is returned
  exactly for a directory with something below it. The refused directory is therefore gone
  all the same, and its children are left without a parent.
\<close>

theorem mem_remove_spec:
  "case mem_abs fs p of
     None \<Rightarrow> mem_remove p now fs = (Err (NotFound p), fs)
   | Some n \<Rightarrow>
       mem_abs (snd (mem_remove p now fs)) = node_upd (mem_abs fs) p None \<and>
       fst (mem_remove p now fs) =
         (if n = ADir \<and> (\<exists>(q, e) \<in> set (mem_files fs). path_starts_with q p \<and> \<not> path_eq q p)
          then Err DirectoryNotEmpty else Ok ())"
proof (cases "pm_get (mem_files fs) p")
  case None
  then show ?thesis by (simp add: mem_abs_def mem_remove_def)
next
  case (Some e)
  have "mem_node e = ADir \<longleftrightarrow> is_directory (me_metadata e)"
    by (auto simp: mem_node_def split: option.splits bool.splits)
  moreover have "(\<exists>(q, _) \<in> set (pm_remove (mem_files fs) p). \<not> path_eq q p \<and> path_starts_with q p)
      \<longleftrightarrow> (\<exists>(q, e) \<in> set (mem_files fs). path_starts_with q p \<and> \<not> path_eq q p)"
    by (auto simp: hm_remove_def)
  ultimately show ?thesis
    using Some by (simp add: mem_abs_Some mem_remove_def Let_def mem_abs_set_files mem_abs_remove)
qed

text \<open>
  \<open>remove_all\<close> drops exactly the subtree: the path itself and every path below it by
  whole components, and nothing else. On a missing path it fails and changes nothing.
\<close>

theorem mem_remove_all_spec:
  "if mem_abs fs p = None then mem_remove_all p now fs = (Err (NotFound p), fs)
   else fst (mem_remove_all p now fs) = Ok () \<and>
     mem_abs (snd (mem_remove_all p now fs)) =
       (\<lambda>q. if path_starts_with q p then None else mem_abs fs q)"
  using mem_remove_all_abs [of fs p now]
  by (auto simp: mem_abs_None hm_contains_def) (auto simp: mem_remove_all_def hm_contains_def Let_def)

text \<open>
  \<open>rename\<close> moves exactly one node: to a path that was free or is the same path. When
  the source is missing or the target is taken it fails, and although the entry is taken out
  of the map first, the failure is invisible to every later lookup. What lies below a renamed
  directory is not moved.
\<close>

theorem mem_rename_spec:
  assumes "mem_inv fs" "mem_rename a b now fs = (r, fs')"
  shows "case mem_abs fs a of
      None \<Rightarrow> r = Err (NotFound a) \<and> mem_abs fs' = mem_abs fs
    | Some n \<Rightarrow>
        if \<not> path_eq a b \<and> mem_abs fs b \<noteq> None
        then r = Err (AlreadyExists b) \<and> mem_abs fs' = mem_abs fs
        else r = Ok () \<and> mem_abs fs' = node_upd (node_upd (mem_abs fs) a None) b (Some n)"
  by (rule mem_rename_spec_aux [OF assms])

theorem mem_rename_spec_witness:
  "fst (mem_rename ''/a'' ''/b'' 1 (mem_with_data 0 [(''/a'', ''xy'')])) = Ok () \<and>
   mem_abs (snd (mem_rename ''/a'' ''/b'' 1 (mem_with_data 0 [(''/a'', ''xy'')]))) ''/b'' =
     Some (AFile ''xy'')"
proof -
  let ?fs = "mem_with_data 0 [(''/a'', ''xy'')]"
  have c: "mem_abs ?fs ''/a'' = Some (AFile ''xy'')" "mem_abs ?fs ''/b'' = None" by code_simp+
  show ?thesis
    using mem_rename_spec [OF mem_with_data_inv surjective_pairing, of "''/a''" "''/b''" 1 0
        "[(''/a'', ''xy'')]"] c
    by (simp add: node_upd_def)
qed

text \<open>
  \<open>read_dir\<close> on normalised absolute paths lists every immediate child once, under its own
  name, plus the top-level entries whose name merely begins with the directory's name (listing
  \<open>/a\<close> also shows \<open>/ab\<close>): the prefix is compared as a string, not by components.
\<close>

theorem mem_read_dir_spec:
  assumes "valid_names ms"
    and "mem_files fs = map (\<lambda>(ks, e). (render True ks, e)) fl" "\<forall>(ks, e) \<in> set fl. valid_names ks"
  shows "fst (mem_read_dir (render True ms) now fs) =
    Ok (concat (map (\<lambda>(ks, e). listed ms ks (me_metadata e)) fl))"
proof -
  have "map (\<lambda>f. list_dir (render True ms) [f])
      (map (\<lambda>(q, e). (q, me_metadata e)) (mem_files fs)) =
    map (\<lambda>(ks, e). listed ms ks (me_metadata e)) fl"
    using assms by (auto simp: list_dir_one)
  then show ?thesis by (subst mem_read_dir_def, subst list_dir_split) simp
qed

theorem mem_read_dir_spec_witness:
  "map md_path (case fst (mem_read_dir ''/a'' 1
     (mem_with_data 0 [(''/a/x'', []), (''/ab'', []), (''/c'', [])])) of Ok l \<Rightarrow> l | _ \<Rightarrow> []) =
   [''/x'', ''/ab'']"
proof -
  let ?e = "\<lambda>p. mem_plain_entry [] (metadata_file 0 p 0)"
  let ?fl = "[([''a'', ''x''], ?e ''/a/x''), ([''ab''], ?e ''/ab''), ([''c''], ?e ''/c''),
    ([], mem_plain_entry [] (metadata_directory 0 ''/''))]"
  have fl: "mem_files (mem_with_data 0 [(''/a/x'', []), (''/ab'', []), (''/c'', [])]) =
    map (\<lambda>(ks, e). (render True ks, e)) ?fl" by code_simp
  have "\<forall>(ks, e) \<in> set ?fl. valid_names ks" "valid_names [''a'']" "render True [''a''] = ''/a''"
    by (simp_all add: valid_name_def render_def)
  with mem_read_dir_spec [OF _ fl, of "[''a'']" 1] show ?thesis
    by (simp add: listed_def render_def starts_with_def)
qed

text \<open>
  \<open>mkdir\<close> looks for the grandparent, not the parent: for a path at least two levels deep
  it succeeds when the grandparent is the root or an existing directory, even if the parent
  does not exist, so directories can be created with no parent.
\<close>

theorem mem_mkdir_orphan:
  assumes "valid_names (ns @ [a, b])" "\<not> pm_contains (mem_files fs) (render True (ns @ [a, b]))"
    and "ns = [] \<or> mem_abs fs (render True ns) = Some ADir"
  shows "fst (mem_mkdir (render True (ns @ [a, b])) perm now fs) = Ok () \<and>
    mem_abs (snd (mem_mkdir (render True (ns @ [a, b])) perm now fs)) =
      node_upd (mem_abs fs) (render True (ns @ [a, b])) (Some ADir)"
proof -
  have v: "valid_names (ns @ [a])" "valid_names ns" using assms(1) by auto
  have par: "parent (render True (ns @ [a, b])) = Some (render True (ns @ [a]))"
    "parent (render True (ns @ [a])) = Some (render True ns)"
    using parent_render [OF assms(1)] parent_render [OF v(1)] by (simp_all add: butlast_append)
  have "render True (ns @ [a]) \<noteq> ''/''" using render_eq_root [OF v(1)] by simp
  moreover have "mem_ensure_parent_exists fs (render True (ns @ [a])) = Ok ()"
  proof (cases "ns = []")
    case False
    with assms(3) obtain e where "pm_get (mem_files fs) (render True ns) = Some e"
      "mem_node e = ADir" by (auto simp: mem_abs_def)
    moreover from this have "is_directory (me_metadata e)"
      by (auto simp: mem_node_def split: if_splits option.splits bool.splits)
    ultimately show ?thesis by (simp add: mem_ensure_parent_exists_def par)
  qed (use par render_eq_root [OF v(2)] in \<open>simp add: mem_ensure_parent_exists_def\<close>)
  ultimately show ?thesis
    using assms(2) by (simp add: mem_mkdir_def par mem_abs_put)
qed

theorem mem_mkdir_orphan_witness:
  "fst (mem_mkdir ''/a/b'' 493 1 (mem_new 0)) = Ok () \<and> mem_abs (mem_new 0) ''/a'' = None"
proof -
  have c: "\<not> pm_contains (mem_files (mem_new 0)) (render True ([] @ [''a'', ''b'']))"
    "mem_abs (mem_new 0) ''/a'' = None" by code_simp+
  have v: "valid_names ([] @ [''a'', ''b''])" "render True ([] @ [''a'', ''b'']) = ''/a/b''"
    by (simp_all add: valid_name_def render_def)
  from mem_mkdir_orphan [OF v(1) c(1), of 493 1] v(2) c(2) show ?thesis by simp
qed

end
