(* ===== verification/Kv_FS.thy ===== *)
theory Kv_FS
  imports Fs_Contract
begin

text \<open>
  The crate \<open>racfs-plugin-kvfs\<close> with its in-memory backend (\<open>KvBackend::Memory\<close>): two
  maps, the bytes of the files and the metadata of files and directories. The SQLite
  backend is in \<open>Kv_Sqlite\<close>. \<open>KvFS\<close> keeps the trait's defaults for everything beyond the four basic traits.
\<close>

subsection \<open>State and operations\<close>

record KvFS =
  kv_store :: "(path \<times> bytes) list"
  kv_metadata :: "(path \<times> FileMetadata) list"

definition kv_new :: KvFS where
  "kv_new = \<lparr>kv_store = [], kv_metadata = []\<rparr>"

definition kv_with_data :: "time \<Rightarrow> (path \<times> bytes) list \<Rightarrow> KvFS" where
  "kv_with_data now data =
     \<lparr>kv_store = data,
      kv_metadata = map (\<lambda>(p, d). (p, metadata_file now p (length d))) data\<rparr>"

definition kv_read :: "path \<Rightarrow> int \<Rightarrow> int \<Rightarrow> (KvFS, bytes) fs_op" where
  "kv_read p offset sz now fs =
     (case pm_get (kv_store fs) p of
        None \<Rightarrow> (Err (NotFound p), fs)
      | Some d \<Rightarrow> (read_slice d offset sz, fs))"

definition kv_stat :: "path \<Rightarrow> (KvFS, FileMetadata) fs_op" where
  "kv_stat p now fs = (ok_or (pm_get (kv_metadata fs) p) (NotFound p), fs)"

definition kv_create :: "path \<Rightarrow> (KvFS, unit) fs_op" where
  "kv_create p now fs =
     (if pm_contains (kv_store fs) p then (Err (AlreadyExists p), fs)
      else (Ok (), fs\<lparr>kv_store := pm_insert (kv_store fs) p [],
        kv_metadata := pm_insert (kv_metadata fs) p (metadata_file now p 0)\<rparr>))"

definition kv_write_data :: "bytes \<Rightarrow> bytes \<Rightarrow> int \<Rightarrow> flags \<Rightarrow> bytes fs_result" where
  "kv_write_data old data offset flags =
     (if contains_append flags then Ok (old @ data)
      else if as_usize offset \<ge> length old then
        and_then (vec_resize (as_usize offset) old) (\<lambda>d. Ok (d @ data))
      else vec_splice (as_usize offset) (u64_add (as_usize offset) (length data)) data old)"

definition kv_write :: "path \<Rightarrow> bytes \<Rightarrow> int \<Rightarrow> flags \<Rightarrow> (KvFS, nat) fs_op" where
  "kv_write p data offset flags now fs =
     (case pm_get (kv_store fs) p of
        None \<Rightarrow> (Err (NotFound p), fs)
      | Some old \<Rightarrow>
          (case kv_write_data old data offset flags of
             Ok d \<Rightarrow>
               (Ok (length data), fs\<lparr>kv_store := pm_insert (kv_store fs) p d,
                 kv_metadata := (case pm_get (kv_metadata fs) p of
                     Some m \<Rightarrow> pm_insert (kv_metadata fs) p (m\<lparr>md_size := length d\<rparr>)
                   | None \<Rightarrow> kv_metadata fs)\<rparr>)
           | Err x \<Rightarrow> (Err x, fs)
           | Panic \<Rightarrow> (Panic, fs)
           | Hang \<Rightarrow> (Hang, fs)))"

definition kv_mkdir :: "path \<Rightarrow> mode \<Rightarrow> (KvFS, unit) fs_op" where
  "kv_mkdir p perm now fs =
     (if pm_contains (kv_metadata fs) p then (Err (AlreadyExists p), fs)
      else (Ok (), fs\<lparr>kv_metadata :=
        pm_insert (kv_metadata fs) p (metadata_directory now p)\<rparr>))"

definition kv_read_dir :: "path \<Rightarrow> (KvFS, FileMetadata list) fs_op" where
  "kv_read_dir p now fs =
     (Ok (List.map_filter
        (\<lambda>(q, m).
           let relative = (if p = [] then q
                           else case path_strip_prefix q p of Some r \<Rightarrow> r | None \<Rightarrow> q)
           in if length (components relative) = 1 then Some m else None)
        (filter (\<lambda>(q, _). starts_with q p \<and> q \<noteq> p) (kv_metadata fs))), fs)"

text \<open>The second \<open>remove\<close> is evaluated only when the first finds nothing.\<close>

definition kv_remove :: "path \<Rightarrow> (KvFS, unit) fs_op" where
  "kv_remove p now fs =
     (if pm_get (kv_store fs) p \<noteq> None then (Ok (), fs\<lparr>kv_store := pm_remove (kv_store fs) p\<rparr>)
      else if pm_get (kv_metadata fs) p \<noteq> None
      then (Ok (), fs\<lparr>kv_metadata := pm_remove (kv_metadata fs) p\<rparr>)
      else (Err (NotFound p), fs))"

definition kv_remove_all :: "path \<Rightarrow> (KvFS, unit) fs_op" where
  "kv_remove_all p now fs =
     (let keys = filter (\<lambda>q. path_starts_with q p \<or> path_eq q p) (map fst (kv_store fs))
      in (Ok (), foldl (\<lambda>fs k. fs\<lparr>kv_store := pm_remove (kv_store fs) k,
           kv_metadata := pm_remove (kv_metadata fs) k\<rparr>) fs keys))"

definition kv_rename :: "path \<Rightarrow> path \<Rightarrow> (KvFS, unit) fs_op" where
  "kv_rename old new now fs =
     (case pm_get (kv_store fs) old of
        None \<Rightarrow> (Err (NotFound old), fs)
      | Some data \<Rightarrow>
          let store' = pm_remove (kv_store fs) old
          in (case pm_get (kv_metadata fs) old of
                None \<Rightarrow> (Err (NotFound old), fs\<lparr>kv_store := store'\<rparr>)
              | Some m \<Rightarrow>
                  let metadata' = pm_remove (kv_metadata fs) old
                  in if pm_contains store' new
                     then (Err (AlreadyExists new), fs\<lparr>kv_store := pm_insert store' old data,
                       kv_metadata := pm_insert metadata' old m\<rparr>)
                     else (Ok (), fs\<lparr>kv_store := pm_insert store' new data,
                       kv_metadata := pm_insert metadata' new m\<rparr>)))"

definition kv_chmod :: "path \<Rightarrow> mode \<Rightarrow> (KvFS, unit) fs_op" where
  "kv_chmod p mo now fs =
     (case pm_get (kv_metadata fs) p of
        None \<Rightarrow> (Err (NotFound p), fs)
      | Some m \<Rightarrow> (Ok (), fs\<lparr>kv_metadata :=
          pm_insert (kv_metadata fs) p (set_permissions mo m)\<rparr>))"

definition kv_fs :: "KvFS FileSystem" where
  "kv_fs = \<lparr>fs_read = kv_read, fs_stat = kv_stat, fs_create = kv_create,
     fs_write = kv_write, fs_mkdir = kv_mkdir, fs_read_dir = kv_read_dir,
     fs_remove = kv_remove, fs_remove_all = kv_remove_all, fs_rename = kv_rename,
     fs_chmod = kv_chmod, fs_truncate = default_truncate, fs_touch = default_touch,
     fs_readlink = default_readlink, fs_symlink = default_symlink,
     fs_get_xattr = default_get_xattr, fs_set_xattr = default_set_xattr,
     fs_remove_xattr = default_remove_xattr, fs_list_xattr = default_list_xattr\<rparr>"

lemmas kv_default_defs = default_truncate_def default_touch_def default_readlink_def
  default_symlink_def default_get_xattr_def default_set_xattr_def default_remove_xattr_def
  default_list_xattr_def

subsection \<open>Invariant\<close>

text \<open>Every stored file has metadata, of a regular file, with the right size.\<close>

definition kv_inv :: "KvFS \<Rightarrow> bool" where
  "kv_inv fs \<longleftrightarrow> pm_inv (kv_store fs) \<and> pm_inv (kv_metadata fs) \<and>
     (\<forall>p d. pm_get (kv_store fs) p = Some d \<longrightarrow>
       (\<exists>m. pm_get (kv_metadata fs) p = Some m \<and> is_file m \<and> md_size m = length d))"

lemma kv_invI:
  assumes "pm_inv (kv_store fs)" "pm_inv (kv_metadata fs)"
    and "\<And>p d. pm_get (kv_store fs) p = Some d \<Longrightarrow>
      \<exists>m. pm_get (kv_metadata fs) p = Some m \<and> is_file m \<and> md_size m = length d"
  shows "kv_inv fs"
  using assms by (simp add: kv_inv_def)

lemma kv_invD:
  assumes "kv_inv fs"
  shows "pm_inv (kv_store fs)" "pm_inv (kv_metadata fs)"
    and "pm_get (kv_store fs) p = Some d \<Longrightarrow>
      \<exists>m. pm_get (kv_metadata fs) p = Some m \<and> is_file m \<and> md_size m = length d"
  using assms by (auto simp: kv_inv_def)

lemmas kv_map_simps = path_map.hm_get_insert path_map.hm_get_remove path_map.hm_inv_insert
  path_map.hm_inv_remove

lemma kv_new_inv: "kv_inv kv_new"
  by (simp add: kv_inv_def kv_new_def)

lemma kv_inv_put:
  assumes "kv_inv fs" "is_file m" "md_size m = length d"
  shows "kv_inv (fs\<lparr>kv_store := pm_insert (kv_store fs) p d,
    kv_metadata := pm_insert (kv_metadata fs) p m\<rparr>)"
  using assms by (simp add: kv_inv_def kv_map_simps)

lemma kv_inv_meta:
  assumes "kv_inv fs"
    and "\<And>d. pm_get (kv_store fs) p = Some d \<Longrightarrow> is_file m \<and> md_size m = length d"
  shows "kv_inv (fs\<lparr>kv_metadata := pm_insert (kv_metadata fs) p m\<rparr>)"
proof -
  have "is_file m \<and> md_size m = length d" if "path_eq p q" "pm_get (kv_store fs) q = Some d" for q d
    using that assms(2) path_map.hm_get_eq [of p q "kv_store fs"] by simp
  with assms(1) show ?thesis by (simp add: kv_inv_def kv_map_simps)
qed

lemma kv_inv_drop:
  assumes "kv_inv fs"
  shows "kv_inv (fs\<lparr>kv_store := pm_remove (kv_store fs) p\<rparr>)"
    and "kv_inv (fs\<lparr>kv_store := pm_remove (kv_store fs) p,
      kv_metadata := pm_remove (kv_metadata fs) p\<rparr>)"
  using assms by (simp_all add: kv_inv_def kv_map_simps)

lemma kv_inv_drop_meta:
  assumes "kv_inv fs" "pm_get (kv_store fs) p = None"
  shows "kv_inv (fs\<lparr>kv_metadata := pm_remove (kv_metadata fs) p\<rparr>)"
proof -
  have "pm_get (kv_store fs) q = None" if "path_eq p q" for q
    using that assms(2) path_map.hm_get_eq [of p q "kv_store fs"] by simp
  with assms(1) show ?thesis by (auto simp: kv_inv_def kv_map_simps)
qed

lemma kv_create_inv: "kv_inv fs \<Longrightarrow> kv_inv (snd (kv_create p now fs))"
  by (simp add: kv_create_def kv_inv_put)

lemma kv_write_inv:
  assumes inv: "kv_inv fs"
  shows "kv_inv (snd (kv_write p d off fl now fs))"
proof (cases "pm_get (kv_store fs) p")
  case (Some old)
  then obtain m where "pm_get (kv_metadata fs) p = Some m" "is_file m" "md_size m = length old"
    using kv_invD(3) [OF inv] by blast
  with inv Some show ?thesis by (simp add: kv_write_def kv_inv_put split: outcome.splits)
qed (simp add: kv_write_def inv)

lemma kv_mkdir_inv:
  assumes inv: "kv_inv fs"
  shows "kv_inv (snd (kv_mkdir p m now fs))"
proof (cases "pm_contains (kv_metadata fs) p")
  case False
  then have "pm_get (kv_store fs) p = None"
    using kv_invD(3) [OF inv, of p] by (cases "pm_get (kv_store fs) p") (auto simp: hm_contains_def)
  then have "kv_inv (fs\<lparr>kv_metadata := pm_insert (kv_metadata fs) p (metadata_directory now p)\<rparr>)"
    using inv by (intro kv_inv_meta) auto
  with False show ?thesis by (simp add: kv_mkdir_def)
qed (simp add: kv_mkdir_def inv)

lemma kv_remove_inv: "kv_inv fs \<Longrightarrow> kv_inv (snd (kv_remove p now fs))"
  by (simp add: kv_remove_def kv_inv_drop kv_inv_drop_meta)

lemma kv_chmod_inv:
  assumes inv: "kv_inv fs"
  shows "kv_inv (snd (kv_chmod p m now fs))"
proof (cases "pm_get (kv_metadata fs) p")
  case (Some md)
  then have "is_file md \<and> md_size md = length d" if "pm_get (kv_store fs) p = Some d" for d
    using kv_invD(3) [OF inv that] by simp
  then have "is_file (set_permissions m md) \<and> md_size (set_permissions m md) = length d"
    if "pm_get (kv_store fs) p = Some d" for d
    using that by simp
  from kv_inv_meta [OF inv this] Some show ?thesis by (simp add: kv_chmod_def)
qed (simp add: kv_chmod_def inv)

text \<open>Removing a batch of keys from a map one by one.\<close>

lemma kv_remove_keys:
  "foldl (\<lambda>fs k. fs\<lparr>kv_store := pm_remove (kv_store fs) k,
       kv_metadata := pm_remove (kv_metadata fs) k\<rparr>) fs ks =
     fs\<lparr>kv_store := foldl pm_remove (kv_store fs) ks,
       kv_metadata := foldl pm_remove (kv_metadata fs) ks\<rparr>"
  by (induction ks arbitrary: fs) simp_all

lemma get_foldl_remove:
  "pm_get (foldl pm_remove m ks) q = (if \<exists>k \<in> set ks. path_eq k q then None else pm_get m q)"
  by (induction ks arbitrary: m) (auto simp: path_map.hm_get_remove)

lemma kv_remove_all_inv: "kv_inv fs \<Longrightarrow> kv_inv (snd (kv_remove_all p now fs))"
proof -
  have "kv_inv fs \<Longrightarrow> kv_inv (foldl (\<lambda>fs k. fs\<lparr>kv_store := pm_remove (kv_store fs) k,
      kv_metadata := pm_remove (kv_metadata fs) k\<rparr>) fs ks)" for ks
    by (induction ks arbitrary: fs) (simp_all add: kv_inv_drop)
  then show "kv_inv fs \<Longrightarrow> kv_inv (snd (kv_remove_all p now fs))"
    by (simp add: kv_remove_all_def)
qed

lemma kv_rename_inv:
  assumes inv: "kv_inv fs"
  shows "kv_inv (snd (kv_rename a b now fs))"
proof (cases "pm_get (kv_store fs) a")
  case (Some d)
  then obtain m where m: "pm_get (kv_metadata fs) a = Some m" "is_file m" "md_size m = length d"
    using kv_invD(3) [OF inv] by blast
  from kv_inv_put [OF kv_inv_drop(2) [OF inv, of a] m(2,3)] Some m(1) show ?thesis
    by (simp add: kv_rename_def Let_def)
qed (simp add: kv_rename_def inv)

lemma kv_step_inv: "fs_step kv_fs s t \<Longrightarrow> kv_inv s \<Longrightarrow> kv_inv t"
  by (induction rule: fs_step.induct)
    (simp_all add: kv_fs_def kv_read_def kv_stat_def kv_create_inv kv_write_inv kv_mkdir_inv
      kv_read_dir_def kv_remove_inv kv_remove_all_inv kv_rename_inv kv_chmod_inv kv_default_defs
      split: option.splits)

subsection \<open>As a store of byte files\<close>

definition kv_contents :: "KvFS \<Rightarrow> path \<Rightarrow> bytes option" where
  "kv_contents fs p = pm_get (kv_store fs) p"

definition kv_abs :: "KvFS \<Rightarrow> path \<Rightarrow> node option" where
  "kv_abs fs = abs_map AFile (kv_store fs)"

lemma kv_abs_metadata [simp]: "kv_abs (fs\<lparr>kv_metadata := m\<rparr>) = kv_abs fs"
  by (simp add: kv_abs_def)

lemma kv_append [simp]: "kv_write_data old d 0 WF_APPEND = Ok (old @ d)"
  by (simp add: kv_write_data_def)

interpretation kv_byte: byte_store kv_contents kv_create kv_write kv_read kv_inv
proof unfold_locales
  fix s p now s'
  assume "kv_inv s" "kv_create p now s = (Ok (), s')"
  then show "kv_inv s' \<and>
      (\<forall>q. kv_contents s' q = (if path_eq p q then Some [] else kv_contents s q))"
    using kv_create_inv [of s p now]
    by (auto simp: kv_create_def kv_contents_def kv_map_simps split: if_splits)
next
  fix s p old d now
  assume "kv_inv s" "kv_contents s p = Some old"
  then show "fst (kv_write p d 0 WF_APPEND now s) = Ok (length d) \<and>
      kv_inv (snd (kv_write p d 0 WF_APPEND now s)) \<and>
      (\<forall>q. kv_contents (snd (kv_write p d 0 WF_APPEND now s)) q =
        (if path_eq p q then Some (old @ d) else kv_contents s q))"
    using kv_write_inv [of s p d 0 WF_APPEND now]
    by (simp add: kv_write_def kv_contents_def kv_map_simps)
qed (auto simp: kv_create_def kv_contents_def kv_read_def read_slice_all is_i64_def
    split: if_splits)

lemma kv_abs_None: "kv_abs fs p = None \<longleftrightarrow> pm_get (kv_store fs) p = None"
  by (simp add: kv_abs_def abs_map_def)

lemma kv_flat_create: "flat_step (kv_abs fs) (kv_abs (snd (kv_create p now fs)))"
  using kv_abs_None [of fs p]
  by (auto simp: kv_create_def kv_abs_def abs_map_insert hm_contains_def intro: flat_step.intros)

lemma kv_flat_write: "flat_step (kv_abs fs) (kv_abs (snd (kv_write p d off fl now fs)))"
proof (cases "pm_get (kv_store fs) p")
  case (Some old)
  then have "abs_map AFile (kv_store fs) p = Some (AFile old)" by (simp add: abs_map_def)
  with Some show ?thesis
    by (auto simp: kv_write_def kv_abs_def abs_map_insert intro: flat_step.intros
        split: outcome.splits)
qed (simp add: kv_write_def flat_step.stutter)

lemma kv_flat_remove: "flat_step (kv_abs fs) (kv_abs (snd (kv_remove p now fs)))"
  by (auto simp: kv_remove_def kv_abs_def abs_map_remove intro: flat_step.stutter)
    (auto simp: abs_map_def intro: flat_step.delete)

lemma kv_remove_all_store:
  "pm_get (kv_store (snd (kv_remove_all p now fs))) q =
     (if path_starts_with q p then None else pm_get (kv_store fs) q)"
proof -
  let ?ks = "filter (\<lambda>q. path_starts_with q p \<or> path_eq q p) (map fst (kv_store fs))"
  have "(\<exists>k \<in> set ?ks. path_eq k q) \<longleftrightarrow> path_starts_with q p \<and> pm_get (kv_store fs) q \<noteq> None"
  proof
    assume "\<exists>k \<in> set ?ks. path_eq k q"
    then obtain k v where k: "path_eq k q" "(k, v) \<in> set (kv_store fs)" "path_starts_with k p"
      using path_eq_starts_with by fastforce
    then have "pm_get (kv_store fs) q \<noteq> None" by (auto simp: hm_get_None)
    with k show "path_starts_with q p \<and> pm_get (kv_store fs) q \<noteq> None"
      using path_starts_with_cong by blast
  next
    assume r: "path_starts_with q p \<and> pm_get (kv_store fs) q \<noteq> None"
    then obtain k v where k: "path_eq k q" "(k, v) \<in> set (kv_store fs)"
      by (auto dest!: hm_get_SomeD)
    with r have "k \<in> set ?ks" using path_starts_with_cong by force
    with k show "\<exists>k \<in> set ?ks. path_eq k q" by blast
  qed
  then show ?thesis
    by (auto simp: kv_remove_all_def Let_def kv_remove_keys get_foldl_remove simp del: set_filter)
qed

lemma kv_flat_remove_all: "flat_step (kv_abs fs) (kv_abs (snd (kv_remove_all p now fs)))"
proof -
  have "kv_abs (snd (kv_remove_all p now fs)) =
      (\<lambda>q. if path_starts_with q p then None else kv_abs fs q)"
    by (auto simp: kv_abs_def abs_map_def kv_remove_all_store fun_eq_iff)
  then show ?thesis by (simp add: flat_step.prune)
qed

lemma kv_flat_rename:
  assumes inv: "kv_inv fs"
  shows "flat_step (kv_abs fs) (kv_abs (snd (kv_rename a b now fs)))"
proof (cases "pm_get (kv_store fs) a")
  case (Some d)
  then obtain m where m: "pm_get (kv_metadata fs) a = Some m"
    using kv_invD(3) [OF inv] by blast
  have "abs_map AFile (pm_insert (pm_remove (kv_store fs) a) a d) = abs_map AFile (kv_store fs)"
    using path_map.get_put_back [OF kv_invD(1) [OF inv] Some] by (simp add: abs_map_def)
  with Some m abs_map_move [OF Some, of b AFile] show ?thesis
    by (auto simp: kv_rename_def Let_def kv_abs_def hm_contains_def flat_step.stutter)
qed (simp add: kv_rename_def flat_step.stutter)

subsection \<open>What a write stores\<close>

text \<open>
  Success is an append or a POSIX write; everything else panics: a negative offset (the
  cast makes it huge) and an overwrite that runs past the end of the file.
\<close>

definition kv_write_ref :: "bytes \<Rightarrow> bytes \<Rightarrow> int \<Rightarrow> flags \<Rightarrow> bytes option" where
  "kv_write_ref old data offset flags =
     (if contains_append flags then Some (old @ data)
      else if offset < 0 then None
      else if offset < int (length old) \<and> int (length old) < offset + int (length data) then None
      else Some (posix_write (nat offset) data old))"

lemma kv_write_data_eq:
  assumes i: "is_i64 offset" and len: "length old \<le> isize_max" "length data \<le> isize_max"
  shows "kv_write_data old data offset flags =
    (case kv_write_ref old data offset flags of Some d \<Rightarrow> Ok d | None \<Rightarrow> Panic)"
proof (cases "contains_append flags")
  case no: False
  show ?thesis
  proof (cases "offset < 0")
    case True
    have "isize_max < as_usize offset" using i True by (intro as_usize_neg_gt) (auto simp: is_i64_def)
    with no True len show ?thesis
      by (simp add: kv_write_data_def kv_write_ref_def vec_resize_def)
  next
    case False
    then have off: "as_usize offset = nat offset" "nat offset \<le> isize_max"
      using i by (auto simp: is_i64_def)
    moreover have "u64_add (nat offset) (length data) = nat offset + length data"
      using off len by (intro u64_add_small) simp
    ultimately show ?thesis
      using no False
      by (auto simp: kv_write_data_def kv_write_ref_def vec_resize_def vec_splice_def posix_write_def)
  qed
qed (simp add: kv_write_data_def kv_write_ref_def)

subsection \<open>Properties\<close>

text \<open>
  Every state an empty KvFS can reach by trait calls keeps its two maps consistent: each
  stored file has metadata, of a regular file, whose size is the number of its bytes. (So the
  \<open>rename\<close> branch that would drop the bytes of a file without metadata is never taken.)
\<close>

theorem kv_reachable_inv: "fs_reachable kv_fs kv_new fs \<Longrightarrow> kv_inv fs"
  by (erule fs_reachable_inv) (auto intro: kv_new_inv kv_step_inv)

theorem kv_reachable_inv_witness: "kv_inv (snd (kv_create ''/a'' 1 kv_new))"
proof -
  have "fs_reachable kv_fs kv_new (snd (fs_create kv_fs ''/a'' 1 kv_new))"
    by (rule fs_reachable.step [OF fs_reachable.start fs_step.create])
  from kv_reachable_inv [OF this] show ?thesis by (simp add: kv_fs_def)
qed



text \<open>
  A write to a stored file either returns the full length and leaves the reference's
  bytes there with the new size in the metadata, or panics with nothing changed: on a negative
  offset and on an overwrite that would extend the file. No other file changes.
\<close>

theorem kv_write_spec:
  assumes "kv_inv fs" "kv_contents fs p = Some old" "is_i64 offset"
    and "length old \<le> isize_max" "length data \<le> isize_max"
  shows "case kv_write_ref old data offset flags of
      None \<Rightarrow> kv_write p data offset flags now fs = (Panic, fs)
    | Some new \<Rightarrow> fst (kv_write p data offset flags now fs) = Ok (length data) \<and>
        (\<forall>q. kv_contents (snd (kv_write p data offset flags now fs)) q =
          (if path_eq p q then Some new else kv_contents fs q)) \<and>
        (\<exists>m. fst (kv_stat p now (snd (kv_write p data offset flags now fs))) = Ok m \<and>
          md_size m = length new)"
proof -
  have p: "pm_get (kv_store fs) p = Some old" using assms(2) by (simp add: kv_contents_def)
  then obtain m where "pm_get (kv_metadata fs) p = Some m" using kv_invD(3) [OF assms(1)] by blast
  with p show ?thesis
    by (auto simp: kv_write_def kv_contents_def kv_stat_def ok_or_def kv_map_simps
        kv_write_data_eq [OF assms(3,4,5)] split: option.splits)
qed

theorem kv_write_spec_witness:
  "kv_write ''/a'' ''xyz'' 1 0 2 (kv_with_data 0 [(''/a'', ''ab'')]) =
     (Panic, kv_with_data 0 [(''/a'', ''ab'')])"
proof -
  have "\<not> contains_append 0" by code_simp
  then have r: "kv_write_ref ''ab'' ''xyz'' 1 0 = None" by (simp add: kv_write_ref_def)
  have inv: "kv_inv (kv_with_data 0 [(''/a'', ''ab'')])"
    and c: "kv_contents (kv_with_data 0 [(''/a'', ''ab'')]) ''/a'' = Some ''ab''"
    by (simp_all add: kv_inv_def kv_with_data_def kv_contents_def)
  from kv_write_spec [OF inv c, of 1 "''xyz''" 0 2] r show ?thesis by (simp add: is_i64_def)
qed

text \<open>
  Removing a file leaves its metadata behind: after the successful \<open>remove\<close>, \<open>read\<close>
  reports the file missing while \<open>stat\<close> still answers as before, and removing it again
  succeeds.
\<close>

theorem kv_remove_stale:
  assumes "kv_inv fs" "kv_contents fs p = Some d" "kv_remove p now fs = (r, fs')"
  shows "r = Ok () \<and> fst (kv_read p off sz now fs') = Err (NotFound p) \<and>
    fst (kv_stat p now fs') = fst (kv_stat p now fs) \<and> is_ok (fst (kv_stat p now fs')) \<and>
    fst (kv_remove p now fs') = Ok ()"
proof -
  have p: "pm_get (kv_store fs) p = Some d" using assms(2) by (simp add: kv_contents_def)
  then obtain m where "pm_get (kv_metadata fs) p = Some m" using kv_invD(3) [OF assms(1)] by blast
  with p assms(3) show ?thesis
    by (auto simp: kv_remove_def kv_read_def kv_stat_def kv_map_simps ok_or_def)
qed

theorem kv_remove_stale_witness:
  "is_ok (fst (kv_stat ''/a'' 1 (snd (kv_remove ''/a'' 1 (kv_with_data 0 [(''/a'', ''ab'')])))))"
proof -
  have inv: "kv_inv (kv_with_data 0 [(''/a'', ''ab'')])"
    and c: "kv_contents (kv_with_data 0 [(''/a'', ''ab'')]) ''/a'' = Some ''ab''"
    by (simp_all add: kv_inv_def kv_with_data_def kv_contents_def)
  from kv_remove_stale [OF inv c surjective_pairing, of 1] show ?thesis by blast
qed

end
