(* ===== verification/Queue_Contract.thy ===== *)
theory Queue_Contract
  imports Prelude
begin

text \<open>
  The contract of a message queue with acknowledgement, as a producer and a consumer see it:
  put a message in, ask for the next identifier, fetch its bytes, acknowledge it. The client
  result is proved once: under any interleaving of producing and consuming, what came out
  followed by what is still pending is what was pending followed by what went in. Nothing is
  lost, duplicated or reordered. The contract is bounded by \<open>room\<close>, the number of messages
  the queue still accepts in order.
\<close>

datatype queue_event = Produce bytes | Consume

fun produced :: "queue_event list \<Rightarrow> bytes list" where
  "produced [] = []"
| "produced (Produce d # es) = d # produced es"
| "produced (Consume # es) = produced es"

fun run_queue :: "(bytes \<Rightarrow> 'q \<Rightarrow> 'q) \<Rightarrow> ('q \<Rightarrow> 'i option) \<Rightarrow> ('i \<Rightarrow> 'q \<Rightarrow> bytes option) \<Rightarrow>
    ('i \<Rightarrow> 'q \<Rightarrow> 'q) \<Rightarrow> queue_event list \<Rightarrow> 'q \<Rightarrow> bytes list \<times> 'q" where
  "run_queue enq nxt ft ack [] q = ([], q)"
| "run_queue enq nxt ft ack (Produce d # es) q = run_queue enq nxt ft ack es (enq d q)"
| "run_queue enq nxt ft ack (Consume # es) q =
     (case nxt q of
        None \<Rightarrow> run_queue enq nxt ft ack es q
      | Some i \<Rightarrow>
          (case ft i q of
             None \<Rightarrow> run_queue enq nxt ft ack es q
           | Some d \<Rightarrow> (let (out, q') = run_queue enq nxt ft ack es (ack i q) in (d # out, q'))))"

locale message_queue =
  fixes pending :: "'q \<Rightarrow> ('i \<times> bytes) list"
    and room :: "'q \<Rightarrow> nat"
    and inv :: "'q \<Rightarrow> bool"
    and enq :: "bytes \<Rightarrow> 'q \<Rightarrow> 'q"
    and head :: "'q \<Rightarrow> 'i option"
    and fetch :: "'i \<Rightarrow> 'q \<Rightarrow> bytes option"
    and ack :: "'i \<Rightarrow> 'q \<Rightarrow> 'q"
  assumes enq: "inv q \<Longrightarrow> 0 < room q \<Longrightarrow>
      inv (enq d q) \<and> room q = Suc (room (enq d q)) \<and> (\<exists>i. pending (enq d q) = pending q @ [(i, d)])"
    and head: "inv q \<Longrightarrow> head q = (case pending q of [] \<Rightarrow> None | (i, _) # _ \<Rightarrow> Some i)"
    and fetch: "inv q \<Longrightarrow> pending q = (i, d) # ps \<Longrightarrow> fetch i q = Some d"
    and ack: "inv q \<Longrightarrow> pending q = (i, d) # ps \<Longrightarrow>
      inv (ack i q) \<and> room (ack i q) = room q \<and> pending (ack i q) = ps"
begin

theorem run_fifo:
  "inv q \<Longrightarrow> length (produced es) \<le> room q \<Longrightarrow> run_queue enq head fetch ack es q = (out, q') \<Longrightarrow>
     inv q' \<and> out @ map snd (pending q') = map snd (pending q) @ produced es"
proof (induction es arbitrary: q out)
  case Nil
  then show ?case by simp
next
  case (Cons e es)
  show ?case
  proof (cases e)
    case (Produce d)
    with Cons.prems have en: "inv (enq d q)" "room q = Suc (room (enq d q))"
      "\<exists>i. pending (enq d q) = pending q @ [(i, d)]"
      using enq [of q d] by auto
    with Produce Cons.prems have "inv q' \<and> out @ map snd (pending q') =
        map snd (pending (enq d q)) @ produced es"
      by (intro Cons.IH) auto
    with en(3) Produce show ?thesis by auto
  next
    case Consume
    show ?thesis
    proof (cases "pending q")
      case Nil
      with Consume Cons.prems head [of q] have "run_queue enq head fetch ack es q = (out, q')" by simp
      with Cons.IH Cons.prems Consume show ?thesis by simp
    next
      case (Cons idp ps)
      obtain i d where id: "pending q = (i, d) # ps" using Cons by (cases idp) auto
      obtain out' where out': "run_queue enq head fetch ack es (ack i q) = (out', q')" "out = d # out'"
        using Consume Cons.prems id head [of q] fetch [of q i d ps]
        by (auto split: prod.splits)
      have "inv (ack i q)" "room (ack i q) = room q" "pending (ack i q) = ps"
        using ack [OF \<open>inv q\<close> id] by auto
      with Cons.IH [OF _ _ out'(1)] Cons.prems Consume id out'(2) show ?thesis by simp
    qed
  qed
qed

end

end
