(* ===== verification/Queue_FS.thy ===== *)
theory Queue_FS
  imports Fs_Contract Queue_Contract
begin

text \<open>
  The crate \<open>racfs-plugin-queuefs\<close>: message queues as directories. A queue is a sorted map
  from six-digit identifiers to messages; \<open>tail\<close> appends, \<open>head\<close> names the first message not
  yet acknowledged, \<open>messages/ID\<close> is its content and writing \<open>done\<close> to \<open>.ack/ID\<close>
  acknowledges it.
\<close>

subsection \<open>Queues\<close>

record Message =
  msg_id :: string
  msg_data :: bytes
  msg_acknowledged :: bool

record Queue =
  q_next_id :: nat
  q_head_id :: nat
  q_messages :: "(string \<times> Message) list"

definition queue_new :: Queue where
  "queue_new = \<lparr>q_next_id = 1, q_head_id = 1, q_messages = []\<rparr>"

definition format_message_id :: "nat \<Rightarrow> string" where
  "format_message_id n = pad_zero 6 (dec n)"

definition next_message_id :: "Queue \<Rightarrow> string \<times> Queue" where
  "next_message_id q =
     (format_message_id (q_next_id q), q\<lparr>q_next_id := u64_add (q_next_id q) 1\<rparr>)"

definition enqueue :: "bytes \<Rightarrow> Queue \<Rightarrow> string \<times> Queue" where
  "enqueue data q =
     (let (mid, q') = next_message_id q
      in (mid, q'\<lparr>q_messages := bt_insert (q_messages q') mid
           \<lparr>msg_id = mid, msg_data = data, msg_acknowledged = False\<rparr>\<rparr>))"

definition dequeue :: "string \<Rightarrow> Queue \<Rightarrow> unit fs_result \<times> Queue" where
  "dequeue mid q =
     (case bt_get (q_messages q) mid of
        None \<Rightarrow> (Err (NotFound mid), q)
      | Some m \<Rightarrow> (Ok (), q\<lparr>q_messages :=
          bt_insert (q_messages q) mid (m\<lparr>msg_acknowledged := True\<rparr>)\<rparr>))"

definition get_message :: "string \<Rightarrow> Queue \<Rightarrow> Message fs_result" where
  "get_message mid q =
     (case bt_get (q_messages q) mid of
        Some m \<Rightarrow> if msg_acknowledged m then Err (NotFound mid) else Ok m
      | None \<Rightarrow> Err (NotFound mid))"

fun first_unacknowledged :: "(string \<times> Message) list \<Rightarrow> string option" where
  "first_unacknowledged [] = None"
| "first_unacknowledged ((mid, m) # ms) =
     (if \<not> msg_acknowledged m then Some mid else first_unacknowledged ms)"

definition get_next_unacknowledged :: "Queue \<Rightarrow> string option" where
  "get_next_unacknowledged q = first_unacknowledged (q_messages q)"

definition get_count :: "Queue \<Rightarrow> nat" where
  "get_count q = length (filter (\<lambda>(_, m). \<not> msg_acknowledged m) (q_messages q))"

subsection \<open>The file system\<close>

record QueueFS =
  qf_queues :: "(string \<times> Queue) list"

definition queuefs_new :: QueueFS where
  "queuefs_new = \<lparr>qf_queues = []\<rparr>"

definition parse_queue_path :: "path \<Rightarrow> string \<times> string list" where
  "parse_queue_path p =
     (let cs = path_iter p;
          start = (if cs \<noteq> [] \<and> (hd cs = ''/'' \<or> hd cs = []) then 1 else 0)
      in if start \<ge> length cs then ([], []) else (cs ! start, drop (start + 1) cs))"

definition qf_not_found :: "string \<Rightarrow> FSError" where
  "qf_not_found name = NotFound (''/'' @ name)"

definition get_queue :: "QueueFS \<Rightarrow> string \<Rightarrow> Queue fs_result" where
  "get_queue fs name = ok_or (hm_get (=) (qf_queues fs) name) (qf_not_found name)"

definition ensure_queue_exists :: "QueueFS \<Rightarrow> string \<Rightarrow> unit fs_result" where
  "ensure_queue_exists fs name =
     (if \<not> hm_contains (=) (qf_queues fs) name then Err (qf_not_found name) else Ok ())"

definition queue_config :: "string \<Rightarrow> Queue \<Rightarrow> string" where
  "queue_config name q =
     [CHR ''{'', CHR 0x22] @ ''name'' @ [CHR 0x22, CHR '':'', CHR 0x22] @ name @
     [CHR 0x22, CHR '','', CHR 0x22] @ ''next_id'' @ [CHR 0x22, CHR '':''] @ dec (q_next_id q) @
     [CHR '','', CHR 0x22] @ ''head_id'' @ [CHR 0x22, CHR '':''] @ dec (q_head_id q) @ ''}''"

definition queue_read_file :: "path \<Rightarrow> string \<Rightarrow> Queue \<Rightarrow> string list \<Rightarrow> bytes fs_result" where
  "queue_read_file p name q rest =
     (case rest of
        [h] \<Rightarrow>
          if h = ''head'' then
            Ok (case get_next_unacknowledged q of Some mid \<Rightarrow> mid | None \<Rightarrow> ''empty'')
          else if h = ''tail'' then Ok (format_message_id (q_next_id q))
          else Err (NotFound p)
      | [a, b] \<Rightarrow>
          if a = ''messages'' then and_then (get_message b q) (\<lambda>m. Ok (msg_data m))
          else if a = ''metadata'' \<and> b = ''count'' then Ok (dec (get_count q))
          else if a = ''metadata'' \<and> b = ''config'' then Ok (queue_config name q)
          else Err (NotFound p)
      | _ \<Rightarrow> Err (NotFound p))"

definition queue_read :: "path \<Rightarrow> int \<Rightarrow> int \<Rightarrow> (QueueFS, bytes) fs_op" where
  "queue_read p offset sz now fs =
     (let (name, rest) = parse_queue_path p
      in (if rest = [] then Err (IsDirectory p)
          else and_then (ensure_queue_exists fs name) (\<lambda>_.
            and_then (get_queue fs name) (\<lambda>q.
            and_then (queue_read_file p name q rest) (\<lambda>data.
            read_slice data offset sz))), fs))"

definition queue_stat_file ::
    "time \<Rightarrow> path \<Rightarrow> string \<Rightarrow> Queue \<Rightarrow> string list \<Rightarrow> FileMetadata fs_result" where
  "queue_stat_file now p name q rest =
     (case rest of
        [h] \<Rightarrow>
          if h = ''head'' \<or> h = ''tail'' then Ok (metadata_file now p 0) else Err (NotFound p)
      | [a, b] \<Rightarrow>
          if a = ''messages'' then
            and_then (get_message b q) (\<lambda>m. Ok (metadata_file now p (length (msg_data m))))
          else if a = ''metadata'' \<and> b = ''count'' then
            Ok (metadata_file now p (length (dec (get_count q))))
          else if a = ''metadata'' \<and> b = ''config'' then
            Ok (metadata_file now p (length (queue_config name q)))
          else Err (NotFound p)
      | _ \<Rightarrow> Err (NotFound p))"

definition queue_stat :: "path \<Rightarrow> (QueueFS, FileMetadata) fs_op" where
  "queue_stat p now fs =
     (let (name, rest) = parse_queue_path p
      in (and_then (ensure_queue_exists fs name) (\<lambda>_.
            if rest = [] then Ok (metadata_directory now p)
            else and_then (get_queue fs name) (\<lambda>q. queue_stat_file now p name q rest)), fs))"

definition queue_create :: "path \<Rightarrow> (QueueFS, unit) fs_op" where
  "queue_create p now fs = (Err (NotSupported ''create not supported in queuefs''), fs)"

definition queue_put :: "string \<Rightarrow> Queue \<Rightarrow> QueueFS \<Rightarrow> QueueFS" where
  "queue_put name q fs = fs\<lparr>qf_queues := hm_insert (=) (qf_queues fs) name q\<rparr>"

definition queue_ack :: "string \<Rightarrow> string \<Rightarrow> bytes \<Rightarrow> int \<Rightarrow> flags \<Rightarrow> (QueueFS, nat) fs_op" where
  "queue_ack name mid data offset flags now fs =
     (if offset \<noteq> 0 \<or> \<not> flags_is_empty flags
      then (Err (InvalidInput ''offset and flags not supported for ack''), fs)
      else (case utf8_error 0 data of
          Some e \<Rightarrow> (Err (InvalidUtf8 (utf8_error_message e)), fs)
        | None \<Rightarrow>
            if trim data \<noteq> ''done''
            then (Err (InvalidInput (''must write '' @ [CHR 0x27] @ ''done'' @ [CHR 0x27] @
              '' to acknowledge'')), fs)
            else (case hm_get (=) (qf_queues fs) name of
                None \<Rightarrow> (Err (qf_not_found name), fs)
              | Some q \<Rightarrow>
                  (case dequeue mid q of
                     (Ok _, q') \<Rightarrow> (Ok (length data), queue_put name q' fs)
                   | (Err x, q') \<Rightarrow> (Err x, queue_put name q' fs)
                   | (Panic, q') \<Rightarrow> (Panic, queue_put name q' fs)
                   | (Hang, q') \<Rightarrow> (Hang, queue_put name q' fs)))))"

definition queue_write :: "path \<Rightarrow> bytes \<Rightarrow> int \<Rightarrow> flags \<Rightarrow> (QueueFS, nat) fs_op" where
  "queue_write p data offset flags now fs =
     (let (name, rest) = parse_queue_path p
      in if rest = [] then (Err (IsDirectory p), fs)
         else if \<not> hm_contains (=) (qf_queues fs) name then (Err (qf_not_found name), fs)
         else if rest = [''tail''] then
           (case hm_get (=) (qf_queues fs) name of
              None \<Rightarrow> (Err (qf_not_found name), fs)
            | Some q \<Rightarrow> (let (mid, q') = enqueue data q in (Ok (length mid), queue_put name q' fs)))
         else (case rest of
             [a, mid] \<Rightarrow>
               if a = ''.ack'' then queue_ack name mid data offset flags now fs
               else (Err (NotSupported ''write only supported on tail and .ack paths''), fs)
           | _ \<Rightarrow> (Err (NotSupported ''write only supported on tail and .ack paths''), fs)))"

definition queue_mkdir :: "path \<Rightarrow> mode \<Rightarrow> (QueueFS, unit) fs_op" where
  "queue_mkdir p perm now fs =
     (let (name, rest) = parse_queue_path p
      in if name = [] then (Err (InvalidInput ''invalid queue name''), fs)
         else if rest \<noteq> [] then (Err (NotSupported ''nested directories not supported''), fs)
         else if hm_contains (=) (qf_queues fs) name then (Err (AlreadyExists p), fs)
         else (Ok (), queue_put name queue_new fs))"

definition queue_read_dir :: "path \<Rightarrow> (QueueFS, FileMetadata list) fs_op" where
  "queue_read_dir p now fs =
     (let (name, rest) = parse_queue_path p; base = ''/'' @ name
      in (if rest = [] \<and> name = [] then
            Ok (map (\<lambda>(n, _). metadata_directory now (''/'' @ n)) (qf_queues fs))
          else and_then (ensure_queue_exists fs name) (\<lambda>_.
            if rest = [] then
              Ok [metadata_file now (base @ ''/head'') 0, metadata_file now (base @ ''/tail'') 0,
                  metadata_directory now (base @ ''/messages''),
                  metadata_directory now (base @ ''/metadata''),
                  metadata_directory now (base @ ''/.ack'')]
            else if rest = [''messages''] then
              and_then (get_queue fs name) (\<lambda>q.
                Ok (map (\<lambda>(_, m). metadata_file now (base @ ''/messages/'' @ msg_id m)
                      (length (msg_data m)))
                  (filter (\<lambda>(_, m). \<not> msg_acknowledged m) (q_messages q))))
            else if rest = [''metadata''] then
              and_then (get_queue fs name) (\<lambda>q.
                Ok [metadata_file now (base @ ''/metadata/count'') (length (dec (get_count q))),
                    metadata_file now (base @ ''/metadata/config'') (length (queue_config name q))])
            else if rest = [''.ack''] then Ok []
            else Err (NotFound p)), fs))"

definition queue_remove :: "path \<Rightarrow> (QueueFS, unit) fs_op" where
  "queue_remove p now fs =
     (let (name, rest) = parse_queue_path p
      in if rest \<noteq> [] then (Err (NotSupported ''cannot remove queue components''), fs)
         else if hm_contains (=) (qf_queues fs) name
         then (Ok (), fs\<lparr>qf_queues := hm_remove (=) (qf_queues fs) name\<rparr>)
         else (Err (NotFound p), fs))"

definition queue_remove_all :: "path \<Rightarrow> (QueueFS, unit) fs_op" where
  "queue_remove_all p now fs = queue_remove p now fs"

definition queue_rename :: "path \<Rightarrow> path \<Rightarrow> (QueueFS, unit) fs_op" where
  "queue_rename old new now fs = (Err (NotSupported ''rename not supported in queuefs''), fs)"

definition queue_chmod :: "path \<Rightarrow> mode \<Rightarrow> (QueueFS, unit) fs_op" where
  "queue_chmod p m now fs = (Err (NotSupported ''chmod not supported in queuefs''), fs)"

definition queue_truncate :: "path \<Rightarrow> nat \<Rightarrow> (QueueFS, unit) fs_op" where
  "queue_truncate p n now fs = (Err (NotSupported ''truncate not supported in queuefs''), fs)"

definition queue_touch :: "path \<Rightarrow> (QueueFS, unit) fs_op" where
  "queue_touch p now fs = (Err (NotSupported ''touch not supported in queuefs''), fs)"

definition queue_fs :: "QueueFS FileSystem" where
  "queue_fs = \<lparr>fs_read = queue_read, fs_stat = queue_stat, fs_create = queue_create,
     fs_write = queue_write, fs_mkdir = queue_mkdir, fs_read_dir = queue_read_dir,
     fs_remove = queue_remove, fs_remove_all = queue_remove_all, fs_rename = queue_rename,
     fs_chmod = queue_chmod, fs_truncate = queue_truncate, fs_touch = queue_touch,
     fs_readlink = default_readlink, fs_symlink = default_symlink,
     fs_get_xattr = default_get_xattr, fs_set_xattr = default_set_xattr,
     fs_remove_xattr = default_remove_xattr, fs_list_xattr = default_list_xattr\<rparr>"

subsection \<open>One queue is a FIFO\<close>

definition queue_pending :: "Queue \<Rightarrow> (string \<times> bytes) list" where
  "queue_pending q =
     map (\<lambda>(i, m). (i, msg_data m)) (filter (\<lambda>(_, m). \<not> msg_acknowledged m) (q_messages q))"

text \<open>How many more messages get a six-digit identifier.\<close>

definition queue_room :: "Queue \<Rightarrow> nat" where
  "queue_room q = 10 ^ 6 - q_next_id q"

definition queue_inv :: "Queue \<Rightarrow> bool" where
  "queue_inv q \<longleftrightarrow> bt_inv (q_messages q) \<and> 1 \<le> q_next_id q \<and>
     (\<forall>(i, m) \<in> set (q_messages q).
       msg_id m = i \<and> (\<exists>n. 1 \<le> n \<and> n < q_next_id q \<and> i = format_message_id n))"

lemma first_unack_pending:
  "first_unacknowledged ms =
     (case filter (\<lambda>(_, m). \<not> msg_acknowledged m) ms of [] \<Rightarrow> None | (i, _) # _ \<Rightarrow> Some i)"
  by (induction ms) auto

lemma format_message_id_less: "a < b \<Longrightarrow> b < 10 ^ 6 \<Longrightarrow> format_message_id a < format_message_id b"
proof -
  have six: "Suc 5 = 6" by simp
  show "a < b \<Longrightarrow> b < 10 ^ 6 \<Longrightarrow> format_message_id a < format_message_id b"
    unfolding format_message_id_def using pad_dec_less [of a b 5] unfolding six .
qed

lemma queue_keys_less:
  assumes "queue_inv q" "q_next_id q < 10 ^ 6"
  shows "\<forall>(k, _) \<in> set (q_messages q). k < format_message_id (q_next_id q)"
proof safe
  fix k m assume "(k, m) \<in> set (q_messages q)"
  then obtain n where "n < q_next_id q" "k = format_message_id n"
    using assms(1) unfolding queue_inv_def by blast
  with assms(2) show "k < format_message_id (q_next_id q)" by (blast intro: format_message_id_less)
qed

lemma enqueue_fresh:
  assumes "queue_inv q" "q_next_id q < 10 ^ 6"
  shows "q_messages (snd (enqueue d q)) = q_messages q @ [(format_message_id (q_next_id q),
      \<lparr>msg_id = format_message_id (q_next_id q), msg_data = d, msg_acknowledged = False\<rparr>)]"
    and "q_next_id (snd (enqueue d q)) = Suc (q_next_id q)"
proof -
  have "\<forall>(k, _) \<in> set (q_messages q). k < format_message_id (q_next_id q)"
    by (rule queue_keys_less [OF assms])
  then show "q_messages (snd (enqueue d q)) = q_messages q @ [(format_message_id (q_next_id q),
      \<lparr>msg_id = format_message_id (q_next_id q), msg_data = d, msg_acknowledged = False\<rparr>)]"
    by (simp add: enqueue_def next_message_id_def bt_insert_append)
  show "q_next_id (snd (enqueue d q)) = Suc (q_next_id q)"
    using assms(2) by (simp add: enqueue_def next_message_id_def)
qed

lemma bt_inv_snoc: "bt_inv (m @ [(k, v)]) \<longleftrightarrow> bt_inv m \<and> (\<forall>(k', _) \<in> set m. k' < k)"
  by (induction m) auto

lemma enqueue_inv:
  assumes "queue_inv q" "q_next_id q < 10 ^ 6"
  shows "queue_inv (snd (enqueue d q))"
proof -
  have "msg_id m = i \<and> (\<exists>n. 1 \<le> n \<and> n < Suc (q_next_id q) \<and> i = format_message_id n)"
    if "(i, m) \<in> set (q_messages q)" for i m
    using that assms(1) unfolding queue_inv_def by (blast intro: less_SucI)
  then show ?thesis
    using assms(1) queue_keys_less [OF assms] unfolding queue_inv_def enqueue_fresh [OF assms]
    by (auto simp: bt_inv_snoc)
qed

lemma bt_insert_update:
  "bt_inv m \<Longrightarrow> bt_get m k = Some v \<Longrightarrow>
     bt_insert m k v' = map (\<lambda>(i, x). (i, if i = k then v' else x)) m"
proof (induction m)
  case (Cons kv m)
  obtain c w where kv: "kv = (c, w)" by (cases kv)
  have "map (\<lambda>(i, x). (i, if i = c then v' else x)) m = m" if "\<forall>(k', _) \<in> set m. c < k'"
    using that by (intro map_idI) auto
  moreover have "c < k" if "c \<noteq> k"
    using that Cons.prems kv by (auto simp: bt_get_map_of dest!: map_of_SomeD)
  ultimately show ?case using Cons kv by (auto split: if_splits)
qed simp

text \<open>Acknowledging marks the one message; the others keep their place.\<close>

lemma dequeue_messages:
  assumes "queue_inv q" "bt_get (q_messages q) i = Some m"
  shows "fst (dequeue i q) = Ok ()"
    and "q_messages (snd (dequeue i q)) =
      map (\<lambda>(k, x). (k, if k = i then m\<lparr>msg_acknowledged := True\<rparr> else x)) (q_messages q)"
    and "q_next_id (snd (dequeue i q)) = q_next_id q"
  using assms bt_insert_update [of "q_messages q" i m]
  by (simp_all add: dequeue_def queue_inv_def)

lemma bt_get_in: "bt_get m k = Some v \<Longrightarrow> (k, v) \<in> set m"
  by (simp add: bt_get_map_of map_of_SomeD)

lemma dequeue_inv: "queue_inv q \<Longrightarrow> queue_inv (snd (dequeue i q))"
proof (cases "bt_get (q_messages q) i")
  case (Some m)
  assume inv: "queue_inv q"
  have m: "(i, m) \<in> set (q_messages q)" using Some by (rule bt_get_in)
  have srt: "bt_inv (map (\<lambda>(k, x). (k, f k x)) ms) = bt_inv ms" for f :: "string \<Rightarrow> Message \<Rightarrow> Message" and ms
    by (induction ms) auto
  from inv m show ?thesis
    unfolding queue_inv_def dequeue_messages [OF inv Some] srt by fastforce
qed (simp add: dequeue_def)

lemma filter_pending_ack:
  assumes "bt_inv ms" "filter (\<lambda>(_, m). \<not> msg_acknowledged m) ms = (i, m) # ps"
  shows "bt_get ms i = Some m \<and> filter (\<lambda>(_, m). \<not> msg_acknowledged m)
      (map (\<lambda>(k, x). (k, if k = i then m\<lparr>msg_acknowledged := True\<rparr> else x)) ms) = ps"
  using assms
proof (induction ms)
  case (Cons km ms)
  obtain k x where km: "km = (k, x)" by (cases km)
  show ?case
  proof (cases "msg_acknowledged x")
    case True
    with Cons.prems km have f: "filter (\<lambda>(_, m). \<not> msg_acknowledged m) ms = (i, m) # ps" by simp
    then have "(i, m) \<in> set ms" by (metis filter_is_subset list.set_intros(1) subsetD)
    with Cons.prems km have "k \<noteq> i" by auto
    with Cons km True f show ?thesis by simp
  next
    case False
    with Cons.prems km have k: "k = i" "x = m" by auto
    then have "map (\<lambda>(k, x). (k, if k = i then m\<lparr>msg_acknowledged := True\<rparr> else x)) ms = ms"
      using Cons.prems km by (intro map_idI) auto
    with False k Cons.prems km show ?thesis by simp
  qed
qed simp

lemma queue_pending_Cons:
  assumes "queue_inv q" "queue_pending q = (i, d) # ps"
  obtains m where "bt_get (q_messages q) i = Some m" "msg_data m = d" "\<not> msg_acknowledged m"
    "queue_pending (snd (dequeue i q)) = ps"
proof -
  obtain m ms where f: "filter (\<lambda>(_, m). \<not> msg_acknowledged m) (q_messages q) = (i, m) # ms"
    and d: "msg_data m = d" and ps: "ps = map (\<lambda>(i, m). (i, msg_data m)) ms"
    using assms(2) unfolding queue_pending_def by (cases "filter (\<lambda>(_, m). \<not> msg_acknowledged m) (q_messages q)") auto
  have "bt_inv (q_messages q)" using assms(1) by (simp add: queue_inv_def)
  note ak = filter_pending_ack [OF this f]
  have "(i, m) \<in> set (filter (\<lambda>(_, m). \<not> msg_acknowledged m) (q_messages q))" by (simp add: f)
  then have "\<not> msg_acknowledged m" by simp
  moreover have "queue_pending (snd (dequeue i q)) = ps"
    using ak by (simp add: queue_pending_def dequeue_messages [OF assms(1) ak [THEN conjunct1]] ps)
  ultimately show thesis using that ak d by blast
qed

interpretation fifo: message_queue queue_pending queue_room queue_inv
  "\<lambda>d q. snd (enqueue d q)" get_next_unacknowledged
  "\<lambda>i q. case get_message i q of Ok m \<Rightarrow> Some (msg_data m) | _ \<Rightarrow> None"
  "\<lambda>i q. snd (dequeue i q)"
proof unfold_locales
  fix q d assume q: "queue_inv q" "0 < queue_room q"
  then have n: "q_next_id q < 10 ^ 6" by (simp add: queue_room_def)
  show "queue_inv (snd (enqueue d q)) \<and> queue_room q = Suc (queue_room (snd (enqueue d q))) \<and>
      (\<exists>i. queue_pending (snd (enqueue d q)) = queue_pending q @ [(i, d)])"
    using enqueue_inv [OF q(1) n] n
    by (simp add: queue_pending_def queue_room_def enqueue_fresh [OF q(1) n] Suc_diff_Suc)
next
  fix q assume "queue_inv q"
  show "get_next_unacknowledged q = (case queue_pending q of [] \<Rightarrow> None | (i, _) # _ \<Rightarrow> Some i)"
    by (auto simp: get_next_unacknowledged_def first_unack_pending queue_pending_def split: list.splits)
next
  fix q i d ps assume q: "queue_inv q" "queue_pending q = (i, d) # ps"
  from queue_pending_Cons [OF this] obtain m where m: "bt_get (q_messages q) i = Some m"
    "msg_data m = d" "\<not> msg_acknowledged m" "queue_pending (snd (dequeue i q)) = ps" .
  then show "(case get_message i q of Ok m \<Rightarrow> Some (msg_data m) | _ \<Rightarrow> None) = Some d"
    by (simp add: get_message_def)
  show "queue_inv (snd (dequeue i q)) \<and> queue_room (snd (dequeue i q)) = queue_room q \<and>
      queue_pending (snd (dequeue i q)) = ps"
    using dequeue_inv [OF q(1)] m by (simp add: queue_room_def dequeue_messages [OF q(1) m(1)])
qed

subsection \<open>The file system offers the same FIFO per queue\<close>

text \<open>The client's calls for the queue \<open>n\<close>.\<close>

definition qfs_enq :: "string \<Rightarrow> time \<Rightarrow> bytes \<Rightarrow> QueueFS \<Rightarrow> QueueFS" where
  "qfs_enq n now d fs = snd (queue_write (render True [n, ''tail'']) d 0 0 now fs)"

definition qfs_head :: "string \<Rightarrow> time \<Rightarrow> QueueFS \<Rightarrow> string option" where
  "qfs_head n now fs =
     (case fst (queue_read (render True [n, ''head'']) 0 (- 1) now fs) of
        Ok i \<Rightarrow> if i = ''empty'' then None else Some i
      | _ \<Rightarrow> None)"

definition qfs_fetch :: "string \<Rightarrow> time \<Rightarrow> string \<Rightarrow> QueueFS \<Rightarrow> bytes option" where
  "qfs_fetch n now i fs =
     (case fst (queue_read (render True [n, ''messages'', i]) 0 (- 1) now fs) of
        Ok d \<Rightarrow> Some d | _ \<Rightarrow> None)"

definition qfs_ack :: "string \<Rightarrow> time \<Rightarrow> string \<Rightarrow> QueueFS \<Rightarrow> QueueFS" where
  "qfs_ack n now i fs = snd (queue_write (render True [n, ''.ack'', i]) ''done'' 0 0 now fs)"

definition qfs_pending :: "string \<Rightarrow> QueueFS \<Rightarrow> (string \<times> bytes) list" where
  "qfs_pending n fs = (case hm_get (=) (qf_queues fs) n of Some q \<Rightarrow> queue_pending q | None \<Rightarrow> [])"

definition qfs_room :: "string \<Rightarrow> QueueFS \<Rightarrow> nat" where
  "qfs_room n fs = (case hm_get (=) (qf_queues fs) n of Some q \<Rightarrow> queue_room q | None \<Rightarrow> 0)"

definition qfs_inv :: "string \<Rightarrow> QueueFS \<Rightarrow> bool" where
  "qfs_inv n fs \<longleftrightarrow> valid_name n \<and>
     (case hm_get (=) (qf_queues fs) n of Some q \<Rightarrow> queue_inv q | None \<Rightarrow> False)"

lemma parse_queue_render:
  "valid_names (n # rest) \<Longrightarrow> parse_queue_path (render True (n # rest)) = (n, rest)"
  by (simp add: parse_queue_path_def path_iter_def components_render lead_def comp_def)

lemma fixed_names [simp]:
  "valid_name ''head''" "valid_name ''tail''" "valid_name ''messages''" "valid_name ''.ack''"
  by (simp_all add: valid_name_def)

lemma valid_message_id: "valid_name (format_message_id k)"
  using pad_dec_no_sep [of 6 k]
  by (auto simp: valid_name_def format_message_id_def pad_zero_not_Nil)

lemma format_message_id_not_empty: "format_message_id k \<noteq> ''empty''"
proof
  assume e: "format_message_id k = ''empty''"
  then have "CHR ''m'' \<in> set (pad_zero 6 (dec k))" by (simp add: format_message_id_def)
  then have "CHR ''m'' \<in> set (dec k)" by (auto simp: pad_zero_def)
  then obtain d where "d < 10" "CHR ''m'' = digit d" using dec_digits by blast
  moreover have "digit_val (CHR ''m'') = None" by code_simp
  ultimately show False using digit_val_digit [of d] by simp
qed

lemma queue_put_get: "hm_get (=) (qf_queues (queue_put n q fs)) k =
    (if n = k then Some q else hm_get (=) (qf_queues fs) k)"
  by (simp add: queue_put_def str_map.hm_get_insert)

lemma queue_write_tail:
  assumes n: "valid_name n" and q: "hm_get (=) (qf_queues fs) n = Some q"
  shows "queue_write (render True [n, ''tail'']) d off fl now fs =
     (Ok (length (fst (enqueue d q))), queue_put n (snd (enqueue d q)) fs)"
  using n q parse_queue_render [of n "[''tail'']"]
  by (simp add: queue_write_def hm_contains_def split: prod.splits)

lemma queue_read_head:
  assumes n: "valid_name n" and q: "hm_get (=) (qf_queues fs) n = Some q"
  shows "fst (queue_read (render True [n, ''head'']) 0 (- 1) now fs) =
     Ok (case get_next_unacknowledged q of Some i \<Rightarrow> i | None \<Rightarrow> ''empty'')"
  using n q parse_queue_render [of n "[''head'']"]
  by (simp add: queue_read_def ensure_queue_exists_def get_queue_def hm_contains_def
      queue_read_file_def read_slice_all is_i64_def)

lemma queue_read_message:
  assumes n: "valid_name n" and q: "hm_get (=) (qf_queues fs) n = Some q"
    and "valid_name i" "get_message i q = Ok m"
  shows "fst (queue_read (render True [n, ''messages'', i]) 0 (- 1) now fs) = Ok (msg_data m)"
  using assms parse_queue_render [of n "[''messages'', i]"]
  by (simp add: queue_read_def ensure_queue_exists_def get_queue_def hm_contains_def
      queue_read_file_def read_slice_all is_i64_def)

lemma queue_write_ack:
  assumes n: "valid_name n" and q: "hm_get (=) (qf_queues fs) n = Some q"
    and "valid_name i" "fst (dequeue i q) = Ok ()"
  shows "queue_write (render True [n, ''.ack'', i]) ''done'' 0 0 now fs =
     (Ok 4, queue_put n (snd (dequeue i q)) fs)"
proof -
  have "utf8_error 0 ''done'' = None" "trim ''done'' = ''done''" "flags_is_empty 0" by code_simp+
  then show ?thesis
    using assms parse_queue_render [of n "[''.ack'', i]"]
    by (cases "dequeue i q") (simp add: queue_write_def queue_ack_def hm_contains_def)
qed

lemma queue_pending_id:
  assumes "queue_inv q" "queue_pending q = (i, d) # ps"
  obtains k where "i = format_message_id k"
proof -
  obtain m where "bt_get (q_messages q) i = Some m" using queue_pending_Cons [OF assms] by blast
  then have "(i, m) \<in> set (q_messages q)" by (rule bt_get_in)
  with assms(1) show thesis using that unfolding queue_inv_def by blast
qed

lemma qfs_invE:
  assumes "qfs_inv n fs"
  obtains q where "valid_name n" "hm_get (=) (qf_queues fs) n = Some q" "queue_inv q"
  using assms by (auto simp: qfs_inv_def split: option.splits)

interpretation qfs: message_queue "qfs_pending n" "qfs_room n" "qfs_inv n" "qfs_enq n now"
  "qfs_head n now" "qfs_fetch n now" "qfs_ack n now" for n now
proof unfold_locales
  fix fs d assume inv: "qfs_inv n fs" and room: "0 < qfs_room n fs"
  from inv obtain q where q: "valid_name n" "hm_get (=) (qf_queues fs) n = Some q" "queue_inv q"
    by (rule qfs_invE)
  with room have "0 < queue_room q" by (simp add: qfs_room_def)
  from fifo.enq [OF q(3) this, of d] q show "qfs_inv n (qfs_enq n now d fs) \<and>
      qfs_room n fs = Suc (qfs_room n (qfs_enq n now d fs)) \<and>
      (\<exists>i. qfs_pending n (qfs_enq n now d fs) = qfs_pending n fs @ [(i, d)])"
    by (simp add: qfs_inv_def qfs_room_def qfs_pending_def qfs_enq_def queue_write_tail queue_put_get)
next
  fix fs assume "qfs_inv n fs"
  then obtain q where q: "valid_name n" "hm_get (=) (qf_queues fs) n = Some q" "queue_inv q"
    by (rule qfs_invE)
  have "i \<noteq> ''empty''" if "queue_pending q = (i, d) # ps" for i d ps
    by (rule queue_pending_id [OF q(3) that]) (simp add: format_message_id_not_empty)
  then show "qfs_head n now fs = (case qfs_pending n fs of [] \<Rightarrow> None | (i, _) # _ \<Rightarrow> Some i)"
    using q fifo.head [OF q(3)]
    by (auto simp: qfs_head_def queue_read_head qfs_pending_def split: list.splits)
next
  fix fs i d ps assume inv: "qfs_inv n fs" and p: "qfs_pending n fs = (i, d) # ps"
  from inv obtain q where q: "valid_name n" "hm_get (=) (qf_queues fs) n = Some q" "queue_inv q"
    by (rule qfs_invE)
  with p have qp: "queue_pending q = (i, d) # ps" by (simp add: qfs_pending_def)
  obtain m where m: "bt_get (q_messages q) i = Some m" "msg_data m = d" "\<not> msg_acknowledged m"
    using queue_pending_Cons [OF q(3) qp] by blast
  have i: "valid_name i" by (rule queue_pending_id [OF q(3) qp]) (simp add: valid_message_id)
  have "get_message i q = Ok m" using m by (simp add: get_message_def)
  with q i m show "qfs_fetch n now i fs = Some d"
    by (simp add: qfs_fetch_def queue_read_message)
  have "fst (dequeue i q) = Ok ()" using dequeue_messages [OF q(3) m(1)] by simp
  with q i fifo.ack [OF q(3) qp] show "qfs_inv n (qfs_ack n now i fs) \<and>
      qfs_room n (qfs_ack n now i fs) = qfs_room n fs \<and> qfs_pending n (qfs_ack n now i fs) = ps"
    by (simp add: qfs_inv_def qfs_room_def qfs_pending_def qfs_ack_def queue_write_ack queue_put_get)
qed

subsection \<open>Reachable states\<close>

text \<open>Queue names are distinct and not empty; messages are sorted and know their identifier.\<close>

definition queue_wf :: "Queue \<Rightarrow> bool" where
  "queue_wf q \<longleftrightarrow> bt_inv (q_messages q) \<and> (\<forall>(i, m) \<in> set (q_messages q). msg_id m = i)"

definition queuefs_inv :: "QueueFS \<Rightarrow> bool" where
  "queuefs_inv fs \<longleftrightarrow> hm_inv (=) (qf_queues fs) \<and>
     (\<forall>n q. hm_get (=) (qf_queues fs) n = Some q \<longrightarrow> n \<noteq> [] \<and> queue_wf q)"

lemma queuefs_inv_put:
  "queuefs_inv fs \<Longrightarrow> n \<noteq> [] \<Longrightarrow> queue_wf q \<Longrightarrow> queuefs_inv (queue_put n q fs)"
  unfolding queuefs_inv_def queue_put_get by (simp add: queue_put_def str_map.hm_inv_insert)

lemma set_bt_insert_cases:
  "(k', v') \<in> set (bt_insert m k v) \<Longrightarrow> (k', v') = (k, v) \<or> (k', v') \<in> set m"
  by (induction m) (auto split: if_splits)

lemma enqueue_wf: "queue_wf q \<Longrightarrow> queue_wf (snd (enqueue d q))"
  by (auto simp: queue_wf_def enqueue_def next_message_id_def bt_inv_insert
      dest!: set_bt_insert_cases)

lemma dequeue_wf: "queue_wf q \<Longrightarrow> queue_wf (snd (dequeue i q))"
proof (cases "bt_get (q_messages q) i")
  case (Some m)
  assume q: "queue_wf q"
  with bt_get_in [OF Some] have "msg_id m = i" by (auto simp: queue_wf_def)
  with q Some show ?thesis
    by (auto simp: queue_wf_def dequeue_def bt_inv_insert dest!: set_bt_insert_cases)
qed (simp add: dequeue_def)

lemma queue_quiet [simp]:
  "snd (queue_read p off sz now fs) = fs" "snd (queue_stat p now fs) = fs"
  "snd (queue_read_dir p now fs) = fs"
  by (simp_all add: queue_read_def queue_stat_def queue_read_dir_def Let_def case_prod_beta)

lemma queuefs_get: "queuefs_inv fs \<Longrightarrow> hm_get (=) (qf_queues fs) n = Some q \<Longrightarrow> n \<noteq> [] \<and> queue_wf q"
  by (simp add: queuefs_inv_def)

lemma queue_ack_inv:
  "queuefs_inv fs \<Longrightarrow> queuefs_inv (snd (queue_ack n i d off fl now fs))"
  using dequeue_wf [of _ i]
  by (auto simp: queue_ack_def dest: queuefs_get intro!: queuefs_inv_put
      split: option.splits prod.splits outcome.splits) (metis queuefs_get snd_conv)+

lemma queue_write_inv:
  assumes inv: "queuefs_inv fs"
  shows "queuefs_inv (snd (queue_write p d off fl now fs))"
proof -
  obtain n rest where p: "parse_queue_path p = (n, rest)" by fastforce
  have "queuefs_inv (queue_put n (snd (enqueue d q)) fs)"
    if "hm_get (=) (qf_queues fs) n = Some q" for q
    using queuefs_get [OF inv that] enqueue_wf inv by (intro queuefs_inv_put) auto
  then show ?thesis
    using inv queue_ack_inv [OF inv]
    by (auto simp: queue_write_def p split: option.splits prod.splits list.splits)
qed

lemma queue_mkdir_inv: "queuefs_inv fs \<Longrightarrow> queuefs_inv (snd (queue_mkdir p m now fs))"
  by (auto simp: queue_mkdir_def queue_wf_def queue_new_def intro!: queuefs_inv_put split: prod.splits)

lemma queue_remove_inv: "queuefs_inv fs \<Longrightarrow> queuefs_inv (snd (queue_remove p now fs))"
  by (auto simp: queue_remove_def queuefs_inv_def str_map.hm_inv_remove str_map.hm_get_remove
      split: prod.splits)

lemma queue_step_inv: "fs_step queue_fs s t \<Longrightarrow> queuefs_inv s \<Longrightarrow> queuefs_inv t"
  by (induction rule: fs_step.induct)
    (simp_all add: queue_fs_def queue_write_inv queue_mkdir_inv queue_remove_inv
      queue_remove_all_def queue_create_def
      queue_rename_def queue_chmod_def queue_truncate_def queue_touch_def default_readlink_def
      default_symlink_def default_get_xattr_def default_set_xattr_def default_remove_xattr_def
      default_list_xattr_def)

lemma queuefs_new_inv: "queuefs_inv queuefs_new"
  by (simp add: queuefs_inv_def queuefs_new_def)

subsection \<open>Properties\<close>



text \<open>
  Beyond six digits the order breaks: identifiers are compared as strings, so on an empty
  queue whose next identifier is 999999, of two messages written one after the other the second
  (\<open>1000000\<close>) is delivered before the first (\<open>999999\<close>).
\<close>

theorem queue_order_breaks:
  assumes "q_next_id q = 999999" "q_messages q = []"
  shows "queue_pending (snd (enqueue d2 (snd (enqueue d1 q)))) =
    [(''1000000'', d2), (''999999'', d1)]"
proof -
  have ids: "format_message_id 999999 = ''999999''" "format_message_id 1000000 = ''1000000''"
    "''1000000'' < ''999999''"
    by (simp_all add: format_message_id_def dec.simps pad_zero_def digit_def less_char_def)
  show ?thesis
    using assms ids by (simp add: enqueue_def next_message_id_def queue_pending_def u64_add_def)
qed

theorem queue_order_breaks_witness:
  "get_next_unacknowledged (snd (enqueue ''b'' (snd (enqueue ''a''
     \<lparr>q_next_id = 999999, q_head_id = 1, q_messages = []\<rparr>)))) = Some ''1000000''"
proof -
  let ?q = "\<lparr>q_next_id = 999999, q_head_id = 1, q_messages = []\<rparr>"
  have "queue_pending (snd (enqueue ''b'' (snd (enqueue ''a'' ?q)))) =
      [(''1000000'', ''b''), (''999999'', ''a'')]"
    by (rule queue_order_breaks) simp_all
  then show ?thesis
    by (auto simp: get_next_unacknowledged_def first_unack_pending queue_pending_def
        split: list.splits)
qed

text \<open>
  In every state QueueFS can reach the queues are well formed and none has the empty name;
  hence the root, which parses to the empty queue name, can be listed but never statted: \<open>stat\<close>
  of \<open>/\<close> always answers \<open>NotFound\<close>.
\<close>

theorem queue_reachable_root:
  "fs_reachable queue_fs queuefs_new fs \<Longrightarrow>
     queuefs_inv fs \<and> fst (queue_stat ''/'' now fs) = Err (NotFound ''/'') \<and>
     is_ok (fst (queue_read_dir ''/'' now fs))"
proof -
  assume "fs_reachable queue_fs queuefs_new fs"
  then have inv: "queuefs_inv fs"
    by (rule fs_reachable_inv) (auto intro: queuefs_new_inv queue_step_inv)
  have p: "parse_queue_path ''/'' = ([], [])" by code_simp
  from inv have "\<not> hm_contains (=) (qf_queues fs) []"
    using queuefs_get [of fs "[]"]
    by (cases "hm_get (=) (qf_queues fs) []") (auto simp: hm_contains_def)
  with inv show ?thesis
    by (simp add: queue_stat_def queue_read_dir_def p ensure_queue_exists_def qf_not_found_def)
qed

theorem queue_reachable_root_witness:
  "fst (queue_stat ''/'' 1 (snd (queue_mkdir ''/q'' 493 1 queuefs_new))) = Err (NotFound ''/'')"
proof -
  have "fs_reachable queue_fs queuefs_new (snd (fs_mkdir queue_fs ''/q'' 493 1 queuefs_new))"
    by (rule fs_reachable.step [OF fs_reachable.start fs_step.mkdir])
  from queue_reachable_root [OF this, of 1] show ?thesis by (simp add: queue_fs_def)
qed

end
