(* ===== verification/Stream_FS.thy ===== *)
theory Stream_FS
  imports Fs_Contract
begin

text \<open>
  The crate \<open>racfs-plugin-streamfs\<close>: streams of numbered messages as directories, kept in a
  ring buffer, with optional compression of the message bodies
  (\<open>racfs-core/src/compression.rs\<close>). The crate \<open>zstd\<close> is the parameter \<open>Z\<close>.
\<close>

subsection \<open>Compression\<close>

datatype CompressionLevel = Level_Default | Level_Fast | Level_Best | Level nat

definition zstd_level :: "CompressionLevel \<Rightarrow> int" where
  "zstd_level l = (case l of Level_Default \<Rightarrow> 3 | Level_Fast \<Rightarrow> 1 | Level_Best \<Rightarrow> 19
     | Level n \<Rightarrow> max 1 (min 22 (int n)))"

record Compression =
  co_compress :: "bytes \<Rightarrow> bytes fs_result"
  co_decompress :: "bytes \<Rightarrow> bytes fs_result"
  co_name :: string

text \<open>\<open>zstd::encode_all\<close> and \<open>decode_all\<close>: the bytes, or the text of an error.\<close>

record zstd_api =
  z_encode :: "bytes \<Rightarrow> int \<Rightarrow> string + bytes"
  z_decode :: "bytes \<Rightarrow> string + bytes"

definition zstd_compression :: "zstd_api \<Rightarrow> CompressionLevel \<Rightarrow> Compression" where
  "zstd_compression Z l =
     \<lparr>co_compress = (\<lambda>d. case z_encode Z d (zstd_level l) of
          Inr z \<Rightarrow> Ok z | Inl e \<Rightarrow> Err (Io (''zstd compress: '' @ e))),
      co_decompress = (\<lambda>z. case z_decode Z z of
          Inr d \<Rightarrow> Ok d | Inl e \<Rightarrow> Err (Io (''zstd decompress: '' @ e))),
      co_name = ''zstd''\<rparr>"

subsection \<open>State\<close>

datatype MessageStorage = Raw bytes | Compressed nat bytes

fun storage_len :: "MessageStorage \<Rightarrow> nat" where
  "storage_len (Raw d) = length d"
| "storage_len (Compressed n d) = n"

record StreamConfig =
  sfc_buffer_size :: nat
  sfc_history_size :: nat
  sfc_max_streams :: nat
  sfc_compression :: "Compression option"

definition stream_config_default :: StreamConfig where
  "stream_config_default = \<lparr>sfc_buffer_size = 1000, sfc_history_size = 100, sfc_max_streams = 100,
     sfc_compression = None\<rparr>"

record Stream =
  str_name :: string
  str_messages :: "(nat \<times> MessageStorage) list"
  str_head :: nat
  str_tail :: nat

definition stream_new :: "string \<Rightarrow> Stream" where
  "stream_new n = \<lparr>str_name = n, str_messages = [], str_head = 1, str_tail = 1\<rparr>"

record StreamFS =
  sf_config :: StreamConfig
  sf_streams :: "(string \<times> Stream) list"

definition streamfs_new :: "StreamConfig \<Rightarrow> StreamFS" where
  "streamfs_new c = \<lparr>sf_config = c, sf_streams = []\<rparr>"

subsection \<open>Paths\<close>

datatype PathComponent =
    PC_Root | PC_StreamsDir | PC_StreamDir string | PC_DataDir string | PC_Message string nat
  | PC_Head string | PC_Tail string | PC_Config string

definition stream_normalize :: "path \<Rightarrow> path" where
  "stream_normalize p = (if starts_with p ''/'' then p else push ''/'' p)"

text \<open>\<open>trim_end_matches(suffix)\<close>: the suffix is taken off as often as it occurs.\<close>

function trim_end_str :: "string \<Rightarrow> string \<Rightarrow> string" where
  "trim_end_str suf s =
     (if suf \<noteq> [] \<and> ends_with s suf then trim_end_str suf (take (length s - length suf) s) else s)"
  by pat_completeness auto
termination by (relation "measure (\<lambda>(_, s). length s)") (auto simp: ends_with_def starts_with_iff intro!: diff_less)

declare trim_end_str.simps [simp del]

definition parse_stream_path :: "path \<Rightarrow> PathComponent option" where
  "parse_stream_path p =
     (case filter (\<lambda>s. s \<noteq> []) (split_on slash (trim_start_char slash p)) of
        [] \<Rightarrow> Some PC_Root
      | [a] \<Rightarrow> if a = ''streams'' then Some PC_StreamsDir else None
      | [a, n] \<Rightarrow> if a = ''streams'' then Some (PC_StreamDir n) else None
      | [a, n, f] \<Rightarrow>
          if a \<noteq> ''streams'' then None
          else if f = ''data'' then Some (PC_DataDir n)
          else if f = ''head'' then Some (PC_Head n)
          else if f = ''tail'' then Some (PC_Tail n)
          else if f = ''config'' then Some (PC_Config n)
          else None
      | [a, n, d, f] \<Rightarrow>
          if a = ''streams'' \<and> d = ''data'' \<and> ends_with f ''.msg''
          then map_option (PC_Message n) (parse_u64 (trim_end_str ''.msg'' f)) else None
      | _ \<Rightarrow> None)"

definition message_path :: "string \<Rightarrow> nat \<Rightarrow> path" where
  "message_path n i = ''/streams/'' @ n @ ''/data/'' @ pad_zero 6 (dec i) @ ''.msg''"

subsection \<open>Messages\<close>

definition message_storage_to_bytes :: "StreamConfig \<Rightarrow> MessageStorage \<Rightarrow> bytes fs_result" where
  "message_storage_to_bytes c st =
     (case st of
        Raw d \<Rightarrow> Ok d
      | Compressed _ d \<Rightarrow>
          and_then (ok_or (sfc_compression c) (InvalidInput ''compression not configured''))
            (\<lambda>co. co_decompress co d))"

definition bytes_to_message_storage :: "StreamConfig \<Rightarrow> bytes \<Rightarrow> MessageStorage fs_result" where
  "bytes_to_message_storage c data =
     (case sfc_compression c of
        Some co \<Rightarrow>
          and_then (co_compress co data) (\<lambda>z.
            if length data < 2 ^ 32 then Ok (Compressed (length data) z)
            else Err (InvalidInput ''message too large for compression format''))
      | None \<Rightarrow> Ok (Raw data))"

text \<open>The eviction loop: the first key goes until the buffer fits.\<close>

function evict :: "nat \<Rightarrow> Stream \<Rightarrow> Stream" where
  "evict cap s =
     (if length (str_messages s) > cap then
        (case str_messages s of
           (k, _) # _ \<Rightarrow>
             evict cap (s\<lparr>str_messages := bt_remove (str_messages s) k, str_head := u64_add k 1\<rparr>)
         | [] \<Rightarrow> s)
      else s)"
  by pat_completeness auto
termination
  by (relation "measure (\<lambda>(_, s). length (str_messages s))")
    (auto simp: bt_remove_def le_imp_less_Suc length_filter_le)

declare evict.simps [simp del]

definition put_message :: "StreamConfig \<Rightarrow> nat \<Rightarrow> MessageStorage \<Rightarrow> Stream \<Rightarrow> Stream" where
  "put_message c i stored s =
     evict (sfc_buffer_size c)
       (s\<lparr>str_messages := bt_insert (str_messages s) i stored,
          str_tail := if i \<ge> str_tail s then u64_add i 1 else str_tail s\<rparr>)"

definition set_stream :: "string \<Rightarrow> Stream \<Rightarrow> StreamFS \<Rightarrow> StreamFS" where
  "set_stream n s fs = fs\<lparr>sf_streams := bt_insert (sf_streams fs) n s\<rparr>"

text \<open>The window \<open>StreamFS::read\<close> computes: unsigned addition that wraps.\<close>

definition stream_slice :: "bytes \<Rightarrow> int \<Rightarrow> int \<Rightarrow> bytes fs_result" where
  "stream_slice data offset sz =
     (let start = as_usize (max offset 0);
          stop = (if sz < 0 then length data
                  else min (u64_add (as_usize offset) (as_usize sz)) (length data))
      in if start \<ge> length data then Ok [] else index_range data start stop)"

subsection \<open>Reading\<close>

definition stream_config_text :: "StreamConfig \<Rightarrow> Stream \<Rightarrow> string" where
  "stream_config_text c s =
     ''name='' @ str_name s @ [CHR 0x0A] @ ''buffer_size='' @ dec (sfc_buffer_size c) @ [CHR 0x0A] @
     ''head='' @ dec (str_head s) @ [CHR 0x0A] @ ''tail='' @ dec (str_tail s) @ [CHR 0x0A]"

definition stream_read :: "path \<Rightarrow> int \<Rightarrow> int \<Rightarrow> (StreamFS, bytes) fs_op" where
  "stream_read p offset sz now fs =
     (let q = stream_normalize p;
          get = (\<lambda>n. ok_or (bt_get (sf_streams fs) n) (NotFound q))
      in ((case parse_stream_path q of
             Some (PC_Message n i) \<Rightarrow>
               and_then (get n) (\<lambda>s.
               and_then (ok_or (bt_get (str_messages s) i) (NotFound q)) (\<lambda>stored.
               and_then (message_storage_to_bytes (sf_config fs) stored) (\<lambda>data.
               stream_slice data offset sz)))
           | Some (PC_Head n) \<Rightarrow> and_then (get n) (\<lambda>s. Ok (pad_zero 6 (dec (str_head s))))
           | Some (PC_Tail n) \<Rightarrow> and_then (get n) (\<lambda>s. Ok (pad_zero 6 (dec (str_tail s))))
           | Some (PC_Config n) \<Rightarrow> and_then (get n) (\<lambda>s. Ok (stream_config_text (sf_config fs) s))
           | _ \<Rightarrow> Err (NotFound q)), fs))"

definition stream_stat :: "path \<Rightarrow> (StreamFS, FileMetadata) fs_op" where
  "stream_stat p now fs =
     (let q = stream_normalize p;
          known = (\<lambda>n m. if bt_get (sf_streams fs) n \<noteq> None then Ok m else Err (NotFound q))
      in ((case parse_stream_path q of
             Some PC_Root \<Rightarrow> Ok (metadata_directory now ''/'')
           | Some PC_StreamsDir \<Rightarrow> Ok (metadata_directory now ''/streams'')
           | Some (PC_StreamDir n) \<Rightarrow> known n (metadata_directory now (''/streams/'' @ n))
           | Some (PC_DataDir n) \<Rightarrow> known n (metadata_directory now (''/streams/'' @ n @ ''/data''))
           | Some (PC_Message n i) \<Rightarrow>
               and_then (ok_or (bt_get (sf_streams fs) n) (NotFound q)) (\<lambda>s.
               and_then (ok_or (bt_get (str_messages s) i) (NotFound q)) (\<lambda>stored.
               Ok (metadata_file now (message_path n i) (storage_len stored))))
           | Some (PC_Head n) \<Rightarrow> known n (metadata_file now (''/streams/'' @ n @ ''/head'') 6)
           | Some (PC_Tail n) \<Rightarrow> known n (metadata_file now (''/streams/'' @ n @ ''/tail'') 6)
           | Some (PC_Config n) \<Rightarrow> known n (metadata_file now (''/streams/'' @ n @ ''/config'') 0)
           | None \<Rightarrow> Err (NotFound q)), fs))"

subsection \<open>Writing\<close>

text \<open>\<open>get_mut(..).ok_or(..)?\<close> and then an update of the stream.\<close>

definition with_stream :: "path \<Rightarrow> string \<Rightarrow> (Stream \<Rightarrow> 'a fs_result \<times> Stream) \<Rightarrow> StreamFS \<Rightarrow> 'a fs_result \<times> StreamFS" where
  "with_stream q n f fs =
     (case bt_get (sf_streams fs) n of
        None \<Rightarrow> (Err (NotFound q), fs)
      | Some s \<Rightarrow> (let (r, s') = f s in (r, set_stream n s' fs)))"

definition stream_create :: "path \<Rightarrow> (StreamFS, unit) fs_op" where
  "stream_create p now fs =
     (let q = stream_normalize p
      in case parse_stream_path q of
           Some (PC_Message n i) \<Rightarrow>
             with_stream q n (\<lambda>s. (Ok (), s\<lparr>str_messages := bt_insert (str_messages s) i (Raw []),
               str_tail := if i \<ge> str_tail s then u64_add i 1 else str_tail s\<rparr>)) fs
         | Some (PC_Head n) \<Rightarrow> with_stream q n (\<lambda>s. (Ok (), s\<lparr>str_head := 1\<rparr>)) fs
         | _ \<Rightarrow> (Err (PermissionDenied q), fs))"

text \<open>The new contents of an overwritten message.\<close>

definition message_overwrite :: "bytes \<Rightarrow> bytes \<Rightarrow> int \<Rightarrow> bytes fs_result" where
  "message_overwrite msg data offset =
     (let off = as_usize offset; stop = u64_add off (length data) in
      and_then (if off > length msg then vec_resize off msg else Ok msg) (\<lambda>m1.
      and_then (if stop > length m1 then vec_resize stop m1 else Ok m1) (\<lambda>m2.
      vec_copy_from_slice off stop data m2)))"

definition write_message :: "StreamConfig \<Rightarrow> nat \<Rightarrow> bytes \<Rightarrow> int \<Rightarrow> Stream \<Rightarrow> nat fs_result \<times> Stream" where
  "write_message c i data offset s =
     (case and_then (case bt_get (str_messages s) i of
              Some st \<Rightarrow> message_storage_to_bytes c st | None \<Rightarrow> Ok []) (\<lambda>msg.
           and_then (message_overwrite msg data offset) (bytes_to_message_storage c)) of
        Ok stored \<Rightarrow> (Ok (length data), put_message c i stored s)
      | Err e \<Rightarrow> (Err e, s) | Panic \<Rightarrow> (Panic, s) | Hang \<Rightarrow> (Hang, s))"

definition append_message :: "StreamConfig \<Rightarrow> bytes \<Rightarrow> Stream \<Rightarrow> nat fs_result \<times> Stream" where
  "append_message c data s =
     (case bytes_to_message_storage c data of
        Ok stored \<Rightarrow> (Ok (length data), put_message c (str_tail s) stored s)
      | Err e \<Rightarrow> (Err e, s) | Panic \<Rightarrow> (Panic, s) | Hang \<Rightarrow> (Hang, s))"

definition write_head :: "bytes \<Rightarrow> Stream \<Rightarrow> nat fs_result \<times> Stream" where
  "write_head data s =
     (Ok (length data), case parse_u64 (trim (from_utf8_lossy data)) of
        Some h \<Rightarrow> s\<lparr>str_head := h\<rparr> | None \<Rightarrow> s)"

definition stream_write :: "path \<Rightarrow> bytes \<Rightarrow> int \<Rightarrow> flags \<Rightarrow> (StreamFS, nat) fs_op" where
  "stream_write p data offset flags now fs =
     (let q = stream_normalize p; c = sf_config fs
      in case parse_stream_path q of
           Some (PC_Message n i) \<Rightarrow> with_stream q n (write_message c i data offset) fs
         | Some (PC_Tail n) \<Rightarrow> with_stream q n (append_message c data) fs
         | Some (PC_Head n) \<Rightarrow> with_stream q n (write_head data) fs
         | _ \<Rightarrow> (Err (PermissionDenied q), fs))"

subsection \<open>Directories and the rest\<close>

definition create_stream :: "string \<Rightarrow> StreamFS \<Rightarrow> unit fs_result \<times> StreamFS" where
  "create_stream n fs =
     (if length (sf_streams fs) \<ge> sfc_max_streams (sf_config fs) then (Err StorageFull, fs)
      else if bt_get (sf_streams fs) n \<noteq> None then (Err (AlreadyExists (''/streams/'' @ n)), fs)
      else (Ok (), set_stream n (stream_new n) fs))"

definition stream_mkdir :: "path \<Rightarrow> mode \<Rightarrow> (StreamFS, unit) fs_op" where
  "stream_mkdir p perm now fs =
     (let q = stream_normalize p
      in case parse_stream_path q of
           Some PC_StreamsDir \<Rightarrow> (Ok (), fs)
         | Some (PC_StreamDir n) \<Rightarrow> create_stream n fs
         | Some (PC_DataDir n) \<Rightarrow>
             (if bt_get (sf_streams fs) n \<noteq> None then Ok () else Err (NotFound q), fs)
         | _ \<Rightarrow> (Err (PermissionDenied q), fs))"

definition sort_by_path :: "FileMetadata list \<Rightarrow> FileMetadata list" where
  "sort_by_path ms = sort_key (\<lambda>m. components (md_path m)) ms"

definition stream_read_dir :: "path \<Rightarrow> (StreamFS, FileMetadata list) fs_op" where
  "stream_read_dir p now fs =
     (let q = stream_normalize p
      in ((case parse_stream_path q of
             Some PC_Root \<Rightarrow> Ok [metadata_directory now ''/streams'']
           | Some PC_StreamsDir \<Rightarrow>
               Ok (sort_by_path (map (\<lambda>(n, _). metadata_directory now (''/streams/'' @ n)) (sf_streams fs)))
           | Some (PC_StreamDir n) \<Rightarrow>
               and_then (ok_or (bt_get (sf_streams fs) n) (NotFound q)) (\<lambda>_.
               Ok [metadata_directory now (''/streams/'' @ n @ ''/data''),
                   metadata_file now (''/streams/'' @ n @ ''/head'') 6,
                   metadata_file now (''/streams/'' @ n @ ''/tail'') 6,
                   metadata_file now (''/streams/'' @ n @ ''/config'') 0])
           | Some (PC_DataDir n) \<Rightarrow>
               and_then (ok_or (bt_get (sf_streams fs) n) (NotFound q)) (\<lambda>s.
               Ok (sort_by_path (map (\<lambda>(i, st). metadata_file now (message_path n i) (storage_len st))
                 (str_messages s))))
           | _ \<Rightarrow> Err (NotADirectory q)), fs))"

definition stream_remove :: "path \<Rightarrow> (StreamFS, unit) fs_op" where
  "stream_remove p now fs =
     (let q = stream_normalize p
      in case parse_stream_path q of
           Some (PC_Message n i) \<Rightarrow>
             with_stream q n (\<lambda>s.
               if bt_get (str_messages s) i \<noteq> None
               then (Ok (), s\<lparr>str_messages := bt_remove (str_messages s) i\<rparr>)
               else (Err (NotFound q), s)) fs
         | Some (PC_StreamDir n) \<Rightarrow>
             if bt_get (sf_streams fs) n \<noteq> None
             then (Ok (), fs\<lparr>sf_streams := bt_remove (sf_streams fs) n\<rparr>)
             else (Err (NotFound q), fs)
         | _ \<Rightarrow> (Err (PermissionDenied q), fs))"

definition stream_remove_all :: "path \<Rightarrow> (StreamFS, unit) fs_op" where
  "stream_remove_all p now fs = stream_remove p now fs"

definition stream_rename :: "path \<Rightarrow> path \<Rightarrow> (StreamFS, unit) fs_op" where
  "stream_rename old new now fs = (Err (PermissionDenied ''/''), fs)"

definition stream_chmod :: "path \<Rightarrow> mode \<Rightarrow> (StreamFS, unit) fs_op" where
  "stream_chmod p m now fs = (Err (PermissionDenied (stream_normalize p)), fs)"

definition stream_truncate :: "path \<Rightarrow> nat \<Rightarrow> (StreamFS, unit) fs_op" where
  "stream_truncate p n now fs = (Err (PermissionDenied (stream_normalize p)), fs)"

definition stream_touch :: "path \<Rightarrow> (StreamFS, unit) fs_op" where
  "stream_touch p now fs =
     (case stream_stat (stream_normalize p) now fs of
        (Ok _, fs') \<Rightarrow> (Ok (), fs')
      | (Err e, fs') \<Rightarrow> (Err e, fs') | (Panic, fs') \<Rightarrow> (Panic, fs') | (Hang, fs') \<Rightarrow> (Hang, fs'))"

definition stream_fs :: "StreamFS FileSystem" where
  "stream_fs = \<lparr>fs_read = stream_read, fs_stat = stream_stat, fs_create = stream_create,
     fs_write = stream_write, fs_mkdir = stream_mkdir, fs_read_dir = stream_read_dir,
     fs_remove = stream_remove, fs_remove_all = stream_remove_all, fs_rename = stream_rename,
     fs_chmod = stream_chmod, fs_truncate = stream_truncate, fs_touch = stream_touch,
     fs_readlink = default_readlink, fs_symlink = default_symlink,
     fs_get_xattr = default_get_xattr, fs_set_xattr = default_set_xattr,
     fs_remove_xattr = default_remove_xattr, fs_list_xattr = default_list_xattr\<rparr>"

lemmas stream_op_defs = stream_read_def stream_stat_def stream_create_def stream_write_def
  stream_mkdir_def stream_read_dir_def stream_remove_def stream_remove_all_def stream_rename_def
  stream_chmod_def stream_truncate_def stream_touch_def

subsection \<open>The ring buffer\<close>

lemma bt_remove_hd: "bt_inv ((k, v) # ms) \<Longrightarrow> bt_remove ((k, v) # ms) k = ms"
  by (auto simp: bt_remove_def filter_id_conv)

lemma evict_eq:
  "bt_inv (str_messages s) \<Longrightarrow>
     evict cap s = s\<lparr>str_messages := drop (length (str_messages s) - cap) (str_messages s),
       str_head := if length (str_messages s) \<le> cap then str_head s
         else u64_add (fst (str_messages s ! (length (str_messages s) - cap - 1))) 1\<rparr>"
proof (induction "length (str_messages s)" arbitrary: s)
  case 0
  then show ?case by (simp add: evict.simps)
next
  case (Suc n)
  then obtain k v ms where m: "str_messages s = (k, v) # ms" by (cases "str_messages s") auto
  let ?s = "s\<lparr>str_messages := ms, str_head := u64_add k 1\<rparr>"
  show ?case
  proof (cases "Suc n \<le> cap")
    case True
    with Suc.hyps(2) show ?thesis by (simp add: evict.simps)
  next
    case False
    have "evict cap s = evict cap ?s"
      using False Suc.hyps(2) Suc.prems m bt_remove_hd [of k v ms]
      by (subst evict.simps) simp
    also have "\<dots> = ?s\<lparr>str_messages := drop (length ms - cap) ms,
       str_head := if length ms \<le> cap then u64_add k 1 else u64_add (fst (ms ! (length ms - cap - 1))) 1\<rparr>"
      using Suc.hyps(1) [of ?s] Suc.hyps(2) Suc.prems m by simp
    finally have ev: "evict cap s = ?s\<lparr>str_messages := drop (length ms - cap) ms,
       str_head := if length ms \<le> cap then u64_add k 1 else u64_add (fst (ms ! (length ms - cap - 1))) 1\<rparr>" .
    have "(str_messages s) ! (Suc (length ms) - cap - 1) =
        (if length ms \<le> cap then (k, v) else ms ! (length ms - cap - 1))"
      using False Suc.hyps(2) m by (cases "length ms - cap") (auto simp: Suc_diff_le nth_Cons')
    with ev False Suc.hyps(2) m show ?thesis by (auto simp: Suc_diff_le)
  qed
qed

text \<open>A message body the configured compressor can store and restore.\<close>

definition codec_ok :: "StreamConfig \<Rightarrow> bytes \<Rightarrow> bool" where
  "codec_ok c d = (case sfc_compression c of
     None \<Rightarrow> True
   | Some co \<Rightarrow> length d < 2 ^ 32 \<and> (\<exists>z. co_compress co d = Ok z \<and> co_decompress co z = Ok d))"

definition enc :: "StreamConfig \<Rightarrow> bytes \<Rightarrow> MessageStorage" where
  "enc c d = (case bytes_to_message_storage c d of Ok st \<Rightarrow> st | _ \<Rightarrow> Raw [])"

lemma codec_ok_enc:
  assumes "codec_ok c d"
  shows "bytes_to_message_storage c d = Ok (enc c d)" "message_storage_to_bytes c (enc c d) = Ok d"
  using assms
  by (auto simp: codec_ok_def enc_def bytes_to_message_storage_def message_storage_to_bytes_def
      split: option.splits)

text \<open>The stream after the messages \<open>ds\<close> have been appended to a new one.\<close>

definition ring :: "StreamConfig \<Rightarrow> string \<Rightarrow> bytes list \<Rightarrow> Stream" where
  "ring c n ds = \<lparr>str_name = n,
     str_messages = map (\<lambda>i. (Suc i, enc c (ds ! i))) [length ds - sfc_buffer_size c ..< length ds],
     str_head = if length ds \<le> sfc_buffer_size c then 1 else Suc (length ds - sfc_buffer_size c),
     str_tail = Suc (length ds)\<rparr>"

lemma bt_inv_map_upt: "bt_inv (map (\<lambda>i. (Suc i, f i)) [a..<b])"
  by (induction b) (auto simp: bt_inv_def sorted_wrt_append)

lemma ring_append:
  assumes "codec_ok c d" "Suc (length ds) < u64_max"
  shows "append_message c d (ring c n ds) = (Ok (length d), ring c n (ds @ [d]))"
proof -
  let ?b = "sfc_buffer_size c" and ?N = "length ds"
  let ?ms = "map (\<lambda>i. (Suc i, enc c ((ds @ [d]) ! i))) [?N - ?b ..< Suc ?N]"
  have "bt_insert (str_messages (ring c n ds)) (Suc ?N) (enc c d) = str_messages (ring c n ds) @ [(Suc ?N, enc c d)]"
    by (rule bt_insert_append) (auto simp: ring_def)
  also have "\<dots> = ?ms" by (auto simp: ring_def nth_append)
  finally have ins: "bt_insert (str_messages (ring c n ds)) (Suc ?N) (enc c d) = ?ms" .
  have len: "length ?ms = Suc ?N - (?N - ?b)" by simp
  have "?N - ?b + (Suc ?N - (?N - ?b) - ?b) = Suc ?N - ?b" by arith
  then have "drop (Suc ?N - (?N - ?b) - ?b) [?N - ?b ..< Suc ?N] = [Suc ?N - ?b ..< Suc ?N]"
    by (simp only: drop_upt)
  then have drop: "drop (length ?ms - ?b) ?ms = str_messages (ring c n (ds @ [d]))"
    unfolding len drop_map by (simp add: ring_def del: upt_Suc)
  have hd: "fst (?ms ! (length ?ms - ?b - 1)) = Suc ?N - ?b" if "\<not> length ?ms \<le> ?b"
    using that by (simp del: upt_Suc)
  have "evict ?b ((ring c n ds)\<lparr>str_messages := ?ms, str_tail := Suc (Suc ?N)\<rparr>) = ring c n (ds @ [d])"
    (is "evict ?b ?s = _")
  proof -
    have "bt_inv (str_messages ?s)" using bt_inv_map_upt by (simp del: upt_Suc)
    from evict_eq [OF this, of ?b] drop hd assms(2) show ?thesis
      by (auto simp: ring_def simp del: upt_Suc)
  qed
  then show ?thesis
    using codec_ok_enc(1) [OF assms(1)] ins assms(2)
    by (simp add: append_message_def put_message_def ring_def)
qed

subsection \<open>Paths of a stream\<close>

definition stream_name :: "string \<Rightarrow> bool" where
  "stream_name n \<longleftrightarrow> n \<noteq> [] \<and> slash \<notin> set n"

lemma parse_stream_parts:
  assumes "list_all stream_name ns"
  shows "filter (\<lambda>s. s \<noteq> []) (split_on slash (trim_start_char slash (''/streams/'' @ join [slash] ns)))
    = ''streams'' # ns"
proof -
  have "trim_start_char slash (''/streams/'' @ join [slash] ns) = ''streams'' @ slash # join [slash] ns"
    by (simp add: trim_start_char_def)
  moreover have "split_on slash (''streams'' @ slash # join [slash] ns) = ''streams'' # split_on slash (join [slash] ns)"
    by (rule split_on_append) simp
  moreover have "filter (\<lambda>s. s \<noteq> []) (split_on slash (join [slash] ns)) = ns"
  proof (cases "ns = []")
    case False
    then have "split_on slash (join [slash] ns) = ns"
      using assms by (intro split_on_join) (auto simp: list_all_iff stream_name_def)
    with assms show ?thesis by (simp add: list_all_iff stream_name_def filter_id_conv)
  qed simp
  ultimately show ?thesis by simp
qed

lemma stream_parse:
  assumes "stream_name n"
  shows "parse_stream_path (''/streams/'' @ n) = Some (PC_StreamDir n)"
    and "parse_stream_path (''/streams/'' @ n @ ''/head'') = Some (PC_Head n)"
    and "parse_stream_path (''/streams/'' @ n @ ''/tail'') = Some (PC_Tail n)"
proof -
  have h: "stream_name ''head''" "stream_name ''tail''" by (simp_all add: stream_name_def)
  show "parse_stream_path (''/streams/'' @ n) = Some (PC_StreamDir n)"
    using parse_stream_parts [of "[n]"] assms by (simp add: parse_stream_path_def)
  show "parse_stream_path (''/streams/'' @ n @ ''/head'') = Some (PC_Head n)"
    using parse_stream_parts [of "[n, ''head'']"] assms h by (simp add: parse_stream_path_def)
  show "parse_stream_path (''/streams/'' @ n @ ''/tail'') = Some (PC_Tail n)"
    using parse_stream_parts [of "[n, ''tail'']"] assms h by (simp add: parse_stream_path_def)
qed

lemma stream_parse_message:
  assumes "stream_name n" "i \<le> u64_max"
  shows "parse_stream_path (message_path n i) = Some (PC_Message n i)"
proof -
  let ?d = "pad_zero 6 (dec i)"
  note dig = pad_dec_no_sep [of 6 i]
  have "CHR ''.'' \<in> set s" if "ends_with s ''.msg''" for s
  proof -
    from that obtain t where "rev s = rev ''.msg'' @ t" unfolding ends_with_def starts_with_iff by blast
    then have "CHR ''.'' \<in> set (rev s)" by simp
    then show ?thesis by simp
  qed
  then have "\<not> ends_with ?d ''.msg''" using dig(2) by blast
  then have t: "trim_end_str ''.msg'' (?d @ ''.msg'') = ?d"
    by (subst trim_end_str.simps) (simp add: ends_with_def starts_with_def trim_end_str.simps [of _ ?d])
  have sn: "stream_name ''data''" "stream_name (?d @ ''.msg'')"
    using dig(1) by (simp_all add: stream_name_def)
  have e: "ends_with (?d @ ''.msg'') ''.msg''" by (simp add: ends_with_def starts_with_def)
  show ?thesis
    using parse_stream_parts [of "[n, ''data'', ?d @ ''.msg'']"] assms sn t e parse_u64_pad_dec [of i 6]
    by (simp add: parse_stream_path_def message_path_def)
qed

subsection \<open>Appending through \<open>tail\<close>\<close>

lemma stream_normalize_abs [simp]: "stream_normalize (''/streams/'' @ r) = ''/streams/'' @ r"
  by (simp add: stream_normalize_def starts_with_def)

lemma stream_normalize_message [simp]: "stream_normalize (message_path n i) = message_path n i"
  by (simp add: stream_normalize_def starts_with_def message_path_def)

lemma bt_get_insert_stream: "bt_get (sf_streams (set_stream n s fs)) m = (if n = m then Some s else bt_get (sf_streams fs) m)"
  by (simp add: set_stream_def bt_get_insert)

lemma append_all_ring:
  assumes p: "parse_stream_path (stream_normalize p) = Some (PC_Tail n)"
  shows "bt_get (sf_streams fs) n = Some (ring (sf_config fs) n es) \<Longrightarrow>
     \<forall>d \<in> set ds. codec_ok (sf_config fs) d \<Longrightarrow> Suc (length es + length ds) < u64_max \<Longrightarrow>
     let fs' = append_all stream_write p ds now fs in
     sf_config fs' = sf_config fs \<and>
     (\<forall>m. bt_get (sf_streams fs') m =
       (if m = n then Some (ring (sf_config fs) n (es @ ds)) else bt_get (sf_streams fs) m))"
proof (induction ds arbitrary: fs es)
  case Nil
  then show ?case by auto
next
  case (Cons d ds)
  let ?fs = "set_stream n (ring (sf_config fs) n (es @ [d])) fs"
  have w: "snd (stream_write p d 0 WF_APPEND now fs) = ?fs"
    using Cons.prems ring_append [of "sf_config fs" d es n]
    by (simp add: stream_write_def p with_stream_def)
  have c: "sf_config ?fs = sf_config fs" by (simp add: set_stream_def)
  have g: "bt_get (sf_streams ?fs) m = (if n = m then Some (ring (sf_config fs) n (es @ [d]))
      else bt_get (sf_streams fs) m)" for m
    by (rule bt_get_insert_stream)
  from Cons.IH [of ?fs "es @ [d]"] Cons.prems g [of n]
  show ?case by (auto simp: w c g Let_def)
qed

lemma bt_get_ring:
  "bt_get (str_messages (ring c n ds)) (Suc i) =
     (if length ds - sfc_buffer_size c \<le> i \<and> i < length ds then Some (enc c (ds ! i)) else None)"
proof -
  have "map_of (map (\<lambda>i. (Suc i, f i)) xs) (Suc i) = (if i \<in> set xs then Some (f i) else None)" for f :: "nat \<Rightarrow> MessageStorage" and xs
    by (induction xs) auto
  then show ?thesis by (simp add: bt_get_map_of ring_def)
qed

lemma stream_slice_all [simp]: "stream_slice d 0 (- 1) = Ok d"
  by (auto simp: stream_slice_def Let_def index_range_def)

subsection \<open>Bounds\<close>

definition stream_inv :: "StreamConfig \<Rightarrow> StreamFS \<Rightarrow> bool" where
  "stream_inv c fs \<longleftrightarrow> sf_config fs = c \<and> bt_inv (sf_streams fs) \<and>
     length (sf_streams fs) \<le> sfc_max_streams c \<and>
     (\<forall>n s. bt_get (sf_streams fs) n = Some s \<longrightarrow> bt_inv (str_messages s))"

lemma stream_invI:
  assumes "sf_config fs = c" "bt_inv (sf_streams fs)" "length (sf_streams fs) \<le> sfc_max_streams c"
    and "\<And>n s. bt_get (sf_streams fs) n = Some s \<Longrightarrow> bt_inv (str_messages s)"
  shows "stream_inv c fs"
  using assms unfolding stream_inv_def by blast

lemma stream_invD:
  assumes "stream_inv c fs"
  shows "sf_config fs = c" "bt_inv (sf_streams fs)" "length (sf_streams fs) \<le> sfc_max_streams c"
    "bt_get (sf_streams fs) n = Some s \<Longrightarrow> bt_inv (str_messages s)"
  using assms unfolding stream_inv_def by blast+

lemma streamfs_new_inv: "stream_inv c (streamfs_new c)"
  by (simp add: streamfs_new_def stream_inv_def)

lemma set_stream_inv:
  assumes "stream_inv c fs" "bt_inv (str_messages s)"
    and "bt_get (sf_streams fs) n = None \<longrightarrow> length (sf_streams fs) < sfc_max_streams c"
  shows "stream_inv c (set_stream n s fs)"
proof (rule stream_invI)
  show "length (sf_streams (set_stream n s fs)) \<le> sfc_max_streams c"
    using stream_invD [OF assms(1)] assms(3) length_bt_insert [of "sf_streams fs" n s]
    by (auto simp: set_stream_def split: option.splits)
qed (use stream_invD [OF assms(1)] assms(2) in
    \<open>auto simp: set_stream_def bt_inv_insert bt_get_insert split: if_splits\<close>)

lemma evict_inv: "bt_inv (str_messages s) \<Longrightarrow> bt_inv (str_messages (evict cap s))"
  by (simp add: evict_eq bt_inv_def sorted_wrt_drop drop_map [symmetric])

lemma put_message_inv: "bt_inv (str_messages s) \<Longrightarrow> bt_inv (str_messages (put_message c i st s))"
  by (simp add: put_message_def evict_inv bt_inv_insert)

lemma with_stream_inv:
  assumes "stream_inv c fs" "\<And>s. bt_inv (str_messages s) \<Longrightarrow> bt_inv (str_messages (snd (f s)))"
  shows "stream_inv c (snd (with_stream q n f fs))"
  using assms(1) stream_invD(4) [OF assms(1)] assms(2)
  by (auto simp: with_stream_def Let_def case_prod_unfold intro!: set_stream_inv split: option.splits)

lemma message_ops_inv:
  assumes "bt_inv (str_messages s)"
  shows "bt_inv (str_messages (snd (write_message c i d off s)))"
    and "bt_inv (str_messages (snd (append_message c d s)))"
    and "bt_inv (str_messages (snd (write_head d s)))"
  using assms
  by (auto simp: write_message_def append_message_def write_head_def put_message_inv
      split: outcome.splits option.splits)

lemma create_stream_inv: "stream_inv c fs \<Longrightarrow> stream_inv c (snd (create_stream n fs))"
  using stream_invD(1) by (auto simp: create_stream_def stream_new_def intro!: set_stream_inv)

lemma remove_stream_inv: "stream_inv c fs \<Longrightarrow> stream_inv c (fs\<lparr>sf_streams := bt_remove (sf_streams fs) n\<rparr>)"
proof (rule stream_invI)
  assume inv: "stream_inv c fs"
  have "length (bt_remove (sf_streams fs) n) \<le> length (sf_streams fs)" by (simp add: bt_remove_def)
  with stream_invD(3) [OF inv]
  show "length (sf_streams (fs\<lparr>sf_streams := bt_remove (sf_streams fs) n\<rparr>)) \<le> sfc_max_streams c" by simp
qed (auto simp: bt_inv_remove bt_get_remove dest: stream_invD split: if_splits)

lemma stream_step_inv: "fs_step stream_fs s t \<Longrightarrow> stream_inv c s \<Longrightarrow> stream_inv c t"
  by (induction rule: fs_step.induct)
    (auto simp: stream_fs_def stream_op_defs default_readlink_def default_symlink_def
      default_get_xattr_def default_set_xattr_def default_remove_xattr_def default_list_xattr_def
      Let_def create_stream_inv remove_stream_inv message_ops_inv bt_inv_insert bt_inv_remove
      intro!: with_stream_inv
      split: option.splits PathComponent.splits prod.splits outcome.splits)

lemma put_message_keep:
  assumes "bt_inv (str_messages s)"
  shows "length (str_messages (put_message c i st s)) \<le> sfc_buffer_size c"
    and "j \<in> fst ` set (str_messages (put_message c i st s)) \<Longrightarrow>
      k \<in> fst ` set (bt_insert (str_messages s) i st) \<Longrightarrow>
      k \<notin> fst ` set (str_messages (put_message c i st s)) \<Longrightarrow> k < j"
proof -
  let ?m = "bt_insert (str_messages s) i st" and ?b = "sfc_buffer_size c"
  have inv: "bt_inv ?m" using assms by (rule bt_inv_insert)
  have p: "str_messages (put_message c i st s) = drop (length ?m - ?b) ?m"
    using inv by (simp add: put_message_def evict_eq)
  show "length (str_messages (put_message c i st s)) \<le> sfc_buffer_size c" by (simp add: p)
  assume j: "j \<in> fst ` set (str_messages (put_message c i st s))"
    and k: "k \<in> fst ` set ?m" "k \<notin> fst ` set (str_messages (put_message c i st s))"
  have "sorted_wrt (<) (map fst (take (length ?m - ?b) ?m @ drop (length ?m - ?b) ?m))"
    using inv by (simp add: bt_inv_def)
  moreover have "k \<in> fst ` set (take (length ?m - ?b) ?m)"
    using k unfolding p by (metis Un_iff append_take_drop_id image_Un set_append)
  ultimately show "k < j"
    using j unfolding p map_append sorted_wrt_append by auto
qed

subsection \<open>Properties\<close>

text \<open>
  \<^bold>\<open>C34\<close>. A stream is a ring buffer: after a new stream is made and messages are written to its \<open>tail\<close>,
  with or without compression, exactly the last \<open>buffer_size\<close> of them can be read, each under its
  number in order of arrival and unchanged; the older ones are gone, \<open>head\<close> names the oldest that is left
  and \<open>tail\<close> the next number; no other stream is touched.
\<close>

theorem stream_ring:
  assumes n: "stream_name n" and mk: "stream_mkdir (''/streams/'' @ n) perm now fs = (Ok (), fs0)"
    and ok: "\<forall>d \<in> set ds. codec_ok (sf_config fs) d" and len: "Suc (length ds) < u64_max"
    and fs': "fs' = append_all stream_write (''/streams/'' @ n @ ''/tail'') ds now fs0"
  shows "(\<forall>i < length ds. fst (stream_read (message_path n (Suc i)) 0 (- 1) now fs') =
        (if length ds - sfc_buffer_size (sf_config fs) \<le> i then Ok (ds ! i)
         else Err (NotFound (message_path n (Suc i))))) \<and>
    fst (stream_read (''/streams/'' @ n @ ''/head'') 0 (- 1) now fs') =
      Ok (pad_zero 6 (dec (Suc (length ds - sfc_buffer_size (sf_config fs))))) \<and>
    fst (stream_read (''/streams/'' @ n @ ''/tail'') 0 (- 1) now fs') = Ok (pad_zero 6 (dec (Suc (length ds)))) \<and>
    (\<forall>m. m \<noteq> n \<longrightarrow> bt_get (sf_streams fs') m = bt_get (sf_streams fs) m)"
proof -
  let ?c = "sf_config fs"
  have mk': "create_stream n fs = (Ok (), fs0)"
    using mk stream_parse(1) [OF n] unfolding stream_mkdir_def stream_normalize_abs by simp
  have fs0: "fs0 = set_stream n (ring ?c n []) fs"
    using mk' by (auto simp: create_stream_def stream_new_def ring_def split: if_splits)
  have c0: "sf_config fs0 = ?c" by (simp add: fs0 set_stream_def)
  have p: "parse_stream_path (stream_normalize (''/streams/'' @ n @ ''/tail'')) = Some (PC_Tail n)"
    unfolding stream_normalize_abs by (rule stream_parse(3) [OF n])
  have all: "sf_config fs' = ?c" "bt_get (sf_streams fs') m =
      (if m = n then Some (ring ?c n ds) else bt_get (sf_streams fs0) m)" for m
    using append_all_ring [OF p, of fs0 "[]" ds now] ok len
    unfolding fs' c0 by (simp_all add: fs0 bt_get_insert_stream Let_def)
  have "fst (stream_read (message_path n (Suc i)) 0 (- 1) now fs') =
      (if length ds - sfc_buffer_size ?c \<le> i then Ok (ds ! i) else Err (NotFound (message_path n (Suc i))))"
    if "i < length ds" for i
    using that stream_parse_message [OF n, of "Suc i"] len all codec_ok_enc(2) [of ?c "ds ! i"] ok
    by (simp add: stream_read_def Let_def bt_get_ring)
  moreover have "fst (stream_read (''/streams/'' @ n @ ''/head'') 0 (- 1) now fs') =
      Ok (pad_zero 6 (dec (Suc (length ds - sfc_buffer_size ?c))))"
    using all stream_parse(2) [OF n] unfolding stream_read_def stream_normalize_abs
    by (simp add: ring_def)
  moreover have "fst (stream_read (''/streams/'' @ n @ ''/tail'') 0 (- 1) now fs') = Ok (pad_zero 6 (dec (Suc (length ds))))"
    using all stream_parse(3) [OF n] unfolding stream_read_def stream_normalize_abs
    by (simp add: ring_def)
  moreover have "\<forall>m. m \<noteq> n \<longrightarrow> bt_get (sf_streams fs') m = bt_get (sf_streams fs) m"
    by (simp add: all fs0 bt_get_insert_stream)
  ultimately show ?thesis by simp
qed

theorem stream_ring_witness:
  "fst (stream_read (message_path ''s'' (Suc 0)) 0 (- 1) 0
      (append_all stream_write (''/streams/'' @ ''s'' @ ''/tail'') [''a'', ''b'', ''c''] 0
        (snd (stream_mkdir (''/streams/'' @ ''s'') 0 0 (streamfs_new (stream_config_default\<lparr>sfc_buffer_size := 2\<rparr>)))))) =
     Err (NotFound (message_path ''s'' (Suc 0))) \<and>
   fst (stream_read (message_path ''s'' (Suc 1)) 0 (- 1) 0
      (append_all stream_write (''/streams/'' @ ''s'' @ ''/tail'') [''a'', ''b'', ''c''] 0
        (snd (stream_mkdir (''/streams/'' @ ''s'') 0 0 (streamfs_new (stream_config_default\<lparr>sfc_buffer_size := 2\<rparr>)))))) =
     Ok ''b''"
proof -
  let ?fs = "streamfs_new (stream_config_default\<lparr>sfc_buffer_size := 2\<rparr>)"
  have n: "stream_name ''s''" by (simp add: stream_name_def)
  have m: "stream_mkdir (''/streams/'' @ ''s'') 0 0 ?fs = (Ok (), snd (stream_mkdir (''/streams/'' @ ''s'') 0 0 ?fs))"
    unfolding stream_mkdir_def stream_normalize_abs Let_def stream_parse(1) [OF n]
    by (simp add: create_stream_def streamfs_new_def stream_config_default_def)
  have c: "\<forall>d \<in> set [''a'', ''b'', ''c'']. codec_ok (sf_config ?fs) d"
    "Suc (length [''a'', ''b'', ''c'']) < u64_max" "sfc_buffer_size (sf_config ?fs) = 2"
    by (simp_all add: codec_ok_def streamfs_new_def stream_config_default_def)
  note r = conjunct1 [OF stream_ring [OF n m c(1,2) refl], rule_format, unfolded c(3)]
  show ?thesis using r [of 0] r [of 1] by (simp del: append_Cons append_Nil)
qed

text \<open>
  Bounds of StreamFS: whatever calls it has served, there are at most \<open>max_streams\<close> streams; after
  every successful write of a message its stream holds at most \<open>buffer_size\<close> messages, and
  what was dropped is older than all that is left. Creating an empty message file does not evict: it adds a message
  however full the buffer is.
\<close>

theorem stream_bounds:
  assumes "fs_reachable stream_fs (streamfs_new c) fs"
  shows "length (sf_streams fs) \<le> sfc_max_streams c \<and>
    (\<forall>p d off fl now k fs' n i. stream_write p d off fl now fs = (Ok k, fs') \<and>
       (parse_stream_path (stream_normalize p) = Some (PC_Tail n) \<or>
        parse_stream_path (stream_normalize p) = Some (PC_Message n i)) \<longrightarrow>
       (\<exists>s s'. bt_get (sf_streams fs) n = Some s \<and> bt_get (sf_streams fs') n = Some s' \<and>
          length (str_messages s') \<le> sfc_buffer_size c \<and>
          (\<forall>a \<in> fst ` set (str_messages s') . \<forall>b \<in> fst ` set (str_messages s) - fst ` set (str_messages s'). b < a))) \<and>
    (\<forall>p now n i s. parse_stream_path (stream_normalize p) = Some (PC_Message n i) \<and>
       bt_get (sf_streams fs) n = Some s \<and> bt_get (str_messages s) i = None \<longrightarrow>
       (\<exists>s'. bt_get (sf_streams (snd (stream_create p now fs))) n = Some s' \<and>
          length (str_messages s') = Suc (length (str_messages s))))"
proof -
  have inv: "stream_inv c fs"
    by (rule fs_reachable_inv [OF assms, where P = "stream_inv c"]) (auto intro: streamfs_new_inv stream_step_inv)
  note conf = stream_invD(1) [OF inv]
  have keep: "\<exists>s'. bt_get (sf_streams fs') n = Some s' \<and> length (str_messages s') \<le> sfc_buffer_size c \<and>
      (\<forall>a \<in> fst ` set (str_messages s') . \<forall>b \<in> fst ` set (str_messages s) - fst ` set (str_messages s'). b < a)"
    if "bt_get (sf_streams fs) n = Some s" "fs' = set_stream n (put_message c i st s) fs" for n s i st fs'
  proof -
    have "fst ` set (str_messages s) \<subseteq> fst ` set (bt_insert (str_messages s) i st)"
      using bt_get_insert [of "str_messages s" i st] map_of_eq_None_iff
      by (metis bt_get_map_of option.distinct(1) subsetI)
    with put_message_keep [OF stream_invD(4) [OF inv that(1)], where c = c and i = i and st = st] that(2) show ?thesis
      by (auto simp: bt_get_insert_stream subset_iff)
  qed
  show ?thesis
  proof (intro conjI allI impI)
    show "length (sf_streams fs) \<le> sfc_max_streams c" by (rule stream_invD(3) [OF inv])
  next
    fix p d off fl now k fs' n i
    assume h: "stream_write p d off fl now fs = (Ok k, fs') \<and>
       (parse_stream_path (stream_normalize p) = Some (PC_Tail n) \<or>
        parse_stream_path (stream_normalize p) = Some (PC_Message n i))"
    then obtain s j st where "bt_get (sf_streams fs) n = Some s" "fs' = set_stream n (put_message c j st s) fs"
      by (auto simp: stream_write_def with_stream_def write_message_def append_message_def conf
          split: option.splits outcome.splits prod.splits)
    with keep [OF this] show "\<exists>s s'. bt_get (sf_streams fs) n = Some s \<and> bt_get (sf_streams fs') n = Some s' \<and>
          length (str_messages s') \<le> sfc_buffer_size c \<and>
          (\<forall>a \<in> fst ` set (str_messages s') . \<forall>b \<in> fst ` set (str_messages s) - fst ` set (str_messages s'). b < a)"
      by blast
  next
    fix p now n i s
    assume "parse_stream_path (stream_normalize p) = Some (PC_Message n i) \<and>
       bt_get (sf_streams fs) n = Some s \<and> bt_get (str_messages s) i = None"
    then show "\<exists>s'. bt_get (sf_streams (snd (stream_create p now fs))) n = Some s' \<and>
          length (str_messages s') = Suc (length (str_messages s))"
      using length_bt_insert [OF stream_invD(4) [OF inv], of n s i]
      by (simp add: stream_create_def with_stream_def bt_get_insert_stream)
  qed
qed

theorem stream_bounds_witness:
  "length (sf_streams (snd (stream_mkdir ''/streams/s'' 0 0 (streamfs_new stream_config_default)))) \<le> 100"
proof -
  have "fs_reachable stream_fs (streamfs_new stream_config_default)
      (snd (fs_mkdir stream_fs ''/streams/s'' 0 0 (streamfs_new stream_config_default)))"
    by (rule fs_reachable.step [OF fs_reachable.start fs_step.mkdir])
  from conjunct1 [OF stream_bounds [OF this]] show ?thesis
    by (simp add: stream_fs_def stream_config_default_def)
qed

end
