(* ===== verification/Stream_Rotate_FS.thy ===== *)
theory Stream_Rotate_FS
  imports Fs_Contract
begin

text \<open>
  The crate \<open>racfs-plugin-streamrotatefs\<close>: one append-only log file \<open>/current\<close> that is moved to
  a numbered archive when it is full or when asked to, with the oldest archives pruned.
  \<open>write\<close> is its two critical sections (the append, then the check with the rotation).
\<close>

subsection \<open>State\<close>

record RotateConfig =
  roc_max_size :: nat
  roc_max_files :: nat
  roc_compress :: bool
  roc_base_path :: path

definition rotate_config_default :: RotateConfig where
  "rotate_config_default = \<lparr>roc_max_size = 1024 * 1024, roc_max_files = 10, roc_compress = False,
     roc_base_path = []\<rparr>"

record FileEntry =
  fe_data :: bytes
  fe_metadata :: FileMetadata

definition entry_file :: "time \<Rightarrow> path \<Rightarrow> bytes \<Rightarrow> FileEntry" where
  "entry_file now p content = \<lparr>fe_data = content, fe_metadata = metadata_file now p (length content)\<rparr>"

definition entry_dir :: "time \<Rightarrow> path \<Rightarrow> FileEntry" where
  "entry_dir now p = \<lparr>fe_data = [], fe_metadata = metadata_directory now p\<rparr>"

record StreamRotateFS =
  ro_config :: RotateConfig
  ro_current :: FileEntry
  ro_archive :: "(nat \<times> FileEntry) list"
  ro_next_seq :: nat

definition rotatefs_new :: "RotateConfig \<Rightarrow> time \<Rightarrow> StreamRotateFS" where
  "rotatefs_new c now = \<lparr>ro_config = c, ro_current = entry_file now ''/current'' [], ro_archive = [],
     ro_next_seq = 1\<rparr>"

subsection \<open>Rotation\<close>

text \<open>The pruning loop: the first key goes until the archive fits.\<close>

function prune :: "nat \<Rightarrow> (nat \<times> 'v) list \<Rightarrow> (nat \<times> 'v) list" where
  "prune cap m =
     (if length m > cap then (case m of (k, _) # _ \<Rightarrow> prune cap (bt_remove m k) | [] \<Rightarrow> m) else m)"
  by pat_completeness auto
termination
  by (relation "measure (\<lambda>(_, m). length m)")
    (auto simp: bt_remove_def le_imp_less_Suc length_filter_le)

declare prune.simps [simp del]

definition rotate_log :: "time \<Rightarrow> StreamRotateFS \<Rightarrow> StreamRotateFS" where
  "rotate_log now fs =
     (let e = entry_file now ''/archive/001.log'' (fe_data (ro_current fs));
          seq = ro_next_seq fs;
          cur = entry_file now ''/current'' []
      in fs\<lparr>ro_archive := prune (roc_max_files (ro_config fs)) (bt_insert (ro_archive fs) seq e),
            ro_next_seq := u64_add seq 1,
            ro_current := cur\<lparr>fe_metadata := (fe_metadata cur)\<lparr>md_modified := Some now\<rparr>\<rparr>\<rparr>)"

definition check_rotate :: "time \<Rightarrow> StreamRotateFS \<Rightarrow> StreamRotateFS" where
  "check_rotate now fs =
     (if length (fe_data (ro_current fs)) \<ge> roc_max_size (ro_config fs) then rotate_log now fs else fs)"

subsection \<open>Paths\<close>

definition rotate_normalize :: "path \<Rightarrow> path" where
  "rotate_normalize p =
     (if p = ''/'' then ''/''
      else let n = trim_start_char slash p in if n = [] then ''/'' else push ''/'' n)"

definition rotate_validate :: "path \<Rightarrow> unit fs_result" where
  "rotate_validate p =
     (let n = rotate_normalize p in
      if n = ''/'' \<or> n = ''/current'' \<or> n = ''/rotate'' \<or> n = ''/config'' \<or> n = ''/archive'' \<or>
         starts_with n ''/archive/''
      then Ok () else Err (NotFound n))"

definition archive_seq :: "path \<Rightarrow> nat option" where
  "archive_seq p =
     (let name = (case str_strip_prefix p ''/archive/'' of Some r \<Rightarrow> r | None \<Rightarrow> []);
          seq = (case str_strip_suffix name ''.log'' of Some r \<Rightarrow> r | None \<Rightarrow> name)
      in parse_u64 seq)"

definition rotate_config_string :: "RotateConfig \<Rightarrow> string" where
  "rotate_config_string c =
     ''max_size='' @ dec (roc_max_size c) @ [CHR 0x0A] @ ''max_files='' @ dec (roc_max_files c) @
     [CHR 0x0A] @ ''compress='' @ (if roc_compress c then ''true'' else ''false'') @ [CHR 0x0A] @
     ''base_path='' @ roc_base_path c @ [CHR 0x0A]"

subsection \<open>Operations\<close>

text \<open>Every operation starts by normalising and validating its path.\<close>

definition with_valid :: "path \<Rightarrow> (path \<Rightarrow> StreamRotateFS \<Rightarrow> 'a fs_result \<times> StreamRotateFS) \<Rightarrow> StreamRotateFS \<Rightarrow> 'a fs_result \<times> StreamRotateFS" where
  "with_valid p f fs =
     (let q = rotate_normalize p in
      case rotate_validate q of
        Ok _ \<Rightarrow> f q fs | Err e \<Rightarrow> (Err e, fs) | Panic \<Rightarrow> (Panic, fs) | Hang \<Rightarrow> (Hang, fs))"

definition rotate_get_entry :: "time \<Rightarrow> path \<Rightarrow> StreamRotateFS \<Rightarrow> FileEntry fs_result" where
  "rotate_get_entry now p fs =
     (let q = rotate_normalize p in
      and_then (rotate_validate q) (\<lambda>_.
        if q = ''/'' then Ok (entry_dir now ''/'')
        else if q = ''/current'' then Ok (ro_current fs)
        else if q = ''/rotate'' then Ok (entry_file now ''/rotate'' [])
        else if q = ''/config'' then Ok (entry_file now ''/config'' (rotate_config_string (ro_config fs)))
        else if q = ''/archive'' then Ok (entry_dir now ''/archive'')
        else if starts_with q ''/archive/'' then
          (case archive_seq q of
             Some i \<Rightarrow> ok_or (bt_get (ro_archive fs) i) (NotFound q)
           | None \<Rightarrow> Err (NotFound q))
        else Err (NotFound q)))"

definition rotate_read :: "path \<Rightarrow> int \<Rightarrow> int \<Rightarrow> (StreamRotateFS, bytes) fs_op" where
  "rotate_read p offset sz now fs =
     (and_then (rotate_get_entry now p fs) (\<lambda>e.
        if \<not> is_file (fe_metadata e) then Err (IsDirectory p) else read_slice (fe_data e) offset sz), fs)"

definition rotate_stat :: "path \<Rightarrow> (StreamRotateFS, FileMetadata) fs_op" where
  "rotate_stat p now fs = (and_then (rotate_get_entry now p fs) (\<lambda>e. Ok (fe_metadata e)), fs)"

definition rotate_create :: "path \<Rightarrow> (StreamRotateFS, unit) fs_op" where
  "rotate_create p now =
     with_valid p (\<lambda>q fs.
       (if q = ''/current'' \<or> q = ''/rotate'' \<or> q = ''/config'' then Ok () else Err (AlreadyExists q), fs))"

definition append_current :: "time \<Rightarrow> bytes \<Rightarrow> StreamRotateFS \<Rightarrow> StreamRotateFS" where
  "append_current now data fs =
     (let cur = ro_current fs; d = fe_data cur @ data
      in fs\<lparr>ro_current := cur\<lparr>fe_data := d,
           fe_metadata := (fe_metadata cur)\<lparr>md_size := length d, md_modified := Some now\<rparr>\<rparr>\<rparr>)"

definition rotate_write :: "path \<Rightarrow> bytes \<Rightarrow> int \<Rightarrow> flags \<Rightarrow> (StreamRotateFS, nat) fs_op" where
  "rotate_write p data offset flags now =
     with_valid p (\<lambda>q fs.
       if q = ''/current'' then (Ok (length data), check_rotate now (append_current now data fs))
       else if q = ''/rotate'' then
         (Ok (length data), if trim (from_utf8_lossy data) = ''rotate'' then rotate_log now fs else fs)
       else if q = ''/config'' then (Err (PermissionDenied q), fs)
       else (Err (IsDirectory q), fs))"

definition rotate_mkdir :: "path \<Rightarrow> mode \<Rightarrow> (StreamRotateFS, unit) fs_op" where
  "rotate_mkdir p perm now =
     with_valid p (\<lambda>q fs. (if q = ''/'' \<or> q = ''/archive'' then Ok () else Err (AlreadyExists q), fs))"

definition rotate_read_dir :: "path \<Rightarrow> (StreamRotateFS, FileMetadata list) fs_op" where
  "rotate_read_dir p now =
     with_valid p (\<lambda>q fs.
       (if q = ''/'' then
          Ok [metadata_file now ''/current'' (length (fe_data (ro_current fs))),
              metadata_directory now ''/archive'',
              metadata_file now ''/rotate'' 0,
              metadata_file now ''/config'' (length (rotate_config_string (ro_config fs)))]
        else if q = ''/archive'' then
          Ok (map (\<lambda>(i, e). (fe_metadata e)\<lparr>md_path := push ''/archive'' (pad_zero 3 (dec i) @ ''.log'')\<rparr>)
            (ro_archive fs))
        else Err (NotADirectory q), fs))"

definition rotate_remove :: "path \<Rightarrow> (StreamRotateFS, unit) fs_op" where
  "rotate_remove p now =
     with_valid p (\<lambda>q fs.
       if q = ''/'' \<or> q = ''/current'' \<or> q = ''/rotate'' \<or> q = ''/config'' \<or> q = ''/archive''
       then (Err (PermissionDenied q), fs)
       else if starts_with q ''/archive/'' then
         (case archive_seq q of
            Some i \<Rightarrow>
              if bt_get (ro_archive fs) i \<noteq> None
              then (Ok (), fs\<lparr>ro_archive := bt_remove (ro_archive fs) i\<rparr>)
              else (Err (NotFound q), fs)
          | None \<Rightarrow> (Err (NotFound q), fs))
       else (Err (NotFound q), fs))"

definition rotate_remove_all :: "path \<Rightarrow> (StreamRotateFS, unit) fs_op" where
  "rotate_remove_all p now =
     with_valid p (\<lambda>q fs.
       if q = ''/archive'' then (Ok (), fs\<lparr>ro_archive := []\<rparr>)
       else if q = ''/'' \<or> q = ''/current'' \<or> q = ''/rotate'' \<or> q = ''/config''
       then (Err (PermissionDenied q), fs)
       else if starts_with q ''/archive/'' then rotate_remove p now fs
       else (Err (NotFound q), fs))"

definition rotate_rename :: "path \<Rightarrow> path \<Rightarrow> (StreamRotateFS, unit) fs_op" where
  "rotate_rename old new now fs = (Err (NotSupported ''rename not supported''), fs)"

definition rotate_chmod :: "path \<Rightarrow> mode \<Rightarrow> (StreamRotateFS, unit) fs_op" where
  "rotate_chmod p m now = with_valid p (\<lambda>q fs. (Ok (), fs))"

definition rotate_truncate :: "path \<Rightarrow> nat \<Rightarrow> (StreamRotateFS, unit) fs_op" where
  "rotate_truncate p n now =
     with_valid p (\<lambda>q fs.
       if q = ''/current'' then
         (Ok (), fs\<lparr>ro_current := (ro_current fs)\<lparr>fe_data := take n (fe_data (ro_current fs)),
            fe_metadata := (fe_metadata (ro_current fs))\<lparr>md_size := n, md_modified := Some now\<rparr>\<rparr>\<rparr>)
       else (Err (NotSupported ''truncate only supported for /current''), fs))"

definition rotate_touch :: "path \<Rightarrow> (StreamRotateFS, unit) fs_op" where
  "rotate_touch p now =
     with_valid p (\<lambda>q fs.
       if q = ''/current'' then
         (Ok (), fs\<lparr>ro_current := (ro_current fs)\<lparr>fe_metadata :=
            (fe_metadata (ro_current fs))\<lparr>md_accessed := Some now, md_modified := Some now\<rparr>\<rparr>\<rparr>)
       else if q = ''/rotate'' \<or> q = ''/config'' \<or> q = ''/'' \<or> q = ''/archive'' then (Ok (), fs)
       else if starts_with q ''/archive/'' then
         (case archive_seq q of
            Some i \<Rightarrow> (if bt_get (ro_archive fs) i \<noteq> None then Ok () else Err (NotFound q), fs)
          | None \<Rightarrow> (Err (NotFound q), fs))
       else (Err (NotFound q), fs))"

definition rotate_fs :: "StreamRotateFS FileSystem" where
  "rotate_fs = \<lparr>fs_read = rotate_read, fs_stat = rotate_stat, fs_create = rotate_create,
     fs_write = rotate_write, fs_mkdir = rotate_mkdir, fs_read_dir = rotate_read_dir,
     fs_remove = rotate_remove, fs_remove_all = rotate_remove_all, fs_rename = rotate_rename,
     fs_chmod = rotate_chmod, fs_truncate = rotate_truncate, fs_touch = rotate_touch,
     fs_readlink = default_readlink, fs_symlink = default_symlink,
     fs_get_xattr = default_get_xattr, fs_set_xattr = default_set_xattr,
     fs_remove_xattr = default_remove_xattr, fs_list_xattr = default_list_xattr\<rparr>"

subsection \<open>The log and its archive\<close>

lemma prune_eq: "bt_inv m \<Longrightarrow> prune cap m = drop (length m - cap) m"
proof (induction m)
  case Nil
  then show ?case by (simp add: prune.simps)
next
  case (Cons kv m)
  obtain k v where kv: "kv = (k, v)" by (cases kv)
  have "bt_remove (kv # m) k = m"
    using Cons.prems kv by (auto simp: bt_remove_def filter_id_conv)
  with Cons kv show ?case by (subst prune.simps) (auto simp: Suc_diff_le)
qed

text \<open>
  \<open>archived mf chunks\<close>: what an archive of the rotated \<open>chunks\<close> holds, and
  \<open>rotated fs chunks\<close>: the state has rotated exactly these.
\<close>

definition archived :: "nat \<Rightarrow> bytes list \<Rightarrow> (nat \<times> bytes) list" where
  "archived mf chunks = map (\<lambda>i. (Suc i, chunks ! i)) [length chunks - mf ..< length chunks]"

definition rotated :: "StreamRotateFS \<Rightarrow> bytes list \<Rightarrow> bool" where
  "rotated fs chunks \<longleftrightarrow> ro_next_seq fs = Suc (length chunks) \<and>
     map (\<lambda>(i, e). (i, fe_data e)) (ro_archive fs) = archived (roc_max_files (ro_config fs)) chunks \<and>
     (\<forall>(_, e) \<in> set (ro_archive fs). is_file (fe_metadata e)) \<and> is_file (fe_metadata (ro_current fs))"

lemma archived_snoc:
  "drop (length (archived mf chunks) + 1 - mf) (archived mf chunks @ [(Suc (length chunks), d)]) =
     archived mf (chunks @ [d])"
proof -
  let ?N = "length chunks"
  have a: "archived mf chunks @ [(Suc ?N, d)] = map (\<lambda>i. (Suc i, (chunks @ [d]) ! i)) [?N - mf ..< Suc ?N]"
    by (auto simp: archived_def nth_append)
  have "?N - mf + (?N - (?N - mf) + 1 - mf) = Suc ?N - mf" by arith
  then have "drop (?N - (?N - mf) + 1 - mf) [?N - mf ..< Suc ?N] = [Suc ?N - mf ..< Suc ?N]"
    by (simp only: drop_upt)
  moreover have "length (archived mf chunks) = ?N - (?N - mf)" by (simp add: archived_def)
  ultimately show ?thesis
    unfolding a drop_map by (simp add: archived_def del: upt_Suc)
qed

lemma rotated_keys:
  assumes "rotated fs chunks"
  shows "map fst (ro_archive fs) = map Suc [length chunks - roc_max_files (ro_config fs) ..< length chunks]"
proof -
  have "map fst (ro_archive fs) = map fst (map (\<lambda>(i, e). (i, fe_data e)) (ro_archive fs))"
    by (simp add: comp_def case_prod_unfold)
  also have "\<dots> = map fst (archived (roc_max_files (ro_config fs)) chunks)"
    using assms by (simp add: rotated_def)
  finally show ?thesis by (simp add: archived_def comp_def)
qed

lemma rotate_rotated:
  assumes r: "rotated fs chunks" and room: "Suc (length chunks) < u64_max"
  shows "rotated (rotate_log now fs) (chunks @ [fe_data (ro_current fs)])"
    and "fe_data (ro_current (rotate_log now fs)) = []" and "ro_config (rotate_log now fs) = ro_config fs"
proof -
  let ?mf = "roc_max_files (ro_config fs)" and ?N = "length chunks"
  let ?e = "entry_file now ''/archive/001.log'' (fe_data (ro_current fs))"
  have seq: "ro_next_seq fs = Suc ?N" using r by (simp add: rotated_def)
  have lt: "\<forall>(k, _) \<in> set (ro_archive fs). k < Suc ?N"
  proof safe
    fix k e assume "(k, e) \<in> set (ro_archive fs)"
    then have "k \<in> set (map fst (ro_archive fs))" by force
    then show "k < Suc ?N" unfolding rotated_keys [OF r] by auto
  qed
  have ins: "bt_insert (ro_archive fs) (Suc ?N) ?e = ro_archive fs @ [(Suc ?N, ?e)]"
    by (rule bt_insert_append [OF lt])
  have "bt_inv (ro_archive fs)"
    unfolding bt_inv_def rotated_keys [OF r] by (simp add: sorted_wrt_map)
  then have "bt_inv (bt_insert (ro_archive fs) (Suc ?N) ?e)" by (rule bt_inv_insert)
  then have pr: "prune ?mf (bt_insert (ro_archive fs) (Suc ?N) ?e) =
      drop (length (ro_archive fs) + 1 - ?mf) (ro_archive fs @ [(Suc ?N, ?e)])"
    unfolding ins by (simp add: prune_eq)
  have dat: "map (\<lambda>(i, e). (i, fe_data e)) (ro_archive fs) = archived ?mf chunks"
    using r by (simp add: rotated_def)
  then have len: "length (ro_archive fs) = length (archived ?mf chunks)" by (metis length_map)
  let ?A = "drop (length (ro_archive fs) + 1 - ?mf) (ro_archive fs @ [(Suc ?N, ?e)])"
  have A: "map (\<lambda>(i, e). (i, fe_data e)) ?A = archived ?mf (chunks @ [fe_data (ro_current fs)])"
    using archived_snoc [of ?mf chunks "fe_data (ro_current fs)"]
    unfolding drop_map [symmetric] len by (simp add: dat entry_file_def)
  have files: "\<forall>(_, e) \<in> set ?A. is_file (fe_metadata e)"
  proof -
    have "\<forall>(_, e) \<in> set (ro_archive fs @ [(Suc ?N, ?e)]). is_file (fe_metadata e)"
      using r by (auto simp: rotated_def entry_file_def)
    then show ?thesis by (meson in_set_dropD)
  qed
  have "is_file ((metadata_file now ''/current'' 0)\<lparr>md_modified := Some now\<rparr>)"
    using metadata_kinds(1) [of now "''/current''" 0] by (simp add: is_file_def)
  then have cur: "is_file (fe_metadata (ro_current (rotate_log now fs)))"
    by (simp add: rotate_log_def Let_def entry_file_def)
  have arch: "ro_archive (rotate_log now fs) = ?A" "ro_next_seq (rotate_log now fs) = Suc (Suc ?N)"
    using room pr seq by (simp_all add: rotate_log_def Let_def)
  show "rotated (rotate_log now fs) (chunks @ [fe_data (ro_current fs)])"
    unfolding rotated_def arch using A files cur by (simp add: rotate_log_def Let_def)
  show "fe_data (ro_current (rotate_log now fs)) = []" "ro_config (rotate_log now fs) = ro_config fs"
    by (simp_all add: rotate_log_def Let_def entry_file_def)
qed

subsection \<open>Logging\<close>

datatype log_event = Log bytes | Force

fun log_run :: "log_event list \<Rightarrow> time \<Rightarrow> StreamRotateFS \<Rightarrow> StreamRotateFS" where
  "log_run [] now fs = fs"
| "log_run (Log d # es) now fs = log_run es now (snd (rotate_write ''/current'' d 0 WF_NONE now fs))"
| "log_run (Force # es) now fs = log_run es now (snd (rotate_write ''/rotate'' ''rotate'' 0 WF_NONE now fs))"

fun logged :: "log_event list \<Rightarrow> bytes" where
  "logged [] = []"
| "logged (Log d # es) = d @ logged es"
| "logged (Force # es) = logged es"

lemma rotate_write_current:
  "rotate_write ''/current'' d off fl now fs = (Ok (length d), check_rotate now (append_current now d fs))"
  by (simp add: rotate_write_def with_valid_def rotate_normalize_def rotate_validate_def
      trim_start_char_def push_def Let_def has_root_def)

lemma rotate_write_rotate:
  "rotate_write ''/rotate'' ''rotate'' off fl now fs = (Ok 6, rotate_log now fs)"
proof -
  have "trim (from_utf8_lossy ''rotate'') = ''rotate''" by code_simp
  then show ?thesis
    by (simp add: rotate_write_def with_valid_def rotate_normalize_def rotate_validate_def
        trim_start_char_def push_def Let_def has_root_def)
qed

lemma append_current_simps [simp]:
  "fe_data (ro_current (append_current now d fs)) = fe_data (ro_current fs) @ d"
  "ro_config (append_current now d fs) = ro_config fs"
  "rotated (append_current now d fs) chunks = rotated fs chunks"
  by (simp_all add: append_current_def Let_def rotated_def is_file_def)

text \<open>What the log holds: the rotated chunks, then the current file.\<close>

lemma log_run_shape:
  "rotated fs chunks \<Longrightarrow> Suc (length chunks + length es) < u64_max \<Longrightarrow>
   roc_max_size (ro_config fs) = 0 \<longrightarrow> fe_data (ro_current fs) = [] \<Longrightarrow>
   0 < roc_max_size (ro_config fs) \<longrightarrow> length (fe_data (ro_current fs)) < roc_max_size (ro_config fs) \<Longrightarrow>
   \<exists>cs. rotated (log_run es now fs) (chunks @ cs) \<and> ro_config (log_run es now fs) = ro_config fs \<and>
     concat cs @ fe_data (ro_current (log_run es now fs)) = fe_data (ro_current fs) @ logged es \<and>
     length cs \<le> length es \<and>
     (roc_max_size (ro_config fs) = 0 \<longrightarrow> fe_data (ro_current (log_run es now fs)) = []) \<and>
     (0 < roc_max_size (ro_config fs) \<longrightarrow>
       length (fe_data (ro_current (log_run es now fs))) < roc_max_size (ro_config fs))"
proof (induction es arbitrary: fs chunks)
  case Nil
  then show ?case by (intro exI [of _ "[]"]) simp
next
  case (Cons e es)
  have rot: "\<exists>cs. rotated (log_run es now (rotate_log now g)) (chunks @ cs) \<and>
      ro_config (log_run es now (rotate_log now g)) = ro_config g \<and>
      concat cs @ fe_data (ro_current (log_run es now (rotate_log now g))) = fe_data (ro_current g) @ logged es \<and>
      length cs \<le> Suc (length es) \<and>
      (roc_max_size (ro_config g) = 0 \<longrightarrow> fe_data (ro_current (log_run es now (rotate_log now g))) = []) \<and>
      (0 < roc_max_size (ro_config g) \<longrightarrow>
        length (fe_data (ro_current (log_run es now (rotate_log now g)))) < roc_max_size (ro_config g))"
    if g: "rotated g chunks" for g
  proof -
    have room: "Suc (length chunks) < u64_max" using Cons.prems(2) by simp
    note r = rotate_rotated [OF g room, of now]
    from Cons.IH [OF r(1)] Cons.prems(2) r(2,3) obtain cs where
      "rotated (log_run es now (rotate_log now g)) ((chunks @ [fe_data (ro_current g)]) @ cs)"
      "ro_config (log_run es now (rotate_log now g)) = ro_config g"
      "concat cs @ fe_data (ro_current (log_run es now (rotate_log now g))) = logged es" "length cs \<le> length es"
      "roc_max_size (ro_config g) = 0 \<longrightarrow> fe_data (ro_current (log_run es now (rotate_log now g))) = []"
      "0 < roc_max_size (ro_config g) \<longrightarrow>
        length (fe_data (ro_current (log_run es now (rotate_log now g)))) < roc_max_size (ro_config g)"
      by auto
    then show ?thesis by (intro exI [of _ "fe_data (ro_current g) # cs"]) simp
  qed
  show ?case
  proof (cases e)
    case (Log d)
    let ?g = "append_current now d fs"
    show ?thesis
    proof (cases "length (fe_data (ro_current ?g)) \<ge> roc_max_size (ro_config fs)")
      case True
      from rot [of ?g] Cons.prems(1) True Log show ?thesis
        by (simp add: rotate_write_current check_rotate_def)
    next
      case False
      from Cons.IH [of ?g chunks] Cons.prems False Log show ?thesis
        by (auto simp: rotate_write_current check_rotate_def)
    qed
  next
    case Force
    with rot [OF Cons.prems(1)] show ?thesis by (simp add: rotate_write_rotate)
  qed
qed

definition archive_path :: "nat \<Rightarrow> path" where
  "archive_path i = ''/archive/'' @ pad_zero 3 (dec i) @ ''.log''"

lemma archive_path_parse:
  assumes "i \<le> u64_max"
  shows "rotate_normalize (archive_path i) = archive_path i" "rotate_validate (archive_path i) = Ok ()"
    "archive_seq (archive_path i) = Some i"
proof -
  show n: "rotate_normalize (archive_path i) = archive_path i"
    by (simp add: rotate_normalize_def archive_path_def trim_start_char_def push_def has_root_def Let_def)
  show "rotate_validate (archive_path i) = Ok ()"
    unfolding rotate_validate_def n by (simp add: archive_path_def starts_with_def)
  have "str_strip_suffix (pad_zero 3 (dec i) @ ''.log'') ''.log'' = Some (pad_zero 3 (dec i))"
    by (simp add: str_strip_suffix_def ends_with_def starts_with_def)
  moreover have "str_strip_prefix (archive_path i) ''/archive/'' = Some (pad_zero 3 (dec i) @ ''.log'')"
    by (simp add: archive_path_def str_strip_prefix_def starts_with_def)
  ultimately show "archive_seq (archive_path i) = Some i"
    using parse_u64_pad_dec [OF assms] by (simp add: archive_seq_def)
qed

lemma rotated_read:
  assumes r: "rotated fs chunks" and i: "i < length chunks" "length chunks < u64_max"
  shows "fst (rotate_read (archive_path (Suc i)) 0 (- 1) now fs) =
    (if length chunks - roc_max_files (ro_config fs) \<le> i then Ok (chunks ! i)
     else Err (NotFound (archive_path (Suc i))))"
proof -
  let ?p = "archive_path (Suc i)"
  have p: "rotate_normalize ?p = ?p" "rotate_validate ?p = Ok ()" "archive_seq ?p = Some (Suc i)"
    using i by (intro archive_path_parse; simp)+
  have ge: "rotate_get_entry now ?p fs = ok_or (bt_get (ro_archive fs) (Suc i)) (NotFound ?p)"
    unfolding rotate_get_entry_def p Let_def by (simp add: archive_path_def starts_with_def p [unfolded archive_path_def])
  have "map_option fe_data (bt_get (ro_archive fs) (Suc i)) =
      map_of (map (\<lambda>(i, e). (i, fe_data e)) (ro_archive fs)) (Suc i)"
    by (simp add: bt_get_map_of map_of_map)
  also have "\<dots> = map_of (archived (roc_max_files (ro_config fs)) chunks) (Suc i)"
    using r by (simp add: rotated_def)
  also have "\<dots> = (if length chunks - roc_max_files (ro_config fs) \<le> i then Some (chunks ! i) else None)"
  proof -
    have "map_of (map (\<lambda>i. (Suc i, f i)) xs) (Suc i) = (if i \<in> set xs then Some (f i) else None)"
      for f :: "nat \<Rightarrow> bytes" and xs
      by (induction xs) auto
    with i(1) show ?thesis by (simp add: archived_def)
  qed
  finally have look: "map_option fe_data (bt_get (ro_archive fs) (Suc i)) =
      (if length chunks - roc_max_files (ro_config fs) \<le> i then Some (chunks ! i) else None)" .
  show ?thesis
  proof (cases "bt_get (ro_archive fs) (Suc i)")
    case (Some e)
    then have "(Suc i, e) \<in> set (ro_archive fs)" by (simp add: bt_get_map_of map_of_SomeD)
    then have "is_file (fe_metadata e)" using r unfolding rotated_def by blast
    with Some look show ?thesis
      by (auto simp: rotate_read_def ge read_slice_all is_i64_def split: if_splits)
  qed (use look in \<open>auto simp: rotate_read_def ge split: if_splits\<close>)
qed

subsection \<open>Properties\<close>

text \<open>
  \<^bold>\<open>C35\<close>. No line of the log is lost before it is pruned: after any writes to \<open>/current\<close> and forced
  rotations, the rotated chunks followed by \<open>/current\<close> are exactly what was written, in order; the last
  \<open>max_files\<close> chunks can be read in the archive under their numbers, the older ones are gone,
  and \<open>/current\<close> is shorter than \<open>max_size\<close>.
\<close>

theorem rotate_log_complete:
  assumes "Suc (length es) < u64_max"
  shows "let fs = log_run es now (rotatefs_new c t) in
    \<exists>chunks. concat chunks @ fe_data (ro_current fs) = logged es \<and> length chunks \<le> length es \<and>
      fst (rotate_read ''/current'' 0 (- 1) now fs) = Ok (fe_data (ro_current fs)) \<and>
      (0 < roc_max_size c \<longrightarrow> length (fe_data (ro_current fs)) < roc_max_size c) \<and>
      length (ro_archive fs) = min (roc_max_files c) (length chunks) \<and>
      (\<forall>i < length chunks. fst (rotate_read (archive_path (Suc i)) 0 (- 1) now fs) =
        (if length chunks - roc_max_files c \<le> i then Ok (chunks ! i)
         else Err (NotFound (archive_path (Suc i)))))"
proof -
  let ?fs = "log_run es now (rotatefs_new c t)"
  have "rotated (rotatefs_new c t) []"
    by (simp add: rotated_def rotatefs_new_def archived_def entry_file_def)
  from log_run_shape [OF this, of es now] assms obtain cs where cs:
    "rotated ?fs cs" "ro_config ?fs = c" "concat cs @ fe_data (ro_current ?fs) = logged es"
    "length cs \<le> length es"
    "0 < roc_max_size c \<longrightarrow> length (fe_data (ro_current ?fs)) < roc_max_size c"
    by (auto simp: rotatefs_new_def entry_file_def)
  have "fst (rotate_read ''/current'' 0 (- 1) now ?fs) = Ok (fe_data (ro_current ?fs))"
    using cs(1) by (simp add: rotate_read_def rotate_get_entry_def rotate_normalize_def rotate_validate_def
        trim_start_char_def push_def Let_def has_root_def rotated_def read_slice_all is_i64_def)
  moreover have "length (ro_archive ?fs) = min (roc_max_files c) (length cs)"
  proof -
    have "length (ro_archive ?fs) = length (map fst (ro_archive ?fs))" by simp
    also have "\<dots> = length cs - (length cs - roc_max_files c)"
      unfolding rotated_keys [OF cs(1)] using cs(2) by simp
    finally show ?thesis by simp
  qed
  moreover have "fst (rotate_read (archive_path (Suc i)) 0 (- 1) now ?fs) =
        (if length cs - roc_max_files c \<le> i then Ok (cs ! i) else Err (NotFound (archive_path (Suc i))))"
    if "i < length cs" for i
    using rotated_read [OF cs(1) that, of now] cs(2,4) assms by simp
  ultimately show ?thesis unfolding Let_def by (intro exI [of _ cs] conjI allI impI cs(3-5)) (assumption | simp)+
qed

theorem rotate_log_complete_witness:
  "let fs = log_run [Log ''ab'', Log ''cd'', Force] 0 (rotatefs_new (rotate_config_default\<lparr>roc_max_size := 2\<rparr>) 0) in
   \<exists>chunks. concat chunks @ fe_data (ro_current fs) = ''abcd'' \<and> length chunks \<le> 3 \<and>
     length (ro_archive fs) = min 10 (length chunks)"
proof -
  let ?es = "[Log ''ab'', Log ''cd'', Force]"
  have logged: "logged ?es = ''abcd''" and len: "length ?es = 3" by simp_all
  have files: "roc_max_files (rotate_config_default\<lparr>roc_max_size := 2\<rparr>) = 10" by (simp add: rotate_config_default_def)
  have "Suc (length ?es) < u64_max" by simp
  from rotate_log_complete [OF this, of 0 "rotate_config_default\<lparr>roc_max_size := 2\<rparr>" 0]
  show ?thesis unfolding Let_def logged len files by blast
qed

text \<open>Truncating beyond the end leaves a size that the contents do not have.\<close>

lemma rotate_truncate_beyond:
  assumes "length (fe_data (ro_current fs)) < n" "is_file (fe_metadata (ro_current fs))"
  shows "\<exists>m. fst (rotate_stat ''/current'' now (snd (rotate_truncate ''/current'' n now fs))) = Ok m \<and> md_size m = n \<and>
    fst (rotate_read ''/current'' 0 (- 1) now (snd (rotate_truncate ''/current'' n now fs))) =
      Ok (fe_data (ro_current fs))"
  using assms
  by (simp add: rotate_stat_def rotate_truncate_def with_valid_def rotate_read_def rotate_get_entry_def
      rotate_normalize_def rotate_validate_def trim_start_char_def push_def Let_def has_root_def
      read_slice_all is_i64_def is_file_def)

end
