(* ===== verification/Handle_Manager.thy ===== *)
theory Handle_Manager
  imports Core_Types
begin

text \<open>
  \<open>racfs-vfs/src/handle_manager.rs\<close>: open handles with leases, indexed by identifier and by
  (path, flags). Identifiers come from the crate \<open>uuid\<close> and are arguments here, assumed
  fresh where that matters; \<open>ustr\<close> is their textual form. Time is in nanoseconds.
  \<open>open_handle\<close> is the sequence of three critical sections the code has (limit check, lookup
  under the read lock, commit under the write lock), so that their interleaving between
  threads can be stated.
\<close>

subsection \<open>State and operations\<close>

record HandleEntry =
  he_handle :: FileHandle
  he_created :: time
  he_last_accessed :: time

type_synonym handle_key = "path \<times> flags"

record HandleManager =
  hdl_handles :: "(handle_id \<times> HandleEntry) list"
  hdl_path_index :: "(handle_key \<times> handle_id) list"
  hdl_lease_timeout :: nat
  hdl_max_handles :: nat

text \<open>Equality of the composite key: paths by components, flags by value.\<close>

definition handle_key_eq :: "handle_key \<Rightarrow> handle_key \<Rightarrow> bool" where
  "handle_key_eq k l \<longleftrightarrow> path_eq (fst k) (fst l) \<and> snd k = snd l"

definition with_config :: "nat \<Rightarrow> nat \<Rightarrow> HandleManager" where
  "with_config secs mx =
     \<lparr>hdl_handles = [], hdl_path_index = [], hdl_lease_timeout = secs * 10 ^ 9,
      hdl_max_handles = mx\<rparr>"

definition handle_manager_new :: HandleManager where
  "handle_manager_new = with_config 30 1024"

definition entry_key :: "HandleEntry \<Rightarrow> handle_key" where
  "entry_key e = (fh_path (he_handle e), fh_flags (he_handle e))"

definition open_full :: "HandleManager \<Rightarrow> bool" where
  "open_full m \<longleftrightarrow> length (hdl_handles m) \<ge> hdl_max_handles m"

definition open_existing :: "path \<Rightarrow> flags \<Rightarrow> HandleManager \<Rightarrow> FileHandle option" where
  "open_existing p f m =
     (case hm_get handle_key_eq (hdl_path_index m) (p, f) of
        None \<Rightarrow> None
      | Some i \<Rightarrow> map_option he_handle (hm_get (=) (hdl_handles m) i))"

definition open_commit ::
    "handle_id \<Rightarrow> path \<Rightarrow> flags \<Rightarrow> time \<Rightarrow> HandleManager \<Rightarrow> FileHandle \<times> HandleManager" where
  "open_commit uuid p f now m =
     (case open_existing p f m of
        Some h \<Rightarrow> (h, m)
      | None \<Rightarrow>
          (let h = file_handle_new uuid p f
           in (h, m\<lparr>hdl_handles := hm_insert (=) (hdl_handles m) uuid
                     \<lparr>he_handle = h, he_created = now, he_last_accessed = now\<rparr>,
                   hdl_path_index := hm_insert handle_key_eq (hdl_path_index m) (p, f) uuid\<rparr>)))"

definition open_handle ::
    "handle_id \<Rightarrow> path \<Rightarrow> flags \<Rightarrow> time \<Rightarrow> HandleManager \<Rightarrow> FileHandle fs_result \<times> HandleManager" where
  "open_handle uuid p f now m =
     (if open_full m then (Err TooManyOpenFiles, m)
      else (case open_existing p f m of
          Some h \<Rightarrow> (Ok h, m)
        | None \<Rightarrow> (let (h, m') = open_commit uuid p f now m in (Ok h, m'))))"

definition close_handle ::
    "(handle_id \<Rightarrow> string) \<Rightarrow> handle_id \<Rightarrow> HandleManager \<Rightarrow> unit fs_result \<times> HandleManager" where
  "close_handle ustr i m =
     (case hm_get (=) (hdl_handles m) i of
        None \<Rightarrow> (Err (InvalidHandle (ustr i)), m)
      | Some e \<Rightarrow>
          (Ok (), m\<lparr>hdl_handles := hm_remove (=) (hdl_handles m) i,
             hdl_path_index := hm_remove handle_key_eq (hdl_path_index m) (entry_key e)\<rparr>))"

definition get_handle ::
    "(handle_id \<Rightarrow> string) \<Rightarrow> handle_id \<Rightarrow> time \<Rightarrow> HandleManager \<Rightarrow> FileHandle fs_result \<times> HandleManager" where
  "get_handle ustr i now m =
     (case hm_get (=) (hdl_handles m) i of
        None \<Rightarrow> (Err (InvalidHandle (ustr i)), m)
      | Some e \<Rightarrow> (Ok (he_handle e), m\<lparr>hdl_handles :=
          hm_insert (=) (hdl_handles m) i (e\<lparr>he_last_accessed := now\<rparr>)\<rparr>))"

definition renew_lease ::
    "(handle_id \<Rightarrow> string) \<Rightarrow> handle_id \<Rightarrow> time \<Rightarrow> HandleManager \<Rightarrow> unit fs_result \<times> HandleManager" where
  "renew_lease ustr i now m =
     (case hm_get (=) (hdl_handles m) i of
        None \<Rightarrow> (Err (InvalidHandle (ustr i)), m)
      | Some e \<Rightarrow> (Ok (), m\<lparr>hdl_handles :=
          hm_insert (=) (hdl_handles m) i (e\<lparr>he_last_accessed := now\<rparr>)\<rparr>))"

definition update_offset ::
    "(handle_id \<Rightarrow> string) \<Rightarrow> handle_id \<Rightarrow> int \<Rightarrow> time \<Rightarrow> HandleManager \<Rightarrow> unit fs_result \<times> HandleManager" where
  "update_offset ustr i off now m =
     (case hm_get (=) (hdl_handles m) i of
        None \<Rightarrow> (Err (InvalidHandle (ustr i)), m)
      | Some e \<Rightarrow> (Ok (), m\<lparr>hdl_handles := hm_insert (=) (hdl_handles m) i
          (e\<lparr>he_handle := (he_handle e)\<lparr>fh_offset := off\<rparr>, he_last_accessed := now\<rparr>)\<rparr>))"

definition lease_expired :: "HandleManager \<Rightarrow> time \<Rightarrow> HandleEntry \<Rightarrow> bool" where
  "lease_expired m now e \<longleftrightarrow> now - he_last_accessed e \<ge> hdl_lease_timeout m"

definition cleanup_expired :: "time \<Rightarrow> HandleManager \<Rightarrow> nat \<times> HandleManager" where
  "cleanup_expired now m =
     (let ex = filter (\<lambda>(_, e). lease_expired m now e) (hdl_handles m)
      in (length ex,
          m\<lparr>hdl_path_index := foldl (\<lambda>ix (_, e). hm_remove handle_key_eq ix (entry_key e))
               (hdl_path_index m) ex,
            hdl_handles := foldl (\<lambda>hs (i, _). hm_remove (=) hs i) (hdl_handles m) ex\<rparr>))"

definition handle_count :: "HandleManager \<Rightarrow> nat" where
  "handle_count m = length (hdl_handles m)"

definition handle_manager_is_empty :: "HandleManager \<Rightarrow> bool" where
  "handle_manager_is_empty m \<longleftrightarrow> hdl_handles m = []"

definition list_handles :: "HandleManager \<Rightarrow> handle_id list" where
  "list_handles m = map fst (hdl_handles m)"

interpretation hk_map: key_equivalence handle_key_eq
  by unfold_locales (auto simp: handle_key_eq_def intro: path_map.sym path_map.trans)

subsection \<open>The two indexes agree\<close>

text \<open>Every handle is found under its identifier and under its key, and conversely.\<close>

definition handles_inv :: "HandleManager \<Rightarrow> bool" where
  "handles_inv m \<longleftrightarrow> hm_inv (=) (hdl_handles m) \<and> hm_inv handle_key_eq (hdl_path_index m) \<and>
     (\<forall>i e. hm_get (=) (hdl_handles m) i = Some e \<longrightarrow> fh_id (he_handle e) = i \<and>
        hm_get handle_key_eq (hdl_path_index m) (entry_key e) = Some i) \<and>
     (\<forall>k i. hm_get handle_key_eq (hdl_path_index m) k = Some i \<longrightarrow>
        (\<exists>e. hm_get (=) (hdl_handles m) i = Some e \<and> handle_key_eq (entry_key e) k))"

lemma handles_invD:
  assumes "handles_inv m"
  shows "hm_inv (=) (hdl_handles m)" "hm_inv handle_key_eq (hdl_path_index m)"
    and "hm_get (=) (hdl_handles m) i = Some e \<Longrightarrow> fh_id (he_handle e) = i"
    and "hm_get (=) (hdl_handles m) i = Some e \<Longrightarrow>
      hm_get handle_key_eq (hdl_path_index m) (entry_key e) = Some i"
    and "hm_get handle_key_eq (hdl_path_index m) k = Some i \<Longrightarrow>
      \<exists>e. hm_get (=) (hdl_handles m) i = Some e \<and> handle_key_eq (entry_key e) k"
  using assms unfolding handles_inv_def by blast+

lemma handles_invI:
  assumes "hm_inv (=) (hdl_handles m)" "hm_inv handle_key_eq (hdl_path_index m)"
    and "\<And>i e. hm_get (=) (hdl_handles m) i = Some e \<Longrightarrow> fh_id (he_handle e) = i \<and>
      hm_get handle_key_eq (hdl_path_index m) (entry_key e) = Some i"
    and "\<And>k i. hm_get handle_key_eq (hdl_path_index m) k = Some i \<Longrightarrow>
      \<exists>e. hm_get (=) (hdl_handles m) i = Some e \<and> handle_key_eq (entry_key e) k"
  shows "handles_inv m"
  using assms unfolding handles_inv_def by blast

lemma handles_inv_new: "handles_inv (with_config s mx)"
  by (rule handles_invI) (simp_all add: with_config_def)

text \<open>Updating an entry without touching its key or identifier keeps the indexes in step.\<close>

lemma handles_inv_update:
  assumes inv: "handles_inv m" and e: "hm_get (=) (hdl_handles m) i = Some e"
    and same: "entry_key e' = entry_key e" "fh_id (he_handle e') = fh_id (he_handle e)"
  shows "handles_inv (m\<lparr>hdl_handles := hm_insert (=) (hdl_handles m) i e'\<rparr>)"
proof (rule handles_invI, goal_cases)
  case (3 j x)
  then show ?case
    using handles_invD(3,4) [OF inv] e same by (auto simp: str_map.hm_get_insert split: if_splits)
next
  case (4 k j)
  then have "hm_get handle_key_eq (hdl_path_index m) k = Some j" by simp
  from handles_invD(5) [OF inv this] e same show ?case by (auto simp: str_map.hm_get_insert)
qed (simp_all add: str_map.hm_inv_insert handles_invD(1,2) [OF inv])

lemma open_existing_iff:
  assumes "handles_inv m"
  shows "open_existing p f m = None \<longleftrightarrow> hm_get handle_key_eq (hdl_path_index m) (p, f) = None"
  using handles_invD(5) [OF assms, of "(p, f)"]
  by (auto simp: open_existing_def split: option.splits)

lemma open_commit_inv:
  assumes inv: "handles_inv m" and fresh: "hm_get (=) (hdl_handles m) uuid = None"
  shows "handles_inv (snd (open_commit uuid p f now m))"
proof (cases "open_existing p f m")
  case None
  let ?e = "\<lparr>he_handle = file_handle_new uuid p f, he_created = now, he_last_accessed = now\<rparr>"
  let ?m = "m\<lparr>hdl_handles := hm_insert (=) (hdl_handles m) uuid ?e,
    hdl_path_index := hm_insert handle_key_eq (hdl_path_index m) (p, f) uuid\<rparr>"
  have no: "hm_get handle_key_eq (hdl_path_index m) (p, f) = None"
    using open_existing_iff [OF inv] None by blast
  have new: "entry_key ?e = (p, f)" "fh_id (he_handle ?e) = uuid"
    by (simp_all add: entry_key_def file_handle_new_def)
  have "handles_inv ?m"
  proof (rule handles_invI, goal_cases)
    case (3 i e)
    show ?case
    proof (cases "i = uuid")
      case False
      with 3 have e: "hm_get (=) (hdl_handles m) i = Some e" by (simp add: str_map.hm_get_insert)
      have "\<not> handle_key_eq (p, f) (entry_key e)"
        using handles_invD(4) [OF inv e] no
          hk_map.hm_get_eq [of "(p, f)" "entry_key e" "hdl_path_index m"] by auto
      with handles_invD(3,4) [OF inv e] show ?thesis by (simp add: hk_map.hm_get_insert)
    qed (use 3 new in \<open>auto simp: str_map.hm_get_insert hk_map.hm_get_insert\<close>)
  next
    case (4 k i)
    show ?case
    proof (cases "handle_key_eq (p, f) k")
      case False
      with 4 have "hm_get handle_key_eq (hdl_path_index m) k = Some i"
        by (simp add: hk_map.hm_get_insert)
      from handles_invD(5) [OF inv this] fresh show ?thesis by (auto simp: str_map.hm_get_insert)
    qed (use 4 new in \<open>auto simp: str_map.hm_get_insert hk_map.hm_get_insert\<close>)
  qed (simp_all add: str_map.hm_inv_insert hk_map.hm_inv_insert handles_invD(1,2) [OF inv])
  with None show ?thesis by (simp add: open_commit_def Let_def)
qed (simp add: open_commit_def inv)

lemma handles_inv_remove:
  assumes inv: "handles_inv m" and e: "hm_get (=) (hdl_handles m) i = Some e"
  shows "handles_inv (m\<lparr>hdl_handles := hm_remove (=) (hdl_handles m) i,
    hdl_path_index := hm_remove handle_key_eq (hdl_path_index m) (entry_key e)\<rparr>)"
proof (rule handles_invI, goal_cases)
  case (3 j x)
  then have x: "hm_get (=) (hdl_handles m) j = Some x" "i \<noteq> j"
    by (auto simp: str_map.hm_get_remove split: if_splits)
  have "\<not> handle_key_eq (entry_key e) (entry_key x)"
    using handles_invD(4) [OF inv e] handles_invD(4) [OF inv x(1)] x(2)
      hk_map.hm_get_eq [of "entry_key e" "entry_key x" "hdl_path_index m"] by auto
  with handles_invD(3,4) [OF inv x(1)] show ?case by (simp add: hk_map.hm_get_remove)
next
  case (4 k j)
  then have k: "hm_get handle_key_eq (hdl_path_index m) k = Some j" "\<not> handle_key_eq (entry_key e) k"
    by (auto simp: hk_map.hm_get_remove split: if_splits)
  from handles_invD(5) [OF inv k(1)] k(2) e show ?case by (auto simp: str_map.hm_get_remove)
qed (simp_all add: str_map.hm_inv_remove hk_map.hm_inv_remove handles_invD(1,2) [OF inv])

lemma close_handle_inv: "handles_inv m \<Longrightarrow> handles_inv (snd (close_handle ustr i m))"
  by (auto simp: close_handle_def handles_inv_remove split: option.splits)

lemma open_handle_inv:
  assumes "handles_inv m" "hm_get (=) (hdl_handles m) uuid = None"
  shows "handles_inv (snd (open_handle uuid p f now m))"
  using assms open_commit_inv [OF assms, of p f now]
  by (auto simp: open_handle_def split: option.splits prod.splits)

lemma handle_update_inv:
  assumes "handles_inv m"
  shows "handles_inv (snd (get_handle ustr i now m))"
    and "handles_inv (snd (renew_lease ustr i now m))"
    and "handles_inv (snd (update_offset ustr i off now m))"
  using assms
  by (auto simp: get_handle_def renew_lease_def update_offset_def entry_key_def
      intro!: handles_inv_update split: option.splits)

subsection \<open>Expiry\<close>

definition drop_handles :: "(handle_id \<times> HandleEntry) list \<Rightarrow> HandleManager \<Rightarrow> HandleManager" where
  "drop_handles ex m =
     m\<lparr>hdl_path_index := foldl (\<lambda>ix (_, e). hm_remove handle_key_eq ix (entry_key e)) (hdl_path_index m) ex,
       hdl_handles := foldl (\<lambda>hs (i, _). hm_remove (=) hs i) (hdl_handles m) ex\<rparr>"

lemma drop_handles_inv:
  "handles_inv m \<Longrightarrow> distinct (map fst ex) \<Longrightarrow>
     (\<And>i e. (i, e) \<in> set ex \<Longrightarrow> hm_get (=) (hdl_handles m) i = Some e) \<Longrightarrow>
     handles_inv (drop_handles ex m)"
proof (induction ex arbitrary: m)
  case (Cons ie ex)
  obtain i e where ie: "ie = (i, e)" by (cases ie)
  let ?m = "m\<lparr>hdl_handles := hm_remove (=) (hdl_handles m) i,
    hdl_path_index := hm_remove handle_key_eq (hdl_path_index m) (entry_key e)\<rparr>"
  have "handles_inv ?m" using Cons.prems ie by (intro handles_inv_remove) auto
  moreover have "hm_get (=) (hdl_handles ?m) j = Some x" if "(j, x) \<in> set ex" for j x
    using Cons.prems(2,3) that ie by (force simp: str_map.hm_get_remove)
  ultimately have "handles_inv (drop_handles ex ?m)"
    using Cons.prems(2) by (intro Cons.IH) auto
  moreover have "drop_handles (ie # ex) m = drop_handles ex ?m" by (simp add: drop_handles_def ie)
  ultimately show ?case by simp
qed (simp add: drop_handles_def)

lemma hm_inv_distinct: "hm_inv (=) m \<Longrightarrow> distinct (map fst m)"
  by (induction m) (auto simp: hm_get_None)

lemma cleanup_inv: "handles_inv m \<Longrightarrow> handles_inv (snd (cleanup_expired now m))"
proof -
  assume inv: "handles_inv m"
  let ?ex = "filter (\<lambda>(_, e). lease_expired m now e) (hdl_handles m)"
  have "distinct (map fst ?ex)"
    using hm_inv_distinct [OF handles_invD(1) [OF inv]] by (simp add: distinct_map_filter)
  moreover have "hm_get (=) (hdl_handles m) i = Some e" if "(i, e) \<in> set ?ex" for i e
    using that by (intro str_map.hm_get_entry [OF handles_invD(1) [OF inv]]) auto
  ultimately show ?thesis
    using drop_handles_inv [OF inv, of ?ex] by (simp add: cleanup_expired_def drop_handles_def Let_def)
qed

lemma foldl_remove_filter:
  "foldl (\<lambda>hs (i, _). hm_remove (=) hs i) hs ex = filter (\<lambda>(i, _). i \<notin> fst ` set ex) hs"
proof (induction ex arbitrary: hs)
  case (Cons ie ex)
  obtain i e where "ie = (i, e)" by (cases ie)
  with Cons show ?case by (auto simp: hm_remove_def intro!: filter_cong)
qed simp

lemma cleanup_handles:
  assumes inv: "handles_inv m"
  shows "hdl_handles (snd (cleanup_expired now m)) =
    filter (\<lambda>(_, e). \<not> lease_expired m now e) (hdl_handles m)"
proof -
  let ?ex = "filter (\<lambda>(_, e). lease_expired m now e) (hdl_handles m)"
  have "(i \<in> fst ` set ?ex) = lease_expired m now e" if "(i, e) \<in> set (hdl_handles m)" for i e
    using that hm_inv_distinct [OF handles_invD(1) [OF inv]]
    by (auto simp: image_iff) (metis eq_key_imp_eq_value)
  then show ?thesis
    by (auto simp: cleanup_expired_def Let_def foldl_remove_filter intro!: filter_cong
        simp del: set_filter)
qed

subsection \<open>Runs\<close>

inductive handle_step :: "(handle_id \<Rightarrow> string) \<Rightarrow> HandleManager \<Rightarrow> HandleManager \<Rightarrow> bool" for ustr where
  opened: "hm_get (=) (hdl_handles m) uuid = None \<Longrightarrow>
    handle_step ustr m (snd (open_handle uuid p f now m))"
| closed: "handle_step ustr m (snd (close_handle ustr i m))"
| got: "handle_step ustr m (snd (get_handle ustr i now m))"
| renewed: "handle_step ustr m (snd (renew_lease ustr i now m))"
| moved: "handle_step ustr m (snd (update_offset ustr i off now m))"
| cleaned: "handle_step ustr m (snd (cleanup_expired now m))"

definition handles_bounded :: "HandleManager \<Rightarrow> bool" where
  "handles_bounded m \<longleftrightarrow> length (hdl_handles m) \<le> hdl_max_handles m"

lemma open_commit_length:
  "length (hdl_handles (snd (open_commit uuid p f now m))) \<le> Suc (length (hdl_handles m))"
  "hdl_max_handles (snd (open_commit uuid p f now m)) = hdl_max_handles m"
  by (auto simp: open_commit_def Let_def length_hm_insert split: option.splits)

lemma handle_update_bounded:
  assumes "handles_bounded m"
  shows "handles_bounded (snd (get_handle ustr i now m))"
    and "handles_bounded (snd (renew_lease ustr i now m))"
    and "handles_bounded (snd (update_offset ustr i off now m))"
  using assms
  by (auto simp: handles_bounded_def get_handle_def renew_lease_def update_offset_def
      length_hm_insert split: option.splits)

lemma handle_step_inv:
  "handle_step ustr m m' \<Longrightarrow> handles_inv m \<Longrightarrow> handles_bounded m \<Longrightarrow>
     handles_inv m' \<and> handles_bounded m'"
proof (induction rule: handle_step.induct)
  case (opened m uuid p f now)
  have "handles_bounded (snd (open_handle uuid p f now m))"
    using opened.prems open_commit_length [of uuid p f now m]
    by (auto simp: open_handle_def open_full_def handles_bounded_def split: option.splits prod.splits)
  with opened show ?case by (simp add: open_handle_inv)
next
  case (closed m i)
  have "handles_bounded (snd (close_handle ustr i m))"
    using closed.prems length_hm_remove [of "(=)" "hdl_handles m" i]
    by (auto simp: close_handle_def handles_bounded_def split: option.splits)
  with closed show ?case by (simp add: close_handle_inv)
next
  case (cleaned m now)
  then show ?case
    using le_trans [OF length_filter_le [of "\<lambda>(_, e). \<not> lease_expired m now e" "hdl_handles m"]]
    by (simp add: cleanup_inv handles_bounded_def cleanup_handles) (simp add: cleanup_expired_def Let_def)
qed (simp_all add: handle_update_inv handle_update_bounded)

inductive handle_reachable :: "(handle_id \<Rightarrow> string) \<Rightarrow> HandleManager \<Rightarrow> HandleManager \<Rightarrow> bool"
  for ustr m0 where
  start: "handle_reachable ustr m0 m0"
| step: "handle_reachable ustr m0 m \<Longrightarrow> handle_step ustr m m' \<Longrightarrow> handle_reachable ustr m0 m'"

lemma open_handle_result:
  assumes inv: "handles_inv m" and fresh: "hm_get (=) (hdl_handles m) uuid = None"
    and h: "open_handle uuid p f now m = (Ok h, m')"
  shows "open_existing p f m' = Some h" "handle_key_eq (fh_path h, fh_flags h) (p, f)"
    "\<exists>e. hm_get (=) (hdl_handles m') (fh_id h) = Some e \<and> he_handle e = h"
proof -
  have inv': "handles_inv m'" using open_handle_inv [OF inv fresh, of p f now] h by simp
  show ex: "open_existing p f m' = Some h"
    using h fresh
    by (auto simp: open_handle_def open_commit_def Let_def open_existing_def hk_map.hm_get_insert
        str_map.hm_get_insert split: option.splits if_splits prod.splits)
  then obtain i e where ie: "hm_get handle_key_eq (hdl_path_index m') (p, f) = Some i"
    "hm_get (=) (hdl_handles m') i = Some e" "he_handle e = h"
    by (auto simp: open_existing_def split: option.splits)
  with handles_invD(5) [OF inv' ie(1)] show "handle_key_eq (fh_path h, fh_flags h) (p, f)"
    by (auto simp: entry_key_def)
  show "\<exists>e. hm_get (=) (hdl_handles m') (fh_id h) = Some e \<and> he_handle e = h"
    using handles_invD(3) [OF inv' ie(2)] ie by auto
qed

subsection \<open>Properties\<close>

text \<open>
  \<^bold>\<open>C33\<close>. Whatever sequence of calls a handle manager has served, with fresh identifiers for new
  handles, the index by identifier and the index by (path, flags) describe the same handles, and
  there are never more handles than the configured maximum.
\<close>

theorem handle_reachable_inv:
  "handle_reachable ustr (with_config secs mx) m \<Longrightarrow> handles_inv m \<and> handles_bounded m"
proof (induction rule: handle_reachable.induct)
  case start
  show ?case by (simp add: handles_inv_new handles_bounded_def) (simp add: with_config_def)
next
  case (step m m')
  then show ?case using handle_step_inv by blast
qed

theorem handle_reachable_inv_witness:
  "handles_bounded (snd (open_handle 7 ''/a'' OF_READ 1 (with_config 30 2)))"
proof -
  have "handle_step (\<lambda>_. []) (with_config 30 2) (snd (open_handle 7 ''/a'' OF_READ 1 (with_config 30 2)))"
    by (rule handle_step.opened) (simp add: with_config_def)
  from handle_reachable_inv [OF handle_reachable.step [OF handle_reachable.start this]]
  show ?thesis by simp
qed

text \<open>
  Life of a handle: after a successful open the handle can be fetched by its identifier;
  opening an equal path with the same flags returns the same handle as long as the table is not
  full (and \<open>TooManyOpenFiles\<close> otherwise, even for a handle that is open); closing it succeeds,
  and afterwards the identifier is invalid.
\<close>

theorem handle_lifecycle:
  assumes "handles_inv m" "hm_get (=) (hdl_handles m) uuid = None"
    and "open_handle uuid p f now m = (Ok h, m')" "path_eq p q"
  shows "fst (get_handle ustr (fh_id h) t m') = Ok h \<and>
    fst (open_handle uuid' q f t m') = (if open_full m' then Err TooManyOpenFiles else Ok h) \<and>
    fst (close_handle ustr (fh_id h) m') = Ok () \<and>
    fst (get_handle ustr (fh_id h) t (snd (close_handle ustr (fh_id h) m'))) =
      Err (InvalidHandle (ustr (fh_id h)))"
proof -
  note r = open_handle_result [OF assms(1,2,3)]
  have "open_existing q f m' = open_existing p f m'"
    using hk_map.hm_get_eq [of "(q, f)" "(p, f)" "hdl_path_index m'"] assms(4) path_map.sym
    by (simp add: open_existing_def handle_key_eq_def)
  with r show ?thesis
    by (auto simp: get_handle_def open_handle_def close_handle_def str_map.hm_get_remove)
qed

theorem handle_lifecycle_witness:
  "fst (open_handle 8 ''/a/'' OF_READ 2 (snd (open_handle 7 ''/a'' OF_READ 1 (with_config 30 2)))) =
     Ok (file_handle_new 7 ''/a'' OF_READ)"
proof -
  let ?m = "with_config 30 2"
  have o: "open_handle 7 ''/a'' OF_READ 1 ?m =
      (Ok (file_handle_new 7 ''/a'' OF_READ), snd (open_handle 7 ''/a'' OF_READ 1 ?m))"
    "\<not> open_full (snd (open_handle 7 ''/a'' OF_READ 1 ?m))"
    by (simp_all add: open_handle_def open_full_def with_config_def open_existing_def
        open_commit_def Let_def)
  have f: "hm_get (=) (hdl_handles ?m) 7 = None" by (simp add: with_config_def)
  have e: "path_eq ''/a'' ''/a/''" by code_simp
  from handle_lifecycle [OF handles_inv_new f o(1) e, where uuid' = 8 and t = 2] o(2)
  show ?thesis by simp
qed

text \<open>
  \<open>cleanup_expired\<close> removes exactly the handles whose lease has run out, from both
  indexes, and returns how many they were.
\<close>

theorem handle_cleanup_exact:
  assumes "handles_inv m" "cleanup_expired now m = (n, m')"
  shows "handles_inv m' \<and>
    hdl_handles m' = filter (\<lambda>(_, e). \<not> lease_expired m now e) (hdl_handles m) \<and>
    n + length (hdl_handles m') = length (hdl_handles m)"
proof -
  have m': "m' = snd (cleanup_expired now m)" "n = fst (cleanup_expired now m)"
    using assms(2) by simp_all
  have n: "fst (cleanup_expired now m) =
      length (filter (\<lambda>(_, e). lease_expired m now e) (hdl_handles m))"
    by (simp add: cleanup_expired_def Let_def)
  show ?thesis
    unfolding m' n cleanup_handles [OF assms(1)]
    using cleanup_inv [OF assms(1), of now]
      sum_length_filter_compl [of "\<lambda>(_, e). lease_expired m now e" "hdl_handles m"]
    by (simp add: case_prod_unfold)
qed

theorem handle_cleanup_exact_witness:
  "hdl_handles (snd (cleanup_expired (10 ^ 9) (snd (open_handle 7 ''/a'' OF_READ 0 (with_config 1 2))))) = []"
proof -
  let ?m = "snd (open_handle 7 ''/a'' OF_READ 0 (with_config 1 2))"
  have inv: "handles_inv ?m" by (intro open_handle_inv handles_inv_new) (simp add: with_config_def)
  have "filter (\<lambda>(_, e). \<not> lease_expired ?m (10 ^ 9) e) (hdl_handles ?m) = []"
    by (simp add: open_handle_def open_full_def with_config_def open_existing_def open_commit_def
        lease_expired_def Let_def)
  with handle_cleanup_exact [OF inv surjective_pairing, of "10 ^ 9"] show ?thesis by simp
qed

text \<open>
  The limit is checked under the read lock and not again under the write lock: two threads
  that both pass the check with one slot left and then commit different files leave one handle
  more than the maximum. The double check still prevents duplicates: the indexes stay in step.
\<close>

theorem handle_limit_race:
  assumes "handles_inv m" "Suc (length (hdl_handles m)) = hdl_max_handles m"
    and "open_existing p f m = None" "open_existing q g m = None" "\<not> handle_key_eq (p, f) (q, g)"
    and "hm_get (=) (hdl_handles m) u = None" "hm_get (=) (hdl_handles m) v = None" "u \<noteq> v"
  shows "\<not> open_full m \<and>
    length (hdl_handles (snd (open_commit v q g t' (snd (open_commit u p f t m))))) =
      Suc (hdl_max_handles m) \<and>
    handles_inv (snd (open_commit v q g t' (snd (open_commit u p f t m))))"
proof -
  let ?m = "snd (open_commit u p f t m)"
  have inv: "handles_inv ?m" by (rule open_commit_inv [OF assms(1,6)])
  have v: "hm_get (=) (hdl_handles ?m) v = None"
    using assms(3,7,8) by (simp add: open_commit_def Let_def str_map.hm_get_insert)
  have "hm_get handle_key_eq (hdl_path_index ?m) (q, g) = None"
    using assms(3,5) open_existing_iff [OF assms(1), of q g] assms(4)
    by (simp add: open_commit_def Let_def hk_map.hm_get_insert)
  then have "open_existing q g ?m = None" using open_existing_iff [OF inv] by blast
  moreover have "length (hdl_handles ?m) = hdl_max_handles m"
    using assms(2,3,6) by (simp add: open_commit_def Let_def length_hm_insert)
  moreover have "length (hdl_handles (snd (open_commit v q g t' ?m))) = Suc (length (hdl_handles ?m))"
    if "open_existing q g ?m = None"
    using that v by (simp add: open_commit_def [of v] Let_def length_hm_insert)
  moreover have "\<not> open_full m" using assms(2) by (simp add: open_full_def)
  ultimately show ?thesis using open_commit_inv [OF inv v] by simp
qed

theorem handle_limit_race_witness:
  "length (hdl_handles (snd (open_commit 8 ''/b'' OF_READ 0
     (snd (open_commit 7 ''/a'' OF_READ 0 (with_config 30 1)))))) = 2"
proof -
  let ?m = "with_config 30 1"
  have "\<not> handle_key_eq (''/a'', OF_READ) (''/b'', OF_READ)" by code_simp
  moreover have "Suc (length (hdl_handles ?m)) = hdl_max_handles ?m"
    "open_existing ''/a'' OF_READ ?m = None" "open_existing ''/b'' OF_READ ?m = None"
    "hm_get (=) (hdl_handles ?m) 7 = None" "hm_get (=) (hdl_handles ?m) 8 = None"
    "hdl_max_handles ?m = 1"
    by (simp_all add: with_config_def open_existing_def)
  ultimately show ?thesis
    using handle_limit_race [OF handles_inv_new, of 30 1 "''/a''" OF_READ "''/b''" OF_READ 7 8 0 0]
    by simp
qed

end
