(* ===== verification/Mountable_FS.thy ===== *)
theory Mountable_FS
  imports Fs_Contract Handle_Manager
begin

text \<open>
  \<open>racfs-vfs/src/mountable_fs.rs\<close>: the router. Mount points are kept in a hash map and in a
  trie of the crate \<open>radix_trie\<close>; \<open>resolve_fs\<close> picks the file system by the longest key of
  the trie that is a prefix of the path, and every trait operation is forwarded to it with the
  path relative to the mount point.

  The trie is a parameter \<open>T\<close> with the behaviour of a map (\<open>trie_laws\<close>). A shared file system
  (\<open>Arc<dyn FileSystem>\<close>) is a reference; \<open>V\<close> gives each reference its implementation and
  \<open>mo_backends\<close> its current state.
\<close>

subsection \<open>State\<close>

type_synonym fs_ref = nat

record 't trie_api =
  tr_empty :: 't
  tr_get :: "'t \<Rightarrow> string \<Rightarrow> fs_ref option"
  tr_insert :: "'t \<Rightarrow> string \<Rightarrow> fs_ref \<Rightarrow> 't"
  tr_remove :: "'t \<Rightarrow> string \<Rightarrow> 't"

text \<open>What the crate documents: a map keyed by strings.\<close>

definition trie_laws :: "'t trie_api \<Rightarrow> bool" where
  "trie_laws T \<longleftrightarrow>
     (\<forall>k. tr_get T (tr_empty T) k = None) \<and>
     (\<forall>t k f q. tr_get T (tr_insert T t k f) q = (if k = q then Some f else tr_get T t q)) \<and>
     (\<forall>t k q. tr_get T (tr_remove T t k) q = (if k = q then None else tr_get T t q))"

record ('t, 's) MountableFS =
  mo_mounts :: "(path \<times> fs_ref) list"
  mo_trie :: 't
  mo_handle_manager :: HandleManager
  mo_backends :: "fs_ref \<Rightarrow> 's"

definition mountable_new :: "'t trie_api \<Rightarrow> (fs_ref \<Rightarrow> 's) \<Rightarrow> ('t, 's) MountableFS" where
  "mountable_new T B =
     \<lparr>mo_mounts = [], mo_trie = tr_empty T, mo_handle_manager = handle_manager_new,
      mo_backends = B\<rparr>"

subsection \<open>Mounting and resolution\<close>

definition normalize_mount_point :: "path \<Rightarrow> path" where
  "normalize_mount_point p = (if \<not> ends_with p ''/'' \<and> p \<noteq> ''/'' then push p [] else p)"

definition mo_normalize_path :: "path \<Rightarrow> path" where
  "mo_normalize_path p =
     (let r = foldl normalize_step [] (components p) in if r = [] then push r ''/'' else r)"

definition path_to_key :: "path \<Rightarrow> string" where
  "path_to_key p = (case str_strip_suffix p ''/'' of Some s \<Rightarrow> s | None \<Rightarrow> p)"

definition mount ::
    "'t trie_api \<Rightarrow> path \<Rightarrow> fs_ref \<Rightarrow> ('t, 's) MountableFS \<Rightarrow> unit fs_result \<times> ('t, 's) MountableFS" where
  "mount T p f m =
     (if p = ''/'' then (Err (InvalidInput ''cannot mount at root''), m)
      else if \<exists>c \<in> set (components p). component_str c = []
      then (Err (InvalidInput ''invalid mount point''), m)
      else if pm_contains (mo_mounts m) p then (Err (AlreadyExists p), m)
      else
        (let n = normalize_mount_point p
         in (Ok (), m\<lparr>mo_mounts := pm_insert (mo_mounts m) n f,
               mo_trie := tr_insert T (mo_trie m) (path_to_key n) f\<rparr>)))"

definition unmount ::
    "'t trie_api \<Rightarrow> path \<Rightarrow> ('t, 's) MountableFS \<Rightarrow> unit fs_result \<times> ('t, 's) MountableFS" where
  "unmount T p m =
     (let n = normalize_mount_point p
      in if pm_get (mo_mounts m) n = None then (Err (NotFound n), m)
         else (Ok (), m\<lparr>mo_mounts := pm_remove (mo_mounts m) n,
                 mo_trie := tr_remove T (mo_trie m) (path_to_key n)\<rparr>))"

text \<open>\<open>&s[..i]\<close> panics unless \<open>i\<close> lies on a character boundary.\<close>

definition char_boundary :: "string \<Rightarrow> nat \<Rightarrow> bool" where
  "char_boundary s i \<longleftrightarrow> i = 0 \<or> i = length s \<or> i < length s \<and> \<not> is_cont (s ! i)"

definition best_fs :: "'t trie_api \<Rightarrow> 't \<Rightarrow> string \<Rightarrow> fs_ref option" where
  "best_fs T t key =
     fst (foldl (\<lambda>(best, best_len) i.
         case tr_get T t (take i key) of
           Some f \<Rightarrow> if i \<ge> best_len then (Some f, i) else (best, best_len)
         | None \<Rightarrow> (best, best_len))
       (None, 0) (rev [0..<Suc (length key)]))"

definition best_mount :: "(path \<times> fs_ref) list \<Rightarrow> string \<Rightarrow> path" where
  "best_mount mounts key =
     (case fst (foldl (\<lambda>(best, best_len) (mp, _).
         let mk = path_to_key mp
         in if (starts_with key mk \<or> mk = []) \<and> length mk > best_len
            then (Some mp, length mk) else (best, best_len))
       (None, 0) mounts) of Some mp \<Rightarrow> mp | None \<Rightarrow> ''/'')"

definition relative_path :: "path \<Rightarrow> path \<Rightarrow> path" where
  "relative_path mp n =
     (let r = (if mp = ''/'' then n
               else case path_strip_prefix n mp of Some r \<Rightarrow> r | None \<Rightarrow> n)
      in if r = [] then ''/'' else if \<not> path_starts_with r ''/'' then push ''/'' r else r)"

definition resolve_fs ::
    "'t trie_api \<Rightarrow> ('t, 's) MountableFS \<Rightarrow> path \<Rightarrow> (fs_ref \<times> path) fs_result" where
  "resolve_fs T m p =
     (let n = mo_normalize_path p; key = path_to_key n
      in if \<exists>i \<in> set [0..<Suc (length key)]. \<not> char_boundary key i then Panic
         else (case best_fs T (mo_trie m) key of
             None \<Rightarrow> Err (NotFound n)
           | Some f \<Rightarrow> Ok (f, relative_path (best_mount (mo_mounts m) key) n)))"

definition list_mounts :: "('t, 's) MountableFS \<Rightarrow> path list" where
  "list_mounts m = map fst (mo_mounts m)"

subsection \<open>Forwarding\<close>

definition mo_call :: "'t trie_api \<Rightarrow> path \<Rightarrow> (fs_ref \<Rightarrow> path \<Rightarrow> ('s, 'a) fs_op) \<Rightarrow>
    (('t, 's) MountableFS, 'a) fs_op" where
  "mo_call T p op now m =
     (case resolve_fs T m p of
        Ok (f, rel) \<Rightarrow>
          (let (r, s) = op f rel now (mo_backends m f)
           in (r, m\<lparr>mo_backends := (mo_backends m)(f := s)\<rparr>))
      | Err e \<Rightarrow> (Err e, m)
      | Panic \<Rightarrow> (Panic, m)
      | Hang \<Rightarrow> (Hang, m))"

definition mo_read where
  "mo_read T V p off sz = mo_call T p (\<lambda>f r. fs_read (V f) r off sz)"
definition mo_stat where
  "mo_stat T V p = mo_call T p (\<lambda>f r. fs_stat (V f) r)"
definition mo_create where
  "mo_create T V p = mo_call T p (\<lambda>f r. fs_create (V f) r)"
definition mo_write where
  "mo_write T V p d off fl = mo_call T p (\<lambda>f r. fs_write (V f) r d off fl)"
definition mo_mkdir where
  "mo_mkdir T V p perm = mo_call T p (\<lambda>f r. fs_mkdir (V f) r perm)"
definition mo_read_dir where
  "mo_read_dir T V p = mo_call T p (\<lambda>f r. fs_read_dir (V f) r)"
definition mo_remove where
  "mo_remove T V p = mo_call T p (\<lambda>f r. fs_remove (V f) r)"
definition mo_remove_all where
  "mo_remove_all T V p = mo_call T p (\<lambda>f r. fs_remove_all (V f) r)"
definition mo_chmod where
  "mo_chmod T V p mo = mo_call T p (\<lambda>f r. fs_chmod (V f) r mo)"
definition mo_truncate where
  "mo_truncate T V p n = mo_call T p (\<lambda>f r. fs_truncate (V f) r n)"
definition mo_touch where
  "mo_touch T V p = mo_call T p (\<lambda>f r. fs_touch (V f) r)"
definition mo_readlink where
  "mo_readlink T V p = mo_call T p (\<lambda>f r. fs_readlink (V f) r)"
definition mo_symlink where
  "mo_symlink T V target link = mo_call T link (\<lambda>f r. fs_symlink (V f) target r)"
definition mo_get_xattr where
  "mo_get_xattr T V p a = mo_call T p (\<lambda>f r. fs_get_xattr (V f) r a)"
definition mo_set_xattr where
  "mo_set_xattr T V p a v = mo_call T p (\<lambda>f r. fs_set_xattr (V f) r a v)"
definition mo_remove_xattr where
  "mo_remove_xattr T V p a = mo_call T p (\<lambda>f r. fs_remove_xattr (V f) r a)"
definition mo_list_xattr where
  "mo_list_xattr T V p = mo_call T p (\<lambda>f r. fs_list_xattr (V f) r)"

definition mo_rename ::
    "'t trie_api \<Rightarrow> (fs_ref \<Rightarrow> 's FileSystem) \<Rightarrow> path \<Rightarrow> path \<Rightarrow> (('t, 's) MountableFS, unit) fs_op" where
  "mo_rename T V old new now m =
     (case resolve_fs T m old of
        Ok (f, r) \<Rightarrow>
          (case resolve_fs T m new of
             Ok (g, r') \<Rightarrow>
               if f \<noteq> g then (Err CrossDeviceLink, m)
               else (let (x, s) = fs_rename (V f) r r' now (mo_backends m f)
                     in (x, m\<lparr>mo_backends := (mo_backends m)(f := s)\<rparr>))
           | Err e \<Rightarrow> (Err e, m)
           | Panic \<Rightarrow> (Panic, m)
           | Hang \<Rightarrow> (Hang, m))
      | Err e \<Rightarrow> (Err e, m)
      | Panic \<Rightarrow> (Panic, m)
      | Hang \<Rightarrow> (Hang, m))"

lemmas mo_op_defs = mo_read_def mo_stat_def mo_create_def mo_write_def mo_mkdir_def
  mo_read_dir_def mo_remove_def mo_remove_all_def mo_chmod_def mo_truncate_def mo_touch_def
  mo_readlink_def mo_symlink_def mo_get_xattr_def mo_set_xattr_def mo_remove_xattr_def
  mo_list_xattr_def

definition mountable_fs ::
    "'t trie_api \<Rightarrow> (fs_ref \<Rightarrow> 's FileSystem) \<Rightarrow> ('t, 's) MountableFS FileSystem" where
  "mountable_fs T V = \<lparr>fs_read = mo_read T V, fs_stat = mo_stat T V, fs_create = mo_create T V,
     fs_write = mo_write T V, fs_mkdir = mo_mkdir T V, fs_read_dir = mo_read_dir T V,
     fs_remove = mo_remove T V, fs_remove_all = mo_remove_all T V, fs_rename = mo_rename T V,
     fs_chmod = mo_chmod T V, fs_truncate = mo_truncate T V, fs_touch = mo_touch T V,
     fs_readlink = mo_readlink T V, fs_symlink = mo_symlink T V, fs_get_xattr = mo_get_xattr T V,
     fs_set_xattr = mo_set_xattr T V, fs_remove_xattr = mo_remove_xattr T V,
     fs_list_xattr = mo_list_xattr T V\<rparr>"

subsection \<open>One backend at a time\<close>

text \<open>\<open>touches V m m'\<close>: only the state of one backend changed, by one of its own operations.\<close>

definition touches :: "(fs_ref \<Rightarrow> 's FileSystem) \<Rightarrow> ('t, 's) MountableFS \<Rightarrow> ('t, 's) MountableFS \<Rightarrow> bool" where
  "touches V m m' \<longleftrightarrow> m' = m \<or>
     (\<exists>f s. fs_step (V f) (mo_backends m f) s \<and> m' = m\<lparr>mo_backends := (mo_backends m)(f := s)\<rparr>)"

lemma mo_call_touches:
  assumes "\<And>f r. fs_step (V f) (mo_backends m f) (snd (op f r now (mo_backends m f)))"
  shows "touches V m (snd (mo_call T p op now m))"
proof (cases "resolve_fs T m p")
  case (Ok fr)
  obtain f r where "fr = (f, r)" by (cases fr)
  with Ok assms [of f r] show ?thesis
    unfolding touches_def by (auto simp: mo_call_def split: prod.splits) blast
qed (simp_all add: mo_call_def touches_def)

lemma mo_rename_touches: "touches V m (snd (mo_rename T V a b now m))"
proof -
  have "touches V m (snd (let (x, s) = fs_rename (V f) r r' now (mo_backends m f)
      in (x, m\<lparr>mo_backends := (mo_backends m)(f := s)\<rparr>)))" for f r r'
    using fs_step.rename [of "V f" "mo_backends m f" r r' now]
    unfolding touches_def by (auto split: prod.splits) blast
  then show ?thesis
    by (auto simp: mo_rename_def touches_def split: outcome.splits prod.splits)
qed

lemma mo_step_touches:
  assumes "fs_step (mountable_fs T V) m m'"
  shows "touches V m m'"
  using assms
  by (induction rule: fs_step.induct)
    (auto simp: mountable_fs_def mo_op_defs mo_rename_touches
      intro!: mo_call_touches fs_step.intros)

subsection \<open>The mount table\<close>

text \<open>
  Mount points given as absolute paths of ordinary names, as a list from names to file systems.
  \<open>mo_table T m tab\<close> says that both of the router's indexes hold exactly \<open>tab\<close>.
\<close>

type_synonym mount_table = "(string list \<times> fs_ref) list"

definition mount_names :: "string list \<Rightarrow> bool" where
  "mount_names ns \<longleftrightarrow> valid_names ns \<and> ns \<noteq> []"

definition mo_table :: "'t trie_api \<Rightarrow> ('t, 's) MountableFS \<Rightarrow> mount_table \<Rightarrow> bool" where
  "mo_table T m tab \<longleftrightarrow> distinct (map fst tab) \<and> (\<forall>(ns, f) \<in> set tab. mount_names ns) \<and>
     mo_mounts m = map (\<lambda>(ns, f). (render True ns @ [slash], f)) tab \<and>
     (\<forall>k. tr_get T (mo_trie m) k = map_of (map (\<lambda>(ns, f). (render True ns, f)) tab) k)"

lemma last_render:
  assumes "mount_names ns"
  shows "last (render True ns) \<noteq> slash" "render True ns \<noteq> []" "render True ns \<noteq> ''/''"
proof -
  obtain ms n where ns: "ns = ms @ [n]" using assms by (cases ns rule: rev_cases) (auto simp: mount_names_def)
  with assms have v: "valid_names (ms @ [n])" "valid_name n" by (auto simp: mount_names_def)
  have j: "last (join [slash] ns) = last n" using last_join [OF v(1)] ns by simp
  have "join [slash] ns \<noteq> []"
    using v ns join_not_Nil [of "hd ns" "tl ns"] by (cases ns) auto
  note j = j this
  have "last n \<noteq> slash" using v(2) by (metis last_in_set valid_nameD(3,4))
  with j show "last (render True ns) \<noteq> slash" "render True ns \<noteq> ''/''" by (simp_all add: render_def)
  show "render True ns \<noteq> []" by (simp add: render_def)
qed

lemma ends_with_slash: "s \<noteq> [] \<Longrightarrow> ends_with s [slash] \<longleftrightarrow> last s = slash"
  by (cases s rule: rev_cases) (auto simp: ends_with_def starts_with_def)

lemma normalize_mount_render:
  assumes "mount_names ns"
  shows "normalize_mount_point (render True ns) = render True ns @ [slash]"
  using last_render [OF assms] ends_with_slash [of "render True ns"]
  by (simp add: normalize_mount_point_def push_def has_root_def)

lemma path_to_key_render:
  assumes "mount_names ns"
  shows "path_to_key (render True ns @ [slash]) = render True ns"
    and "path_to_key (render True ns) = render True ns"
  using last_render [OF assms] ends_with_slash [of "render True ns"]
    ends_with_slash [of "render True ns @ [slash]"]
  by (simp_all add: path_to_key_def str_strip_suffix_def)

lemma components_mount:
  "mount_names ns \<Longrightarrow> components (render True ns @ [slash]) = lead True @ map Normal ns"
  by (simp add: mount_names_def components_render_slash)

lemma path_eq_mount:
  assumes "mount_names ns" "mount_names ks"
  shows "path_eq (render True ns @ [slash]) (render True ks @ [slash]) \<longleftrightarrow> ns = ks"
    and "path_eq (render True ns @ [slash]) (render True ks) \<longleftrightarrow> ns = ks"
  using assms components_render [of ks True]
  by (simp_all add: path_eq_def components_mount lead_def mount_names_def)

lemma pm_get_mounts:
  assumes "\<forall>(ns, f) \<in> set tab. mount_names ns" "mount_names ks"
  shows "pm_get (map (\<lambda>(ns, f). (render True ns @ [slash], f)) tab) (render True ks @ [slash]) = map_of tab ks"
    and "pm_get (map (\<lambda>(ns, f). (render True ns @ [slash], f)) tab) (render True ks) = map_of tab ks"
  using assms(1) by (induction tab) (auto simp: path_eq_mount assms(2))

lemma map_of_render:
  assumes "\<forall>(ns, f) \<in> set tab. mount_names ns" "mount_names ks"
  shows "map_of (map (\<lambda>(ns, f). (render True ns, f)) tab) (render True ks) = map_of tab ks"
  using assms(1)
proof (induction tab)
  case (Cons nf tab)
  have "render True ks = render True n \<longleftrightarrow> ks = n" if "mount_names n" for n
    using component_path_eq_render [of n ks True True] that assms(2)
    by (metis mount_names_def path_eq_refl)
  moreover obtain n f where "nf = (n, f)" by (cases nf)
  ultimately show ?case using Cons by simp
qed simp

lemma no_empty_component: "\<not> (\<exists>c \<in> set (components p). component_str c = [])"
proof
  assume "\<exists>c \<in> set (components p). component_str c = []"
  then obtain c where c: "c \<in> set (components p)" "component_str c = []" by blast
  show False
  proof (cases c)
    case (Normal n)
    with c show ?thesis using components_Normal_valid [of n p] valid_nameD(4) [of n] by simp
  qed (use c(2) in simp_all)
qed

lemma pm_insert_fresh: "pm_get m p = None \<Longrightarrow> pm_insert m p v = m @ [(p, v)]"
  by (induction m) (auto split: if_splits)

lemma mount_table_step:
  assumes T: "trie_laws T" and tab: "mo_table T m tab" and ns: "mount_names ns"
  shows "if map_of tab ns = None
    then fst (mount T (render True ns) f m) = Ok () \<and>
      mo_table T (snd (mount T (render True ns) f m)) (tab @ [(ns, f)])
    else mount T (render True ns) f m = (Err (AlreadyExists (render True ns)), m)"
proof -
  have mp: "mo_mounts m = map (\<lambda>(ns, f). (render True ns @ [slash], f)) tab"
    and v: "\<forall>(ns, f) \<in> set tab. mount_names ns" using tab by (auto simp: mo_table_def)
  have get: "pm_get (mo_mounts m) (render True ns) = map_of tab ns"
    "pm_get (mo_mounts m) (render True ns @ [slash]) = map_of tab ns"
    unfolding mp by (rule pm_get_mounts [OF v ns])+
  show ?thesis
  proof (cases "map_of tab ns")
    case None
    then have "ns \<notin> fst ` set tab" by (simp add: map_of_eq_None_iff)
    moreover have "map_of (map (\<lambda>(ns, f). (render True ns, f)) (tab @ [(ns, f)])) k =
        (if render True ns = k then Some f else map_of (map (\<lambda>(ns, f). (render True ns, f)) tab) k)" for k
      using map_of_render [OF v ns] None by (auto simp: map_add_def split: option.splits)
    ultimately show ?thesis
      using None ns tab T get last_render(3) [OF ns] no_empty_component [of "render True ns"]
      by (auto simp: mount_def Let_def hm_contains_def normalize_mount_render path_to_key_render
          mo_table_def trie_laws_def pm_insert_fresh)
  next
    case (Some g)
    with get last_render(3) [OF ns] no_empty_component [of "render True ns"] show ?thesis
      by (auto simp: mount_def hm_contains_def)
  qed
qed

lemma map_of_filter_key: "map_of (filter (\<lambda>(k, _). k \<noteq> x) m) k = (if k = x then None else map_of m k)"
  by (induction m) auto

lemma unmount_table_step:
  assumes T: "trie_laws T" and tab: "mo_table T m tab" and ns: "mount_names ns"
  shows "if map_of tab ns = None
    then unmount T (render True ns) m = (Err (NotFound (render True ns @ [slash])), m)
    else fst (unmount T (render True ns) m) = Ok () \<and>
      mo_table T (snd (unmount T (render True ns) m)) (filter (\<lambda>(k, _). k \<noteq> ns) tab)"
proof -
  have mp: "mo_mounts m = map (\<lambda>(ns, f). (render True ns @ [slash], f)) tab"
    and v: "\<forall>(ns, f) \<in> set tab. mount_names ns" using tab by (auto simp: mo_table_def)
  have get: "pm_get (mo_mounts m) (render True ns @ [slash]) = map_of tab ns"
    unfolding mp by (rule pm_get_mounts [OF v ns])
  have v': "\<forall>(k, f) \<in> set (filter (\<lambda>(k, _). k \<noteq> ns) tab). mount_names k" using v by auto
  have rm: "pm_remove (mo_mounts m) (render True ns @ [slash]) =
      map (\<lambda>(ns, f). (render True ns @ [slash], f)) (filter (\<lambda>(k, _). k \<noteq> ns) tab)"
    unfolding mp hm_remove_def using v
    by (induction tab) (auto simp: path_eq_mount(1) [OF _ ns])
  have tr: "map_of (map (\<lambda>(ns, f). (render True ns, f)) (filter (\<lambda>(k, _). k \<noteq> ns) tab)) k =
      (if render True ns = k then None
       else map_of (map (\<lambda>(ns, f). (render True ns, f)) tab) k)" for k
  proof (cases "render True ns = k")
    case True
    then show ?thesis using map_of_render [OF v' ns] by (auto simp: map_of_filter_key)
  next
    case False
    then show ?thesis by (induction tab) auto
  qed
  have "distinct (map fst (filter (\<lambda>(k, _). k \<noteq> ns) tab))"
    using tab by (simp add: mo_table_def distinct_map_filter)
  with T tab get rm tr v' show ?thesis
    by (auto simp: unmount_def Let_def normalize_mount_render [OF ns] path_to_key_render [OF ns]
        mo_table_def trie_laws_def)
qed

subsection \<open>Resolution\<close>

lemma best_fs_keep:
  "\<forall>i \<in> set is. i < l \<Longrightarrow>
     foldl (\<lambda>(best, best_len) i.
         case tr_get T t (take i key) of
           Some f \<Rightarrow> if i \<ge> best_len then (Some f, i) else (best, best_len)
         | None \<Rightarrow> (best, best_len)) (b, l) is = (b, l)"
  by (induction "is") (auto split: option.splits)

lemma best_fs_skip:
  "\<forall>i \<in> set is. tr_get T t (take i key) = None \<Longrightarrow>
     foldl (\<lambda>(best, best_len) i.
         case tr_get T t (take i key) of
           Some f \<Rightarrow> if i \<ge> best_len then (Some f, i) else (best, best_len)
         | None \<Rightarrow> (best, best_len)) bl is = bl"
  by (induction "is") (auto split: option.splits prod.splits)

lemma best_fs_longest:
  assumes "tr_get T t (take i key) = Some f" "i \<le> length key"
    and "\<And>j. i < j \<Longrightarrow> j \<le> length key \<Longrightarrow> tr_get T t (take j key) = None"
  shows "best_fs T t key = Some f"
proof -
  have "[0..<Suc (length key)] = [0..<i] @ i # [Suc i..<Suc (length key)]"
    using assms(2) by (metis le_imp_less_Suc upt_conv_Cons upt_add_eq_append zero_le add_0 le_add_diff_inverse less_imp_le)
  then have "rev [0..<Suc (length key)] = rev [Suc i..<Suc (length key)] @ i # rev [0..<i]" by simp
  then show ?thesis
    using assms by (simp add: best_fs_def best_fs_skip best_fs_keep del: upt_Suc)
qed

lemma best_fs_none:
  assumes "\<And>j. j \<le> length key \<Longrightarrow> tr_get T t (take j key) = None"
  shows "best_fs T t key = None"
  using assms by (simp add: best_fs_def best_fs_skip del: upt_Suc)

definition mount_fold :: "string \<Rightarrow> path option \<times> nat \<Rightarrow> (path \<times> fs_ref) list \<Rightarrow> path option \<times> nat" where
  "mount_fold key = foldl (\<lambda>(best, best_len) (mp, _).
         let mk = path_to_key mp
         in if (starts_with key mk \<or> mk = []) \<and> length mk > best_len
            then (Some mp, length mk) else (best, best_len))"

lemma mount_fold_keep:
  "\<forall>(mp, f) \<in> set ms. starts_with key (path_to_key mp) \<longrightarrow> length (path_to_key mp) \<le> l \<Longrightarrow>
     mount_fold key (b, l) ms = (b, l)"
  unfolding mount_fold_def by (induction ms) (auto simp: Let_def)

lemma mount_fold_longest:
  assumes "(mp, f) \<in> set ms" "starts_with key (path_to_key mp)" "l < length (path_to_key mp)"
    and "\<And>mp' f'. (mp', f') \<in> set ms \<Longrightarrow> starts_with key (path_to_key mp') \<Longrightarrow> mp' \<noteq> mp \<Longrightarrow>
      length (path_to_key mp') < length (path_to_key mp)"
  shows "fst (mount_fold key (b, l) ms) = Some mp"
  using assms
proof (induction ms arbitrary: b l)
  case (Cons x ms)
  obtain q g where x: "x = (q, g)" by (cases x)
  show ?case
  proof (cases "q = mp")
    case True
    have "mount_fold key (Some mp, length (path_to_key mp)) ms = (Some mp, length (path_to_key mp))"
      using Cons.prems(4) by (intro mount_fold_keep) (force intro: less_imp_le)
    with True x Cons.prems show ?thesis by (simp add: mount_fold_def Let_def)
  next
    case False
    with Cons.prems(1) x have m: "(mp, f) \<in> set ms" by simp
    obtain b' l' where st: "mount_fold key (b, l) (x # ms) = mount_fold key (b', l') ms"
      "l' < length (path_to_key mp)"
      using False x Cons.prems(3) Cons.prems(4) [of q g]
      by (cases "(starts_with key (path_to_key q) \<or> path_to_key q = []) \<and> l < length (path_to_key q)")
        (auto simp: mount_fold_def Let_def)
    have "fst (mount_fold key (b', l') ms) = Some mp"
      using Cons.prems(4) by (intro Cons.IH [OF m Cons.prems(2) st(2)]) auto
    with st(1) show ?thesis by simp
  qed
qed simp

lemma relative_path_mount:
  assumes ms: "mount_names ms" and ks: "valid_names ks"
  shows "relative_path (render True ms @ [slash]) (render True ks) =
    (if take (length ms) ks = ms then render True (drop (length ms) ks) else render True ks)"
proof (cases "take (length ms) ks = ms")
  case True
  then obtain rest where rest: "ks = ms @ rest" by (metis append_take_drop_id)
  have "path_strip_prefix (render True ks) (render True ms @ [slash]) = Some (render False rest)"
    using path_strip_prefix_render [of ms rest "render True ms @ [slash]"] ks rest components_mount [OF ms]
    by (simp add: render_def)
  moreover have "push ''/'' (render False rest) = render True rest" if "rest \<noteq> []"
    using ks rest has_root_render [of rest False] by (simp add: push_def render_def)
  moreover have "\<not> path_starts_with (render False rest) ''/''"
    using ks rest components_render [of rest False] components_render [of "[]" True]
    by (cases rest) (auto simp: path_starts_with_def lead_def render_def)
  moreover have "render False rest = [] \<longleftrightarrow> rest = []"
    using ks rest join_not_Nil [of "hd rest" "tl rest"] by (cases rest) (auto simp: render_def)
  ultimately show ?thesis
    using rest by (auto simp: relative_path_def Let_def render_def)
next
  case False
  have "path_strip_prefix (render True ks) (render True ms @ [slash]) = None"
    using False path_starts_with_render [OF ks components_mount [OF ms]]
    by (simp add: path_strip_prefix_def)
  moreover have "path_starts_with (render True ks) ''/''"
    using path_starts_with_render [OF ks, of "''/''" "[]"] components_render [of "[]" True]
    by (simp add: render_def)
  ultimately show ?thesis
    using False by (auto simp: relative_path_def Let_def) (simp add: render_def)
qed

lemma mo_normalize_render:
  assumes "has_root p"
  shows "mo_normalize_path p = render True (norm_names p)"
proof -
  have "foldl normalize_step [] (components p) = render True (norm_names p)"
    using normalize_path_render [of p] assms by (simp add: normalize_path_def)
  moreover have "render True (norm_names p) \<noteq> []" by (simp add: render_def)
  ultimately show ?thesis by (simp add: mo_normalize_path_def Let_def)
qed

text \<open>The key of a path: its rendering, and the empty string for the root.\<close>

definition names_key :: "string list \<Rightarrow> string" where
  "names_key ks = (if ks = [] then [] else render True ks)"

lemma path_to_key_names: "valid_names ks \<Longrightarrow> path_to_key (render True ks) = names_key ks"
  using path_to_key_render(2) [of ks]
  by (auto simp: names_key_def mount_names_def path_to_key_def render_def str_strip_suffix_def
      ends_with_def starts_with_def)

lemma trie_prefix_iff:
  assumes "mo_table T m tab"
  shows "tr_get T (mo_trie m) (take i key) = Some f \<longleftrightarrow>
    (\<exists>ns. (ns, f) \<in> set tab \<and> take i key = render True ns)"
proof -
  have v: "\<forall>(ns, f) \<in> set tab. mount_names ns" and d: "distinct (map fst tab)"
    and g: "tr_get T (mo_trie m) (take i key) =
      map_of (map (\<lambda>(ns, f). (render True ns, f)) tab) (take i key)"
    using assms by (auto simp: mo_table_def)
  show ?thesis
  proof
    assume "tr_get T (mo_trie m) (take i key) = Some f"
    then have "(take i key, f) \<in> set (map (\<lambda>(ns, f). (render True ns, f)) tab)"
      unfolding g by (rule map_of_SomeD)
    then show "\<exists>ns. (ns, f) \<in> set tab \<and> take i key = render True ns" by auto
  next
    assume "\<exists>ns. (ns, f) \<in> set tab \<and> take i key = render True ns"
    then obtain ns where ns: "(ns, f) \<in> set tab" "take i key = render True ns" by blast
    then have "mount_names ns" using v by blast
    with ns g v d show "tr_get T (mo_trie m) (take i key) = Some f"
      by (simp add: map_of_render)
  qed
qed

text \<open>\<open>longest tab key ns\<close>: the mount that wins, the longest whose string is a prefix of the key.\<close>

definition longest :: "mount_table \<Rightarrow> string \<Rightarrow> string list \<Rightarrow> fs_ref \<Rightarrow> bool" where
  "longest tab key ns f \<longleftrightarrow> (ns, f) \<in> set tab \<and> starts_with key (render True ns) \<and>
     (\<forall>(ks, g) \<in> set tab. starts_with key (render True ks) \<longrightarrow>
        ks = ns \<or> length (render True ks) < length (render True ns))"

lemma resolve_longest:
  assumes tab: "mo_table T m tab" and root: "has_root p"
    and plain: "\<forall>c \<in> set (names_key (norm_names p)). \<not> is_cont c"
    and win: "longest tab (names_key (norm_names p)) ns f"
  shows "resolve_fs T m p = Ok (f,
    if take (length ns) (norm_names p) = ns then render True (drop (length ns) (norm_names p))
    else render True (norm_names p))"
proof -
  let ?ks = "norm_names p" and ?key = "names_key (norm_names p)"
  have n: "mo_normalize_path p = render True ?ks" by (rule mo_normalize_render [OF root])
  have key: "path_to_key (render True ?ks) = ?key" by (rule path_to_key_names [OF norm_names_valid])
  have mp: "mo_mounts m = map (\<lambda>(ns, f). (render True ns @ [slash], f)) tab"
    and v: "\<And>ns f. (ns, f) \<in> set tab \<Longrightarrow> mount_names ns" using tab by (auto simp: mo_table_def)
  have w: "(ns, f) \<in> set tab" "mount_names ns" "starts_with ?key (render True ns)"
    using win v by (auto simp: longest_def)
  have other: "ks = ns \<or> length (render True ks) < length (render True ns)"
    if "(ks, g) \<in> set tab" "starts_with ?key (render True ks)" for ks g
    using win that by (auto simp: longest_def)
  have len: "length (render True ns) \<le> length ?key" and tk: "take (length (render True ns)) ?key = render True ns"
    using w(3) by (auto simp: starts_with_iff)
  have "best_fs T (mo_trie m) ?key = Some f"
  proof (rule best_fs_longest [OF _ len])
    show "tr_get T (mo_trie m) (take (length (render True ns)) ?key) = Some f"
      using trie_prefix_iff [OF tab] w(1) tk by blast
    fix j assume j: "length (render True ns) < j" "j \<le> length ?key"
    show "tr_get T (mo_trie m) (take j ?key) = None"
    proof (rule ccontr)
      assume "tr_get T (mo_trie m) (take j ?key) \<noteq> None"
      then obtain ks g where ks: "(ks, g) \<in> set tab" "take j ?key = render True ks"
        using trie_prefix_iff [OF tab] by blast
      then have len: "length (render True ks) = j" using j by (metis length_take min.absorb2)
      then have "starts_with ?key (render True ks)" using ks(2) by (simp add: starts_with_def)
      from other [OF ks(1) this] len j show False by auto
    qed
  qed
  moreover have "best_mount (mo_mounts m) ?key = render True ns @ [slash]"
  proof -
    have k: "path_to_key (render True ns @ [slash]) = render True ns" by (rule path_to_key_render(1) [OF w(2)])
    have "fst (mount_fold ?key (None, 0) (mo_mounts m)) = Some (render True ns @ [slash])"
    proof (rule mount_fold_longest)
      show "(render True ns @ [slash], f) \<in> set (mo_mounts m)" using w(1) by (force simp: mp)
      fix q g assume "(q, g) \<in> set (mo_mounts m)" "starts_with ?key (path_to_key q)"
        "q \<noteq> render True ns @ [slash]"
      then show "length (path_to_key q) < length (path_to_key (render True ns @ [slash]))"
        using other v by (force simp: mp k path_to_key_render)
    qed (use w k in \<open>simp_all add: render_def\<close>)
    then show ?thesis by (simp add: best_mount_def mount_fold_def)
  qed
  moreover have "\<not> (\<exists>i \<in> set [0..<Suc (length ?key)]. \<not> char_boundary ?key i)"
    using plain nth_mem [of _ ?key] by (auto simp: char_boundary_def)
  ultimately show ?thesis
    using relative_path_mount [OF w(2) norm_names_valid, of p]
    by (simp add: resolve_fs_def Let_def n key del: upt_Suc)
qed

lemma resolve_not_found:
  assumes tab: "mo_table T m tab" and root: "has_root p"
    and plain: "\<forall>c \<in> set (names_key (norm_names p)). \<not> is_cont c"
    and none: "\<forall>(ns, f) \<in> set tab. \<not> starts_with (names_key (norm_names p)) (render True ns)"
  shows "resolve_fs T m p = Err (NotFound (render True (norm_names p)))"
proof -
  let ?key = "names_key (norm_names p)"
  have "best_fs T (mo_trie m) ?key = None"
  proof (rule best_fs_none, rule ccontr)
    fix j assume j: "j \<le> length ?key" "tr_get T (mo_trie m) (take j ?key) \<noteq> None"
    then obtain ns f where ns: "(ns, f) \<in> set tab" "take j ?key = render True ns"
      using trie_prefix_iff [OF tab] by blast
    then have "length (render True ns) = j" using j(1) by (metis length_take min.absorb2)
    with ns(2) have "starts_with ?key (render True ns)" by (simp add: starts_with_def)
    with none ns(1) show False by blast
  qed
  moreover have "\<not> (\<exists>i \<in> set [0..<Suc (length ?key)]. \<not> char_boundary ?key i)"
    using plain nth_mem [of _ ?key] by (auto simp: char_boundary_def)
  ultimately show ?thesis
    using path_to_key_names [OF norm_names_valid, of p]
    by (simp add: resolve_fs_def Let_def mo_normalize_render [OF root] del: upt_Suc)
qed

text \<open>A map that obeys the laws of the trie, for the concrete instances below.\<close>

definition list_trie :: "(string \<times> fs_ref) list trie_api" where
  "list_trie = \<lparr>tr_empty = [], tr_get = hm_get (=), tr_insert = hm_insert (=), tr_remove = hm_remove (=)\<rparr>"

lemma list_trie_laws: "trie_laws list_trie"
  by (simp add: trie_laws_def list_trie_def str_map.hm_get_insert str_map.hm_get_remove)

lemma mo_table_new: "trie_laws T \<Longrightarrow> mo_table T (mountable_new T B) []"
  by (simp add: mo_table_def mountable_new_def trie_laws_def)

subsection \<open>Properties\<close>

text \<open>
  Mounting and unmounting at absolute paths of ordinary names implement a table of mount
  points: mounting a new point adds its row to both indexes, a taken point is refused with
  \<open>AlreadyExists\<close>, unmounting removes the row from both, and an unknown point is \<open>NotFound\<close>;
  refused calls change nothing.
\<close>

theorem mount_unmount_table:
  assumes "trie_laws T" "mo_table T m tab" "mount_names ns"
  shows "(if map_of tab ns = None
      then fst (mount T (render True ns) f m) = Ok () \<and>
        mo_table T (snd (mount T (render True ns) f m)) (tab @ [(ns, f)])
      else mount T (render True ns) f m = (Err (AlreadyExists (render True ns)), m)) \<and>
    (if map_of tab ns = None
      then unmount T (render True ns) m = (Err (NotFound (render True ns @ [slash])), m)
      else fst (unmount T (render True ns) m) = Ok () \<and>
        mo_table T (snd (unmount T (render True ns) m)) (filter (\<lambda>(k, _). k \<noteq> ns) tab))"
  using mount_table_step [OF assms] unmount_table_step [OF assms] by blast

theorem mount_unmount_table_witness:
  "mo_table list_trie (snd (mount list_trie ''/a'' 3 (mountable_new list_trie (\<lambda>_. ())))) [([''a''], 3)]"
proof -
  have n: "mount_names [''a'']" "render True [''a''] = ''/a''"
    by (simp_all add: mount_names_def valid_name_def render_def)
  from mount_unmount_table [OF list_trie_laws mo_table_new [OF list_trie_laws, of "\<lambda>_. ()"]
      n(1), where f = 3]
  show ?thesis by (simp add: n(2))
qed

text \<open>
  \<^bold>\<open>C26\<close>. Resolution of an absolute path (normalised, ASCII) goes to the mount whose rendering is the
  longest string prefix of the path, and to none if there is none. When that mount is a prefix by
  whole names the file system gets the rest of the path; when it is only a string prefix (\<open>/ab\<close>
  under the mount \<open>/a\<close>) the request still goes to that file system, with the unstripped path.
\<close>

theorem resolve_spec:
  assumes "mo_table T m tab" "has_root p" "\<forall>c \<in> set (names_key (norm_names p)). \<not> is_cont c"
  shows "(longest tab (names_key (norm_names p)) ns f \<longrightarrow>
      resolve_fs T m p = Ok (f,
        if take (length ns) (norm_names p) = ns then render True (drop (length ns) (norm_names p))
        else render True (norm_names p))) \<and>
    ((\<forall>(ns, f) \<in> set tab. \<not> starts_with (names_key (norm_names p)) (render True ns)) \<longrightarrow>
      resolve_fs T m p = Err (NotFound (render True (norm_names p))))"
  using resolve_longest [OF assms] resolve_not_found [OF assms] by blast

theorem resolve_spec_witness:
  "resolve_fs list_trie (snd (mount list_trie ''/a'' 3 (mountable_new list_trie (\<lambda>_. ())))) ''/a/x'' =
     Ok (3, ''/x'') \<and>
   resolve_fs list_trie (snd (mount list_trie ''/a'' 3 (mountable_new list_trie (\<lambda>_. ())))) ''/ab'' =
     Ok (3, ''/ab'')"
proof -
  let ?m = "snd (mount list_trie ''/a'' 3 (mountable_new list_trie (\<lambda>_. ())))"
  have n: "mount_names [''a'']" "render True [''a''] = ''/a''"
    by (simp_all add: mount_names_def valid_name_def render_def)
  have tab: "mo_table list_trie ?m [([''a''], 3)]"
    using mount_table_step [OF list_trie_laws mo_table_new [OF list_trie_laws, of "\<lambda>_. ()"]
      n(1), where f = 3]
    by (simp add: n(2))
  have k: "norm_names ''/a/x'' = [''a'', ''x'']" "norm_names ''/ab'' = [''ab'']"
    "has_root ''/a/x''" "has_root ''/ab''"
    "\<forall>c \<in> set (names_key [''a'', ''x'']). \<not> is_cont c" "\<forall>c \<in> set (names_key [''ab'']). \<not> is_cont c"
    by code_simp+
  have l: "longest [([''a''], 3)] (names_key [''a'', ''x'']) [''a''] 3"
    "longest [([''a''], 3)] (names_key [''ab'']) [''a''] 3"
    by (simp_all add: longest_def names_key_def render_def starts_with_def)
  show ?thesis
    using resolve_spec [OF tab k(3), of "[''a'']" 3] resolve_spec [OF tab k(4), of "[''a'']" 3] k l
    by (simp add: render_def)
qed

text \<open>
  \<open>resolve_fs\<close> slices the key at every byte, so a path with any multi-byte character
  panics, whatever is mounted; with it every operation on such a path.
\<close>

theorem resolve_non_ascii_panics:
  assumes "has_root p" "c \<in> set (names_key (norm_names p))" "is_cont c"
  shows "resolve_fs T m p = Panic \<and> mo_stat T V p now m = (Panic, m)"
proof -
  let ?key = "names_key (norm_names p)"
  obtain i where i: "i < length ?key" "?key ! i = c" using assms(2) by (auto simp: in_set_conv_nth)
  have "hd ?key = slash" "?key \<noteq> []" using i by (auto simp: names_key_def render_def split: if_splits)
  moreover have "\<not> is_cont slash" by code_simp
  ultimately have "i \<noteq> 0" using i assms(3) by (metis hd_conv_nth)
  with i assms(3) have "\<not> char_boundary ?key i" by (simp add: char_boundary_def)
  with i(1) have "\<exists>i \<in> set [0..<Suc (length ?key)]. \<not> char_boundary ?key i" by force
  then have "resolve_fs T m p = Panic"
    using path_to_key_names [OF norm_names_valid, of p]
    by (simp add: resolve_fs_def Let_def mo_normalize_render [OF assms(1)] del: upt_Suc)
  then show ?thesis by (simp add: mo_stat_def mo_call_def)
qed

theorem resolve_non_ascii_panics_witness:
  "resolve_fs list_trie (mountable_new list_trie (\<lambda>_. ())) (''/a/'' @ [CHR 0xC3, CHR 0xA9]) = Panic"
proof -
  have "has_root (''/a/'' @ [CHR 0xC3, CHR 0xA9])" "is_cont (CHR 0xA9)"
    "CHR 0xA9 \<in> set (names_key (norm_names (''/a/'' @ [CHR 0xC3, CHR 0xA9])))" by code_simp+
  then show ?thesis using resolve_non_ascii_panics by blast
qed

text \<open>
  Unmounting under another spelling of the mount point succeeds and empties the mount list,
  but the trie is keyed by strings and keeps its entry: the file system stays reachable, now with
  the unstripped path.
\<close>

theorem unmount_spelling:
  assumes T: "trie_laws T"
    and m1: "mount T ''/a/b'' f (mountable_new T B) = (r1, m1)"
    and m2: "unmount T ''/a//b'' m1 = (r2, m2)"
  shows "r1 = Ok () \<and> r2 = Ok () \<and> list_mounts m2 = [] \<and>
    resolve_fs T m2 ''/a/b/x'' = Ok (f, ''/a/b/x'')"
proof -
  have c: "\<not> (\<exists>c \<in> set (components ''/a/b''). component_str c = [])"
    "normalize_mount_point ''/a/b'' = ''/a/b/''" "path_to_key ''/a/b/'' = ''/a/b''"
    "normalize_mount_point ''/a//b'' = ''/a//b/''" "path_to_key ''/a//b/'' = ''/a//b''"
    "path_eq ''/a/b/'' ''/a//b/''" "mo_normalize_path ''/a/b/x'' = ''/a/b/x''"
    "path_to_key ''/a/b/x'' = ''/a/b/x''"
    "(\<exists>i \<in> set [0..<Suc (length ''/a/b/x'')]. \<not> char_boundary ''/a/b/x'' i) = False"
    "relative_path ''/'' ''/a/b/x'' = ''/a/b/x''" by code_simp+
  let ?t = "tr_remove T (tr_insert T (tr_empty T) ''/a/b'' f) ''/a//b''"
  have one: "r1 = Ok ()" "mo_mounts m1 = [(''/a/b/'', f)]" "mo_trie m1 = tr_insert T (tr_empty T) ''/a/b'' f"
    using m1 c by (auto simp: mount_def mountable_new_def hm_contains_def Let_def)
  have two: "r2 = Ok ()" "mo_mounts m2 = []" "mo_trie m2 = ?t"
    using m2 c one by (auto simp: unmount_def Let_def split: if_splits)
  have get: "tr_get T ?t k = (if k = ''/a/b'' then Some f else None)" for k
    using T by (auto simp: trie_laws_def)
  have best: "best_fs T ?t ''/a/b/x'' = Some f"
    by (rule best_fs_longest [of _ _ 4])
      (auto simp: get take_Cons' less_Suc_eq le_Suc_eq eval_nat_numeral)
  have "best_mount (mo_mounts m2) ''/a/b/x'' = ''/''" by (simp add: two best_mount_def)
  then have "resolve_fs T m2 ''/a/b/x'' = Ok (f, ''/a/b/x'')"
    unfolding resolve_fs_def Let_def c(7,8) two(3) best c(9) by (simp only: c(10) if_False option.case)
  with one two show ?thesis by (simp add: list_mounts_def)
qed

theorem unmount_spelling_witness:
  "resolve_fs list_trie (snd (unmount list_trie ''/a//b'' (snd (mount list_trie ''/a/b'' 3
     (mountable_new list_trie (\<lambda>_. ())))))) ''/a/b/x'' = Ok (3, ''/a/b/x'')"
  using unmount_spelling [OF list_trie_laws surjective_pairing surjective_pairing, of 3 "\<lambda>_. ()"] by simp

end
