(* ===== verification/Cached_FS.thy ===== *)
theory Cached_FS
  imports Mem_FS
begin

text \<open>
  The cache layer: the trait \<open>Cache\<close> with its reference implementation \<open>HashMapCache\<close>
  (\<open>racfs-core/src/cache.rs\<close>) and the wrapper \<open>CachedFs\<close> (\<open>racfs-vfs/src/cached_fs.rs\<close>)
  that caches \<open>read\<close>, \<open>stat\<close> and \<open>read_dir\<close> of any file system. Metadata is stored as JSON
  by the crate \<open>serde_json\<close>, whose encoder and decoder are the parameter \<open>J\<close>. \<open>FoyerCache\<close>
  only wraps a crate and is not modelled; the laws below allow a cache that forgets, as it does.
\<close>

subsection \<open>The trait and its laws\<close>

record 'c cache_api =
  ca_get :: "'c \<Rightarrow> string \<Rightarrow> bytes option"
  ca_put :: "'c \<Rightarrow> string \<Rightarrow> bytes \<Rightarrow> 'c"
  ca_remove :: "'c \<Rightarrow> string \<Rightarrow> 'c"
  ca_invalidate_prefix :: "'c \<Rightarrow> string \<Rightarrow> 'c"

text \<open>
  A cache may forget at any time, but what it returns was put last under that key, and a
  removed key is gone.
\<close>

locale cache =
  fixes C :: "'c cache_api"
  assumes get_put: "ca_get C (ca_put C c k v) q = Some x \<Longrightarrow>
      (if k = q then x = v else ca_get C c q = Some x)"
    and get_remove: "ca_get C (ca_remove C c k) q = Some x \<Longrightarrow> k \<noteq> q \<and> ca_get C c q = Some x"
    and get_invalidate: "ca_get C (ca_invalidate_prefix C c p) q = Some x \<Longrightarrow> ca_get C c q = Some x"

subsection \<open>HashMapCache\<close>

type_synonym HashMapCache = "(string \<times> bytes) list"

definition hmc_new :: HashMapCache where
  "hmc_new = []"

definition hmc_get :: "HashMapCache \<Rightarrow> string \<Rightarrow> bytes option" where
  "hmc_get c k = hm_get (=) c k"

definition hmc_put :: "HashMapCache \<Rightarrow> string \<Rightarrow> bytes \<Rightarrow> HashMapCache" where
  "hmc_put c k v = hm_insert (=) c k v"

definition hmc_remove :: "HashMapCache \<Rightarrow> string \<Rightarrow> HashMapCache" where
  "hmc_remove c k = hm_remove (=) c k"

definition hmc_invalidate_prefix :: "HashMapCache \<Rightarrow> string \<Rightarrow> HashMapCache" where
  "hmc_invalidate_prefix c p =
     (let ks = filter (\<lambda>k. starts_with k p) (map fst c) in foldl (hm_remove (=)) c ks)"

definition hash_map_cache :: "HashMapCache cache_api" where
  "hash_map_cache = \<lparr>ca_get = hmc_get, ca_put = hmc_put, ca_remove = hmc_remove,
     ca_invalidate_prefix = hmc_invalidate_prefix\<rparr>"

lemma hm_get_removes:
  "hm_get (=) (foldl (hm_remove (=)) c ks) q = (if q \<in> set ks then None else hm_get (=) c q)"
  by (induction ks arbitrary: c) (auto simp: str_map.hm_get_remove)

lemma hmc_get_invalidate:
  "hmc_get (hmc_invalidate_prefix c p) q = (if starts_with q p then None else hmc_get c q)"
proof -
  have "hm_get (=) c q = None" if "q \<notin> fst ` set c"
    using that by (auto simp: hm_get_None image_iff)
  then show ?thesis by (auto simp: hmc_get_def hmc_invalidate_prefix_def hm_get_removes)
qed

interpretation hmc: cache hash_map_cache
proof unfold_locales
  fix c k v q x p
  show "ca_get hash_map_cache (ca_put hash_map_cache c k v) q = Some x \<Longrightarrow>
      (if k = q then x = v else ca_get hash_map_cache c q = Some x)"
    by (auto simp: hash_map_cache_def hmc_get_def hmc_put_def str_map.hm_get_insert split: if_splits)
  show "ca_get hash_map_cache (ca_remove hash_map_cache c k) q = Some x \<Longrightarrow>
      k \<noteq> q \<and> ca_get hash_map_cache c q = Some x"
    by (auto simp: hash_map_cache_def hmc_get_def hmc_remove_def str_map.hm_get_remove split: if_splits)
  show "ca_get hash_map_cache (ca_invalidate_prefix hash_map_cache c p) q = Some x \<Longrightarrow>
      ca_get hash_map_cache c q = Some x"
    by (auto simp: hash_map_cache_def hmc_get_invalidate split: if_splits)
qed

subsection \<open>CachedFs\<close>

text \<open>\<open>serde_json::to_vec\<close> and \<open>from_slice\<close>, for one entry and for a listing.\<close>

record json_api =
  js_to :: "FileMetadata \<Rightarrow> bytes option"
  js_from :: "bytes \<Rightarrow> FileMetadata option"
  js_to_list :: "FileMetadata list \<Rightarrow> bytes option"
  js_from_list :: "bytes \<Rightarrow> FileMetadata list option"

definition json_laws :: "json_api \<Rightarrow> bool" where
  "json_laws J \<longleftrightarrow> (\<forall>m b. js_to J m = Some b \<longrightarrow> js_from J b = Some m) \<and>
     (\<forall>ms b. js_to_list J ms = Some b \<longrightarrow> js_from_list J b = Some ms)"

record ('c, 's) CachedFs =
  cf_inner :: 's
  cf_cache :: 'c
  cf_key_prefix :: string

definition cached_new :: "'s \<Rightarrow> 'c \<Rightarrow> ('c, 's) CachedFs" where
  "cached_new inner c = \<lparr>cf_inner = inner, cf_cache = c, cf_key_prefix = []\<rparr>"

definition with_key_prefix :: "string \<Rightarrow> ('c, 's) CachedFs \<Rightarrow> ('c, 's) CachedFs" where
  "with_key_prefix prefix s = s\<lparr>cf_key_prefix := prefix\<rparr>"

definition cf_key :: "('c, 's) CachedFs \<Rightarrow> string \<Rightarrow> path \<Rightarrow> string" where
  "cf_key s kind p = cf_key_prefix s @ kind @ '':'' @ p"

definition cf_invalidate_path :: "'c cache_api \<Rightarrow> path \<Rightarrow> ('c, 's) CachedFs \<Rightarrow> ('c, 's) CachedFs" where
  "cf_invalidate_path C p s =
     (let c = ca_remove C (ca_remove C (ca_remove C (cf_cache s) (cf_key s ''read'' p))
                (cf_key s ''stat'' p)) (cf_key s ''readdir'' p)
      in s\<lparr>cf_cache := (case parent p of
            Some par \<Rightarrow> if \<not> path_eq par [] then ca_remove C c (cf_key s ''readdir'' par) else c
          | None \<Rightarrow> c)\<rparr>)"

definition cf_invalidate_prefix :: "'c cache_api \<Rightarrow> path \<Rightarrow> ('c, 's) CachedFs \<Rightarrow> ('c, 's) CachedFs" where
  "cf_invalidate_prefix C p s =
     (let c = ca_invalidate_prefix C (ca_invalidate_prefix C (ca_invalidate_prefix C (cf_cache s)
                (cf_key s ''read'' p)) (cf_key s ''stat'' p)) (cf_key s ''readdir'' p)
      in s\<lparr>cf_cache := (case parent p of
            Some par \<Rightarrow> if \<not> path_eq par [] then ca_remove C c (cf_key s ''readdir'' par) else c
          | None \<Rightarrow> c)\<rparr>)"

text \<open>The window taken from the cached bytes: the end is clamped before the cast.\<close>

definition cached_slice :: "bytes \<Rightarrow> int \<Rightarrow> int \<Rightarrow> bytes fs_result" where
  "cached_slice data offset sz =
     (let start = as_usize (max offset 0);
          stop = (if sz < 0 then length data
                  else as_usize (max (min (i64_add offset sz) (int (length data))) 0))
      in if start \<ge> length data then Ok [] else index_range data start (min stop (length data)))"

definition cf_inner_call :: "('s \<Rightarrow> 'a fs_result \<times> 's) \<Rightarrow> ('c, 's) CachedFs \<Rightarrow>
    'a fs_result \<times> ('c, 's) CachedFs" where
  "cf_inner_call op s = (let (r, i) = op (cf_inner s) in (r, s\<lparr>cf_inner := i\<rparr>))"

definition cached_read ::
    "'c cache_api \<Rightarrow> 's FileSystem \<Rightarrow> path \<Rightarrow> int \<Rightarrow> int \<Rightarrow> (('c, 's) CachedFs, bytes) fs_op" where
  "cached_read C V p offset sz now s =
     (let k = cf_key s ''read'' p
      in case ca_get C (cf_cache s) k of
           Some data \<Rightarrow> (cached_slice data offset sz, s)
         | None \<Rightarrow>
             (case cf_inner_call (fs_read V p 0 (- 1) now) s of
                (Ok data, s') \<Rightarrow>
                  (cached_slice data offset sz, s'\<lparr>cf_cache := ca_put C (cf_cache s') k data\<rparr>)
              | (r, s') \<Rightarrow> (r, s')))"

definition cached_stat ::
    "'c cache_api \<Rightarrow> json_api \<Rightarrow> 's FileSystem \<Rightarrow> path \<Rightarrow> (('c, 's) CachedFs, FileMetadata) fs_op" where
  "cached_stat C J V p now s =
     (let k = cf_key s ''stat'' p
      in case Option.bind (ca_get C (cf_cache s) k) (js_from J) of
           Some m \<Rightarrow> (Ok m, s)
         | None \<Rightarrow>
             (case cf_inner_call (fs_stat V p now) s of
                (Ok m, s') \<Rightarrow> (Ok m, case js_to J m of
                    Some b \<Rightarrow> s'\<lparr>cf_cache := ca_put C (cf_cache s') k b\<rparr> | None \<Rightarrow> s')
              | (r, s') \<Rightarrow> (r, s')))"

definition cached_read_dir ::
    "'c cache_api \<Rightarrow> json_api \<Rightarrow> 's FileSystem \<Rightarrow> path \<Rightarrow> (('c, 's) CachedFs, FileMetadata list) fs_op" where
  "cached_read_dir C J V p now s =
     (let k = cf_key s ''readdir'' p
      in case Option.bind (ca_get C (cf_cache s) k) (js_from_list J) of
           Some ms \<Rightarrow> (Ok ms, s)
         | None \<Rightarrow>
             (case cf_inner_call (fs_read_dir V p now) s of
                (Ok ms, s') \<Rightarrow> (Ok ms, case js_to_list J ms of
                    Some b \<Rightarrow> s'\<lparr>cf_cache := ca_put C (cf_cache s') k b\<rparr> | None \<Rightarrow> s')
              | (r, s') \<Rightarrow> (r, s')))"

text \<open>A mutation: the inner call, then, if it succeeded, the invalidation.\<close>

definition cf_mutate :: "(('c, 's) CachedFs \<Rightarrow> ('c, 's) CachedFs) \<Rightarrow> ('s \<Rightarrow> 'a fs_result \<times> 's) \<Rightarrow>
    ('c, 's) CachedFs \<Rightarrow> 'a fs_result \<times> ('c, 's) CachedFs" where
  "cf_mutate inval op s =
     (let (r, s') = cf_inner_call op s in (r, if is_ok r then inval s' else s'))"

definition cached_create where
  "cached_create C V p now = cf_mutate (cf_invalidate_path C p) (fs_create V p now)"
definition cached_write where
  "cached_write C V p d off fl now = cf_mutate (cf_invalidate_path C p) (fs_write V p d off fl now)"
definition cached_mkdir where
  "cached_mkdir C V p perm now = cf_mutate (cf_invalidate_path C p) (fs_mkdir V p perm now)"
definition cached_remove where
  "cached_remove C V p now = cf_mutate (cf_invalidate_path C p) (fs_remove V p now)"
definition cached_remove_all where
  "cached_remove_all C V p now = cf_mutate (cf_invalidate_prefix C p) (fs_remove_all V p now)"
definition cached_rename where
  "cached_rename C V a b now =
     cf_mutate (\<lambda>s. cf_invalidate_path C b (cf_invalidate_path C a s)) (fs_rename V a b now)"
definition cached_chmod where
  "cached_chmod C V p mo now = cf_mutate (cf_invalidate_path C p) (fs_chmod V p mo now)"
definition cached_truncate where
  "cached_truncate C V p n now = cf_mutate (cf_invalidate_path C p) (fs_truncate V p n now)"
definition cached_touch where
  "cached_touch C V p now = cf_mutate (cf_invalidate_path C p) (fs_touch V p now)"

lemmas cached_mutation_defs = cached_create_def cached_write_def cached_mkdir_def cached_remove_def
  cached_remove_all_def cached_rename_def cached_chmod_def cached_truncate_def cached_touch_def

definition cached_fs ::
    "'c cache_api \<Rightarrow> json_api \<Rightarrow> 's FileSystem \<Rightarrow> ('c, 's) CachedFs FileSystem" where
  "cached_fs C J V = \<lparr>fs_read = cached_read C V, fs_stat = cached_stat C J V,
     fs_create = cached_create C V, fs_write = cached_write C V, fs_mkdir = cached_mkdir C V,
     fs_read_dir = cached_read_dir C J V, fs_remove = cached_remove C V,
     fs_remove_all = cached_remove_all C V, fs_rename = cached_rename C V,
     fs_chmod = cached_chmod C V, fs_truncate = cached_truncate C V, fs_touch = cached_touch C V,
     fs_readlink = default_readlink, fs_symlink = default_symlink,
     fs_get_xattr = default_get_xattr, fs_set_xattr = default_set_xattr,
     fs_remove_xattr = default_remove_xattr, fs_list_xattr = default_list_xattr\<rparr>"

subsection \<open>Coherence\<close>

text \<open>Keys of different kinds never collide.\<close>

lemma cf_key_eq [simp]:
  "cf_key s ''read'' p = cf_key s ''read'' q \<longleftrightarrow> p = q"
  "cf_key s ''stat'' p \<noteq> cf_key s ''read'' q" "cf_key s ''readdir'' p \<noteq> cf_key s ''read'' q"
  by (simp_all add: cf_key_def)

lemma cf_key_frame [simp]:
  "cf_key (s\<lparr>cf_cache := c\<rparr>) = cf_key s" "cf_key (s\<lparr>cf_inner := i\<rparr>) = cf_key s"
  by (simp_all add: cf_key_def fun_eq_iff)

text \<open>Every cached file content is what the inner file system would return now.\<close>

definition coherent :: "'c cache_api \<Rightarrow> ('s \<Rightarrow> path \<Rightarrow> bytes fs_result) \<Rightarrow> ('c, 's) CachedFs \<Rightarrow> bool" where
  "coherent C rd s \<longleftrightarrow>
     (\<forall>p d. ca_get C (cf_cache s) (cf_key s ''read'' p) = Some d \<longrightarrow> rd (cf_inner s) p = Ok d)"

definition cached_at :: "'c cache_api \<Rightarrow> ('c, 's) CachedFs \<Rightarrow> path \<Rightarrow> bool" where
  "cached_at C s p \<longleftrightarrow> ca_get C (cf_cache s) (cf_key s ''read'' p) \<noteq> None"

text \<open>
  A file system whose whole-file reads \<open>rd\<close> neither depend on the clock nor are changed by
  reading, statting or listing.
\<close>

locale steady_reads =
  fixes V :: "'s FileSystem" and rd :: "'s \<Rightarrow> path \<Rightarrow> bytes fs_result"
  assumes read_rd: "fst (fs_read V p 0 (- 1) now i) = rd i p"
    and rd_read: "rd (snd (fs_read V p 0 (- 1) now i)) = rd i"
    and rd_stat: "rd (snd (fs_stat V p now i)) = rd i"
    and rd_read_dir: "rd (snd (fs_read_dir V p now i)) = rd i"

locale cached_reads = cache C + steady_reads V rd
  for C :: "'c cache_api" and V :: "'s FileSystem" and rd
begin

lemma coherent_empty: "(\<And>k. ca_get C c k = None) \<Longrightarrow> coherent C rd (cached_new i c)"
  by (simp add: coherent_def cached_new_def)

lemma read_transparent:
  assumes "coherent C rd s"
  shows "fst (cached_read C V p off sz now s) = and_then (rd (cf_inner s) p) (\<lambda>d. cached_slice d off sz)"
    and "coherent C rd (snd (cached_read C V p off sz now s))"
    and "rd (cf_inner (snd (cached_read C V p off sz now s))) = rd (cf_inner s)"
    and "cached_at C (snd (cached_read C V p off sz now s)) q \<Longrightarrow> cached_at C s q \<or> q = p"
proof -
  obtain r i where ri: "fs_read V p 0 (- 1) now (cf_inner s) = (r, i)" by fastforce
  have r: "r = rd (cf_inner s) p" "rd i = rd (cf_inner s)"
    using read_rd [of p now "cf_inner s"] rd_read [of p now "cf_inner s"] ri by simp_all
  show "fst (cached_read C V p off sz now s) = and_then (rd (cf_inner s) p) (\<lambda>d. cached_slice d off sz)"
    using assms r ri
    by (auto simp: cached_read_def Let_def cf_inner_call_def coherent_def split: option.splits outcome.splits)
  show rd: "rd (cf_inner (snd (cached_read C V p off sz now s))) = rd (cf_inner s)"
    using r ri by (auto simp: cached_read_def Let_def cf_inner_call_def split: option.splits outcome.splits)
  let ?k = "cf_key s ''read'' p"
  consider (same) "cf_cache (snd (cached_read C V p off sz now s)) = cf_cache s"
    | (put) d where "r = Ok d" "cf_cache (snd (cached_read C V p off sz now s)) = ca_put C (cf_cache s) ?k d"
    using ri by (cases "ca_get C (cf_cache s) ?k"; cases r)
      (auto simp: cached_read_def Let_def cf_inner_call_def)
  note cases = this
  have key: "cf_key (snd (cached_read C V p off sz now s)) = cf_key s"
    using ri by (cases "ca_get C (cf_cache s) ?k"; cases r)
      (auto simp: cached_read_def Let_def cf_inner_call_def)
  show "coherent C rd (snd (cached_read C V p off sz now s))"
    using cases
  proof cases
    case same
    with assms rd key show ?thesis by (simp add: coherent_def)
  next
    case (put d)
    have "rd (cf_inner s) q = Ok x" if "ca_get C (ca_put C (cf_cache s) ?k d) (cf_key s ''read'' q) = Some x" for q x
      using get_put [OF that] put(1) r(1) assms by (cases "p = q") (auto simp: coherent_def)
    with put rd key show ?thesis by (simp add: coherent_def)
  qed
  show "cached_at C (snd (cached_read C V p off sz now s)) q \<Longrightarrow> cached_at C s q \<or> q = p"
    using cases
  proof cases
    case (put d)
    then show "cached_at C (snd (cached_read C V p off sz now s)) q \<Longrightarrow> cached_at C s q \<or> q = p"
      using get_put [of "cf_cache s" ?k d "cf_key s ''read'' q"] key
      by (cases "p = q") (auto simp: cached_at_def)
  qed (simp add: cached_at_def key)
qed

lemma invalidated:
  assumes "ca_get C (cf_cache (cf_invalidate_path C p s)) (cf_key s ''read'' q) = Some d"
  shows "q \<noteq> p \<and> ca_get C (cf_cache s) (cf_key s ''read'' q) = Some d"
  using assms unfolding cf_invalidate_path_def
  by (auto simp: Let_def split: option.splits if_splits dest!: get_remove)

text \<open>A mutation keeps the cache coherent when it changes the reads of its own path only.\<close>

lemma mutate_coherent:
  assumes co: "coherent C rd s" and op: "op (cf_inner s) = (r, i)"
    and frame: "\<forall>q d. cached_at C s q \<longrightarrow> is_ok r \<longrightarrow> q \<noteq> p \<longrightarrow>
      rd (cf_inner s) q = Ok d \<longrightarrow> rd i q = Ok d"
    and fail: "\<forall>q d. \<not> is_ok r \<longrightarrow> rd (cf_inner s) q = Ok d \<longrightarrow> rd i q = Ok d"
  shows "coherent C rd (snd (cf_mutate (cf_invalidate_path C p) op s))"
    and "cached_at C (snd (cf_mutate (cf_invalidate_path C p) op s)) q \<Longrightarrow> cached_at C s q"
proof -
  let ?s = "s\<lparr>cf_inner := i\<rparr>"
  have inner: "cf_inner (cf_invalidate_path C p ?s) = i" "cf_key (cf_invalidate_path C p ?s) = cf_key s"
    by (simp_all add: cf_invalidate_path_def Let_def)
  show "coherent C rd (snd (cf_mutate (cf_invalidate_path C p) op s))"
  proof (cases "is_ok r")
    case True
    have "rd i q = Ok d" if "ca_get C (cf_cache (cf_invalidate_path C p ?s)) (cf_key s ''read'' q) = Some d" for q d
    proof -
      have q: "q \<noteq> p" "ca_get C (cf_cache s) (cf_key s ''read'' q) = Some d"
        using invalidated [of p ?s q d] that by simp_all
      then have "rd (cf_inner s) q = Ok d" using co by (simp add: coherent_def)
      with q True frame show ?thesis by (simp add: cached_at_def)
    qed
    with True op inner show ?thesis by (simp add: cf_mutate_def cf_inner_call_def coherent_def)
  next
    case False
    with co fail op show ?thesis
      by (simp add: cf_mutate_def cf_inner_call_def coherent_def)
  qed
  show "cached_at C (snd (cf_mutate (cf_invalidate_path C p) op s)) q \<Longrightarrow> cached_at C s q"
    using invalidated [of p ?s q] op inner
    by (auto simp: cf_mutate_def cf_inner_call_def cached_at_def split: if_splits)
qed

end

subsection \<open>Over MemFS\<close>

definition mem_rd :: "MemFS \<Rightarrow> path \<Rightarrow> bytes fs_result" where
  "mem_rd fs p = fst (mem_read p 0 (- 1) 0 fs)"

lemma mem_follow_files: "mem_files i = mem_files j \<Longrightarrow> mem_follow k i p = mem_follow k j p"
  by (induction k arbitrary: p) (auto split: option.splits)

lemma mem_rd_files: "mem_files i = mem_files j \<Longrightarrow> mem_rd i = mem_rd j"
  using mem_follow_files [of i j]
  by (auto simp: fun_eq_iff mem_rd_def mem_read_def split: option.splits outcome.splits
      simp del: mem_follow.simps)

lemma mem_quiet_files:
  "mem_files (snd (mem_read p off sz now i)) = mem_files i"
  "mem_files (snd (mem_stat p now i)) = mem_files i"
  "mem_files (snd (mem_read_dir p now i)) = mem_files i"
  by (auto simp: mem_read_def mem_stat_def mem_read_dir_def split: option.splits outcome.splits)

interpretation mem_reads: steady_reads mem_fs mem_rd
proof unfold_locales
  fix p now i
  show "fst (fs_read mem_fs p 0 (- 1) now i) = mem_rd i p"
    by (simp add: mem_fs_def mem_rd_def mem_read_def split: option.splits outcome.splits
        del: mem_follow.simps)
qed (simp add: mem_fs_def, rule mem_rd_files, simp add: mem_quiet_files)+

interpretation cached_mem: cached_reads hash_map_cache mem_fs mem_rd ..

definition mem_no_links :: "MemFS \<Rightarrow> bool" where
  "mem_no_links fs \<longleftrightarrow> (\<forall>(p, e) \<in> set (mem_files fs). \<not> me_is_symlink e)"

lemma mem_rd_no_links:
  assumes "mem_no_links fs"
  shows "mem_rd fs p =
    (case pm_get (mem_files fs) p of
       None \<Rightarrow> Err (NotFound p)
     | Some e \<Rightarrow> if is_directory (me_metadata e) then Err (IsDirectory p) else Ok (me_data e))"
proof (cases "pm_get (mem_files fs) p")
  case (Some e)
  then have "\<not> me_is_symlink e" using assms by (auto simp: mem_no_links_def dest!: hm_get_SomeD)
  with Some show ?thesis by (simp add: mem_rd_def mem_read_def read_slice_all is_i64_def)
qed (simp add: mem_rd_def mem_read_def)

text \<open>Paths in the one spelling that normalisation leaves alone.\<close>

definition canonical :: "path \<Rightarrow> bool" where
  "canonical p \<longleftrightarrow> has_root p \<and> normalize_path p = p"

lemma canonical_eq: "canonical p \<Longrightarrow> canonical q \<Longrightarrow> path_eq p q \<Longrightarrow> p = q"
  by (metis canonical_def normalize_path_def path_eq_def)

lemma mem_write_rd:
  assumes nl: "mem_no_links fs" and w: "mem_write p d off fl now fs = (r, fs')"
  shows "mem_no_links fs'" "\<not> is_ok r \<Longrightarrow> fs' = fs" "\<not> path_eq p q \<Longrightarrow> mem_rd fs' q = mem_rd fs q"
proof -
  have cases: "fs' = fs \<or> is_ok r \<and> (\<exists>e. mem_files fs' = pm_insert (mem_files fs) p e \<and> \<not> me_is_symlink e)"
  proof (cases "pm_get (mem_files fs) p")
    case (Some e)
    then have "\<not> me_is_symlink e" using nl by (auto simp: mem_no_links_def dest!: hm_get_SomeD)
    with Some w show ?thesis
      by (auto simp: mem_write_def split: if_splits outcome.splits)
  qed (use w in \<open>simp add: mem_write_def\<close>)
  then show nl': "mem_no_links fs'" "\<not> is_ok r \<Longrightarrow> fs' = fs"
    using nl by (auto simp: mem_no_links_def dest!: set_hm_insert)
  show "\<not> path_eq p q \<Longrightarrow> mem_rd fs' q = mem_rd fs q"
    using cases by (auto simp: mem_rd_no_links [OF nl'(1)] mem_rd_no_links [OF nl] path_map.hm_get_insert)
qed

subsection \<open>Properties\<close>



text \<open>
  Cache keys are the path as spelled, but the file systems identify paths by components: after
  a cached read of \<open>/a\<close>, a write through the spelling \<open>/a/\<close> reaches the same file and leaves the
  cached bytes of \<open>/a\<close> in place, so the next read of \<open>/a\<close> is stale.
\<close>

theorem cached_spelling_stale:
  "let s0 = cached_new (mem_with_data 0 [(''/a'', ''old'')]) hmc_new;
       s1 = snd (cached_read hash_map_cache mem_fs ''/a'' 0 (- 1) 1 s0);
       s2 = snd (cached_write hash_map_cache mem_fs ''/a/'' ''new'' 0 WF_NONE 1 s1)
   in fst (cached_read hash_map_cache mem_fs ''/a'' 0 (- 1) 1 s2) = Ok ''old'' \<and>
      fst (mem_read ''/a'' 0 (- 1) 1 (cf_inner s2)) = Ok ''new''"
  by code_simp

end
