(* ===== verification/Inode_Manager.thy ===== *)
theory Inode_Manager
  imports Core_Types
begin

text \<open>
  \<open>racfs-fuse/src/inode_manager.rs\<close>: the two-way map between FUSE inode numbers and paths. The
  maps are those of the crate \<open>dashmap\<close> and are parameters with the laws of a map; \<open>allocate\<close>
  is a lookup followed by a commit that does not look again, which the last property uses.
\<close>

subsection \<open>Maps of the crate dashmap\<close>

record ('m, 'k, 'v) dash_api =
  dm_empty :: 'm
  dm_get :: "'m \<Rightarrow> 'k \<Rightarrow> 'v option"
  dm_insert :: "'m \<Rightarrow> 'k \<Rightarrow> 'v \<Rightarrow> 'm"
  dm_remove :: "'m \<Rightarrow> 'k \<Rightarrow> 'm"

definition dash_laws :: "('k \<Rightarrow> 'k \<Rightarrow> bool) \<Rightarrow> ('m, 'k, 'v) dash_api \<Rightarrow> bool" where
  "dash_laws eq D \<longleftrightarrow>
     (\<forall>k. dm_get D (dm_empty D) k = None) \<and>
     (\<forall>m k v q. dm_get D (dm_insert D m k v) q = (if eq k q then Some v else dm_get D m q)) \<and>
     (\<forall>m k q. dm_get D (dm_remove D m k) q = (if eq k q then None else dm_get D m q)) \<and>
     (\<forall>m k q. eq k q \<longrightarrow> dm_get D m k = dm_get D m q)"

text \<open>Association lists obey them.\<close>

definition list_dash :: "('k \<Rightarrow> 'k \<Rightarrow> bool) \<Rightarrow> (('k \<times> 'v) list, 'k, 'v) dash_api" where
  "list_dash eq = \<lparr>dm_empty = [], dm_get = hm_get eq, dm_insert = hm_insert eq, dm_remove = hm_remove eq\<rparr>"

lemma list_dash_laws: "dash_laws (=) (list_dash (=))" "dash_laws path_eq (list_dash path_eq)"
  by (auto simp: dash_laws_def list_dash_def str_map.hm_get_insert str_map.hm_get_remove
      path_map.hm_get_insert path_map.hm_get_remove dest: path_map.hm_get_eq)

subsection \<open>State and operations\<close>

type_synonym inode = nat

definition ROOT_INODE :: inode where
  "ROOT_INODE = 1"

record ('a, 'b) InodeManager =
  im_inode_to_path :: 'a
  im_path_to_inode :: 'b
  im_next_inode :: nat

definition inode_manager_new ::
    "('a, inode, path) dash_api \<Rightarrow> ('b, path, inode) dash_api \<Rightarrow> ('a, 'b) InodeManager" where
  "inode_manager_new D E =
     \<lparr>im_inode_to_path = dm_insert D (dm_empty D) ROOT_INODE ''/'',
      im_path_to_inode = dm_insert E (dm_empty E) ''/'' ROOT_INODE,
      im_next_inode = ROOT_INODE + 1\<rparr>"

definition alloc_commit :: "('a, inode, path) dash_api \<Rightarrow> ('b, path, inode) dash_api \<Rightarrow> path \<Rightarrow>
    ('a, 'b) InodeManager \<Rightarrow> inode \<times> ('a, 'b) InodeManager" where
  "alloc_commit D E p m =
     (let i = im_next_inode m
      in (i, m\<lparr>im_next_inode := u64_add i 1,
               im_inode_to_path := dm_insert D (im_inode_to_path m) i p,
               im_path_to_inode := dm_insert E (im_path_to_inode m) p i\<rparr>))"

definition allocate :: "('a, inode, path) dash_api \<Rightarrow> ('b, path, inode) dash_api \<Rightarrow> path \<Rightarrow>
    ('a, 'b) InodeManager \<Rightarrow> inode \<times> ('a, 'b) InodeManager" where
  "allocate D E p m =
     (case dm_get E (im_path_to_inode m) p of
        Some i \<Rightarrow> (i, m)
      | None \<Rightarrow> alloc_commit D E p m)"

definition get_path :: "('a, inode, path) dash_api \<Rightarrow> inode \<Rightarrow> ('a, 'b) InodeManager \<Rightarrow> path option" where
  "get_path D i m = dm_get D (im_inode_to_path m) i"

definition get_inode :: "('b, path, inode) dash_api \<Rightarrow> path \<Rightarrow> ('a, 'b) InodeManager \<Rightarrow> inode option" where
  "get_inode E p m = dm_get E (im_path_to_inode m) p"

definition inode_remove :: "('a, inode, path) dash_api \<Rightarrow> ('b, path, inode) dash_api \<Rightarrow> inode \<Rightarrow>
    ('a, 'b) InodeManager \<Rightarrow> ('a, 'b) InodeManager" where
  "inode_remove D E i m =
     (case dm_get D (im_inode_to_path m) i of
        Some p \<Rightarrow> m\<lparr>im_inode_to_path := dm_remove D (im_inode_to_path m) i,
                    im_path_to_inode := dm_remove E (im_path_to_inode m) p\<rparr>
      | None \<Rightarrow> m)"

definition inode_remove_path :: "('a, inode, path) dash_api \<Rightarrow> ('b, path, inode) dash_api \<Rightarrow> path \<Rightarrow>
    ('a, 'b) InodeManager \<Rightarrow> ('a, 'b) InodeManager" where
  "inode_remove_path D E p m =
     (case dm_get E (im_path_to_inode m) p of
        Some i \<Rightarrow> m\<lparr>im_path_to_inode := dm_remove E (im_path_to_inode m) p,
                    im_inode_to_path := dm_remove D (im_inode_to_path m) i\<rparr>
      | None \<Rightarrow> m)"

subsection \<open>The two maps are inverse\<close>

definition inodes_inv :: "('a, inode, path) dash_api \<Rightarrow> ('b, path, inode) dash_api \<Rightarrow>
    ('a, 'b) InodeManager \<Rightarrow> bool" where
  "inodes_inv D E m \<longleftrightarrow>
     (\<forall>i p. get_path D i m = Some p \<longrightarrow> get_inode E p m = Some i \<and> i < im_next_inode m) \<and>
     (\<forall>p i. get_inode E p m = Some i \<longrightarrow> (\<exists>q. get_path D i m = Some q \<and> path_eq q p))"

lemma dash_lawsD:
  assumes "dash_laws eq D"
  shows "dm_get D (dm_empty D) k = None"
    and "dm_get D (dm_insert D m k v) q = (if eq k q then Some v else dm_get D m q)"
    and "dm_get D (dm_remove D m k) q = (if eq k q then None else dm_get D m q)"
    and "eq k q \<Longrightarrow> dm_get D m k = dm_get D m q"
  using assms unfolding dash_laws_def by blast+

lemma inodes_invI:
  assumes "\<And>i p. get_path D i m = Some p \<Longrightarrow> get_inode E p m = Some i \<and> i < im_next_inode m"
    and "\<And>p i. get_inode E p m = Some i \<Longrightarrow> \<exists>q. get_path D i m = Some q \<and> path_eq q p"
  shows "inodes_inv D E m"
  using assms unfolding inodes_inv_def by blast

lemma inodes_invD:
  assumes "inodes_inv D E m"
  shows "get_path D i m = Some p \<Longrightarrow> get_inode E p m = Some i \<and> i < im_next_inode m"
    and "get_inode E p m = Some i \<Longrightarrow> \<exists>q. get_path D i m = Some q \<and> path_eq q p"
  using assms unfolding inodes_inv_def by blast+

lemma inodes_inv_new:
  assumes "dash_laws (=) D" "dash_laws path_eq E"
  shows "inodes_inv D E (inode_manager_new D E)"
  by (intro inodes_invI)
    (auto simp: inode_manager_new_def get_path_def get_inode_def dash_lawsD(1-3) [OF assms(1)]
      dash_lawsD(1-3) [OF assms(2)] split: if_splits)

lemma allocate_inv:
  assumes D: "dash_laws (=) D" and E: "dash_laws path_eq E" and inv: "inodes_inv D E m"
    and room: "im_next_inode m < u64_max"
  shows "inodes_inv D E (snd (allocate D E p m))"
proof (cases "dm_get E (im_path_to_inode m) p")
  case None
  let ?m = "snd (alloc_commit D E p m)"
  have none: "get_inode E q m = None" if "path_eq p q" for q
    using None dash_lawsD(4) [OF E that] by (simp add: get_inode_def)
  have gp: "get_path D i ?m = (if im_next_inode m = i then Some p else get_path D i m)" for i
    by (simp add: alloc_commit_def Let_def get_path_def dash_lawsD(2,3) [OF D])
  have gi: "get_inode E q ?m = (if path_eq p q then Some (im_next_inode m) else get_inode E q m)" for q
    by (simp add: alloc_commit_def Let_def get_inode_def dash_lawsD(2,3) [OF E])
  have nx: "im_next_inode ?m = Suc (im_next_inode m)"
    using room by (simp add: alloc_commit_def Let_def)
  have "inodes_inv D E ?m"
  proof (rule inodes_invI)
    fix i q assume "get_path D i ?m = Some q"
    then show "get_inode E q ?m = Some i \<and> i < im_next_inode ?m"
      using inodes_invD(1) [OF inv, of i q] none [of q] by (auto simp: gp gi nx split: if_splits)
  next
    fix q i assume "get_inode E q ?m = Some i"
    then show "\<exists>r. get_path D i ?m = Some r \<and> path_eq r q"
      using inodes_invD(2) [OF inv, of q i] inodes_invD(1) [OF inv, of i]
      by (auto simp: gp gi split: if_splits)
  qed
  with None show ?thesis by (simp add: allocate_def)
qed (simp add: allocate_def inv)

lemma inode_unlink_inv:
  assumes D: "dash_laws (=) D" and E: "dash_laws path_eq E" and inv: "inodes_inv D E m"
    and i: "get_path D i m = Some p" and pq: "path_eq p q"
  shows "inodes_inv D E (m\<lparr>im_inode_to_path := dm_remove D (im_inode_to_path m) i,
    im_path_to_inode := dm_remove E (im_path_to_inode m) q\<rparr>)" (is "inodes_inv D E ?m")
proof (rule inodes_invI)
  have gp: "get_path D j ?m = (if i = j then None else get_path D j m)" for j
    by (simp add: get_path_def dash_lawsD(2,3) [OF D])
  have gi: "get_inode E r ?m = (if path_eq q r then None else get_inode E r m)" for r
    by (simp add: get_inode_def dash_lawsD(2,3) [OF E])
  have same: "get_inode E r m = Some i" if "path_eq q r" for r
    using inodes_invD(1) [OF inv i] dash_lawsD(4) [OF E, of p r "im_path_to_inode m"]
      path_map.trans [OF pq that] by (simp add: get_inode_def)
  fix j r assume "get_path D j ?m = Some r"
  then show "get_inode E r ?m = Some j \<and> j < im_next_inode ?m"
    using inodes_invD(1) [OF inv, of j r] same [of r] by (auto simp: gp gi split: if_splits)
next
  have gp: "get_path D j ?m = (if i = j then None else get_path D j m)" for j
    by (simp add: get_path_def dash_lawsD(2,3) [OF D])
  have gi: "get_inode E r ?m = (if path_eq q r then None else get_inode E r m)" for r
    by (simp add: get_inode_def dash_lawsD(2,3) [OF E])
  fix r j assume r: "get_inode E r ?m = Some j"
  then have "\<not> path_eq q r" "get_inode E r m = Some j" by (auto simp: gi split: if_splits)
  moreover from inodes_invD(2) [OF inv this(2)] obtain s where "get_path D j m = Some s" "path_eq s r"
    by blast
  moreover have "i \<noteq> j" using calculation i path_map.trans [OF path_map.sym [OF pq]] by auto
  ultimately show "\<exists>s. get_path D j ?m = Some s \<and> path_eq s r" by (auto simp: gp)
qed

lemma inode_remove_inv:
  assumes "dash_laws (=) D" "dash_laws path_eq E" "inodes_inv D E m"
  shows "inodes_inv D E (inode_remove D E i m)" "inodes_inv D E (inode_remove_path D E p m)"
proof -
  show "inodes_inv D E (inode_remove D E i m)"
    using assms inode_unlink_inv [OF assms, of i]
    by (auto simp: inode_remove_def get_path_def split: option.splits)
  show "inodes_inv D E (inode_remove_path D E p m)"
  proof (cases "get_inode E p m")
    case (Some j)
    then obtain q where "get_path D j m = Some q" "path_eq q p" using inodes_invD(2) [OF assms(3)] by blast
    note inv = inode_unlink_inv [OF assms this]
    have "inode_remove_path D E p m = m\<lparr>im_inode_to_path := dm_remove D (im_inode_to_path m) j,
        im_path_to_inode := dm_remove E (im_path_to_inode m) p\<rparr>"
      using Some by (cases m) (simp add: inode_remove_path_def get_inode_def)
    with inv show ?thesis by simp
  qed (simp add: inode_remove_path_def get_inode_def assms)
qed

subsection \<open>Runs\<close>

inductive inode_step :: "('a, inode, path) dash_api \<Rightarrow> ('b, path, inode) dash_api \<Rightarrow>
    ('a, 'b) InodeManager \<Rightarrow> ('a, 'b) InodeManager \<Rightarrow> bool" for D E where
  allocated: "im_next_inode m < u64_max \<Longrightarrow> inode_step D E m (snd (allocate D E p m))"
| removed: "inode_step D E m (inode_remove D E i m)"
| removed_path: "inode_step D E m (inode_remove_path D E p m)"

inductive inode_reachable :: "('a, inode, path) dash_api \<Rightarrow> ('b, path, inode) dash_api \<Rightarrow>
    ('a, 'b) InodeManager \<Rightarrow> bool" for D E where
  start: "inode_reachable D E (inode_manager_new D E)"
| step: "inode_reachable D E m \<Longrightarrow> inode_step D E m m' \<Longrightarrow> inode_reachable D E m'"

lemma inode_reachable_inv:
  assumes "dash_laws (=) D" "dash_laws path_eq E"
  shows "inode_reachable D E m \<Longrightarrow> inodes_inv D E m"
proof (induction rule: inode_reachable.induct)
  case start
  show ?case by (rule inodes_inv_new [OF assms])
next
  case (step m m')
  from step.hyps(2) step.IH show ?case
    by cases (auto intro: allocate_inv [OF assms] inode_remove_inv [OF assms])
qed

subsection \<open>Properties\<close>

text \<open>
  \<^bold>\<open>C37\<close>. In every state the inode manager reaches (with inode numbers left), inodes and paths map to
  each other one to one; allocating a path gives an inode that leads back to it, is stable under
  any spelling of the path, and is new when the path was unknown; after removal neither side
  knows it.
\<close>

theorem inode_bijection:
  assumes D: "dash_laws (=) D" and E: "dash_laws path_eq E" and r: "inode_reachable D E m"
    and room: "im_next_inode m < u64_max" and a: "allocate D E p m = (i, m')" and q: "path_eq p q"
  shows "inodes_inv D E m' \<and>
    (\<exists>p'. get_path D i m' = Some p' \<and> path_eq p' p) \<and> get_inode E q m' = Some i \<and>
    allocate D E q m' = (i, m') \<and>
    (if get_inode E p m = None then get_path D i m = None else m' = m) \<and>
    get_path D i (inode_remove D E i m') = None \<and> get_inode E q (inode_remove D E i m') = None"
proof -
  have inv: "inodes_inv D E m" by (rule inode_reachable_inv [OF D E r])
  have inv': "inodes_inv D E m'" using allocate_inv [OF D E inv room, of p] a by simp
  have gi: "get_inode E q m' = get_inode E p m'" if "path_eq p q" for q
    using dash_lawsD(4) [OF E that] by (simp add: get_inode_def)
  have i: "get_inode E p m' = Some i"
    using a by (auto simp: allocate_def alloc_commit_def Let_def get_inode_def dash_lawsD(2) [OF E]
        split: option.splits)
  then obtain p' where p': "get_path D i m' = Some p'" "path_eq p' p"
    using inodes_invD(2) [OF inv'] by blast
  have new: "if get_inode E p m = None then get_path D i m = None else m' = m"
  proof (cases "get_inode E p m")
    case None
    then have "i = im_next_inode m"
      using a by (simp add: allocate_def alloc_commit_def get_inode_def Let_def)
    then show ?thesis using None inodes_invD(1) [OF inv, of i] by (cases "get_path D i m") auto
  qed (use a in \<open>simp add: allocate_def get_inode_def\<close>)
  have "allocate D E q m' = (i, m')" using i gi [OF q] by (simp add: allocate_def get_inode_def)
  moreover have "get_path D i (inode_remove D E i m') = None"
    "get_inode E q (inode_remove D E i m') = None"
    using p' path_map.trans [OF p'(2) q] by (auto simp: inode_remove_def get_path_def get_inode_def
        dash_lawsD(3) [OF D] dash_lawsD(3) [OF E] split: option.splits)
  ultimately show ?thesis using inv' p' i gi [OF q] new by simp
qed

theorem inode_bijection_witness:
  "allocate (list_dash (=)) (list_dash path_eq) ''/a/''
     (snd (allocate (list_dash (=)) (list_dash path_eq) ''/a''
       (inode_manager_new (list_dash (=)) (list_dash path_eq)))) =
   (2, snd (allocate (list_dash (=)) (list_dash path_eq) ''/a''
       (inode_manager_new (list_dash (=)) (list_dash path_eq))))"
proof -
  let ?m = "inode_manager_new (list_dash (=)) (list_dash path_eq)"
  have e: "path_eq ''/a'' ''/a/''" "\<not> path_eq ''/'' ''/a''" by code_simp+
  have a: "allocate (list_dash (=)) (list_dash path_eq) ''/a'' ?m =
      (2, snd (allocate (list_dash (=)) (list_dash path_eq) ''/a'' ?m))"
    "im_next_inode ?m < u64_max"
    using e(2) by (simp_all add: allocate_def alloc_commit_def inode_manager_new_def list_dash_def
        ROOT_INODE_def Let_def)
  from inode_bijection [OF list_dash_laws inode_reachable.start a(2,1) e(1)] show ?thesis by simp
qed

text \<open>
  \<open>allocate\<close> looks the path up and commits without looking again: two threads that both miss
  and then commit give the same path two inodes. Only the second is found from the path, and
  removing the path leaves the first inode behind.
\<close>

theorem inode_allocate_race:
  assumes D: "dash_laws (=) D" and E: "dash_laws path_eq E"
    and room: "Suc (im_next_inode m) < u64_max"
    and c1: "alloc_commit D E p m = (i, m1)" and c2: "alloc_commit D E p m1 = (j, m2)"
  shows "i \<noteq> j \<and> get_path D i m2 = Some p \<and> get_path D j m2 = Some p \<and> get_inode E p m2 = Some j \<and>
    get_path D i (inode_remove_path D E p m2) = Some p \<and>
    get_inode E p (inode_remove_path D E p m2) = None"
proof -
  have i: "i = im_next_inode m" "j = Suc (im_next_inode m)"
    using c1 c2 room by (auto simp: alloc_commit_def Let_def)
  have "get_path D k m2 = (if j = k then Some p else if i = k then Some p else get_path D k m)" for k
    using c1 c2 by (auto simp: alloc_commit_def Let_def get_path_def dash_lawsD(2) [OF D])
  moreover have "get_inode E p m2 = Some j"
    using c1 c2 by (auto simp: alloc_commit_def Let_def get_inode_def dash_lawsD(2) [OF E])
  ultimately show ?thesis
    using i by (auto simp: inode_remove_path_def get_path_def get_inode_def dash_lawsD(3) [OF D]
        dash_lawsD(3) [OF E])
qed

theorem inode_allocate_race_witness:
  "get_path (list_dash (=)) 2 (snd (alloc_commit (list_dash (=)) (list_dash path_eq) ''/a''
     (snd (alloc_commit (list_dash (=)) (list_dash path_eq) ''/a''
       (inode_manager_new (list_dash (=)) (list_dash path_eq)))))) = Some ''/a''"
proof -
  let ?m = "inode_manager_new (list_dash (=)) (list_dash path_eq)"
  have n: "Suc (im_next_inode ?m) < u64_max" "fst (alloc_commit (list_dash (=)) (list_dash path_eq) ''/a'' ?m) = 2"
    by (simp_all add: inode_manager_new_def ROOT_INODE_def alloc_commit_def Let_def)
  from inode_allocate_race [OF list_dash_laws n(1) surjective_pairing surjective_pairing, of "''/a''"] n(2)
  show ?thesis by simp
qed

end
