(* ===== verification/Rate_Limit.thy ===== *)
theory Rate_Limit
  imports Core_Types
begin

text \<open>
  \<open>racfs-server/src/ratelimit.rs\<close>: the fixed-window rate limiter and the middleware that applies
  it. Instants and durations are in nanoseconds. The crate \<open>http\<close> (header values and
  header maps) is the parameter \<open>H\<close>, \<open>serde_json\<close> the parameter \<open>to_json\<close>; the hash of
  \<open>DefaultHasher\<close>, whose algorithm the standard library leaves open, is the parameter \<open>hash\<close>. The service the
  middleware wraps is \<open>next\<close>, a function on the state \<open>'s\<close> behind it.
\<close>

subsection \<open>State and operations\<close>

record RateLimitHeaders =
  rlh_limit :: bool
  rlh_remaining :: bool
  rlh_reset :: bool

definition rate_limit_headers_default :: RateLimitHeaders where
  "rate_limit_headers_default = \<lparr>rlh_limit = True, rlh_remaining = True, rlh_reset = True\<rparr>"

record RateLimitConfig =
  rlc_max_requests :: nat
  rlc_window :: nat
  rlc_headers :: RateLimitHeaders

definition rate_limit_config_default :: RateLimitConfig where
  "rate_limit_config_default =
     \<lparr>rlc_max_requests = 100, rlc_window = 60 * 10 ^ 9, rlc_headers = rate_limit_headers_default\<rparr>"

record UserRateLimit =
  url_count :: nat
  url_window_start :: time

record RateLimiter =
  rl_users :: "(string \<times> UserRateLimit) list"
  rl_config :: RateLimitConfig

definition rate_limiter_new :: "RateLimitConfig \<Rightarrow> RateLimiter" where
  "rate_limiter_new c = \<lparr>rl_users = [], rl_config = c\<rparr>"

definition update_config :: "RateLimitConfig \<Rightarrow> RateLimiter \<Rightarrow> RateLimiter" where
  "update_config c L = L\<lparr>rl_config := c\<rparr>"

text \<open>
  \<open>entry(..).or_insert_with(..)\<close> and the reset of an expired window: the state the limit is
  checked against. \<open>duration_since\<close> is zero for a later instant, as is subtraction here.
\<close>

definition user_window :: "string \<Rightarrow> time \<Rightarrow> RateLimiter \<Rightarrow> UserRateLimit" where
  "user_window client now L =
     (let u = (case hm_get (=) (rl_users L) client of
                 Some u \<Rightarrow> u
               | None \<Rightarrow> \<lparr>url_count = 0, url_window_start = now\<rparr>)
      in if rlc_window (rl_config L) \<le> now - url_window_start u
         then u\<lparr>url_count := 0, url_window_start := now\<rparr> else u)"

definition check :: "string \<Rightarrow> time \<Rightarrow> RateLimiter \<Rightarrow> (bool \<times> nat \<times> nat) \<times> RateLimiter" where
  "check client now L =
     (let c = rl_config L;
          u = user_window client now L;
          remaining = rlc_max_requests c - url_count u;
          allowed = (url_count u < rlc_max_requests c);
          u' = (if allowed then u\<lparr>url_count := url_count u + 1\<rparr> else u);
          elapsed = now - url_window_start u';
          reset_time = (rlc_window c - elapsed) div 10 ^ 9
      in ((allowed, remaining, reset_time), L\<lparr>rl_users := hm_insert (=) (rl_users L) client u'\<rparr>))"

subsection \<open>Requests and responses\<close>

record ('v, 'h) http_api =
  hp_get :: "'h \<Rightarrow> string \<Rightarrow> 'v option"
  hp_insert :: "'h \<Rightarrow> string \<Rightarrow> 'v \<Rightarrow> 'h"
  hp_to_str :: "'v \<Rightarrow> string option"
  hp_from_str :: "string \<Rightarrow> 'v option"

text \<open>
  A request: its headers, the peer's address when the server recorded it, whether the
  extension holding the limiter is present, and the rest.
\<close>

record ('h, 'q) request =
  rq_headers :: 'h
  rq_connect_info :: "string option"
  rq_limiter :: bool
  rq_rest :: 'q

record 'h response =
  rs_status :: nat
  rs_headers :: 'h
  rs_body :: bytes

definition client_id_apikey :: "(string \<Rightarrow> nat) \<Rightarrow> string \<Rightarrow> string" where
  "client_id_apikey hash key = ''apikey:'' @ dec (hash key)"

definition client_id_user :: "(string \<Rightarrow> nat) \<Rightarrow> string \<Rightarrow> string" where
  "client_id_user hash auth = ''user:'' @ dec (hash auth)"

definition get_client_id :: "('v, 'h) http_api \<Rightarrow> (string \<Rightarrow> nat) \<Rightarrow> ('h, 'q) request \<Rightarrow> string" where
  "get_client_id H hash rq =
     (case Option.bind (hp_get H (rq_headers rq) ''x-api-key'') (hp_to_str H) of
        Some key \<Rightarrow> client_id_apikey hash key
      | None \<Rightarrow>
          (case Option.bind (hp_get H (rq_headers rq) ''authorization'') (hp_to_str H) of
             Some auth \<Rightarrow> client_id_user hash auth
           | None \<Rightarrow>
               (case rq_connect_info rq of
                  Some ip \<Rightarrow> ''ip:'' @ ip
                | None \<Rightarrow> ''default'')))"

definition insert_header :: "('v, 'h) http_api \<Rightarrow> bool \<Rightarrow> string \<Rightarrow> nat \<Rightarrow> 'h \<Rightarrow> 'h" where
  "insert_header H wanted name n hs =
     (case (if wanted then hp_from_str H (dec n) else None) of
        Some v \<Rightarrow> hp_insert H hs name v
      | None \<Rightarrow> hs)"

definition add_headers ::
    "('v, 'h) http_api \<Rightarrow> RateLimiter \<Rightarrow> nat \<Rightarrow> nat \<Rightarrow> 'h response \<Rightarrow> 'h response" where
  "add_headers H L remaining reset r =
     (let c = rl_config L;
          hs = insert_header H (rlh_limit (rlc_headers c)) ''x-rate-limit-limit'' (rlc_max_requests c) (rs_headers r);
          hs = insert_header H (rlh_remaining (rlc_headers c)) ''x-rate-limit-remaining'' remaining hs;
          hs = insert_header H (rlh_reset (rlc_headers c)) ''x-rate-limit-reset'' reset hs
      in r\<lparr>rs_headers := hs\<rparr>)"

record RateLimitErrorResponse =
  rle_code :: string
  rle_message :: string

definition rate_limit_middleware ::
    "('v, 'h) http_api \<Rightarrow> (RateLimitErrorResponse \<Rightarrow> bytes option) \<Rightarrow> (string \<Rightarrow> nat) \<Rightarrow>
     (('h, 'q) request \<Rightarrow> 's \<Rightarrow> 'h response \<times> 's) \<Rightarrow> ('h, 'q) request \<Rightarrow> time \<Rightarrow>
     RateLimiter \<times> 's \<Rightarrow> 'h response \<times> RateLimiter \<times> 's" where
  "rate_limit_middleware H to_json hash next rq now st =
     (let (L, s) = st in
      if \<not> rq_limiter rq then (let (r, s') = next rq s in (r, L, s'))
      else
        (let client = get_client_id H hash rq;
             ((allowed, remaining, reset), L') = check client now L;
             (r, s') = next rq s
         in if allowed then (add_headers H L' remaining reset r, L', s')
            else
              (let r' = add_headers H L' 0 reset (r\<lparr>rs_status := 429\<rparr>);
                   body = (case to_json \<lparr>rle_code = ''RateLimitExceeded'',
                       rle_message = ''Rate limit exceeded. Try again in '' @ dec reset @ '' seconds.''\<rparr> of
                     Some b \<Rightarrow> b | None \<Rightarrow> [])
               in (r'\<lparr>rs_body := body\<rparr>, L', s'))))"

subsection \<open>Runs of the limiter\<close>

text \<open>Successive checks, with the log of their answers.\<close>

fun run_checks :: "(string \<times> time) list \<Rightarrow> RateLimiter \<Rightarrow> (string \<times> time \<times> bool) list" where
  "run_checks [] L = []"
| "run_checks ((client, now) # cs) L =
     (let (r, L') = check client now L in (client, now, fst r) # run_checks cs L')"

definition admitted :: "string \<Rightarrow> time \<Rightarrow> time \<Rightarrow> (string \<times> time \<times> bool) list \<Rightarrow> nat" where
  "admitted client a b log = length (filter (\<lambda>(c, t, ok). c = client \<and> ok \<and> a \<le> t \<and> t < b) log)"

lemma admitted_simps [simp]:
  "admitted client a b [] = 0"
  "admitted client a b ((c, t, ok) # log) =
     (if c = client \<and> ok \<and> a \<le> t \<and> t < b then 1 else 0) + admitted client a b log"
  by (simp_all add: admitted_def)

lemma check_config [simp]: "rl_config (snd (check client now L)) = rl_config L"
  by (simp add: check_def Let_def)

lemma rate_limiter_new_simps [simp]:
  "rl_config (rate_limiter_new c) = c" "rl_users (rate_limiter_new c) = []"
  by (simp_all add: rate_limiter_new_def)

lemma run_checks_case:
  "run_checks ((client, now) # cs) L =
     (case check client now L of (r, L') \<Rightarrow> (client, now, fst r) # run_checks cs L')"
  by simp

lemma check_allowed:
  "fst (fst (check client now L)) \<longleftrightarrow> url_count (user_window client now L) < rlc_max_requests (rl_config L)"
  by (simp add: check_def Let_def)

lemma check_users:
  "hm_get (=) (rl_users (snd (check client now L))) c =
     (if client = c
      then Some ((user_window client now L)\<lparr>url_count := url_count (user_window client now L) +
        (if fst (fst (check client now L)) then 1 else 0)\<rparr>)
      else hm_get (=) (rl_users L) c)"
  by (simp add: check_def Let_def str_map.hm_get_insert)

lemma admitted_later:
  "(\<forall>(c, t) \<in> set cs. b \<le> t) \<Longrightarrow> admitted client a b (run_checks cs L) = 0"
  by (induction cs arbitrary: L) (auto simp: Let_def case_prod_unfold)

text \<open>
  What a client can still be granted within \<open>[t, t + window)\<close>, given its current window: at
  most the rest of that window and one more, and at most the rest when the interval ends with it.
\<close>

definition grant_bound :: "RateLimitConfig \<Rightarrow> UserRateLimit option \<Rightarrow> time \<Rightarrow> nat" where
  "grant_bound c u t =
     (case u of
        None \<Rightarrow> 2 * rlc_max_requests c - 1
      | Some u \<Rightarrow>
          if t \<le> url_window_start u then rlc_max_requests c - url_count u
          else if t < url_window_start u + rlc_window c
          then (rlc_max_requests c - url_count u) + rlc_max_requests c
          else 2 * rlc_max_requests c - 1)"

definition user_ok :: "RateLimitConfig \<Rightarrow> time \<Rightarrow> UserRateLimit option \<Rightarrow> bool" where
  "user_ok c now u = (case u of None \<Rightarrow> True
     | Some u \<Rightarrow> url_window_start u \<le> now \<and> url_count u \<le> rlc_max_requests c \<and>
         (0 < rlc_max_requests c \<longrightarrow> 0 < url_count u))"

abbreviation user_of :: "RateLimiter \<Rightarrow> string \<Rightarrow> UserRateLimit option" where
  "user_of L c \<equiv> hm_get (=) (rl_users L) c"

lemma check_user_ok:
  assumes "user_ok (rl_config L) now (user_of L c)" "now \<le> now'"
  shows "user_ok (rl_config L) now' (user_of (snd (check client now' L)) c)"
  using assms
  by (auto simp: check_users check_allowed user_ok_def user_window_def Let_def split: option.splits)

lemma check_grant:
  assumes ok: "user_ok (rl_config L) now (user_of L client)" "now \<le> now'"
    and W: "0 < rlc_window (rl_config L)"
    and soon: "now' < t + rlc_window (rl_config L)"
  shows "(if fst (fst (check client now' L)) \<and> t \<le> now' then 1 else 0) +
      grant_bound (rl_config L) (user_of (snd (check client now' L)) client) t
    \<le> grant_bound (rl_config L) (user_of L client) t"
proof (cases "user_of L client")
  case None
  then show ?thesis using W
    by (auto simp: check_users check_allowed user_window_def grant_bound_def Let_def)
next
  case (Some u)
  let ?c = "rl_config L"
  have u: "url_window_start u \<le> now'" "url_count u \<le> rlc_max_requests ?c"
    "0 < rlc_max_requests ?c \<Longrightarrow> 0 < url_count u"
    using ok Some by (auto simp: user_ok_def)
  show ?thesis
  proof (cases "rlc_window ?c \<le> now' - url_window_start u")
    case True
    then have "url_window_start u < t" using soon W by linarith
    with True Some u W show ?thesis
      by (auto simp: check_users check_allowed user_window_def grant_bound_def Let_def)
  next
    case False
    with Some u W show ?thesis
      by (auto simp: check_users check_allowed user_window_def grant_bound_def Let_def)
  qed
qed

lemma admitted_bound:
  assumes "sorted (map snd cs)" "\<forall>(_, t') \<in> set cs. now \<le> t'"
    and "user_ok (rl_config L) now (user_of L client)" "0 < rlc_window (rl_config L)"
  shows "admitted client t (t + rlc_window (rl_config L)) (run_checks cs L)
    \<le> grant_bound (rl_config L) (user_of L client) t"
  using assms
proof (induction cs arbitrary: L now)
  case (Cons a cs)
  obtain c t' where a: "a = (c, t')" by (cases a)
  let ?L = "snd (check c t' L)" and ?W = "rlc_window (rl_config L)"
  have t': "now \<le> t'" using Cons.prems(2) a by simp
  have later: "\<forall>(_, u) \<in> set cs. t' \<le> u" using Cons.prems(1) a by auto
  have ih: "admitted client t (t + ?W) (run_checks cs ?L)
      \<le> grant_bound (rl_config L) (user_of ?L client) t"
    using Cons.IH [of t' ?L] Cons.prems(1,4) a later check_user_ok [OF Cons.prems(3) t', of c] by simp
  show ?case
  proof (cases "t' < t + ?W")
    case False
    then have "admitted client t (t + ?W) (run_checks (a # cs) L) = 0"
      using a later by (intro admitted_later) auto
    then show ?thesis by simp
  next
    case True
    show ?thesis
    proof (cases "c = client")
      case True
      with check_grant [OF Cons.prems(3) t' Cons.prems(4) \<open>t' < t + ?W\<close>] ih a \<open>t' < t + ?W\<close>
      show ?thesis by (auto simp: Let_def case_prod_unfold split: if_splits)
    next
      case False
      with ih a show ?thesis by (simp add: Let_def case_prod_unfold check_users)
    qed
  qed
qed simp

subsection \<open>Properties\<close>



text \<open>
  The middleware runs the wrapped service on every request, refused or not: the limiter's
  answer only decides what the client is told. A refused request leaves the same state behind
  as an admitted one, and the client reads status 429.
\<close>

theorem rate_limit_refused_runs:
  assumes "rate_limit_middleware H to_json hash next rq now (L, s) = (r, L', s')" "rq_limiter rq"
  shows "s' = snd (next rq s) \<and> L' = snd (check (get_client_id H hash rq) now L) \<and>
    rs_status r = (if fst (fst (check (get_client_id H hash rq) now L)) then rs_status (fst (next rq s)) else 429)"
  using assms
  by (auto simp: rate_limit_middleware_def add_headers_def Let_def split: prod.splits if_splits)

theorem rate_limit_refused_runs_witness:
  "\<exists>r L'. rate_limit_middleware
     \<lparr>hp_get = \<lambda>hs k. map_of hs k, hp_insert = \<lambda>hs k v. (k, v) # hs, hp_to_str = Some, hp_from_str = Some\<rparr>
     (\<lambda>e. Some (rle_message e)) (\<lambda>_. 0)
     (\<lambda>rq (n::nat). (\<lparr>rs_status = 200, rs_headers = [], rs_body = []\<rparr>, Suc n))
     \<lparr>rq_headers = [], rq_connect_info = None, rq_limiter = True, rq_rest = ()\<rparr> 5
     (rate_limiter_new \<lparr>rlc_max_requests = 0, rlc_window = 10, rlc_headers = rate_limit_headers_default\<rparr>, 0)
   = (r, L', 1) \<and> rs_status r = 429"
proof -
  let ?H = "\<lparr>hp_get = \<lambda>hs k. map_of hs k, hp_insert = \<lambda>hs k v. (k, v) # hs, hp_to_str = Some, hp_from_str = Some\<rparr>"
  let ?next = "\<lambda>rq (n::nat). (\<lparr>rs_status = 200, rs_headers = [], rs_body = []\<rparr>, Suc n)"
  let ?rq = "\<lparr>rq_headers = [], rq_connect_info = None, rq_limiter = True, rq_rest = ()\<rparr>"
  let ?L = "rate_limiter_new \<lparr>rlc_max_requests = 0, rlc_window = 10, rlc_headers = rate_limit_headers_default\<rparr>"
  let ?x = "rate_limit_middleware ?H (\<lambda>e. Some (rle_message e)) (\<lambda>_. 0) ?next ?rq 5 (?L, 0)"
  have x: "?x = (fst ?x, fst (snd ?x), snd (snd ?x))" by simp
  from rate_limit_refused_runs [OF x] show ?thesis
    by (intro exI [of _ "fst ?x"] exI [of _ "fst (snd ?x)"])
      (auto simp: check_allowed rate_limiter_new_def user_window_def Let_def prod_eq_iff)
qed

end
