(* ===== verification/Http_Error.thy ===== *)
theory Http_Error
  imports Core_Types
begin

text \<open>
  The crate \<open>racfs-http-error\<close> (\<open>ErrorCode\<close>, \<open>HttpErrorResponse\<close>), the translation of file
  system errors into it (\<open>racfs-server/src/error.rs\<close>) and the validation of request
  parameters (\<open>racfs-server/src/validation.rs\<close>). A path prints as its bytes.
\<close>

subsection \<open>Error codes\<close>

datatype ErrorCode =
    EC_BadRequest | EC_Unauthorized | EC_Forbidden | EC_NotFound | EC_Conflict
  | EC_InternalServerError | EC_NotImplemented | EC_ServiceUnavailable | EC_GatewayTimeout
  | EC_InsufficientStorage

fun status_code :: "ErrorCode \<Rightarrow> nat" where
  "status_code EC_BadRequest = 400"
| "status_code EC_Unauthorized = 401"
| "status_code EC_Forbidden = 403"
| "status_code EC_NotFound = 404"
| "status_code EC_Conflict = 409"
| "status_code EC_InternalServerError = 500"
| "status_code EC_NotImplemented = 501"
| "status_code EC_ServiceUnavailable = 503"
| "status_code EC_GatewayTimeout = 504"
| "status_code EC_InsufficientStorage = 507"

fun error_code_display :: "ErrorCode \<Rightarrow> string" where
  "error_code_display EC_BadRequest = ''BadRequest''"
| "error_code_display EC_Unauthorized = ''Unauthorized''"
| "error_code_display EC_Forbidden = ''Forbidden''"
| "error_code_display EC_NotFound = ''NotFound''"
| "error_code_display EC_Conflict = ''Conflict''"
| "error_code_display EC_InternalServerError = ''InternalServerError''"
| "error_code_display EC_NotImplemented = ''NotImplemented''"
| "error_code_display EC_ServiceUnavailable = ''ServiceUnavailable''"
| "error_code_display EC_GatewayTimeout = ''GatewayTimeout''"
| "error_code_display EC_InsufficientStorage = ''InsufficientStorage''"

definition error_code_from_str :: "string \<Rightarrow> ErrorCode" where
  "error_code_from_str s =
     (if s = ''BadRequest'' then EC_BadRequest
      else if s = ''Unauthorized'' then EC_Unauthorized
      else if s = ''Forbidden'' then EC_Forbidden
      else if s = ''NotFound'' then EC_NotFound
      else if s = ''Conflict'' then EC_Conflict
      else if s = ''InternalServerError'' then EC_InternalServerError
      else if s = ''NotImplemented'' then EC_NotImplemented
      else if s = ''ServiceUnavailable'' then EC_ServiceUnavailable
      else if s = ''GatewayTimeout'' then EC_GatewayTimeout
      else if s = ''InsufficientStorage'' then EC_InsufficientStorage
      else EC_InternalServerError)"

subsection \<open>Error responses\<close>

record HttpErrorResponse =
  her_code :: ErrorCode
  her_message :: string
  her_detail :: "string option"

type_synonym 'a http_result = "('a, HttpErrorResponse) outcome"

definition her_new :: "ErrorCode \<Rightarrow> string \<Rightarrow> HttpErrorResponse" where
  "her_new c m = \<lparr>her_code = c, her_message = m, her_detail = None\<rparr>"

definition her_new_with_detail :: "ErrorCode \<Rightarrow> string \<Rightarrow> string \<Rightarrow> HttpErrorResponse" where
  "her_new_with_detail c m d = \<lparr>her_code = c, her_message = m, her_detail = Some d\<rparr>"

definition her_bad_request :: "string \<Rightarrow> HttpErrorResponse" where
  "her_bad_request m = her_new EC_BadRequest m"

definition her_not_found :: "string \<Rightarrow> HttpErrorResponse" where
  "her_not_found m = her_new EC_NotFound m"

definition her_internal :: "string \<Rightarrow> HttpErrorResponse" where
  "her_internal m = her_new EC_InternalServerError m"

text \<open>The derived \<open>Debug\<close> of the code prints the same name as \<open>Display\<close>.\<close>

definition her_display :: "HttpErrorResponse \<Rightarrow> string" where
  "her_display r = error_code_display (her_code r) @ '': '' @ her_message r @
     (case her_detail r of Some d \<Rightarrow> '' ('' @ d @ '')'' | None \<Rightarrow> [])"

lemmas her_defs = her_new_def her_new_with_detail_def her_bad_request_def her_not_found_def
  her_internal_def

subsection \<open>File system errors over HTTP\<close>

fun fs_error_code :: "FSError \<Rightarrow> ErrorCode \<times> string" where
  "fs_error_code (NotFound p) = (EC_NotFound, ''Not found: '' @ p)"
| "fs_error_code (AlreadyExists p) = (EC_Conflict, ''Already exists: '' @ p)"
| "fs_error_code (PermissionDenied p) = (EC_Forbidden, ''Permission denied: '' @ p)"
| "fs_error_code (IsDirectory p) = (EC_BadRequest, ''Is a directory: '' @ p)"
| "fs_error_code (NotADirectory p) = (EC_BadRequest, ''Not a directory: '' @ p)"
| "fs_error_code (InvalidInput m) = (EC_BadRequest, ''Invalid input: '' @ m)"
| "fs_error_code (NotSupported m) = (EC_NotImplemented, ''Not supported: '' @ m)"
| "fs_error_code (AlreadyInUse h) = (EC_Conflict, ''Already in use: '' @ h)"
| "fs_error_code (InvalidHandle h) = (EC_BadRequest, ''Invalid handle: '' @ h)"
| "fs_error_code OutOfMemory = (EC_ServiceUnavailable, ''Out of memory'')"
| "fs_error_code PathTooLong = (EC_BadRequest, ''Path too long'')"
| "fs_error_code FilenameTooLong = (EC_BadRequest, ''Filename too long'')"
| "fs_error_code ReadOnly = (EC_Forbidden, ''Read only'')"
| "fs_error_code StorageFull = (EC_InsufficientStorage, ''Storage full'')"
| "fs_error_code TooManyOpenFiles = (EC_ServiceUnavailable, ''Too many open files'')"
| "fs_error_code DirectoryNotEmpty = (EC_Conflict, ''Directory not empty'')"
| "fs_error_code CrossDeviceLink = (EC_BadRequest, ''Cross device link'')"
| "fs_error_code (InvalidUtf8 m) = (EC_BadRequest, ''Invalid UTF-8: '' @ m)"
| "fs_error_code Timeout = (EC_GatewayTimeout, ''Operation timed out'')"
| "fs_error_code (Io m) = (EC_InternalServerError, ''I/O error: '' @ m)"

definition map_fs_error_with_context ::
    "FSError \<Rightarrow> string option \<Rightarrow> path option \<Rightarrow> HttpErrorResponse" where
  "map_fs_error_with_context e operation p =
     (let (code, message) = fs_error_code e;
          detail = (case (operation, p) of
              (Some op, Some p) \<Rightarrow> Some (''operation: '' @ op @ '', path: '' @ p)
            | (Some op, None) \<Rightarrow> Some (''operation: '' @ op)
            | (None, Some p) \<Rightarrow> Some (''path: '' @ p)
            | (None, None) \<Rightarrow> None)
      in case detail of
           Some d \<Rightarrow> her_new_with_detail code message d
         | None \<Rightarrow> her_new code message)"

definition map_fs_error :: "FSError \<Rightarrow> HttpErrorResponse" where
  "map_fs_error e = map_fs_error_with_context e None None"

lemma her_code_map_fs_error [simp]:
  "her_code (map_fs_error_with_context e op p) = fst (fs_error_code e)"
  by (auto simp: map_fs_error_with_context_def her_defs Let_def case_prod_unfold split: option.splits)

subsection \<open>Validation\<close>

text \<open>\<open>{:o}\<close>.\<close>

fun octal :: "nat \<Rightarrow> string" where
  "octal n = (if n < 8 then [digit n] else octal (n div 8) @ [digit (n mod 8)])"

declare octal.simps [simp del]

definition MAX_PATH_LEN :: nat where "MAX_PATH_LEN = 8192"
definition MAX_WRITE_BODY_LEN :: nat where "MAX_WRITE_BODY_LEN = 16 * 1024 * 1024"

definition validate_path :: "string \<Rightarrow> unit http_result" where
  "validate_path p =
     (if p = [] then
        Err (her_new_with_detail EC_BadRequest ''path must be non-empty'' ''path: (empty)'')
      else if \<not> starts_with p ''/'' then
        Err (her_new_with_detail EC_BadRequest ''path must be absolute (start with /)'' (''path: '' @ p))
      else if str_contains p [CHR 0x00] then
        Err (her_new_with_detail EC_BadRequest ''path must not contain null bytes'' ''path: (contains NUL)'')
      else if str_contains p ''..'' then
        Err (her_new_with_detail EC_BadRequest ''path must not contain ..'' (''path: '' @ p))
      else if MAX_PATH_LEN < length p then
        Err (her_new_with_detail EC_BadRequest ''path too long''
          (''path length '' @ dec (length p) @ '' exceeds max '' @ dec MAX_PATH_LEN))
      else Ok ())"

definition validate_mode :: "mode \<Rightarrow> unit http_result" where
  "validate_mode m =
     (if 0xFFF < m then
        Err (her_new_with_detail EC_BadRequest ''mode must be a valid Unix permission (0o0000..0o7777)''
          (''mode: 0o'' @ octal (unat m)))
      else Ok ())"

definition validate_truncate_size :: "nat \<Rightarrow> unit http_result" where
  "validate_truncate_size n = Ok ()"

definition validate_write_data_len :: "nat \<Rightarrow> unit http_result" where
  "validate_write_data_len n =
     (if MAX_WRITE_BODY_LEN < n then
        Err (her_new_with_detail EC_BadRequest ''request body too large''
          (''size '' @ dec n @ '' exceeds max '' @ dec MAX_WRITE_BODY_LEN @ '' bytes''))
      else Ok ())"

lemma validate_path_ok:
  "validate_path p = Ok () \<longleftrightarrow>
     has_root p \<and> CHR 0x00 \<notin> set p \<and> \<not> str_contains p ''..'' \<and> length p \<le> MAX_PATH_LEN"
  by (cases p)
    (auto simp: validate_path_def has_root_def str_contains_iff starts_with_iff in_set_conv_decomp
      Cons_eq_append_conv)

lemma validate_path_err:
  "validate_path p = Err e \<Longrightarrow> her_code e = EC_BadRequest \<and> validate_path p \<noteq> Ok ()"
  by (auto simp: validate_path_def her_defs split: if_splits)

lemma validate_path_total: "validate_path p = Ok () \<or> (\<exists>e. validate_path p = Err e)"
  by (auto simp: validate_path_def)

text \<open>Every piece between separators occurs in the string.\<close>

lemma split_on_contains: "t \<in> set (split_on c s) \<Longrightarrow> str_contains s t"
proof -
  assume "t \<in> set (split_on c s)"
  then obtain as bs where "split_on c s = as @ t # bs" by (auto simp: in_set_conv_decomp)
  then have "s = join [c] (as @ t # bs)" by (metis join_split_on)
  then have "s = (if as = [] then [] else join [c] as @ [c]) @ t @ (if bs = [] then [] else c # join [c] bs)"
    by (cases bs) (auto simp: join_append)
  then show "str_contains s t" unfolding str_contains_iff by blast
qed

lemma str_contains_drop: "str_contains (drop n s) t \<Longrightarrow> str_contains s t"
  by (metis append_take_drop_id append.assoc str_contains_iff)

lemma ParentDir_contains: "ParentDir \<in> set (components p) \<Longrightarrow> str_contains p ''..''"
proof -
  assume "ParentDir \<in> set (components p)"
  then have "''..'' \<in> set (body_segs p)"
    by (auto simp: components_def seg_component_def lead_def split: if_splits)
  then show ?thesis
    by (auto simp: body_segs_def dest: split_on_contains str_contains_drop)
qed

lemma norm_names_no_parent:
  "ParentDir \<notin> set cs \<Longrightarrow>
     map Normal (foldl name_step ns cs) = map Normal ns @ filter (\<lambda>c. \<exists>n. c = Normal n) cs"
proof (induction cs arbitrary: ns)
  case (Cons c cs)
  then show ?case by (cases c) simp_all
qed simp

subsection \<open>Properties\<close>

text \<open>
  \<^bold>\<open>C36\<close>. A path is accepted exactly when it is absolute, has no NUL byte and no \<open>..\<close> anywhere, and
  has at most 8192 bytes; every rejection is a 400. An accepted path has no parent component,
  so normalising it (as the router does) keeps every name of it, in order, below the root.
\<close>

theorem validate_path_safe:
  "(validate_path p = Ok () \<longleftrightarrow>
      has_root p \<and> CHR 0x00 \<notin> set p \<and> (\<forall>a b. p \<noteq> a @ ''..'' @ b) \<and> length p \<le> 8192) \<and>
   (validate_path p \<noteq> Ok () \<longrightarrow> (\<exists>e. validate_path p = Err e \<and> status_code (her_code e) = 400)) \<and>
   (validate_path p = Ok () \<longrightarrow>
      ParentDir \<notin> set (components p) \<and> has_root (normalize_path p) \<and>
      components (normalize_path p) = RootDir # filter (\<lambda>c. \<exists>n. c = Normal n) (components p))"
proof (intro conjI impI)
  show "validate_path p = Ok () \<longleftrightarrow>
      has_root p \<and> CHR 0x00 \<notin> set p \<and> (\<forall>a b. p \<noteq> a @ ''..'' @ b) \<and> length p \<le> 8192"
    unfolding validate_path_ok MAX_PATH_LEN_def str_contains_iff by blast
  show "\<exists>e. validate_path p = Err e \<and> status_code (her_code e) = 400" if "validate_path p \<noteq> Ok ()"
    using that validate_path_total [of p] validate_path_err by auto
  assume "validate_path p = Ok ()"
  then have ok: "has_root p" "\<not> str_contains p ''..''" by (simp_all add: validate_path_ok)
  then show np: "ParentDir \<notin> set (components p)" using ParentDir_contains by blast
  show "has_root (normalize_path p)"
    using ok(1) by (simp add: normalize_path_render has_root_render norm_names_valid)
  have "map Normal (norm_names p) = filter (\<lambda>c. \<exists>n. c = Normal n) (components p)"
    using norm_names_no_parent [OF np, of "[]"] by (simp add: norm_names_def)
  with ok(1) show "components (normalize_path p) = RootDir # filter (\<lambda>c. \<exists>n. c = Normal n) (components p)"
    by (simp add: components_render lead_def normalize_path_render norm_names_valid)
qed

theorem validate_path_safe_witness:
  "components (normalize_path ''/a/./b//c'') = [RootDir, Normal ''a'', Normal ''b'', Normal ''c'']"
proof -
  have "validate_path ''/a/./b//c'' = Ok ()"
    by (simp add: validate_path_def starts_with_def MAX_PATH_LEN_def)
  moreover have "components ''/a/./b//c'' = [RootDir, Normal ''a'', Normal ''b'', Normal ''c'']"
    by code_simp
  ultimately show ?thesis using validate_path_safe [of "''/a/./b//c''"] by simp
qed

text \<open>
  Errors survive the trip to the client: every file system error becomes a response whose
  status is in the error range, the name printed for its code parses back to it, and the
  status determines the code; conflicts, missing paths and unsupported operations keep their own status.
\<close>

theorem http_error_roundtrip:
  "error_code_from_str (error_code_display c) = c \<and>
   400 \<le> status_code c \<and> status_code c < 600 \<and>
   (status_code c = status_code c' \<longleftrightarrow> c = c') \<and>
   (status_code (her_code (map_fs_error_with_context e op p)) = 404 \<longleftrightarrow> (\<exists>q. e = NotFound q)) \<and>
   (status_code (her_code (map_fs_error_with_context e op p)) = 501 \<longleftrightarrow> (\<exists>m. e = NotSupported m)) \<and>
   (status_code (her_code (map_fs_error_with_context e op p)) = 409 \<longleftrightarrow>
      (\<exists>q. e = AlreadyExists q) \<or> (\<exists>h. e = AlreadyInUse h) \<or> e = DirectoryNotEmpty) \<and>
   (status_code (her_code (map_fs_error_with_context e op p)) = 500 \<longleftrightarrow> (\<exists>m. e = Io m))"
proof -
  have "error_code_from_str (error_code_display c) = c"
    by (cases c) (simp_all add: error_code_from_str_def)
  moreover have "400 \<le> status_code c \<and> status_code c < 600 \<and> (status_code c = status_code c' \<longleftrightarrow> c = c')"
    by (cases c; cases c') simp_all
  moreover have "(status_code (fst (fs_error_code e)) = 404 \<longleftrightarrow> (\<exists>q. e = NotFound q)) \<and>
   (status_code (fst (fs_error_code e)) = 501 \<longleftrightarrow> (\<exists>m. e = NotSupported m)) \<and>
   (status_code (fst (fs_error_code e)) = 409 \<longleftrightarrow>
      (\<exists>q. e = AlreadyExists q) \<or> (\<exists>h. e = AlreadyInUse h) \<or> e = DirectoryNotEmpty) \<and>
   (status_code (fst (fs_error_code e)) = 500 \<longleftrightarrow> (\<exists>m. e = Io m))"
    by (cases e) simp_all
  ultimately show ?thesis by simp
qed

end
