(* ===== verification/Stat_Cache.thy ===== *)
theory Stat_Cache
  imports Core_Types
begin

text \<open>
  \<open>racfs-server/src/stat_cache.rs\<close>: the server's cache of \<open>stat\<close> results. Entries expire; the
  three counters are \<open>u64\<close>s shared with the server's metrics. \<open>get_or_fetch\<close> is its two
  critical sections (\<open>sc_lookup\<close>, \<open>sc_store\<close>) around the call of the fetch function.
\<close>

subsection \<open>State and operations\<close>

record StatCache =
  sc_entries :: "(path \<times> FileMetadata \<times> time) list"
  sc_ttl :: nat
  sc_hits :: nat
  sc_misses :: nat
  sc_evictions :: nat

text \<open>The last \<open>Instant\<close>: signed 64-bit seconds and nanoseconds. Adding beyond it panics.\<close>

abbreviation instant_max :: time where "instant_max \<equiv> 9223372036854775807999999999"

definition sc_new_with_ttl :: "nat \<Rightarrow> StatCache" where
  "sc_new_with_ttl ttl = \<lparr>sc_entries = [], sc_ttl = ttl, sc_hits = 0, sc_misses = 0, sc_evictions = 0\<rparr>"

definition sc_new :: StatCache where
  "sc_new = sc_new_with_ttl (2 * 10 ^ 9)"

definition sc_set_ttl :: "nat \<Rightarrow> StatCache \<Rightarrow> StatCache" where
  "sc_set_ttl ttl c = c\<lparr>sc_ttl := ttl\<rparr>"

definition sc_lookup :: "path \<Rightarrow> time \<Rightarrow> StatCache \<Rightarrow> FileMetadata option \<times> StatCache" where
  "sc_lookup p now c =
     (case pm_get (sc_entries c) p of
        Some (meta, expires) \<Rightarrow>
          if now < expires then (Some meta, c\<lparr>sc_hits := u64_add (sc_hits c) 1\<rparr>)
          else (None, c\<lparr>sc_entries := pm_remove (sc_entries c) p,
                       sc_evictions := u64_add (sc_evictions c) 1\<rparr>)
      | None \<Rightarrow> (None, c))"

definition sc_store :: "path \<Rightarrow> FileMetadata \<Rightarrow> time \<Rightarrow> StatCache \<Rightarrow> StatCache" where
  "sc_store p meta expires c = c\<lparr>sc_entries := pm_insert (sc_entries c) p (meta, expires)\<rparr>"

definition get_or_fetch ::
    "path \<Rightarrow> ('s \<Rightarrow> (FileMetadata, 'e) outcome \<times> 's) \<Rightarrow> time \<Rightarrow> StatCache \<times> 's \<Rightarrow>
     (FileMetadata, 'e) outcome \<times> StatCache \<times> 's" where
  "get_or_fetch p fetch now cs =
     (let (c, s) = cs; ttl = sc_ttl c; (hit, c1) = sc_lookup p now c in
      case hit of
        Some meta \<Rightarrow> (Ok meta, c1, s)
      | None \<Rightarrow>
          (let c2 = c1\<lparr>sc_misses := u64_add (sc_misses c1) 1\<rparr>; (r, s') = fetch s in
           case r of
             Ok meta \<Rightarrow>
               if instant_max < now + ttl then (Panic, c2, s')
               else (Ok meta, sc_store p meta (now + ttl) c2, s')
           | Err e \<Rightarrow> (Err e, c2, s')
           | Panic \<Rightarrow> (Panic, c2, s')
           | Hang \<Rightarrow> (Hang, c2, s')))"

definition invalidate :: "path \<Rightarrow> StatCache \<Rightarrow> StatCache" where
  "invalidate p c =
     (let es = pm_remove (sc_entries c) p
      in c\<lparr>sc_entries := (case parent p of Some q \<Rightarrow> pm_remove es q | None \<Rightarrow> es)\<rparr>)"

definition invalidate_rename :: "path \<Rightarrow> path \<Rightarrow> StatCache \<Rightarrow> StatCache" where
  "invalidate_rename old new c = invalidate new (invalidate old c)"

subsection \<open>Freshness\<close>

lemma sc_entry_invalidate:
  "pm_get (sc_entries (invalidate p c)) q =
     (if path_eq p q \<or> (\<exists>r. parent p = Some r \<and> path_eq r q) then None else pm_get (sc_entries c) q)"
  by (auto simp: invalidate_def Let_def path_map.hm_get_remove split: option.splits)

lemma sc_lookup_entries:
  "pm_get (sc_entries (snd (sc_lookup p now c))) q =
     (if fst (sc_lookup p now c) = None \<and> path_eq p q then None else pm_get (sc_entries c) q)"
proof (cases "pm_get (sc_entries c) p")
  case None
  then have "path_eq p q \<Longrightarrow> pm_get (sc_entries c) q = None" using path_map.hm_get_eq [of p q] by metis
  with None show ?thesis by (auto simp: sc_lookup_def)
qed (auto simp: sc_lookup_def path_map.hm_get_remove split: option.splits prod.splits)

lemma sc_lookup_frame [simp]: "sc_ttl (snd (sc_lookup p now c)) = sc_ttl c"
  by (auto simp: sc_lookup_def split: option.splits)

lemma sc_lookup_hit:
  "fst (sc_lookup p now c) = Some m \<longleftrightarrow> (\<exists>x. pm_get (sc_entries c) p = Some (m, x) \<and> now < x)"
  by (auto simp: sc_lookup_def split: option.splits if_splits)

text \<open>
  Runs of the cache with the log of what was fetched, each entry with its time, since the
  last invalidation of its path; the backend's answer to a fetch is arbitrary. Times-to-live are at most \<open>T\<close>.
\<close>

definition forget :: "path \<Rightarrow> (time \<times> path \<times> FileMetadata) list \<Rightarrow> (time \<times> path \<times> FileMetadata) list" where
  "forget p log = filter (\<lambda>(_, q, _). \<not> path_eq p q \<and> (\<forall>r. parent p = Some r \<longrightarrow> \<not> path_eq r q)) log"

inductive sc_run :: "nat \<Rightarrow> (time \<times> path \<times> FileMetadata) list \<Rightarrow> StatCache \<Rightarrow> bool" for T where
  start: "ttl \<le> T \<Longrightarrow> sc_run T [] (sc_new_with_ttl ttl)"
| hit: "sc_run T log c \<Longrightarrow> sc_lookup p now c = (Some m, c') \<Longrightarrow> sc_run T log c'"
| fetched: "sc_run T log c \<Longrightarrow> sc_lookup p now c = (None, c1) \<Longrightarrow>
    get_or_fetch p (\<lambda>u::unit. (answer :: FileMetadata fs_result, u)) now (c, ()) = (r, c', ()) \<Longrightarrow>
    sc_run T ((case r of Ok m \<Rightarrow> [(now, p, m)] | _ \<Rightarrow> []) @ log) c'"
| invalidated: "sc_run T log c \<Longrightarrow> sc_run T (forget p log) (invalidate p c)"
| retuned: "sc_run T log c \<Longrightarrow> ttl \<le> T \<Longrightarrow> sc_run T log (sc_set_ttl ttl c)"

definition sc_fresh :: "nat \<Rightarrow> (time \<times> path \<times> FileMetadata) list \<Rightarrow> StatCache \<Rightarrow> bool" where
  "sc_fresh T log c \<longleftrightarrow> sc_ttl c \<le> T \<and>
     (\<forall>p m x. pm_get (sc_entries c) p = Some (m, x) \<longrightarrow>
        (\<exists>t q. (t, q, m) \<in> set log \<and> path_eq q p \<and> x \<le> t + T))"

lemma sc_freshI:
  assumes "sc_ttl c \<le> T" "\<And>p m x. pm_get (sc_entries c) p = Some (m, x) \<Longrightarrow>
    \<exists>t q. (t, q, m) \<in> set log \<and> path_eq q p \<and> x \<le> t + T"
  shows "sc_fresh T log c"
  using assms unfolding sc_fresh_def by blast

lemma sc_freshD:
  assumes "sc_fresh T log c"
  shows "sc_ttl c \<le> T" "pm_get (sc_entries c) p = Some (m, x) \<Longrightarrow>
    \<exists>t q. (t, q, m) \<in> set log \<and> path_eq q p \<and> x \<le> t + T"
  using assms unfolding sc_fresh_def by blast+

lemma sc_fresh_shrink:
  assumes "sc_fresh T log c" "sc_ttl c' = sc_ttl c" "set log \<subseteq> set log'"
    and "\<And>p m x. pm_get (sc_entries c') p = Some (m, x) \<Longrightarrow> pm_get (sc_entries c) p = Some (m, x)"
  shows "sc_fresh T log' c'"
  using sc_freshD [OF assms(1)] assms(2-4) by (intro sc_freshI) (auto, blast)

lemma sc_fresh_lookup:
  assumes "sc_fresh T log c" "set log \<subseteq> set log'"
  shows "sc_fresh T log' (snd (sc_lookup p now c))"
  using assms by (elim sc_fresh_shrink) (auto simp: sc_lookup_entries split: if_splits)

lemma sc_fresh_miss: "sc_fresh T log (c\<lparr>sc_misses := n\<rparr>) = sc_fresh T log c"
  by (simp add: sc_fresh_def)

lemma sc_fresh_store:
  assumes "sc_fresh T log c"
  shows "sc_fresh T ((now, p, m) # log) (sc_store p m (now + sc_ttl c) c)"
proof (rule sc_freshI)
  show "sc_ttl (sc_store p m (now + sc_ttl c) c) \<le> T"
    using sc_freshD(1) [OF assms] by (simp add: sc_store_def)
  fix q m' x assume a: "pm_get (sc_entries (sc_store p m (now + sc_ttl c) c)) q = Some (m', x)"
  show "\<exists>t r. (t, r, m') \<in> set ((now, p, m) # log) \<and> path_eq r q \<and> x \<le> t + T"
  proof (cases "path_eq p q")
    case True
    with a sc_freshD(1) [OF assms] show ?thesis
      by (intro exI [of _ now] exI [of _ p]) (simp add: sc_store_def path_map.hm_get_insert)
  next
    case False
    with a have "pm_get (sc_entries c) q = Some (m', x)"
      by (simp add: sc_store_def path_map.hm_get_insert)
    from sc_freshD(2) [OF assms this] show ?thesis by (meson list.set_intros(2))
  qed
qed

lemma get_or_fetch_fresh:
  assumes "sc_fresh T log c" "get_or_fetch p fetch now (c, s) = (r, c', s')"
    and "fst (sc_lookup p now c) = None"
  shows "sc_fresh T ((case r of Ok m \<Rightarrow> [(now, p, m)] | _ \<Rightarrow> []) @ log) c'"
proof -
  let ?c = "(snd (sc_lookup p now c))\<lparr>sc_misses := u64_add (sc_misses (snd (sc_lookup p now c))) 1\<rparr>"
  have fr: "sc_fresh T log ?c"
    using sc_fresh_lookup [OF assms(1) order_refl] by (simp add: sc_fresh_miss)
  from sc_fresh_store [OF this, of now p] have st: "sc_fresh T ((now, p, m) # log) (sc_store p m (now + sc_ttl c) ?c)" for m
    by simp
  from assms(2,3) fr st show ?thesis
    by (auto simp: get_or_fetch_def Let_def split: prod.splits outcome.splits if_splits option.splits)
qed

lemma sc_fresh_invalidate:
  assumes "sc_fresh T log c"
  shows "sc_fresh T (forget p log) (invalidate p c)"
proof (rule sc_freshI)
  show "sc_ttl (invalidate p c) \<le> T"
    using sc_freshD(1) [OF assms] by (simp add: invalidate_def Let_def)
  fix q m x assume a: "pm_get (sc_entries (invalidate p c)) q = Some (m, x)"
  then have n: "\<not> path_eq p q" "\<forall>r. parent p = Some r \<longrightarrow> \<not> path_eq r q" "pm_get (sc_entries c) q = Some (m, x)"
    by (auto simp: sc_entry_invalidate split: if_splits)
  from sc_freshD(2) [OF assms n(3)] obtain t r where t: "(t, r, m) \<in> set log" "path_eq r q" "x \<le> t + T"
    by blast
  moreover have "(t, r, m) \<in> set (forget p log)"
    using t n(1,2) path_map.trans [of _ r q] by (auto simp: forget_def)
  ultimately show "\<exists>t r. (t, r, m) \<in> set (forget p log) \<and> path_eq r q \<and> x \<le> t + T" by blast
qed

lemma sc_run_fresh: "sc_run T log c \<Longrightarrow> sc_fresh T log c"
proof (induction rule: sc_run.induct)
  case (start ttl)
  then show ?case by (simp add: sc_new_with_ttl_def sc_fresh_def)
next
  case (hit log c p now m c')
  then show ?case using sc_fresh_lookup [OF hit.IH order_refl, of p now] by simp
next
  case (fetched log c p now c1 answer r c')
  then show ?case using get_or_fetch_fresh by force
next
  case (invalidated log c p)
  show ?case by (rule sc_fresh_invalidate [OF invalidated.IH])
next
  case (retuned log c ttl)
  then show ?case by (auto simp: sc_set_ttl_def sc_fresh_def)
qed

subsection \<open>Properties\<close>

text \<open>
  \<^bold>\<open>C32\<close>. Bounded staleness of the stat cache: in every run of it, a result served without asking
  the backend was fetched for the same path less than the longest time-to-live ago and after the
  last invalidation of that path; every other result comes from the backend now. Each call
  counts as exactly one hit or miss.
\<close>

theorem stat_cache_fresh:
  assumes "sc_run T log c" "get_or_fetch p fetch now (c, s) = (Ok m, c', s')"
    and "sc_hits c + sc_misses c < u64_max"
  shows "(if fst (sc_lookup p now c) = None then fetch s = (Ok m, s')
     else s' = s \<and> (\<exists>t q. (t, q, m) \<in> set log \<and> path_eq q p \<and> now < t + T)) \<and>
    sc_hits c' + sc_misses c' = Suc (sc_hits c + sc_misses c)"
proof (cases "fst (sc_lookup p now c)")
  case None
  then have "sc_hits (snd (sc_lookup p now c)) = sc_hits c" "sc_misses (snd (sc_lookup p now c)) = sc_misses c"
    by (auto simp: sc_lookup_def split: option.splits if_splits)
  with None assms(2,3) show ?thesis
    by (auto simp: get_or_fetch_def sc_store_def Let_def split: prod.splits outcome.splits if_splits)
next
  case (Some m')
  then obtain x where x: "pm_get (sc_entries c) p = Some (m', x)" "now < x" by (auto simp: sc_lookup_hit)
  from sc_freshD(2) [OF sc_run_fresh [OF assms(1)] x(1)]
  obtain t q where "(t, q, m') \<in> set log" "path_eq q p" "x \<le> t + T" by blast
  with Some x assms(2,3) show ?thesis
    by (auto simp: get_or_fetch_def sc_lookup_def Let_def split: prod.splits intro!: exI [of _ t] exI [of _ q])
qed

theorem stat_cache_fresh_witness:
  "\<exists>t q. (t, q, metadata_file 0 ''/a'' 1) \<in> set [(0, ''/a'', metadata_file 0 ''/a'' 1)] \<and>
     path_eq q ''/a/'' \<and> 5 < t + (10::nat)"
proof -
  let ?md = "metadata_file 0 ''/a'' 1"
  let ?fetch = "\<lambda>s::unit. (Ok ?md :: (FileMetadata, FSError) outcome, s)"
  let ?c = "fst (snd (get_or_fetch ''/a'' ?fetch 0 (sc_new_with_ttl 10, ())))"
  have e: "path_eq ''/a'' ''/a/''" by code_simp
  have g: "get_or_fetch ''/a'' ?fetch 0 (sc_new_with_ttl 10, ()) = (Ok ?md, ?c, ())"
    "sc_lookup ''/a'' 0 (sc_new_with_ttl 10) = (None, sc_new_with_ttl 10)"
    by (simp_all add: get_or_fetch_def sc_lookup_def sc_new_with_ttl_def Let_def)
  have r: "sc_run 10 [(0, ''/a'', ?md)] ?c"
    using sc_run.fetched [OF sc_run.start [of 10 10] g(2,1)] by simp
  have h: "get_or_fetch ''/a/'' ?fetch 5 (?c, ()) =
      (Ok ?md, fst (snd (get_or_fetch ''/a/'' ?fetch 5 (?c, ()))), ())"
    "fst (sc_lookup ''/a/'' 5 ?c) \<noteq> None" "sc_hits ?c + sc_misses ?c < u64_max"
    using e by (simp_all add: get_or_fetch_def sc_lookup_def sc_new_with_ttl_def sc_store_def Let_def)
  from stat_cache_fresh [OF r h(1,3)] show ?thesis unfolding if_not_P [OF h(2)] by (elim conjE)
qed

text \<open>
  The lookup and the store of \<open>get_or_fetch\<close> are separate critical sections, with the
  backend call between them: when another request changes the file and invalidates the cache in
  between, the old metadata is stored after the invalidation and served until it expires.
\<close>

theorem stat_cache_race:
  assumes "sc_ttl c = ttl" "now' < now + ttl" "path_eq p q"
  shows "fst (sc_lookup q now' (sc_store p old (now + ttl) (invalidate p c))) = Some old \<and>
    fst (sc_lookup q now' (invalidate p (sc_store p old (now + ttl) c))) = None"
  using assms by (auto simp: sc_lookup_def sc_store_def path_map.hm_get_insert sc_entry_invalidate)

theorem stat_cache_race_witness:
  "fst (sc_lookup ''/a'' 5 (sc_store ''/a'' (metadata_file 0 ''/a'' 1) (0 + 10)
     (invalidate ''/a'' (sc_new_with_ttl 10)))) = Some (metadata_file 0 ''/a'' 1)"
  using stat_cache_race [of "sc_new_with_ttl 10" 10 5 0 "''/a''" "''/a''" "metadata_file 0 ''/a'' 1"]
  by (simp add: sc_new_with_ttl_def)

end
