(* ===== verification/Server_Api.thy ===== *)
theory Server_Api
  imports Http_Error Stat_Cache Fs_Contract
begin

text \<open>
  The REST handlers of \<open>racfs-server/src/api\<close> (\<open>files.rs\<close>, \<open>directories.rs\<close>,
  \<open>metadata.rs\<close>, \<open>xattr.rs\<close>) on the application state of \<open>state.rs\<close>: the file system \<open>V\<close> behind
  them, the stat cache and the operation counters. The crate \<open>chrono\<close> formats times
  (\<open>fmt_time\<close>), the crate \<open>base64\<close> encodes attribute values (\<open>B\<close>). The extraction of
  a request's parameters and the rendering of a response as JSON are the framework's.
\<close>

subsection \<open>Application state\<close>

text \<open>
  The counters of \<open>VfsMetrics\<close> that the handlers advance; its cache counters are those of the
  stat cache.
\<close>

record VfsMetrics =
  vm_file_reads_total :: nat
  vm_file_writes_total :: nat
  vm_file_deletes_total :: nat
  vm_directory_lists_total :: nat
  vm_directory_creates_total :: nat
  vm_stat_operations_total :: nat
  vm_rename_operations_total :: nat
  vm_chmod_operations_total :: nat

record 's AppState =
  as_vfs :: 's
  as_vfs_metrics :: VfsMetrics
  as_stat_cache :: StatCache

definition vfs_metrics_new :: VfsMetrics where
  "vfs_metrics_new = \<lparr>vm_file_reads_total = 0, vm_file_writes_total = 0, vm_file_deletes_total = 0,
     vm_directory_lists_total = 0, vm_directory_creates_total = 0, vm_stat_operations_total = 0,
     vm_rename_operations_total = 0, vm_chmod_operations_total = 0\<rparr>"

definition app_state_new :: "'s \<Rightarrow> nat \<Rightarrow> 's AppState" where
  "app_state_new vfs ttl_secs = \<lparr>as_vfs = vfs, as_vfs_metrics = vfs_metrics_new,
     as_stat_cache = sc_new_with_ttl (ttl_secs * 10 ^ 9)\<rparr>"

type_synonym ('s, 'a) handler = "'s AppState \<Rightarrow> 'a http_result \<times> 's AppState"

text \<open>
  The shapes the handlers share: \<open>validation::...?\<close>, a call of the file system with its error
  mapped, \<open>stat_cache.invalidate\<close> and the increment of a counter.
\<close>

definition validated :: "unit http_result \<Rightarrow> ('s, 'a) handler \<Rightarrow> ('s, 'a) handler" where
  "validated v k st =
     (case v of Ok _ \<Rightarrow> k st | Err e \<Rightarrow> (Err e, st) | Panic \<Rightarrow> (Panic, st) | Hang \<Rightarrow> (Hang, st))"

definition vfs_then :: "('s \<Rightarrow> 'b fs_result \<times> 's) \<Rightarrow> string \<Rightarrow> path \<Rightarrow> ('b \<Rightarrow> ('s, 'a) handler) \<Rightarrow> ('s, 'a) handler" where
  "vfs_then call op p k st =
     (let (r, s) = call (as_vfs st); st' = st\<lparr>as_vfs := s\<rparr> in
      case r of
        Ok x \<Rightarrow> k x st'
      | Err e \<Rightarrow> (Err (map_fs_error_with_context e (Some op) (Some p)), st')
      | Panic \<Rightarrow> (Panic, st')
      | Hang \<Rightarrow> (Hang, st'))"

definition inc_metric :: "((nat \<Rightarrow> nat) \<Rightarrow> VfsMetrics \<Rightarrow> VfsMetrics) \<Rightarrow> 's AppState \<Rightarrow> 's AppState" where
  "inc_metric upd st = st\<lparr>as_vfs_metrics := upd (\<lambda>n. u64_add n 1) (as_vfs_metrics st)\<rparr>"

definition drop_stat :: "path \<Rightarrow> 's AppState \<Rightarrow> 's AppState" where
  "drop_stat p st = st\<lparr>as_stat_cache := invalidate p (as_stat_cache st)\<rparr>"

subsection \<open>Files\<close>

definition read_file :: "'s FileSystem \<Rightarrow> string \<Rightarrow> time \<Rightarrow> ('s, string) handler" where
  "read_file V p now =
     validated (validate_path p) (vfs_then (fs_read V p 0 (- 1) now) ''read'' p (\<lambda>data st.
       (Ok (from_utf8_lossy data), inc_metric vm_file_reads_total_update st)))"

definition create_file :: "'s FileSystem \<Rightarrow> string \<Rightarrow> time \<Rightarrow> ('s, string) handler" where
  "create_file V p now =
     validated (validate_path p) (vfs_then (fs_create V p now) ''create'' p (\<lambda>_ st.
       (Ok (''Created file: '' @ p), inc_metric vm_file_writes_total_update (drop_stat p st))))"

record WriteRequest =
  wr_path :: string
  wr_data :: string
  wr_offset :: "int option"

definition write_file :: "'s FileSystem \<Rightarrow> WriteRequest \<Rightarrow> time \<Rightarrow> ('s, string) handler" where
  "write_file V body now =
     validated (validate_path (wr_path body)) (validated (validate_write_data_len (length (wr_data body)))
       (let p = wr_path body; offset = (case wr_offset body of Some x \<Rightarrow> x | None \<Rightarrow> 0) in
        vfs_then (fs_write V p (wr_data body) offset WF_NONE now) ''write'' p (\<lambda>written st.
          (Ok (''Wrote '' @ dec written @ '' bytes''),
           inc_metric vm_file_writes_total_update (drop_stat p st)))))"

definition delete_file :: "'s FileSystem \<Rightarrow> string \<Rightarrow> time \<Rightarrow> ('s, string) handler" where
  "delete_file V p now =
     validated (validate_path p) (vfs_then (fs_remove V p now) ''remove'' p (\<lambda>_ st.
       (Ok (''Deleted: '' @ p), inc_metric vm_file_deletes_total_update (drop_stat p st))))"

subsection \<open>Directories\<close>

record DirectoryEntry =
  de_permissions :: string
  de_size :: nat
  de_modified :: "string option"
  de_path :: string
  de_file_type :: string

definition directory_entry_from :: "(time \<Rightarrow> string) \<Rightarrow> FileMetadata \<Rightarrow> DirectoryEntry" where
  "directory_entry_from fmt_time m =
     \<lparr>de_permissions = octal (unat (permissions m)), de_size = md_size m,
      de_modified = map_option fmt_time (md_modified m), de_path = from_utf8_lossy (md_path m),
      de_file_type = file_type m\<rparr>"

definition list_directory ::
    "(time \<Rightarrow> string) \<Rightarrow> 's FileSystem \<Rightarrow> string \<Rightarrow> time \<Rightarrow> ('s, DirectoryEntry list) handler" where
  "list_directory fmt_time V p now =
     validated (validate_path p) (vfs_then (fs_read_dir V p now) ''read_dir'' p (\<lambda>entries st.
       (Ok (map (directory_entry_from fmt_time) entries), inc_metric vm_directory_lists_total_update st)))"

record CreateDirectoryRequest =
  cdr_path :: string
  cdr_perm :: "mode option"

definition create_directory :: "'s FileSystem \<Rightarrow> CreateDirectoryRequest \<Rightarrow> time \<Rightarrow> ('s, string) handler" where
  "create_directory V body now =
     (let p = cdr_path body; perm = (case cdr_perm body of Some m \<Rightarrow> m | None \<Rightarrow> 493) in
      validated (validate_path p) (vfs_then (fs_mkdir V p perm now) ''mkdir'' p (\<lambda>_ st.
        (Ok (''Created directory: '' @ p), inc_metric vm_directory_creates_total_update (drop_stat p st)))))"

subsection \<open>Metadata\<close>

record MetadataResponse =
  mr_file_type :: string
  mr_permissions :: string
  mr_size :: nat
  mr_modified :: "string option"
  mr_path :: string
  mr_symlink_target :: "string option"

definition metadata_response :: "(time \<Rightarrow> string) \<Rightarrow> FileMetadata \<Rightarrow> MetadataResponse" where
  "metadata_response fmt_time m =
     \<lparr>mr_file_type = file_type m, mr_permissions = octal (unat (permissions m)), mr_size = md_size m,
      mr_modified = map_option fmt_time (md_modified m), mr_path = from_utf8_lossy (md_path m),
      mr_symlink_target = map_option from_utf8_lossy (md_symlink_target m)\<rparr>"

definition stat_request :: "(time \<Rightarrow> string) \<Rightarrow> 's FileSystem \<Rightarrow> string \<Rightarrow> time \<Rightarrow> ('s, MetadataResponse) handler" where
  "stat_request fmt_time V p now =
     validated (validate_path p) (\<lambda>st.
       (let (r, c, s) = get_or_fetch p (fs_stat V p now) now (as_stat_cache st, as_vfs st);
            st' = st\<lparr>as_stat_cache := c, as_vfs := s\<rparr>
        in case r of
             Ok m \<Rightarrow> (Ok (metadata_response fmt_time m), inc_metric vm_stat_operations_total_update st')
           | Err e \<Rightarrow> (Err (map_fs_error_with_context e (Some ''stat'') (Some p)), st')
           | Panic \<Rightarrow> (Panic, st')
           | Hang \<Rightarrow> (Hang, st')))"

record RenameRequest =
  rr_old_path :: string
  rr_new_path :: string

definition rename_request :: "'s FileSystem \<Rightarrow> RenameRequest \<Rightarrow> time \<Rightarrow> ('s, string) handler" where
  "rename_request V body now =
     (let old = rr_old_path body; new = rr_new_path body in
      validated (validate_path old) (validated (validate_path new)
        (vfs_then (fs_rename V old new now) ''rename'' old (\<lambda>_ st.
          (Ok (''Renamed '' @ old @ '' to '' @ new),
           inc_metric vm_rename_operations_total_update
             (st\<lparr>as_stat_cache := invalidate_rename old new (as_stat_cache st)\<rparr>))))))"

record ChmodRequest =
  cr_path :: string
  cr_mode :: mode

definition chmod_request :: "'s FileSystem \<Rightarrow> ChmodRequest \<Rightarrow> time \<Rightarrow> ('s, string) handler" where
  "chmod_request V body now =
     (let p = cr_path body in
      validated (validate_path p) (validated (validate_mode (cr_mode body))
        (vfs_then (fs_chmod V p (cr_mode body) now) ''chmod'' p (\<lambda>_ st.
          (Ok (''Changed permissions of '' @ p @ '' to '' @ octal (unat (cr_mode body))),
           inc_metric vm_chmod_operations_total_update (drop_stat p st))))))"

record TruncateRequest =
  tr_path :: string
  tr_size :: nat

definition truncate_request :: "'s FileSystem \<Rightarrow> TruncateRequest \<Rightarrow> time \<Rightarrow> ('s, string) handler" where
  "truncate_request V body now =
     (let p = tr_path body in
      validated (validate_path p) (validated (validate_truncate_size (tr_size body))
        (vfs_then (fs_truncate V p (tr_size body) now) ''truncate'' p (\<lambda>_ st.
          (Ok (''Truncated '' @ p @ '' to '' @ dec (tr_size body) @ '' bytes''),
           inc_metric vm_stat_operations_total_update (drop_stat p st))))))"

record SymlinkRequest =
  sr_target :: string
  sr_link_path :: string

definition symlink_request :: "'s FileSystem \<Rightarrow> SymlinkRequest \<Rightarrow> time \<Rightarrow> ('s, string) handler" where
  "symlink_request V body now =
     (let target = sr_target body; link = sr_link_path body in
      validated (validate_path target) (validated (validate_path link)
        (vfs_then (fs_symlink V target link now) ''symlink'' link (\<lambda>_ st.
          (Ok (''Symlink '' @ link @ '' -> '' @ target),
           inc_metric vm_stat_operations_total_update (drop_stat link st))))))"

subsection \<open>Extended attributes\<close>

record base64_api =
  b64_encode :: "bytes \<Rightarrow> string"
  b64_decode :: "string \<Rightarrow> bytes option"

definition get_xattr_request ::
    "base64_api \<Rightarrow> 's FileSystem \<Rightarrow> string \<Rightarrow> string \<Rightarrow> time \<Rightarrow> ('s, string) handler" where
  "get_xattr_request B V p name now =
     validated (validate_path p) (vfs_then (fs_get_xattr V p name now) ''get_xattr'' p (\<lambda>v st.
       (Ok (b64_encode B v), st)))"

record SetXattrRequest =
  sx_path :: string
  sx_name :: string
  sx_value :: string

definition set_xattr_request ::
    "base64_api \<Rightarrow> 's FileSystem \<Rightarrow> SetXattrRequest \<Rightarrow> time \<Rightarrow> ('s, string) handler" where
  "set_xattr_request B V body now =
     (let p = sx_path body; name = sx_name body in
      validated (validate_path p) (\<lambda>st.
        case b64_decode B (sx_value body) of
          None \<Rightarrow> (Err (her_bad_request ''Invalid base64 value''), st)
        | Some v \<Rightarrow>
            vfs_then (fs_set_xattr V p name v now) ''set_xattr'' p (\<lambda>_ st.
              (Ok (''Set xattr '' @ name @ '' on '' @ p), drop_stat p st)) st))"

definition remove_xattr_request ::
    "'s FileSystem \<Rightarrow> string \<Rightarrow> string \<Rightarrow> time \<Rightarrow> ('s, string) handler" where
  "remove_xattr_request V p name now =
     validated (validate_path p) (vfs_then (fs_remove_xattr V p name now) ''remove_xattr'' p (\<lambda>_ st.
       (Ok (''Removed xattr '' @ name @ '' from '' @ p), drop_stat p st)))"

definition list_xattr_request :: "'s FileSystem \<Rightarrow> string \<Rightarrow> time \<Rightarrow> ('s, string list) handler" where
  "list_xattr_request V p now =
     validated (validate_path p) (vfs_then (fs_list_xattr V p now) ''list_xattr'' p (\<lambda>names st.
       (Ok names, st)))"

lemmas handler_defs = read_file_def create_file_def write_file_def delete_file_def
  list_directory_def create_directory_def rename_request_def chmod_request_def
  truncate_request_def symlink_request_def get_xattr_request_def set_xattr_request_def
  remove_xattr_request_def list_xattr_request_def

subsection \<open>Request routing for metrics\<close>

definition operation_from_request :: "string \<Rightarrow> string \<Rightarrow> string" where
  "operation_from_request m p =
     (if m = ''GET'' \<and> p = ''/api/v1/files'' then ''read_file''
      else if m = ''POST'' \<and> p = ''/api/v1/files'' then ''create_file''
      else if m = ''PUT'' \<and> p = ''/api/v1/files'' then ''write_file''
      else if m = ''DELETE'' \<and> p = ''/api/v1/files'' then ''delete_file''
      else if m = ''GET'' \<and> p = ''/api/v1/directories'' then ''list_directory''
      else if m = ''POST'' \<and> p = ''/api/v1/directories'' then ''create_directory''
      else if m = ''GET'' \<and> p = ''/api/v1/stat'' then ''stat''
      else if m = ''POST'' \<and> p = ''/api/v1/rename'' then ''rename''
      else if m = ''POST'' \<and> p = ''/api/v1/chmod'' then ''chmod''
      else if m = ''POST'' \<and> p = ''/api/v1/truncate'' then ''truncate''
      else if m = ''GET'' \<and> p = ''/api/v1/health'' then ''health''
      else if m = ''GET'' \<and> p = ''/metrics'' then ''metrics''
      else ''other'')"

subsection \<open>One request\<close>

text \<open>Any request to the handlers, and the state it leaves.\<close>

inductive api_step :: "'s FileSystem \<Rightarrow> 's AppState \<Rightarrow> 's AppState \<Rightarrow> bool" for V where
  get_file: "api_step V st (snd (read_file V p now st))"
| post_file: "api_step V st (snd (create_file V p now st))"
| put_file: "api_step V st (snd (write_file V wr now st))"
| delete_file: "api_step V st (snd (delete_file V p now st))"
| get_dir: "api_step V st (snd (list_directory fmt V p now st))"
| post_dir: "api_step V st (snd (create_directory V cd now st))"
| get_stat: "api_step V st (snd (stat_request fmt V p now st))"
| post_rename: "api_step V st (snd (rename_request V rr now st))"
| post_chmod: "api_step V st (snd (chmod_request V cr now st))"
| post_truncate: "api_step V st (snd (truncate_request V tr now st))"
| post_symlink: "api_step V st (snd (symlink_request V sr now st))"
| get_xattr: "api_step V st (snd (get_xattr_request B V p a now st))"
| post_xattr: "api_step V st (snd (set_xattr_request B V sx now st))"
| delete_xattr: "api_step V st (snd (remove_xattr_request V p a now st))"
| get_xattrs: "api_step V st (snd (list_xattr_request V p now st))"

lemma validated_simps [simp]:
  "validated (Ok u) k st = k st" "validated (Err e) k st = (Err e, st)"
  "validated Panic k st = (Panic, st)" "validated Hang k st = (Hang, st)"
  by (simp_all add: validated_def)

lemma api_frame [simp]:
  "as_vfs (inc_metric u st) = as_vfs st" "as_stat_cache (inc_metric u st) = as_stat_cache st"
  "as_vfs (drop_stat p st) = as_vfs st"
  "as_stat_cache (drop_stat p st) = invalidate p (as_stat_cache st)"
  by (simp_all add: inc_metric_def drop_stat_def)

text \<open>What a handler does to the file system: nothing, or one call.\<close>

lemma vfs_then_vfs:
  assumes "\<And>x st. as_vfs (snd (k x st)) = as_vfs st"
  shows "as_vfs (snd (vfs_then call op p k st)) = snd (call (as_vfs st))"
  using assms by (auto simp: vfs_then_def Let_def split: prod.splits outcome.splits)

lemma validated_cases:
  assumes "\<And>u. P (snd (k st))" "P st"
  shows "P (snd (validated v k st))"
  using assms by (cases v) auto

lemma stat_request_vfs:
  "as_vfs (snd (stat_request fmt V p now st)) = as_vfs st \<or>
   as_vfs (snd (stat_request fmt V p now st)) = snd (fs_stat V p now (as_vfs st))"
  by (cases "validate_path p")
    (auto simp: stat_request_def get_or_fetch_def Let_def split: prod.splits outcome.splits option.splits if_splits)

lemma api_step_vfs: "api_step V st st' \<Longrightarrow> as_vfs st' = as_vfs st \<or> fs_step V (as_vfs st) (as_vfs st')"
proof (induction rule: api_step.induct)
  case (get_stat st fmt p now)
  then show ?case using stat_request_vfs [of fmt V p now st] fs_step.stat by metis
qed (auto simp: handler_defs Let_def vfs_then_vfs validated_def
      intro: fs_step.intros split: outcome.splits option.splits)

lemma api_reaches:
  "(api_step V)\<^sup>*\<^sup>* st st' \<Longrightarrow> fs_reachable V (as_vfs st) (as_vfs st')"
proof (induction rule: rtranclp_induct)
  case base
  show ?case by (rule fs_reachable.start)
next
  case (step x y)
  then show ?case using api_step_vfs [OF step.hyps(2)] fs_reachable.step by metis
qed

text \<open>A rejected path changes nothing and is a 400.\<close>

lemma rejected_unchanged:
  assumes "validate_path p \<noteq> Ok ()"
  obtains e where "status_code (her_code e) = 400"
    "read_file V p now st = (Err e, st)" "create_file V p now st = (Err e, st)"
    "delete_file V p now st = (Err e, st)" "stat_request fmt V p now st = (Err e, st)"
proof -
  obtain e where "validate_path p = Err e" using assms validate_path_total [of p] by auto
  with validate_path_err [OF this] show ?thesis
    by (intro that [of e]) (simp_all add: handler_defs stat_request_def)
qed

text \<open>A successful stat of an uncached path is the file system's answer.\<close>

lemma stat_request_miss:
  assumes "validate_path p = Ok ()" "fst (sc_lookup p now (as_stat_cache st)) = None"
    and "now + sc_ttl (as_stat_cache st) \<le> instant_max" "fs_stat V p now (as_vfs st) = (Ok m, s)"
  shows "fst (stat_request fmt V p now st) = Ok (metadata_response fmt m)"
  using assms
  by (auto simp: stat_request_def get_or_fetch_def Let_def split: prod.splits)

lemma sc_lookup_invalidated: "fst (sc_lookup p now (invalidate p c)) = None"
  by (simp add: sc_lookup_def sc_entry_invalidate)

lemma sc_ttl_invalidate [simp]: "sc_ttl (invalidate p c) = sc_ttl c"
  by (simp add: invalidate_def Let_def)

end
