(* ===== verification/Http_Wire.thy ===== *)
theory Http_Wire
  imports Http_Error
begin

text \<open>
  What travels between \<open>racfs-client\<close> and \<open>racfs-server\<close>: requests, responses and JSON values, with
  the reading and writing of a struct that \<open>serde\<close> derives from its fields. A body
  is carried as its JSON value; the text the crate \<open>serde_json\<close> prints for a value is a parameter where
  the sources look at it. Numbers of these types are integers.
\<close>

subsection \<open>JSON values\<close>

datatype json =
    JNull | JBool bool | JNum int | JStr string | JArr "json list" | JObj "(string \<times> json) list"

fun as_str :: "json \<Rightarrow> string option" where
  "as_str (JStr s) = Some s"
| "as_str _ = None"

fun as_int :: "int \<Rightarrow> int \<Rightarrow> json \<Rightarrow> int option" where
  "as_int l u (JNum n) = (if l \<le> n \<and> n \<le> u then Some n else None)"
| "as_int l u _ = None"

definition as_u64 :: "json \<Rightarrow> nat option" where
  "as_u64 j = map_option nat (as_int 0 (int u64_max) j)"

definition as_u32 :: "json \<Rightarrow> 32 word option" where
  "as_u32 j = map_option of_int (as_int 0 4294967295 j)"

definition as_i64 :: "json \<Rightarrow> int option" where
  "as_i64 j = as_int i64_min i64_max j"

fun those_map :: "('a \<Rightarrow> 'b option) \<Rightarrow> 'a list \<Rightarrow> 'b list option" where
  "those_map f [] = Some []"
| "those_map f (x # xs) =
     (case f x of None \<Rightarrow> None | Some y \<Rightarrow> map_option (\<lambda>ys. y # ys) (those_map f xs))"

definition as_list :: "(json \<Rightarrow> 'a option) \<Rightarrow> json \<Rightarrow> 'a list option" where
  "as_list f j = (case j of JArr xs \<Rightarrow> those_map f xs | _ \<Rightarrow> None)"

text \<open>
  The fields of a struct: by name from an object, where a field that occurs twice is an error
  and unknown ones are ignored, or by position from an array.
\<close>

definition struct_fields :: "string list \<Rightarrow> json \<Rightarrow> (json option) list option" where
  "struct_fields names j =
     (case j of
        JObj fs \<Rightarrow>
          if \<exists>n \<in> set names. length (filter (\<lambda>(k, _). k = n) fs) > 1 then None
          else Some (map (map_of fs) names)
      | JArr xs \<Rightarrow> if length xs = length names then Some (map Some xs) else None
      | _ \<Rightarrow> None)"

fun required :: "(json \<Rightarrow> 'a option) \<Rightarrow> json option \<Rightarrow> 'a option" where
  "required f None = None"
| "required f (Some j) = f j"

text \<open>An \<open>Option\<close> field may be missing or null.\<close>

fun optional :: "(json \<Rightarrow> 'a option) \<Rightarrow> json option \<Rightarrow> 'a option option" where
  "optional f None = Some None"
| "optional f (Some j) = (if j = JNull then Some None else map_option Some (f j))"

definition opt_json :: "('a \<Rightarrow> json) \<Rightarrow> 'a option \<Rightarrow> json" where
  "opt_json f x = (case x of Some a \<Rightarrow> f a | None \<Rightarrow> JNull)"

definition nat_json :: "nat \<Rightarrow> json" where
  "nat_json n = JNum (int n)"

definition word_json :: "32 word \<Rightarrow> json" where
  "word_json m = JNum (uint m)"

lemma as_u64_nat_json [simp]: "n \<le> u64_max \<Longrightarrow> as_u64 (nat_json n) = Some n"
  by (simp add: as_u64_def nat_json_def)

lemma as_u32_word_json [simp]: "as_u32 (word_json m) = Some m"
  using uint_bounded [of m] by (auto simp: as_u32_def word_json_def)

lemma as_i64_JNum [simp]: "is_i64 x \<Longrightarrow> as_i64 (JNum x) = Some x"
  by (simp add: as_i64_def is_i64_def)

lemma optional_opt_json:
  assumes "\<And>a. x = Some a \<Longrightarrow> f (g a) = Some a" "\<And>a. x = Some a \<Longrightarrow> g a \<noteq> JNull"
  shows "optional f (Some (opt_json g x)) = Some x"
  using assms by (cases x) (simp_all add: opt_json_def)

lemma optional_str [simp]: "optional as_str (Some (opt_json JStr x)) = Some x"
  by (rule optional_opt_json) simp_all

lemma optional_word [simp]: "optional as_u32 (Some (opt_json word_json x)) = Some x"
  by (rule optional_opt_json) (simp, simp add: word_json_def)

lemma optional_i64 [simp]: "pred_option is_i64 x \<Longrightarrow> optional as_i64 (Some (opt_json JNum x)) = Some x"
  by (rule optional_opt_json) auto

declare optional.simps(2) [simp del]

lemma those_map_map: "(\<And>x. x \<in> set xs \<Longrightarrow> f (g x) = Some (h x)) \<Longrightarrow> those_map f (map g xs) = Some (map h xs)"
  by (induction xs) auto

lemma struct_fields_obj [simp]:
  "distinct (map fst fs) \<Longrightarrow> struct_fields names (JObj fs) = Some (map (map_of fs) names)"
proof -
  assume d: "distinct (map fst fs)"
  have "length (filter (\<lambda>(k, _). k = n) fs) \<le> 1" for n
    using d
  proof (induction fs)
    case (Cons x fs)
    have "filter (\<lambda>(k, _). k = n) fs = []" if "fst x = n"
      using Cons.prems that by (auto simp: filter_empty_conv rev_image_eqI)
    with Cons show ?case by (cases x) auto
  qed simp
  then show ?thesis by (simp add: struct_fields_def not_less)
qed

subsection \<open>Requests and responses\<close>

record http_request =
  hq_method :: string
  hq_url :: string
  hq_query :: "(string \<times> string) list"
  hq_json :: "json option"
  hq_authorization :: "string option"

text \<open>An error of the crate \<open>reqwest\<close>: its class and its text.\<close>

record ReqwestError =
  re_connect :: bool
  re_timeout :: bool
  re_message :: string

text \<open>A body is JSON, other text, or breaks off while it is read.\<close>

datatype body = B_Json json | B_Text string | B_Broken ReqwestError

record http_response =
  hp_status :: nat
  hp_body :: body

definition is_success :: "http_response \<Rightarrow> bool" where
  "is_success r \<longleftrightarrow> 200 \<le> hp_status r \<and> hp_status r < 300"

subsection \<open>Error responses\<close>

text \<open>A unit variant is its name, or an object with that name and null.\<close>

definition error_code_json :: "json \<Rightarrow> ErrorCode option" where
  "error_code_json j =
     (let code = (\<lambda>s. if error_code_display (error_code_from_str s) = s then Some (error_code_from_str s) else None)
      in case j of
           JStr s \<Rightarrow> code s
         | JObj [(s, JNull)] \<Rightarrow> code s
         | _ \<Rightarrow> None)"

definition her_to_json :: "HttpErrorResponse \<Rightarrow> json" where
  "her_to_json r = JObj ([(''code'', JStr (error_code_display (her_code r))), (''message'', JStr (her_message r))] @
     (case her_detail r of Some d \<Rightarrow> [(''detail'', JStr d)] | None \<Rightarrow> []))"

definition her_of_json :: "json \<Rightarrow> HttpErrorResponse option" where
  "her_of_json j =
     (case struct_fields [''code'', ''message'', ''detail''] j of
        Some [c, m, d] \<Rightarrow>
          (case (required error_code_json c, required as_str m, optional as_str d) of
             (Some c, Some m, Some d) \<Rightarrow> Some \<lparr>her_code = c, her_message = m, her_detail = d\<rparr>
           | _ \<Rightarrow> None)
      | _ \<Rightarrow> None)"

definition her_into_response :: "HttpErrorResponse \<Rightarrow> http_response" where
  "her_into_response r = \<lparr>hp_status = status_code (her_code r), hp_body = B_Json (her_to_json r)\<rparr>"

lemma optional_JStr [simp]: "optional as_str (Some (JStr s)) = Some (Some s)"
  by (simp add: optional.simps(2))

lemma her_of_to_json [simp]: "her_of_json (her_to_json r) = Some r"
proof -
  have "error_code_json (JStr (error_code_display c)) = Some c" for c
    by (cases c) (simp_all add: error_code_json_def error_code_from_str_def)
  then show ?thesis
    by (cases "her_detail r") (simp_all add: her_to_json_def her_of_json_def)
qed

end
