(* ===== verification/Auth.thy ===== *)
theory Auth
  imports Http_Wire
begin

text \<open>
  Authentication of \<open>racfs-server\<close>: \<open>auth/models.rs\<close>, \<open>auth/error.rs\<close>, \<open>auth/jwt.rs\<close>,
  \<open>auth/api_key.rs\<close>, \<open>auth/middleware.rs\<close> and the endpoints of \<open>api/auth_api.rs\<close>. Hashing (the crate \<open>bcrypt\<close>)
  and token signing (the crate \<open>jsonwebtoken\<close>) are the parameter \<open>K\<close>; identifiers of the crate \<open>uuid\<close> are arguments.
\<close>

subsection \<open>Models\<close>

datatype Role = Role_Admin | Role_User | Role_Readonly

fun role_name :: "Role \<Rightarrow> string" where
  "role_name Role_Admin = ''admin''"
| "role_name Role_User = ''user''"
| "role_name Role_Readonly = ''readonly''"

record Claims =
  cm_sub :: string
  cm_username :: string
  cm_role :: Role
  cm_exp :: nat
  cm_iat :: nat

record User =
  us_id :: string
  us_username :: string
  us_password_hash :: string
  us_role :: Role

record LoginRequest =
  lq_username :: string
  lq_password :: string

record ServerLoginResponse =
  sl_access_token :: string
  sl_token_type :: string
  sl_expires_in :: nat
  sl_refresh_token :: "string option"

record ApiKey =
  ak_id :: string
  ak_key_hash :: string
  ak_user_id :: string
  ak_name :: string
  ak_active :: bool

definition login_request_of_json :: "json \<Rightarrow> LoginRequest option" where
  "login_request_of_json j =
     (case struct_fields [''username'', ''password''] j of
        Some [u, p] \<Rightarrow>
          (case (required as_str u, required as_str p) of
             (Some u, Some p) \<Rightarrow> Some \<lparr>lq_username = u, lq_password = p\<rparr> | _ \<Rightarrow> None)
      | _ \<Rightarrow> None)"

definition login_response_json :: "ServerLoginResponse \<Rightarrow> json" where
  "login_response_json r = JObj [(''access_token'', JStr (sl_access_token r)),
     (''token_type'', JStr (sl_token_type r)), (''expires_in'', nat_json (sl_expires_in r)),
     (''refresh_token'', opt_json JStr (sl_refresh_token r))]"

subsection \<open>Errors\<close>

datatype AuthError =
    AE_InvalidCredentials | AE_InvalidToken | AE_TokenValidation string | AE_PasswordMismatch
  | AE_UserNotFound | AE_UserAlreadyExists | AE_InvalidApiKey | AE_Unauthorized | AE_Forbidden
  | AE_Internal string

fun auth_error_display :: "AuthError \<Rightarrow> string" where
  "auth_error_display AE_InvalidCredentials = ''Invalid username or password''"
| "auth_error_display AE_InvalidToken = ''Invalid or expired token''"
| "auth_error_display (AE_TokenValidation s) = ''Token validation failed: '' @ s"
| "auth_error_display AE_PasswordMismatch = ''Password verification failed''"
| "auth_error_display AE_UserNotFound = ''User not found''"
| "auth_error_display AE_UserAlreadyExists = ''User already exists''"
| "auth_error_display AE_InvalidApiKey = ''Invalid API key''"
| "auth_error_display AE_Unauthorized = ''Unauthorized''"
| "auth_error_display AE_Forbidden = ''Forbidden: insufficient permissions''"
| "auth_error_display (AE_Internal s) = ''Internal server error: '' @ s"

fun auth_error_status :: "AuthError \<Rightarrow> nat \<times> string" where
  "auth_error_status AE_InvalidCredentials = (401, ''Invalid credentials'')"
| "auth_error_status AE_InvalidToken = (401, ''Invalid or expired token'')"
| "auth_error_status (AE_TokenValidation _) = (401, ''Token validation failed'')"
| "auth_error_status AE_PasswordMismatch = (401, ''Invalid credentials'')"
| "auth_error_status AE_UserNotFound = (404, ''User not found'')"
| "auth_error_status AE_UserAlreadyExists = (409, ''User already exists'')"
| "auth_error_status AE_InvalidApiKey = (401, ''Invalid API key'')"
| "auth_error_status AE_Unauthorized = (401, ''Unauthorized'')"
| "auth_error_status AE_Forbidden = (403, ''Forbidden: insufficient permissions'')"
| "auth_error_status (AE_Internal _) = (500, ''Internal server error'')"

definition auth_error_response :: "AuthError \<Rightarrow> http_response" where
  "auth_error_response e =
     (let (status, message) = auth_error_status e
      in \<lparr>hp_status = status, hp_body = B_Json (JObj [(''error'', JStr message)])\<rparr>)"

type_synonym 'a auth_result = "('a, AuthError) outcome"

subsection \<open>Tokens\<close>

datatype Algorithm = HS256 | HS384 | HS512

record auth_crypto =
  bc_hash :: "string \<Rightarrow> string option"
  bc_verify :: "string \<Rightarrow> string \<Rightarrow> bool option"
  jw_encode :: "Algorithm \<Rightarrow> Claims \<Rightarrow> string \<Rightarrow> string + string"

record JwtConfig =
  jc_secret :: string
  jc_expiration :: nat
  jc_issuer :: string
  jc_algorithm :: string

text \<open>The secret is a fresh identifier.\<close>

definition jwt_config_default :: "string \<Rightarrow> JwtConfig" where
  "jwt_config_default uuid = \<lparr>jc_secret = uuid, jc_expiration = 3600, jc_issuer = ''racfs'', jc_algorithm = ''HS256''\<rparr>"

definition jwt_algorithm :: "string \<Rightarrow> Algorithm" where
  "jwt_algorithm a =
     (let u = to_uppercase a
      in if u = ''HS256'' then HS256 else if u = ''HS384'' then HS384 else if u = ''HS512'' then HS512 else HS256)"

record JwtAuth =
  ja_config :: JwtConfig
  ja_users :: "User list"
  ja_algorithm :: Algorithm
  ja_encoding_key :: string

definition hash_or_default :: "auth_crypto \<Rightarrow> string \<Rightarrow> string" where
  "hash_or_default K p = (case bc_hash K p of Some h \<Rightarrow> h | None \<Rightarrow> [])"

definition jwt_new :: "auth_crypto \<Rightarrow> string \<Rightarrow> string \<Rightarrow> JwtConfig \<Rightarrow> JwtAuth" where
  "jwt_new K uuid1 uuid2 config =
     \<lparr>ja_config = config,
      ja_users = [\<lparr>us_id = uuid1, us_username = ''admin'', us_password_hash = hash_or_default K ''admin'',
                    us_role = Role_Admin\<rparr>,
                  \<lparr>us_id = uuid2, us_username = ''user'', us_password_hash = hash_or_default K ''password'',
                    us_role = Role_User\<rparr>],
      ja_algorithm = jwt_algorithm (jc_algorithm config), ja_encoding_key = jc_secret config\<rparr>"

text \<open>The clock in seconds, possibly before the epoch.\<close>

definition generate_token :: "auth_crypto \<Rightarrow> User \<Rightarrow> int \<Rightarrow> JwtAuth \<Rightarrow> ServerLoginResponse auth_result" where
  "generate_token K u now j =
     (if now < 0 then Err (AE_Internal ''second time provided was later than self'')
      else
        (let claims = \<lparr>cm_sub = us_id u, cm_username = us_username u, cm_role = us_role u,
             cm_exp = u64_add (nat now) (jc_expiration (ja_config j)), cm_iat = nat now\<rparr>
         in case jw_encode K (ja_algorithm j) claims (ja_encoding_key j) of
              Inl e \<Rightarrow> Err (AE_TokenValidation e)
            | Inr t \<Rightarrow> Ok \<lparr>sl_access_token = t, sl_token_type = ''Bearer'',
                sl_expires_in = jc_expiration (ja_config j), sl_refresh_token = None\<rparr>))"

definition authenticate :: "auth_crypto \<Rightarrow> LoginRequest \<Rightarrow> int \<Rightarrow> JwtAuth \<Rightarrow> ServerLoginResponse auth_result" where
  "authenticate K rq now j =
     and_then (ok_or (find (\<lambda>u. us_username u = lq_username rq) (ja_users j)) AE_InvalidCredentials) (\<lambda>u.
     and_then (ok_or (bc_verify K (lq_password rq) (us_password_hash u)) AE_InvalidCredentials) (\<lambda>valid.
     if \<not> valid then Err AE_InvalidCredentials else generate_token K u now j))"

subsection \<open>API keys\<close>

record ApiKeyAuth =
  aa_keys :: "ApiKey list"
  aa_users :: "User list"

definition api_key_new :: "auth_crypto \<Rightarrow> string \<Rightarrow> ApiKeyAuth" where
  "api_key_new K uuid =
     \<lparr>aa_keys = [\<lparr>ak_id = uuid, ak_key_hash = hash_or_default K ''racfs-api-key-12345'',
        ak_user_id = ''default-user'', ak_name = ''Default API Key'', ak_active = True\<rparr>],
      aa_users = [\<lparr>us_id = ''default-user'', us_username = ''api_user'', us_password_hash = [],
        us_role = Role_User\<rparr>]\<rparr>"

fun validate_keys :: "auth_crypto \<Rightarrow> string \<Rightarrow> User list \<Rightarrow> ApiKey list \<Rightarrow> User auth_result" where
  "validate_keys K key users [] = Err AE_InvalidApiKey"
| "validate_keys K key users (k # ks) =
     (if \<not> ak_active k then validate_keys K key users ks
      else if bc_verify K key (ak_key_hash k) = Some True
      then ok_or (find (\<lambda>u. us_id u = ak_user_id k) users) AE_UserNotFound
      else validate_keys K key users ks)"

definition validate_key :: "auth_crypto \<Rightarrow> string \<Rightarrow> ApiKeyAuth \<Rightarrow> User auth_result" where
  "validate_key K key a = validate_keys K key (aa_users a) (aa_keys a)"

subsection \<open>Endpoints\<close>

record AuthUser =
  au_user_id :: string
  au_username :: string
  au_role :: Role

definition auth_user_json :: "AuthUser \<Rightarrow> json" where
  "auth_user_json u = JObj [(''user_id'', JStr (au_user_id u)), (''username'', JStr (au_username u)),
     (''role'', JStr (role_name (au_role u)))]"

text \<open>\<open>FromRequestParts\<close>: what an earlier layer has put into the request's extensions.\<close>

definition auth_user_extract :: "AuthUser option \<Rightarrow> AuthUser auth_result" where
  "auth_user_extract ext = ok_or ext AE_Unauthorized"

record AuthApiState =
  ap_jwt :: JwtAuth
  ap_api_key :: ApiKeyAuth

definition auth_api_state_new :: "auth_crypto \<Rightarrow> string \<Rightarrow> string \<Rightarrow> string \<Rightarrow> JwtConfig \<Rightarrow> AuthApiState" where
  "auth_api_state_new K uuid1 uuid2 uuid3 config =
     \<lparr>ap_jwt = jwt_new K uuid1 uuid2 config, ap_api_key = api_key_new K uuid3\<rparr>"

definition login :: "auth_crypto \<Rightarrow> bool \<Rightarrow> LoginRequest \<Rightarrow> int \<Rightarrow> AuthApiState \<Rightarrow> ServerLoginResponse auth_result" where
  "login K use_api_key payload now st =
     (if use_api_key then
        and_then (validate_key K (lq_password payload) (ap_api_key st)) (\<lambda>u. generate_token K u now (ap_jwt st))
      else authenticate K payload now (ap_jwt st))"

definition auth_respond :: "('a \<Rightarrow> json) \<Rightarrow> 'a auth_result \<Rightarrow> (http_response, unit) outcome" where
  "auth_respond enc r =
     (case r of
        Ok a \<Rightarrow> Ok \<lparr>hp_status = 200, hp_body = B_Json (enc a)\<rparr>
      | Err e \<Rightarrow> Ok (auth_error_response e)
      | Panic \<Rightarrow> Panic
      | Hang \<Rightarrow> Hang)"

definition logout_endpoint :: "AuthUser option \<Rightarrow> (http_response, unit) outcome" where
  "logout_endpoint ext =
     auth_respond (\<lambda>_. JObj [(''message'', JStr ''Logged out successfully'')]) (auth_user_extract ext)"

definition me_endpoint :: "AuthUser option \<Rightarrow> (http_response, unit) outcome" where
  "me_endpoint ext = auth_respond auth_user_json (auth_user_extract ext)"

definition refresh_endpoint :: "(http_response, unit) outcome" where
  "refresh_endpoint = Ok \<lparr>hp_status = 501, hp_body = B_Json (JObj [(''error'', JStr ''Not implemented'')])\<rparr>"

subsection \<open>Properties\<close>

lemma generate_token_ok:
  "generate_token K u now j = Ok r \<Longrightarrow>
     0 \<le> now \<and> sl_token_type r = ''Bearer'' \<and> sl_expires_in r = jc_expiration (ja_config j) \<and>
     jw_encode K (ja_algorithm j) \<lparr>cm_sub = us_id u, cm_username = us_username u, cm_role = us_role u,
       cm_exp = u64_add (nat now) (jc_expiration (ja_config j)), cm_iat = nat now\<rparr> (ja_encoding_key j) =
       Inr (sl_access_token r)"
  by (auto simp: generate_token_def Let_def split: if_splits sum.splits)

lemma validate_keys_ok:
  "validate_keys K key users ks = Ok u \<Longrightarrow>
     \<exists>k \<in> set ks. ak_active k \<and> bc_verify K key (ak_key_hash k) = Some True \<and>
       u \<in> set users \<and> us_id u = ak_user_id k"
  by (induction ks) (auto simp: outcome_simps find_Some_iff split: if_splits)

text \<open>A login first finds a verified user, or fails.\<close>

definition verified_user :: "auth_crypto \<Rightarrow> bool \<Rightarrow> LoginRequest \<Rightarrow> AuthApiState \<Rightarrow> User \<Rightarrow> bool" where
  "verified_user K use_api_key rq st u \<longleftrightarrow>
     (if use_api_key
      then u \<in> set (aa_users (ap_api_key st)) \<and> (\<exists>k \<in> set (aa_keys (ap_api_key st)). ak_active k \<and>
             bc_verify K (lq_password rq) (ak_key_hash k) = Some True \<and> us_id u = ak_user_id k)
      else u \<in> set (ja_users (ap_jwt st)) \<and> us_username u = lq_username rq \<and>
             bc_verify K (lq_password rq) (us_password_hash u) = Some True)"

lemma login_cases:
  obtains (verified) u where "verified_user K use_api_key rq st u"
      "login K use_api_key rq now st = generate_token K u now (ap_jwt st)"
  | (refused) e where "login K use_api_key rq now st = Err e" "fst (auth_error_status e) \<in> {401, 404}"
proof (cases use_api_key)
  case True
  have "(\<exists>u. validate_keys K key users ks = Ok u) \<or>
      validate_keys K key users ks \<in> {Err AE_InvalidApiKey, Err AE_UserNotFound}" for key users ks
    by (induction ks) (auto simp: ok_or_def split: option.splits)
  then consider u where "validate_key K (lq_password rq) (ap_api_key st) = Ok u"
    | "validate_key K (lq_password rq) (ap_api_key st) = Err AE_InvalidApiKey"
    | "validate_key K (lq_password rq) (ap_api_key st) = Err AE_UserNotFound"
    unfolding validate_key_def by blast
  then show thesis
  proof cases
    case (1 u)
    then show thesis using validate_keys_ok [of K "lq_password rq" "aa_users (ap_api_key st)" "aa_keys (ap_api_key st)" u] True
      by (intro verified [of u]) (auto simp: verified_user_def validate_key_def login_def)
  qed (use True refused in \<open>auto simp: login_def\<close>)
next
  case False
  show thesis
  proof (cases "find (\<lambda>u. us_username u = lq_username rq) (ja_users (ap_jwt st))")
    case None
    then show thesis using False refused by (simp add: login_def authenticate_def)
  next
    case (Some u)
    then have "u \<in> set (ja_users (ap_jwt st))" "us_username u = lq_username rq" by (auto simp: find_Some_iff)
    with Some False show thesis using verified [of u] refused [of AE_InvalidCredentials]
      by (cases "bc_verify K (lq_password rq) (us_password_hash u)"; cases "the (bc_verify K (lq_password rq) (us_password_hash u))")
        (auto simp: login_def authenticate_def verified_user_def)
  qed
qed

text \<open>
  \<^bold>\<open>C7\<close>. A token is only issued for verified credentials: after a successful login with a password the
  user of that name exists and the password verifies against the stored hash, and after one with an API key an active key
  verifies and the token is for the user it belongs to; in both cases the token is signed over that user's
  identifier, name and role, issued now and expiring after the configured time. Every failed login is answered with 401, 404 or 500.
\<close>

theorem login_sound:
  "(login K use_api_key rq now st = Ok r \<longrightarrow>
     (\<exists>u. verified_user K use_api_key rq st u \<and>
        sl_expires_in r = jc_expiration (ja_config (ap_jwt st)) \<and>
        jw_encode K (ja_algorithm (ap_jwt st))
          \<lparr>cm_sub = us_id u, cm_username = us_username u, cm_role = us_role u,
           cm_exp = u64_add (nat now) (jc_expiration (ja_config (ap_jwt st))), cm_iat = nat now\<rparr>
          (ja_encoding_key (ap_jwt st)) = Inr (sl_access_token r))) \<and>
   (\<forall>e. login K use_api_key rq now st = Err e \<longrightarrow> fst (auth_error_status e) \<in> {401, 404, 500}) \<and>
   login K use_api_key rq now st \<noteq> Panic \<and> login K use_api_key rq now st \<noteq> Hang"
proof -
  have gen: "(\<exists>r. generate_token K u now j = Ok r) \<or>
      (\<exists>e. generate_token K u now j = Err e \<and> fst (auth_error_status e) \<in> {401, 404, 500})" for u j
    by (auto simp: generate_token_def Let_def split: sum.splits)
  show ?thesis
  proof (cases rule: login_cases [where K = K and use_api_key = use_api_key and rq = rq and now = now and st = st])
    case (verified u)
    show ?thesis
    proof (cases "generate_token K u now (ap_jwt st)")
      case (Ok r')
      then show ?thesis using verified generate_token_ok [OF Ok] by (auto intro!: exI [of _ u])
    qed (use verified gen [of u "ap_jwt st"] in auto)
  qed auto
qed

theorem login_sound_witness:
  "let K = \<lparr>bc_hash = (\<lambda>p. Some (''#'' @ p)), bc_verify = (\<lambda>p h. Some (h = ''#'' @ p)),
       jw_encode = (\<lambda>a c s. Inr (cm_username c @ ''.'' @ s))\<rparr>;
     st = auth_api_state_new K ''1'' ''2'' ''3'' (jwt_config_default ''secret'');
     r = \<lparr>sl_access_token = ''admin.secret'', sl_token_type = ''Bearer'', sl_expires_in = 3600, sl_refresh_token = None\<rparr>
   in login K False \<lparr>lq_username = ''admin'', lq_password = ''admin''\<rparr> 5 st = Ok r \<and>
      (\<exists>u \<in> set (ja_users (ap_jwt st)). us_username u = ''admin'' \<and>
         bc_verify K ''admin'' (us_password_hash u) = Some True)"
proof -
  let ?K = "\<lparr>bc_hash = (\<lambda>p. Some (''#'' @ p)), bc_verify = (\<lambda>p h. Some (h = ''#'' @ p)),
       jw_encode = (\<lambda>a c s. Inr (cm_username c @ ''.'' @ s))\<rparr>"
  let ?st = "auth_api_state_new ?K ''1'' ''2'' ''3'' (jwt_config_default ''secret'')"
  let ?rq = "\<lparr>lq_username = ''admin'', lq_password = ''admin''\<rparr>"
  let ?r = "\<lparr>sl_access_token = ''admin.secret'', sl_token_type = ''Bearer'', sl_expires_in = 3600, sl_refresh_token = None\<rparr>"
  have ok: "login ?K False ?rq 5 ?st = Ok ?r"
    by (simp add: login_def authenticate_def auth_api_state_new_def jwt_new_def jwt_config_default_def
        hash_or_default_def generate_token_def)
  with login_sound [of ?K False ?rq 5 ?st ?r] show ?thesis by (auto simp: verified_user_def)
qed

end
