(* ===== verification/Rest_Client.thy ===== *)
theory Rest_Client
  imports Http_Wire
begin

text \<open>
  The crate \<open>racfs-client\<close>: retries with back-off, the circuit breaker, and one call per
  endpoint of the REST API. The network, the clock and the texts of the crate \<open>reqwest\<close> are the parameter
  \<open>N\<close> over a state \<open>'w\<close> of the world outside the client. A read of the clock plus thirty
  seconds stays in the range of \<open>Instant\<close>.
\<close>

subsection \<open>Errors and state\<close>

datatype ClientError =
    CE_Http ReqwestError
  | CE_Api string string "string option"
  | CE_CircuitOpen
  | CE_NotAuthenticated
  | CE_Internal string

fun client_error_display :: "ClientError \<Rightarrow> string" where
  "client_error_display (CE_Http e) = ''HTTP error: '' @ re_message e"
| "client_error_display (CE_Api code m d) = ''API error ('' @ code @ ''): '' @ m @
     (case d of Some d \<Rightarrow> '' ('' @ d @ '')'' | None \<Rightarrow> [])"
| "client_error_display CE_CircuitOpen =
     ''Circuit breaker open: backend unavailable until cooldown elapses''"
| "client_error_display CE_NotAuthenticated = ''Not authenticated''"
| "client_error_display (CE_Internal m) = ''Internal client error: '' @ m"

definition DEFAULT_MAX_RETRIES :: nat where "DEFAULT_MAX_RETRIES = 3"
definition DEFAULT_INITIAL_BACKOFF_MS :: nat where "DEFAULT_INITIAL_BACKOFF_MS = 100"
definition DEFAULT_CIRCUIT_FAILURE_THRESHOLD :: nat where "DEFAULT_CIRCUIT_FAILURE_THRESHOLD = 5"
definition DEFAULT_CIRCUIT_OPEN_DURATION_SECS :: nat where "DEFAULT_CIRCUIT_OPEN_DURATION_SECS = 30"

lemmas client_consts = DEFAULT_MAX_RETRIES_def DEFAULT_INITIAL_BACKOFF_MS_def
  DEFAULT_CIRCUIT_FAILURE_THRESHOLD_def DEFAULT_CIRCUIT_OPEN_DURATION_SECS_def

record CircuitState =
  ci_failure_count :: nat
  ci_open_until :: "time option"

record Client =
  cl_base_url :: string
  cl_token :: "string option"
  cl_circuit :: CircuitState

definition client_new :: "string \<Rightarrow> Client" where
  "client_new url = \<lparr>cl_base_url = url, cl_token = None,
     cl_circuit = \<lparr>ci_failure_count = 0, ci_open_until = None\<rparr>\<rparr>"

record ClientBuilder =
  cb_pool_max_idle_per_host :: "nat option"
  cb_pool_idle_timeout :: "time option"

definition client_builder_new :: ClientBuilder where
  "client_builder_new = \<lparr>cb_pool_max_idle_per_host = None, cb_pool_idle_timeout = None\<rparr>"

text \<open>\<open>rb\<close> is the error of building the HTTP client with these options, if any.\<close>

definition client_build ::
    "(nat option \<Rightarrow> time option \<Rightarrow> ReqwestError option) \<Rightarrow> ClientBuilder \<Rightarrow> string \<Rightarrow> (Client, ClientError) outcome" where
  "client_build rb b url =
     (case rb (cb_pool_max_idle_per_host b) (cb_pool_idle_timeout b) of
        Some e \<Rightarrow> Err (CE_Http e)
      | None \<Rightarrow> Ok (client_new url))"

definition set_token :: "string \<Rightarrow> Client \<Rightarrow> Client" where
  "set_token t c = c\<lparr>cl_token := Some t\<rparr>"

definition is_authenticated :: "Client \<Rightarrow> bool" where
  "is_authenticated c \<longleftrightarrow> cl_token c \<noteq> None"

definition logout :: "Client \<Rightarrow> Client" where
  "logout c = c\<lparr>cl_token := None\<rparr>"

subsection \<open>Sending\<close>

record 'w net_api =
  net_now :: "'w \<Rightarrow> time"
  net_sleep :: "nat \<Rightarrow> 'w \<Rightarrow> 'w"
  net_send :: "http_request \<Rightarrow> 'w \<Rightarrow> (http_response, ReqwestError) outcome \<times> 'w"
  net_json_text :: "json \<Rightarrow> string"
  net_decode_error :: ReqwestError
  net_status_text :: "nat \<Rightarrow> string"

type_synonym ('w, 'a) client_op = "Client \<Rightarrow> 'w \<Rightarrow> ('a, ClientError) outcome \<times> Client \<times> 'w"

definition record_circuit_failure :: "time \<Rightarrow> Client \<Rightarrow> Client" where
  "record_circuit_failure now c =
     (let n = (ci_failure_count (cl_circuit c) + 1) mod 2 ^ 32
      in c\<lparr>cl_circuit := \<lparr>ci_failure_count = n,
           ci_open_until = if n \<ge> DEFAULT_CIRCUIT_FAILURE_THRESHOLD
             then Some (now + DEFAULT_CIRCUIT_OPEN_DURATION_SECS * 10 ^ 9)
             else ci_open_until (cl_circuit c)\<rparr>\<rparr>)"

text \<open>The loop over the attempts, with the last transient error; sleeping is in milliseconds.\<close>

function send_attempts ::
    "'w net_api \<Rightarrow> http_request \<Rightarrow> nat \<Rightarrow> ReqwestError option \<Rightarrow> ('w, http_response) client_op" where
  "send_attempts N rq attempt last_err c w =
     (if attempt \<le> DEFAULT_MAX_RETRIES then
        (case net_send N rq w of
           (Ok r, w') \<Rightarrow> (Ok r, c\<lparr>cl_circuit := (cl_circuit c)\<lparr>ci_failure_count := 0\<rparr>\<rparr>, w')
         | (Err e, w') \<Rightarrow>
             if (re_connect e \<or> re_timeout e) \<and> attempt < DEFAULT_MAX_RETRIES
             then send_attempts N rq (attempt + 1) (Some e) c
                    (net_sleep N (DEFAULT_INITIAL_BACKOFF_MS * min u64_max (2 ^ attempt)) w')
             else (Err (CE_Http e), record_circuit_failure (net_now N w') c, w')
         | (Panic, w') \<Rightarrow> (Panic, c, w')
         | (Hang, w') \<Rightarrow> (Hang, c, w'))
      else
        (case last_err of
           Some e \<Rightarrow> (Err (CE_Http e), record_circuit_failure (net_now N w) c, w)
         | None \<Rightarrow> (Err (CE_Internal ''retry loop exited without capturing error''), c, w)))"
  by pat_completeness auto
termination
  by (relation "measure (\<lambda>(_, _, attempt, _, _, _). Suc DEFAULT_MAX_RETRIES - attempt)") auto

declare send_attempts.simps [simp del]

definition send_with_retry :: "'w net_api \<Rightarrow> http_request \<Rightarrow> ('w, http_response) client_op" where
  "send_with_retry N rq c w =
     (case ci_open_until (cl_circuit c) of
        Some t \<Rightarrow>
          if net_now N w < t then (Err CE_CircuitOpen, c, w)
          else send_attempts N rq 0 None
                 (c\<lparr>cl_circuit := \<lparr>ci_failure_count = 0, ci_open_until = None\<rparr>\<rparr>) w
      | None \<Rightarrow> send_attempts N rq 0 None c w)"

subsection \<open>Responses\<close>

definition body_json :: "'w net_api \<Rightarrow> (json \<Rightarrow> 'a option) \<Rightarrow> http_response \<Rightarrow> ReqwestError + 'a" where
  "body_json N decode r =
     (case hp_body r of
        B_Json j \<Rightarrow> (case decode j of Some a \<Rightarrow> Inr a | None \<Rightarrow> Inl (net_decode_error N))
      | B_Text _ \<Rightarrow> Inl (net_decode_error N)
      | B_Broken e \<Rightarrow> Inl e)"

definition api_error :: "'w net_api \<Rightarrow> http_response \<Rightarrow> ClientError" where
  "api_error N r =
     (let er = (case body_json N her_of_json r of
          Inr er \<Rightarrow> er
        | Inl _ \<Rightarrow> her_new EC_InternalServerError (''HTTP '' @ net_status_text N (hp_status r) @ '' error''))
      in CE_Api (error_code_display (her_code er)) (her_message er) (her_detail er))"

definition handle_response ::
    "'w net_api \<Rightarrow> (json \<Rightarrow> 'a option) \<Rightarrow> http_response \<Rightarrow> ('a, ClientError) outcome" where
  "handle_response N decode r =
     (if is_success r then (case body_json N decode r of Inr a \<Rightarrow> Ok a | Inl e \<Rightarrow> Err (CE_Http e))
      else Err (api_error N r))"

definition handle_text_response :: "'w net_api \<Rightarrow> http_response \<Rightarrow> (string, ClientError) outcome" where
  "handle_text_response N r =
     (if is_success r then
        (case hp_body r of
           B_Json j \<Rightarrow> Ok (net_json_text N j)
         | B_Text t \<Rightarrow> Ok t
         | B_Broken e \<Rightarrow> Err (CE_Http e))
      else Err (api_error N r))"

subsection \<open>Types of \<open>types.rs\<close>\<close>

record HealthResponse =
  hr_status :: string
  hr_version :: string

definition health_of_json :: "json \<Rightarrow> HealthResponse option" where
  "health_of_json j =
     (case struct_fields [''status'', ''version''] j of
        Some [s, v] \<Rightarrow>
          (case (required as_str s, required as_str v) of
             (Some s, Some v) \<Rightarrow> Some \<lparr>hr_status = s, hr_version = v\<rparr> | _ \<Rightarrow> None)
      | _ \<Rightarrow> None)"

record CapabilitiesResponse =
  ca_features :: "string list"
  ca_max_file_size :: nat

definition capabilities_of_json :: "json \<Rightarrow> CapabilitiesResponse option" where
  "capabilities_of_json j =
     (case struct_fields [''features'', ''max_file_size''] j of
        Some [f, m] \<Rightarrow>
          (case (required (as_list as_str) f, required as_u64 m) of
             (Some f, Some m) \<Rightarrow> Some \<lparr>ca_features = f, ca_max_file_size = m\<rparr> | _ \<Rightarrow> None)
      | _ \<Rightarrow> None)"

record FileMetadataResponse =
  fmr_file_type :: string
  fmr_permissions :: string
  fmr_size :: nat
  fmr_modified :: "string option"
  fmr_path :: string
  fmr_symlink_target :: "string option"

definition metadata_of_json :: "json \<Rightarrow> FileMetadataResponse option" where
  "metadata_of_json j =
     (case struct_fields [''file_type'', ''permissions'', ''size'', ''modified'', ''path'', ''symlink_target''] j of
        Some [ft, pe, sz, mo, pa, sy] \<Rightarrow>
          (case (required as_str ft, required as_str pe, required as_u64 sz, optional as_str mo,
                 required as_str pa, optional as_str sy) of
             (Some ft, Some pe, Some sz, Some mo, Some pa, Some sy) \<Rightarrow>
               Some \<lparr>fmr_file_type = ft, fmr_permissions = pe, fmr_size = sz, fmr_modified = mo,
                     fmr_path = pa, fmr_symlink_target = sy\<rparr>
           | _ \<Rightarrow> None)
      | _ \<Rightarrow> None)"

record ClientDirectoryEntry =
  cde_permissions :: string
  cde_size :: nat
  cde_modified :: "string option"
  cde_path :: string
  cde_file_type :: "string option"

definition entry_of_json :: "json \<Rightarrow> ClientDirectoryEntry option" where
  "entry_of_json j =
     (case struct_fields [''permissions'', ''size'', ''modified'', ''path'', ''file_type''] j of
        Some [pe, sz, mo, pa, ft] \<Rightarrow>
          (case (required as_str pe, required as_u64 sz, optional as_str mo, required as_str pa,
                 optional as_str ft) of
             (Some pe, Some sz, Some mo, Some pa, Some ft) \<Rightarrow>
               Some \<lparr>cde_permissions = pe, cde_size = sz, cde_modified = mo, cde_path = pa, cde_file_type = ft\<rparr>
           | _ \<Rightarrow> None)
      | _ \<Rightarrow> None)"

text \<open>The structs with one field: \<open>DirectoryListResponse\<close>, \<open>MessageResponse\<close>, \<open>XattrListResponse\<close>, \<open>XattrValueResponse\<close>.\<close>

definition single_field :: "string \<Rightarrow> (json \<Rightarrow> 'a option) \<Rightarrow> json \<Rightarrow> 'a option" where
  "single_field n decode j = (case struct_fields [n] j of Some [x] \<Rightarrow> required decode x | _ \<Rightarrow> None)"

definition list_of_json :: "json \<Rightarrow> ClientDirectoryEntry list option" where
  "list_of_json = single_field ''entries'' (as_list entry_of_json)"

definition message_of_json :: "json \<Rightarrow> string option" where
  "message_of_json = single_field ''message'' as_str"

definition xattr_list_of_json :: "json \<Rightarrow> string list option" where
  "xattr_list_of_json = single_field ''names'' (as_list as_str)"

definition xattr_value_of_json :: "json \<Rightarrow> string option" where
  "xattr_value_of_json = single_field ''value'' as_str"

record LoginResponse =
  lr_access_token :: string
  lr_token_type :: string
  lr_expires_in :: nat
  lr_refresh_token :: "string option"

definition login_of_json :: "json \<Rightarrow> LoginResponse option" where
  "login_of_json j =
     (case struct_fields [''access_token'', ''token_type'', ''expires_in'', ''refresh_token''] j of
        Some [a, t, e, r] \<Rightarrow>
          (case (required as_str a, required as_str t, required as_u64 e, optional as_str r) of
             (Some a, Some t, Some e, Some r) \<Rightarrow>
               Some \<lparr>lr_access_token = a, lr_token_type = t, lr_expires_in = e, lr_refresh_token = r\<rparr>
           | _ \<Rightarrow> None)
      | _ \<Rightarrow> None)"

record UserResponse =
  ur_id :: string
  ur_username :: string
  ur_role :: string

definition user_of_json :: "json \<Rightarrow> UserResponse option" where
  "user_of_json j =
     (case struct_fields [''id'', ''username'', ''role''] j of
        Some [i, u, r] \<Rightarrow>
          (case (required as_str i, required as_str u, required as_str r) of
             (Some i, Some u, Some r) \<Rightarrow> Some \<lparr>ur_id = i, ur_username = u, ur_role = r\<rparr> | _ \<Rightarrow> None)
      | _ \<Rightarrow> None)"

definition write_body :: "string \<Rightarrow> string \<Rightarrow> int option \<Rightarrow> json" where
  "write_body p d off = JObj [(''path'', JStr p), (''data'', JStr d), (''offset'', opt_json JNum off)]"

definition mkdir_body :: "string \<Rightarrow> mode option \<Rightarrow> json" where
  "mkdir_body p perm = JObj [(''path'', JStr p), (''perm'', opt_json word_json perm)]"

definition rename_body :: "string \<Rightarrow> string \<Rightarrow> json" where
  "rename_body old new = JObj [(''old_path'', JStr old), (''new_path'', JStr new)]"

definition chmod_body :: "string \<Rightarrow> mode \<Rightarrow> json" where
  "chmod_body p m = JObj [(''path'', JStr p), (''mode'', word_json m)]"

definition truncate_body :: "string \<Rightarrow> nat \<Rightarrow> json" where
  "truncate_body p n = JObj [(''path'', JStr p), (''size'', nat_json n)]"

definition symlink_body :: "string \<Rightarrow> string \<Rightarrow> json" where
  "symlink_body target link = JObj [(''target'', JStr target), (''link_path'', JStr link)]"

definition set_xattr_body :: "string \<Rightarrow> string \<Rightarrow> string \<Rightarrow> json" where
  "set_xattr_body p name v = JObj [(''path'', JStr p), (''name'', JStr name), (''value'', JStr v)]"

definition login_body :: "string \<Rightarrow> string \<Rightarrow> json" where
  "login_body user password = JObj [(''username'', JStr user), (''password'', JStr password)]"

subsection \<open>Calls\<close>

definition http_call :: "string \<Rightarrow> string \<Rightarrow> (string \<times> string) list \<Rightarrow> json option \<Rightarrow> Client \<Rightarrow> http_request" where
  "http_call m p query body c = \<lparr>hq_method = m, hq_url = cl_base_url c @ p, hq_query = query,
     hq_json = body, hq_authorization = None\<rparr>"

definition build_request :: "http_request \<Rightarrow> Client \<Rightarrow> http_request" where
  "build_request rq c =
     (case cl_token c of Some t \<Rightarrow> rq\<lparr>hq_authorization := Some (''Bearer '' @ t)\<rparr> | None \<Rightarrow> rq)"

text \<open>Send, then read the response; nothing is read when sending failed.\<close>

definition exchange :: "'w net_api \<Rightarrow> http_request \<Rightarrow> (http_response \<Rightarrow> ('a, ClientError) outcome) \<Rightarrow> ('w, 'a) client_op" where
  "exchange N rq f c w =
     (case send_with_retry N rq c w of
        (Ok r, c', w') \<Rightarrow> (f r, c', w')
      | (Err e, c', w') \<Rightarrow> (Err e, c', w')
      | (Panic, c', w') \<Rightarrow> (Panic, c', w')
      | (Hang, c', w') \<Rightarrow> (Hang, c', w'))"

definition client_call :: "'w net_api \<Rightarrow> string \<Rightarrow> string \<Rightarrow> (string \<times> string) list \<Rightarrow> json option \<Rightarrow>
    (http_response \<Rightarrow> ('a, ClientError) outcome) \<Rightarrow> ('w, 'a) client_op" where
  "client_call N m p query body f c w = exchange N (build_request (http_call m p query body c) c) f c w"

definition store_token :: "('w, LoginResponse) client_op \<Rightarrow> ('w, LoginResponse) client_op" where
  "store_token op c w =
     (case op c w of
        (Ok lr, c', w') \<Rightarrow> (Ok lr, set_token (lr_access_token lr) c', w')
      | r \<Rightarrow> r)"

definition client_login :: "'w net_api \<Rightarrow> string \<Rightarrow> string \<Rightarrow> ('w, LoginResponse) client_op" where
  "client_login N user password = store_token (\<lambda>c.
     exchange N (http_call ''POST'' ''/api/v1/auth/login'' [] (Some (login_body user password)) c)
       (handle_response N login_of_json) c)"

definition client_me :: "'w net_api \<Rightarrow> ('w, UserResponse) client_op" where
  "client_me N = client_call N ''GET'' ''/api/v1/auth/me'' [] None (handle_response N user_of_json)"

definition client_refresh :: "'w net_api \<Rightarrow> ('w, LoginResponse) client_op" where
  "client_refresh N = store_token
     (client_call N ''POST'' ''/api/v1/auth/refresh'' [] None (handle_response N login_of_json))"

definition client_health :: "'w net_api \<Rightarrow> ('w, HealthResponse) client_op" where
  "client_health N = client_call N ''GET'' ''/api/v1/health'' [] None (handle_response N health_of_json)"

definition client_capabilities :: "'w net_api \<Rightarrow> ('w, CapabilitiesResponse) client_op" where
  "client_capabilities N =
     client_call N ''GET'' ''/api/v1/capabilities'' [] None (handle_response N capabilities_of_json)"

definition client_read_file :: "'w net_api \<Rightarrow> string \<Rightarrow> ('w, string) client_op" where
  "client_read_file N p =
     client_call N ''GET'' ''/api/v1/files'' [(''path'', p)] None (handle_text_response N)"

definition client_write_file :: "'w net_api \<Rightarrow> string \<Rightarrow> string \<Rightarrow> int option \<Rightarrow> ('w, string) client_op" where
  "client_write_file N p d off =
     client_call N ''PUT'' ''/api/v1/files'' [] (Some (write_body p d off)) (handle_response N message_of_json)"

definition client_create_file :: "'w net_api \<Rightarrow> string \<Rightarrow> ('w, string) client_op" where
  "client_create_file N p =
     client_call N ''POST'' ''/api/v1/files'' [(''path'', p)] None (handle_response N message_of_json)"

definition client_remove :: "'w net_api \<Rightarrow> string \<Rightarrow> ('w, string) client_op" where
  "client_remove N p =
     client_call N ''DELETE'' ''/api/v1/files'' [(''path'', p)] None (handle_response N message_of_json)"

definition client_mkdir :: "'w net_api \<Rightarrow> string \<Rightarrow> mode option \<Rightarrow> ('w, string) client_op" where
  "client_mkdir N p perm =
     client_call N ''POST'' ''/api/v1/directories'' [] (Some (mkdir_body p perm)) (handle_response N message_of_json)"

definition client_read_dir :: "'w net_api \<Rightarrow> string \<Rightarrow> ('w, ClientDirectoryEntry list) client_op" where
  "client_read_dir N p =
     client_call N ''GET'' ''/api/v1/directories'' [(''path'', p)] None (handle_response N list_of_json)"

definition client_stat :: "'w net_api \<Rightarrow> string \<Rightarrow> ('w, FileMetadataResponse) client_op" where
  "client_stat N p =
     client_call N ''GET'' ''/api/v1/stat'' [(''path'', p)] None (handle_response N metadata_of_json)"

definition client_rename :: "'w net_api \<Rightarrow> string \<Rightarrow> string \<Rightarrow> ('w, string) client_op" where
  "client_rename N old new =
     client_call N ''POST'' ''/api/v1/rename'' [] (Some (rename_body old new)) (handle_response N message_of_json)"

definition client_chmod :: "'w net_api \<Rightarrow> string \<Rightarrow> mode \<Rightarrow> ('w, string) client_op" where
  "client_chmod N p m =
     client_call N ''POST'' ''/api/v1/chmod'' [] (Some (chmod_body p m)) (handle_response N message_of_json)"

definition client_truncate :: "'w net_api \<Rightarrow> string \<Rightarrow> nat \<Rightarrow> ('w, string) client_op" where
  "client_truncate N p n =
     client_call N ''POST'' ''/api/v1/truncate'' [] (Some (truncate_body p n)) (handle_response N message_of_json)"

definition client_symlink :: "'w net_api \<Rightarrow> string \<Rightarrow> string \<Rightarrow> ('w, string) client_op" where
  "client_symlink N target link =
     client_call N ''POST'' ''/api/v1/symlink'' [] (Some (symlink_body target link)) (handle_response N message_of_json)"

definition client_get_xattr :: "'w net_api \<Rightarrow> string \<Rightarrow> string \<Rightarrow> ('w, string) client_op" where
  "client_get_xattr N p name =
     client_call N ''GET'' ''/api/v1/xattr'' [(''path'', p), (''name'', name)] None
       (handle_response N xattr_value_of_json)"

definition client_set_xattr :: "'w net_api \<Rightarrow> string \<Rightarrow> string \<Rightarrow> string \<Rightarrow> ('w, string) client_op" where
  "client_set_xattr N p name v =
     client_call N ''POST'' ''/api/v1/xattr'' [] (Some (set_xattr_body p name v)) (handle_response N message_of_json)"

definition client_list_xattr :: "'w net_api \<Rightarrow> string \<Rightarrow> ('w, string list) client_op" where
  "client_list_xattr N p =
     client_call N ''GET'' ''/api/v1/xattr/list'' [(''path'', p)] None (handle_response N xattr_list_of_json)"

definition client_remove_xattr :: "'w net_api \<Rightarrow> string \<Rightarrow> string \<Rightarrow> ('w, string) client_op" where
  "client_remove_xattr N p name =
     client_call N ''DELETE'' ''/api/v1/xattr'' [(''path'', p), (''name'', name)] None
       (handle_response N message_of_json)"

subsection \<open>The circuit breaker\<close>

text \<open>The ways a sequence of attempts can end.\<close>

lemma send_attempts_cases:
  assumes "send_attempts N rq a l c w = (r, c', w')" "a \<le> DEFAULT_MAX_RETRIES"
  obtains (ok) resp where "r = Ok resp" "c' = c\<lparr>cl_circuit := (cl_circuit c)\<lparr>ci_failure_count := 0\<rparr>\<rparr>"
  | (err) e where "r = Err (CE_Http e)" "c' = record_circuit_failure (net_now N w') c"
  | (panic) "r = Panic" "c' = c"
  | (hang) "r = Hang" "c' = c"
  using assms
proof (induction N rq a l c w arbitrary: thesis rule: send_attempts.induct)
  case (1 N rq a l c w)
  note ih = "1.IH" and cases = "1.prems"(1-4) and run = "1.prems"(5) and a = "1.prems"(6)
  obtain q v where send: "net_send N rq w = (q, v)" by fastforce
  show ?case
  proof (cases q)
    case (Err e)
    show ?thesis
    proof (cases "(re_connect e \<or> re_timeout e) \<and> a < DEFAULT_MAX_RETRIES")
      case True
      then have "send_attempts N rq (a + 1) (Some e) c
          (net_sleep N (DEFAULT_INITIAL_BACKOFF_MS * min u64_max (2 ^ a)) v) = (r, c', w')"
        using run a send Err by (simp add: send_attempts.simps [of N rq a])
      then show ?thesis using ih [OF a send [symmetric] Err True] cases True by fastforce
    next
      case False
      then show ?thesis using run a send Err cases(2) by (auto simp: send_attempts.simps [of N rq a])
    qed
  qed (use run a send cases in \<open>auto simp: send_attempts.simps [of N rq a]\<close>)
qed

text \<open>The clients a new one can become.\<close>

inductive client_reachable :: "'w net_api \<Rightarrow> Client \<Rightarrow> bool" for N where
  new: "client_reachable N (client_new url)"
| token: "client_reachable N c \<Longrightarrow> client_reachable N (set_token t c)"
| logout: "client_reachable N c \<Longrightarrow> client_reachable N (logout c)"
| send: "client_reachable N c \<Longrightarrow> send_with_retry N rq c w = (r, c', w') \<Longrightarrow> client_reachable N c'"

definition circuit_ok :: "Client \<Rightarrow> bool" where
  "circuit_ok c \<longleftrightarrow>
     (case ci_open_until (cl_circuit c) of
        None \<Rightarrow> ci_failure_count (cl_circuit c) < DEFAULT_CIRCUIT_FAILURE_THRESHOLD
      | Some _ \<Rightarrow> ci_failure_count (cl_circuit c) = DEFAULT_CIRCUIT_FAILURE_THRESHOLD)"

text \<open>The failures that count towards opening: none are left after the cool-down.\<close>

definition failures :: "Client \<Rightarrow> nat" where
  "failures c = (if ci_open_until (cl_circuit c) = None then ci_failure_count (cl_circuit c) else 0)"

lemma send_with_retry_closed:
  assumes run: "send_with_retry N rq c w = (r, c', w')" and inv: "circuit_ok c"
    and closed: "\<nexists>t. ci_open_until (cl_circuit c) = Some t \<and> net_now N w < t"
  shows "(\<exists>resp. r = Ok resp) \<and> cl_circuit c' = \<lparr>ci_failure_count = 0, ci_open_until = None\<rparr> \<or>
    (\<exists>e. r = Err (CE_Http e)) \<and> cl_circuit c' = \<lparr>ci_failure_count = failures c + 1,
       ci_open_until = if failures c + 1 = DEFAULT_CIRCUIT_FAILURE_THRESHOLD
         then Some (net_now N w' + DEFAULT_CIRCUIT_OPEN_DURATION_SECS * 10 ^ 9) else None\<rparr> \<or>
    (r = Panic \<or> r = Hang) \<and> cl_circuit c' = \<lparr>ci_failure_count = failures c, ci_open_until = None\<rparr>"
proof -
  let ?c = "c\<lparr>cl_circuit := \<lparr>ci_failure_count = failures c, ci_open_until = None\<rparr>\<rparr>"
  have same: "?c = c" if "ci_open_until (cl_circuit c) = None"
    using that by (cases c, cases "cl_circuit c") (simp add: failures_def)
  have run': "send_attempts N rq 0 None ?c w = (r, c', w')"
  proof (cases "ci_open_until (cl_circuit c)")
    case None
    then show ?thesis using run by (simp add: send_with_retry_def same)
  next
    case (Some t)
    then show ?thesis using run closed by (auto simp: send_with_retry_def failures_def)
  qed
  have bound: "failures c < DEFAULT_CIRCUIT_FAILURE_THRESHOLD"
    using inv by (auto simp: circuit_ok_def failures_def client_consts split: option.splits)
  show ?thesis
    by (rule send_attempts_cases [OF run'])
      (use bound in \<open>auto simp: record_circuit_failure_def Let_def client_consts\<close>)
qed

lemma circuit_ok_reachable: "client_reachable N c \<Longrightarrow> circuit_ok c"
proof (induction rule: client_reachable.induct)
  case (send c rq w r c' w')
  show ?case
  proof (cases "\<exists>t. ci_open_until (cl_circuit c) = Some t \<and> net_now N w < t")
    case True
    then show ?thesis using send by (auto simp: send_with_retry_def)
  next
    case False
    have "failures c < DEFAULT_CIRCUIT_FAILURE_THRESHOLD"
      using send.IH by (auto simp: circuit_ok_def failures_def client_consts split: option.splits)
    with send_with_retry_closed [OF send.hyps(2) send.IH False] show ?thesis
      by (auto simp: circuit_ok_def client_consts)
  qed
qed (auto simp: circuit_ok_def client_new_def set_token_def logout_def client_consts split: option.splits)



subsection \<open>Retries\<close>

text \<open>A network that counts what is sent.\<close>

definition counted :: "'w net_api \<Rightarrow> ('w \<times> nat) net_api" where
  "counted N = \<lparr>net_now = (\<lambda>(w, _). net_now N w), net_sleep = (\<lambda>ms (w, n). (net_sleep N ms w, n)),
     net_send = (\<lambda>rq (w, n). (let (r, w') = net_send N rq w in (r, (w', n + 1)))),
     net_json_text = net_json_text N, net_decode_error = net_decode_error N, net_status_text = net_status_text N\<rparr>"

lemma counted_simps [simp]:
  "net_now (counted N) (w, n) = net_now N w" "net_sleep (counted N) ms (w, n) = (net_sleep N ms w, n)"
  "net_send (counted N) rq (w, n) = (let (r, w') = net_send N rq w in (r, (w', n + 1)))"
  by (simp_all add: counted_def)

lemma send_attempts_counted:
  assumes "a \<le> DEFAULT_MAX_RETRIES"
  shows "\<exists>k. send_attempts (counted N) rq a l c (w, n) =
      (case send_attempts N rq a l c w of (r, c', w') \<Rightarrow> (r, c', (w', n + k))) \<and> 1 \<le> k \<and> k \<le> 4 - a"
  using assms
proof (induction N rq a l c w arbitrary: n rule: send_attempts.induct)
  case (1 N rq a l c w)
  obtain q v where send: "net_send N rq w = (q, v)" by fastforce
  note step = send_attempts.simps [of N rq a] send_attempts.simps [of "counted N" rq a]
  note a = "1.prems"
  show ?case
  proof (cases "\<exists>e. q = Err e \<and> (re_connect e \<or> re_timeout e) \<and> a < DEFAULT_MAX_RETRIES")
    case True
    then obtain e where e: "q = Err e" "(re_connect e \<or> re_timeout e) \<and> a < DEFAULT_MAX_RETRIES" by blast
    from "1.IH" [OF a send [symmetric] e] e(2) obtain k where
      "send_attempts (counted N) rq (a + 1) (Some e) c
         (net_sleep N (DEFAULT_INITIAL_BACKOFF_MS * min u64_max (2 ^ a)) v, n + 1) =
       (case send_attempts N rq (a + 1) (Some e) c
         (net_sleep N (DEFAULT_INITIAL_BACKOFF_MS * min u64_max (2 ^ a)) v) of
         (r, c', w') \<Rightarrow> (r, c', (w', n + 1 + k)))" "1 \<le> k" "k \<le> 4 - (a + 1)" by fastforce
    with a send e show ?thesis
      by (intro exI [of _ "k + 1"]) (auto simp: step client_consts split: prod.splits)
  next
    case False
    then show ?thesis using a send
      by (intro exI [of _ 1]) (cases q; auto simp: step client_consts)
  qed
qed

text \<open>The world at attempt \<open>k\<close>, after \<open>k\<close> failures and the sleeps between them.\<close>

fun attempt_world :: "'w net_api \<Rightarrow> http_request \<Rightarrow> 'w \<Rightarrow> nat \<Rightarrow> 'w" where
  "attempt_world N rq w 0 = w"
| "attempt_world N rq w (Suc k) = net_sleep N (100 * 2 ^ k) (snd (net_send N rq (attempt_world N rq w k)))"

lemma send_attempts_recovers:
  assumes "k \<le> 3" "a \<le> k"
    and "\<And>j. a \<le> j \<Longrightarrow> j < k \<Longrightarrow>
      \<exists>e. fst (net_send N rq (attempt_world N rq w j)) = Err e \<and> (re_connect e \<or> re_timeout e)"
    and "net_send N rq (attempt_world N rq w k) = (Ok resp, w')"
  shows "send_attempts N rq a l c (attempt_world N rq w a) =
    (Ok resp, c\<lparr>cl_circuit := (cl_circuit c)\<lparr>ci_failure_count := 0\<rparr>\<rparr>, w')"
  using assms
proof (induction "k - a" arbitrary: a l)
  case 0
  then show ?case by (simp add: send_attempts.simps client_consts)
next
  case (Suc d)
  have "a < k" using Suc.hyps(2) by simp
  then obtain e v where e: "net_send N rq (attempt_world N rq w a) = (Err e, v)" "re_connect e \<or> re_timeout e"
    using Suc.prems(3) [of a] by (cases "net_send N rq (attempt_world N rq w a)") auto
  have "(2 :: nat) ^ a \<le> 2 ^ 3" using \<open>a < k\<close> Suc.prems(1) by (intro power_increasing) simp_all
  then have pow: "min u64_max (2 ^ a) = 2 ^ a" by simp
  have "send_attempts N rq (Suc a) (Some e) c (attempt_world N rq w (Suc a)) =
    (Ok resp, c\<lparr>cl_circuit := (cl_circuit c)\<lparr>ci_failure_count := 0\<rparr>\<rparr>, w')"
    using Suc.prems Suc.hyps(2) by (intro Suc.hyps(1)) auto
  moreover have "a < 3" using \<open>a < k\<close> Suc.prems(1) by simp
  ultimately show ?case using e by (simp add: send_attempts.simps [of N rq a] client_consts pow)
qed

text \<open>
  \<^bold>\<open>C6\<close>. Retries: a call sends its request at most four times, and not at all exactly when the
  circuit is open. When the circuit is closed, a request that first fails up to three
  times with a connection error or a timeout and is then answered succeeds with that answer, after waiting 100, 200
  and 400 milliseconds between the attempts, and resets the failure count.
\<close>

theorem client_retries:
  "(\<exists>k. send_with_retry (counted N) rq c (w, n) =
        (case send_with_retry N rq c w of (r, c', w') \<Rightarrow> (r, c', (w', n + k))) \<and> k \<le> 4 \<and>
      (k = 0 \<longleftrightarrow> (\<exists>t. ci_open_until (cl_circuit c) = Some t \<and> net_now N w < t))) \<and>
   (ci_open_until (cl_circuit c) = None \<longrightarrow> k \<le> 3 \<longrightarrow>
      (\<forall>j < k. \<exists>e. fst (net_send N rq (attempt_world N rq w j)) = Err e \<and> (re_connect e \<or> re_timeout e)) \<longrightarrow>
      net_send N rq (attempt_world N rq w k) = (Ok resp, w') \<longrightarrow>
      send_with_retry N rq c w = (Ok resp, c\<lparr>cl_circuit := \<lparr>ci_failure_count = 0, ci_open_until = None\<rparr>\<rparr>, w'))"
proof (intro conjI impI)
  let ?c = "case ci_open_until (cl_circuit c) of None \<Rightarrow> c
    | Some _ \<Rightarrow> c\<lparr>cl_circuit := \<lparr>ci_failure_count = 0, ci_open_until = None\<rparr>\<rparr>"
  obtain k where "send_attempts (counted N) rq 0 None ?c (w, n) =
      (case send_attempts N rq 0 None ?c w of (r, c', w') \<Rightarrow> (r, c', (w', n + k)))" "1 \<le> k" "k \<le> 4"
    using send_attempts_counted [of 0 N rq None ?c w n] by auto
  then show "\<exists>k. send_with_retry (counted N) rq c (w, n) =
        (case send_with_retry N rq c w of (r, c', w') \<Rightarrow> (r, c', (w', n + k))) \<and> k \<le> 4 \<and>
      (k = 0 \<longleftrightarrow> (\<exists>t. ci_open_until (cl_circuit c) = Some t \<and> net_now N w < t))"
    by (intro exI [of _ "if \<exists>t. ci_open_until (cl_circuit c) = Some t \<and> net_now N w < t then 0 else k"])
      (auto simp: send_with_retry_def split: option.splits)
next
  assume "ci_open_until (cl_circuit c) = None" "k \<le> 3"
    "\<forall>j < k. \<exists>e. fst (net_send N rq (attempt_world N rq w j)) = Err e \<and> (re_connect e \<or> re_timeout e)"
    "net_send N rq (attempt_world N rq w k) = (Ok resp, w')"
  then show "send_with_retry N rq c w =
      (Ok resp, c\<lparr>cl_circuit := \<lparr>ci_failure_count = 0, ci_open_until = None\<rparr>\<rparr>, w')"
    using send_attempts_recovers [of k 0 N rq w resp w' None c]
    by (cases "cl_circuit c") (simp add: send_with_retry_def)
qed

theorem client_retries_witness:
  "let N = \<lparr>net_now = (\<lambda>w. w), net_sleep = (\<lambda>ms w. w + ms),
       net_send = (\<lambda>_ w. (if w < 300 then Err \<lparr>re_connect = False, re_timeout = True, re_message = []\<rparr>
         else Ok \<lparr>hp_status = 200, hp_body = B_Text ''up''\<rparr>, w)),
       net_json_text = (\<lambda>_. []), net_decode_error = \<lparr>re_connect = False, re_timeout = False, re_message = []\<rparr>,
       net_status_text = (\<lambda>_. [])\<rparr>;
     rq = http_call ''GET'' ''/x'' [] None (client_new [])
   in send_with_retry N rq (client_new []) (0 :: nat) =
        (Ok \<lparr>hp_status = 200, hp_body = B_Text ''up''\<rparr>, client_new [], 300)"
proof -
  let ?N = "\<lparr>net_now = (\<lambda>w. w), net_sleep = (\<lambda>ms w. w + ms),
       net_send = (\<lambda>_ w. (if w < 300 then Err \<lparr>re_connect = False, re_timeout = True, re_message = []\<rparr>
         else Ok \<lparr>hp_status = 200, hp_body = B_Text ''up''\<rparr>, w)),
       net_json_text = (\<lambda>_. []), net_decode_error = \<lparr>re_connect = False, re_timeout = False, re_message = []\<rparr>,
       net_status_text = (\<lambda>_. [])\<rparr> :: nat net_api"
  let ?rq = "http_call ''GET'' ''/x'' [] None (client_new [])"
  have "attempt_world ?N ?rq 0 1 = 100" "attempt_world ?N ?rq 0 2 = 300"
    by (simp_all add: numeral_2_eq_2)
  then show ?thesis
    using client_retries [of ?N ?rq "client_new []" 0 0 2] by (simp add: client_new_def less_2_cases_iff)
qed

end
