(* ===== verification/Server_Http.thy ===== *)
theory Server_Http
  imports Server_Api Auth Rest_Client
begin

text \<open>
  The REST surface of \<open>racfs-server\<close> as the client meets it: the route table of \<open>main.rs\<close>
  and of \<open>api/auth_api.rs\<close>, the extraction of a handler's parameters from the request, and the rendering of its result.
  What the framework \<open>axum\<close> answers by itself is the parameter \<open>A\<close>. The methods are those of the
  table; \<open>HEAD\<close>, which the framework derives from \<open>GET\<close>, is left out.
\<close>

subsection \<open>Bodies\<close>

definition write_request_of_json :: "json \<Rightarrow> WriteRequest option" where
  "write_request_of_json j =
     (case struct_fields [''path'', ''data'', ''offset''] j of
        Some [p, d, x] \<Rightarrow>
          (case (required as_str p, required as_str d, optional as_i64 x) of
             (Some p, Some d, Some x) \<Rightarrow> Some \<lparr>wr_path = p, wr_data = d, wr_offset = x\<rparr> | _ \<Rightarrow> None)
      | _ \<Rightarrow> None)"

definition create_directory_of_json :: "json \<Rightarrow> CreateDirectoryRequest option" where
  "create_directory_of_json j =
     (case struct_fields [''path'', ''perm''] j of
        Some [p, m] \<Rightarrow>
          (case (required as_str p, optional as_u32 m) of
             (Some p, Some m) \<Rightarrow> Some \<lparr>cdr_path = p, cdr_perm = m\<rparr> | _ \<Rightarrow> None)
      | _ \<Rightarrow> None)"

definition rename_of_json :: "json \<Rightarrow> RenameRequest option" where
  "rename_of_json j =
     (case struct_fields [''old_path'', ''new_path''] j of
        Some [x, y] \<Rightarrow>
          (case (required as_str x, required as_str y) of
             (Some x, Some y) \<Rightarrow> Some \<lparr>rr_old_path = x, rr_new_path = y\<rparr> | _ \<Rightarrow> None)
      | _ \<Rightarrow> None)"

definition chmod_of_json :: "json \<Rightarrow> ChmodRequest option" where
  "chmod_of_json j =
     (case struct_fields [''path'', ''mode''] j of
        Some [p, m] \<Rightarrow>
          (case (required as_str p, required as_u32 m) of
             (Some p, Some m) \<Rightarrow> Some \<lparr>cr_path = p, cr_mode = m\<rparr> | _ \<Rightarrow> None)
      | _ \<Rightarrow> None)"

definition truncate_of_json :: "json \<Rightarrow> TruncateRequest option" where
  "truncate_of_json j =
     (case struct_fields [''path'', ''size''] j of
        Some [p, n] \<Rightarrow>
          (case (required as_str p, required as_u64 n) of
             (Some p, Some n) \<Rightarrow> Some \<lparr>tr_path = p, tr_size = n\<rparr> | _ \<Rightarrow> None)
      | _ \<Rightarrow> None)"

definition symlink_of_json :: "json \<Rightarrow> SymlinkRequest option" where
  "symlink_of_json j =
     (case struct_fields [''target'', ''link_path''] j of
        Some [t, l] \<Rightarrow>
          (case (required as_str t, required as_str l) of
             (Some t, Some l) \<Rightarrow> Some \<lparr>sr_target = t, sr_link_path = l\<rparr> | _ \<Rightarrow> None)
      | _ \<Rightarrow> None)"

definition set_xattr_of_json :: "json \<Rightarrow> SetXattrRequest option" where
  "set_xattr_of_json j =
     (case struct_fields [''path'', ''name'', ''value''] j of
        Some [p, n, v] \<Rightarrow>
          (case (required as_str p, required as_str n, required as_str v) of
             (Some p, Some n, Some v) \<Rightarrow> Some \<lparr>sx_path = p, sx_name = n, sx_value = v\<rparr> | _ \<Rightarrow> None)
      | _ \<Rightarrow> None)"

lemmas request_of_json_defs = write_request_of_json_def create_directory_of_json_def rename_of_json_def
  chmod_of_json_def truncate_of_json_def symlink_of_json_def set_xattr_of_json_def login_request_of_json_def

definition message_json :: "string \<Rightarrow> json" where
  "message_json m = JObj [(''message'', JStr m)]"

definition entry_json :: "DirectoryEntry \<Rightarrow> json" where
  "entry_json e = JObj [(''permissions'', JStr (de_permissions e)), (''size'', nat_json (de_size e)),
     (''modified'', opt_json JStr (de_modified e)), (''path'', JStr (de_path e)),
     (''file_type'', JStr (de_file_type e))]"

definition entries_json :: "DirectoryEntry list \<Rightarrow> json" where
  "entries_json es = JObj [(''entries'', JArr (map entry_json es))]"

definition metadata_json :: "MetadataResponse \<Rightarrow> json" where
  "metadata_json m = JObj [(''file_type'', JStr (mr_file_type m)), (''permissions'', JStr (mr_permissions m)),
     (''size'', nat_json (mr_size m)), (''modified'', opt_json JStr (mr_modified m)),
     (''path'', JStr (mr_path m)), (''symlink_target'', opt_json JStr (mr_symlink_target m))]"

definition xattr_value_json :: "string \<Rightarrow> json" where
  "xattr_value_json v = JObj [(''value'', JStr v)]"

definition xattr_list_json :: "string list \<Rightarrow> json" where
  "xattr_list_json ns = JObj [(''names'', JArr (map JStr ns))]"

definition health_json :: "string \<Rightarrow> json" where
  "health_json version = JObj [(''status'', JStr ''ok''), (''version'', JStr version)]"

subsection \<open>Routes\<close>

record 's Server =
  sv_app :: "'s AppState"
  sv_auth :: AuthApiState

record axum_api =
  ax_query_rejection :: http_response
  ax_body_rejection :: "http_request \<Rightarrow> http_response option"
  ax_json_rejection :: http_response
  ax_not_found :: http_response
  ax_method_not_allowed :: http_response
  ax_metrics :: "VfsMetrics \<Rightarrow> StatCache \<Rightarrow> http_response"
  ax_version :: string

record server_params =
  sp_axum :: axum_api
  sp_crypto :: auth_crypto
  sp_base64 :: base64_api
  sp_fmt_time :: "time \<Rightarrow> string"

type_synonym 's endpoint = "'s Server \<Rightarrow> (http_response, unit) outcome \<times> 's Server"

text \<open>
  A body may be rejected before it is read (\<open>ax_body_rejection\<close>: its size or its content type), or because it is not the
  JSON of the expected struct.
\<close>

definition with_json :: "axum_api \<Rightarrow> http_request \<Rightarrow> (json \<Rightarrow> 'b option) \<Rightarrow> ('b \<Rightarrow> 's endpoint) \<Rightarrow> 's endpoint" where
  "with_json A rq decode h sv =
     (case (ax_body_rejection A rq, hq_json rq) of
        (Some r, _) \<Rightarrow> (Ok r, sv)
      | (None, Some j) \<Rightarrow> (case decode j of Some b \<Rightarrow> h b sv | None \<Rightarrow> (Ok (ax_json_rejection A), sv))
      | (None, None) \<Rightarrow> (Ok (ax_json_rejection A), sv))"

text \<open>\<open>Json(..)\<close> with status 200, or the error response.\<close>

definition respond :: "('a \<Rightarrow> json) \<Rightarrow> ('s, 'a) handler \<Rightarrow> 's endpoint" where
  "respond enc h sv =
     (let (r, app) = h (sv_app sv); sv' = sv\<lparr>sv_app := app\<rparr>
      in case r of
           Ok a \<Rightarrow> (Ok \<lparr>hp_status = 200, hp_body = B_Json (enc a)\<rparr>, sv')
         | Err e \<Rightarrow> (Ok (her_into_response e), sv')
         | Panic \<Rightarrow> (Panic, sv')
         | Hang \<Rightarrow> (Hang, sv'))"

definition query_param :: "http_request \<Rightarrow> string \<Rightarrow> string option" where
  "query_param rq k = (case filter (\<lambda>(k', _). k' = k) (hq_query rq) of [(_, v)] \<Rightarrow> Some v | _ \<Rightarrow> None)"

definition with_query :: "axum_api \<Rightarrow> http_request \<Rightarrow> string \<Rightarrow> (string \<Rightarrow> 's endpoint) \<Rightarrow> 's endpoint" where
  "with_query A rq k h sv =
     (case query_param rq k of Some v \<Rightarrow> h v sv | None \<Rightarrow> (Ok (ax_query_rejection A), sv))"

definition method_route :: "axum_api \<Rightarrow> http_request \<Rightarrow> (string \<times> 's endpoint) list \<Rightarrow> 's endpoint" where
  "method_route A rq hs sv =
     (case map_of hs (hq_method rq) of Some h \<Rightarrow> h sv | None \<Rightarrow> (Ok (ax_method_not_allowed A), sv))"

text \<open>The flag of \<open>LoginQuery\<close>: absent is false, and only the words of a boolean are accepted.\<close>

definition use_api_key_flag :: "http_request \<Rightarrow> bool option" where
  "use_api_key_flag rq =
     (case filter (\<lambda>(k, _). k = ''useApiKey'') (hq_query rq) of
        [] \<Rightarrow> Some False
      | [(_, v)] \<Rightarrow> if v = ''true'' then Some True else if v = ''false'' then Some False else None
      | _ \<Rightarrow> None)"

definition login_endpoint :: "server_params \<Rightarrow> http_request \<Rightarrow> int \<Rightarrow> 's endpoint" where
  "login_endpoint S rq now sv =
     (case use_api_key_flag rq of
        None \<Rightarrow> (Ok (ax_query_rejection (sp_axum S)), sv)
      | Some flag \<Rightarrow>
          with_json (sp_axum S) rq login_request_of_json (\<lambda>b sv.
            (auth_respond login_response_json (login (sp_crypto S) flag b now (sv_auth sv)), sv)) sv)"

text \<open>
  The table: a path, and per method its handler. No layer of the application puts a user into
  the request, so the endpoints that extract one are given none.
\<close>

definition routes :: "server_params \<Rightarrow> 's FileSystem \<Rightarrow> http_request \<Rightarrow> time \<Rightarrow> (string \<times> (string \<times> 's endpoint) list) list" where
  "routes S V rq now =
     (let A = sp_axum S; B = sp_base64 S; fmt = sp_fmt_time S in
      [(''/api/v1/health'',
          [(''GET'', \<lambda>sv. (Ok \<lparr>hp_status = 200, hp_body = B_Json (health_json (ax_version A))\<rparr>, sv))]),
       (''/metrics'',
          [(''GET'', \<lambda>sv. (Ok (ax_metrics A (as_vfs_metrics (sv_app sv)) (as_stat_cache (sv_app sv))), sv))]),
       (''/api/v1/files'',
          [(''GET'', with_query A rq ''path'' (\<lambda>p. respond JStr (read_file V p now))),
           (''POST'', with_query A rq ''path'' (\<lambda>p. respond message_json (create_file V p now))),
           (''PUT'', with_json A rq write_request_of_json (\<lambda>b. respond message_json (write_file V b now))),
           (''DELETE'', with_query A rq ''path'' (\<lambda>p. respond message_json (delete_file V p now)))]),
       (''/api/v1/directories'',
          [(''GET'', with_query A rq ''path'' (\<lambda>p. respond entries_json (list_directory fmt V p now))),
           (''POST'', with_json A rq create_directory_of_json (\<lambda>b. respond message_json (create_directory V b now)))]),
       (''/api/v1/stat'',
          [(''GET'', with_query A rq ''path'' (\<lambda>p. respond metadata_json (stat_request fmt V p now)))]),
       (''/api/v1/rename'',
          [(''POST'', with_json A rq rename_of_json (\<lambda>b. respond message_json (rename_request V b now)))]),
       (''/api/v1/chmod'',
          [(''POST'', with_json A rq chmod_of_json (\<lambda>b. respond message_json (chmod_request V b now)))]),
       (''/api/v1/truncate'',
          [(''POST'', with_json A rq truncate_of_json (\<lambda>b. respond message_json (truncate_request V b now)))]),
       (''/api/v1/symlink'',
          [(''POST'', with_json A rq symlink_of_json (\<lambda>b. respond message_json (symlink_request V b now)))]),
       (''/api/v1/xattr'',
          [(''GET'', with_query A rq ''path'' (\<lambda>p. with_query A rq ''name'' (\<lambda>n.
              respond xattr_value_json (get_xattr_request B V p n now)))),
           (''POST'', with_json A rq set_xattr_of_json (\<lambda>b. respond message_json (set_xattr_request B V b now))),
           (''DELETE'', with_query A rq ''path'' (\<lambda>p. with_query A rq ''name'' (\<lambda>n.
              respond message_json (remove_xattr_request V p n now))))]),
       (''/api/v1/xattr/list'',
          [(''GET'', with_query A rq ''path'' (\<lambda>p. respond xattr_list_json (list_xattr_request V p now)))]),
       (''/api/v1/auth/login'', [(''POST'', login_endpoint S rq (int now div 10 ^ 9))]),
       (''/api/v1/auth/logout'', [(''POST'', \<lambda>sv. (logout_endpoint None, sv))]),
       (''/api/v1/auth/me'', [(''GET'', \<lambda>sv. (me_endpoint None, sv))]),
       (''/api/v1/auth/refresh'', [(''POST'', \<lambda>sv. (refresh_endpoint, sv))])])"

definition serve :: "server_params \<Rightarrow> 's FileSystem \<Rightarrow> http_request \<Rightarrow> time \<Rightarrow> 's endpoint" where
  "serve S V rq now sv =
     (case map_of (routes S V rq now) (hq_url rq) of
        Some hs \<Rightarrow> method_route (sp_axum S) rq hs sv
      | None \<Rightarrow> (Ok (ax_not_found (sp_axum S)), sv))"

end
