(* ===== verification/Client_Server.thy ===== *)
theory Client_Server
  imports Server_Http Mem_FS
begin

text \<open>
  The client of \<open>racfs-client\<close> talking to the server of \<open>racfs-server\<close> over a network that delivers every request
  once and every response: each call of the client is the call of one handler, with its
  result read back. A panic of a handler closes the connection, which the client sees as an error that is
  neither a connection failure nor a timeout.
\<close>

subsection \<open>A reliable network\<close>

text \<open>What the client reads besides the response: the text of JSON, decoding errors, status lines.\<close>

record wire_texts =
  wt_json_text :: "json \<Rightarrow> string"
  wt_decode_error :: ReqwestError
  wt_status_text :: "nat \<Rightarrow> string"
  wt_lost :: string
  wt_no_host :: string

definition lost :: "wire_texts \<Rightarrow> ReqwestError" where
  "lost W = \<lparr>re_connect = False, re_timeout = False, re_message = wt_lost W\<rparr>"

definition direct_net :: "wire_texts \<Rightarrow> server_params \<Rightarrow> 's FileSystem \<Rightarrow> string \<Rightarrow> ('s Server \<times> time) net_api" where
  "direct_net W S V base =
     \<lparr>net_now = snd, net_sleep = (\<lambda>ms (sv, t). (sv, t + ms * 10 ^ 6)),
      net_send = (\<lambda>rq (sv, t).
        case str_strip_prefix (hq_url rq) base of
          None \<Rightarrow> (Err \<lparr>re_connect = True, re_timeout = False, re_message = wt_no_host W\<rparr>, (sv, t))
        | Some p \<Rightarrow>
            (case serve S V (rq\<lparr>hq_url := p\<rparr>) t sv of
               (Ok r, sv') \<Rightarrow> (Ok r, (sv', t))
             | (Err _, sv') \<Rightarrow> (Err (lost W), (sv', t))
             | (Panic, sv') \<Rightarrow> (Err (lost W), (sv', t))
             | (Hang, sv') \<Rightarrow> (Hang, (sv', t)))),
      net_json_text = wt_json_text W, net_decode_error = wt_decode_error W, net_status_text = wt_status_text W\<rparr>"

lemma direct_net_simps [simp]:
  "net_now (direct_net W S V base) (sv, t) = t" "net_json_text (direct_net W S V base) = wt_json_text W"
  "net_decode_error (direct_net W S V base) = wt_decode_error W"
  by (simp_all add: direct_net_def)

text \<open>The client after a response.\<close>

definition answered :: "Client \<Rightarrow> Client" where
  "answered c = c\<lparr>cl_circuit := (cl_circuit c)\<lparr>ci_failure_count := 0\<rparr>\<rparr>"

text \<open>What the client makes of a handler's result.\<close>

definition deliver :: "wire_texts \<Rightarrow> ('a \<Rightarrow> 'b) \<Rightarrow> Client \<Rightarrow> 's Server \<Rightarrow> time \<Rightarrow> 'a http_result \<times> 's AppState \<Rightarrow>
    ('b, ClientError) outcome \<times> Client \<times> ('s Server \<times> time)" where
  "deliver W f c sv t x =
     (let (r, app) = x; w = (sv\<lparr>sv_app := app\<rparr>, t) in
      case r of
        Ok a \<Rightarrow> (Ok (f a), answered c, w)
      | Err e \<Rightarrow> (Err (CE_Api (error_code_display (her_code e)) (her_message e) (her_detail e)), answered c, w)
      | Panic \<Rightarrow> (Err (CE_Http (lost W)), record_circuit_failure t c, w)
      | Hang \<Rightarrow> (Hang, c, w))"

lemma exchange_direct:
  assumes "ci_open_until (cl_circuit c) = None" "hq_url rq = base @ p"
    and "serve S V (rq\<lparr>hq_url := p\<rparr>) t sv = respond enc h sv"
    and f: "\<And>a. fst (h (sv_app sv)) = Ok a \<Longrightarrow> f \<lparr>hp_status = 200, hp_body = B_Json (enc a)\<rparr> = Ok (g a)"
    and err: "\<And>e. f (her_into_response e) = Err (CE_Api (error_code_display (her_code e)) (her_message e) (her_detail e))"
  shows "exchange (direct_net W S V base) rq f c (sv, t) = deliver W g c sv t (h (sv_app sv))"
proof -
  obtain r app where h: "h (sv_app sv) = (r, app)" by fastforce
  have strip: "str_strip_prefix (hq_url rq) base = Some p"
    by (simp add: assms(2) str_strip_prefix_eq_Some)
  show ?thesis
    using assms(1,3) strip h f err
    by (cases r) (auto simp: exchange_def send_with_retry_def send_attempts.simps client_consts direct_net_def
        respond_def deliver_def answered_def lost_def)
qed

lemma handle_response_ok:
  "decode j = Some a \<Longrightarrow> handle_response N decode \<lparr>hp_status = 200, hp_body = B_Json j\<rparr> = Ok a"
  by (simp add: handle_response_def is_success_def body_json_def)

lemma handle_text_json:
  "handle_text_response N \<lparr>hp_status = 200, hp_body = B_Json j\<rparr> = Ok (net_json_text N j)"
  by (simp add: handle_text_response_def is_success_def)

lemma api_error_her [simp]:
  "api_error N (her_into_response e) = CE_Api (error_code_display (her_code e)) (her_message e) (her_detail e)"
  by (simp add: api_error_def body_json_def her_into_response_def Let_def)

lemma her_not_success [simp]: "\<not> is_success (her_into_response e)"
  by (cases "her_code e") (simp_all add: is_success_def her_into_response_def)

lemma handle_response_err [simp]:
  "handle_response N decode (her_into_response e) = Err (CE_Api (error_code_display (her_code e)) (her_message e) (her_detail e))"
  "handle_text_response N (her_into_response e) = Err (CE_Api (error_code_display (her_code e)) (her_message e) (her_detail e))"
  by (simp_all add: handle_response_def handle_text_response_def)

lemma call_direct:
  assumes "ci_open_until (cl_circuit c) = None" "cl_base_url c = base"
    and "\<And>rq. \<lbrakk>hq_method rq = m; hq_url rq = p; hq_query rq = query; hq_json rq = body\<rbrakk> \<Longrightarrow>
      serve S V rq t sv = respond enc h sv"
    and "\<And>a. fst (h (sv_app sv)) = Ok a \<Longrightarrow> f \<lparr>hp_status = 200, hp_body = B_Json (enc a)\<rparr> = Ok (g a)"
    and "\<And>e. f (her_into_response e) = Err (CE_Api (error_code_display (her_code e)) (her_message e) (her_detail e))"
  shows "client_call (direct_net W S V base) m p query body f c (sv, t) = deliver W g c sv t (h (sv_app sv))"
  unfolding client_call_def
  by (rule exchange_direct [where p = p, OF assms(1) _ _ assms(4,5)])
    (simp_all add: assms(2,3) build_request_def http_call_def split: option.splits)

subsection \<open>The endpoints\<close>

definition accepts :: "server_params \<Rightarrow> json \<Rightarrow> bool" where
  "accepts S j \<longleftrightarrow> (\<forall>rq. hq_json rq = Some j \<longrightarrow> ax_body_rejection (sp_axum S) rq = None)"

lemmas serve_defs = serve_def routes_def Let_def method_route_def with_query_def query_param_def with_json_def

lemma serve_files:
  "\<lbrakk>hq_method rq = ''GET''; hq_url rq = ''/api/v1/files''; hq_query rq = [(''path'', p)]; hq_json rq = b\<rbrakk> \<Longrightarrow>
     serve S V rq t sv = respond JStr (read_file V p t) sv"
  "\<lbrakk>hq_method rq = ''POST''; hq_url rq = ''/api/v1/files''; hq_query rq = [(''path'', p)]; hq_json rq = b\<rbrakk> \<Longrightarrow>
     serve S V rq t sv = respond message_json (create_file V p t) sv"
  "\<lbrakk>hq_method rq = ''DELETE''; hq_url rq = ''/api/v1/files''; hq_query rq = [(''path'', p)]; hq_json rq = b\<rbrakk> \<Longrightarrow>
     serve S V rq t sv = respond message_json (delete_file V p t) sv"
  "\<lbrakk>hq_method rq = ''PUT''; hq_url rq = ''/api/v1/files''; hq_query rq = q; hq_json rq = Some j\<rbrakk> \<Longrightarrow>
     accepts S j \<Longrightarrow> write_request_of_json j = Some b' \<Longrightarrow>
     serve S V rq t sv = respond message_json (write_file V b' t) sv"
  by (simp_all add: serve_defs accepts_def)

lemma serve_directories:
  "\<lbrakk>hq_method rq = ''GET''; hq_url rq = ''/api/v1/directories''; hq_query rq = [(''path'', p)]; hq_json rq = b\<rbrakk> \<Longrightarrow>
     serve S V rq t sv = respond entries_json (list_directory (sp_fmt_time S) V p t) sv"
  "\<lbrakk>hq_method rq = ''POST''; hq_url rq = ''/api/v1/directories''; hq_query rq = q; hq_json rq = Some j\<rbrakk> \<Longrightarrow>
     accepts S j \<Longrightarrow> create_directory_of_json j = Some b' \<Longrightarrow>
     serve S V rq t sv = respond message_json (create_directory V b' t) sv"
  by (simp_all add: serve_defs accepts_def)

lemma serve_metadata:
  "\<lbrakk>hq_method rq = ''GET''; hq_url rq = ''/api/v1/stat''; hq_query rq = [(''path'', p)]; hq_json rq = b\<rbrakk> \<Longrightarrow>
     serve S V rq t sv = respond metadata_json (stat_request (sp_fmt_time S) V p t) sv"
  "\<lbrakk>hq_method rq = ''POST''; hq_url rq = ''/api/v1/rename''; hq_query rq = q; hq_json rq = Some j\<rbrakk> \<Longrightarrow>
     accepts S j \<Longrightarrow> rename_of_json j = Some rr \<Longrightarrow>
     serve S V rq t sv = respond message_json (rename_request V rr t) sv"
  "\<lbrakk>hq_method rq = ''POST''; hq_url rq = ''/api/v1/chmod''; hq_query rq = q; hq_json rq = Some j\<rbrakk> \<Longrightarrow>
     accepts S j \<Longrightarrow> chmod_of_json j = Some cr \<Longrightarrow>
     serve S V rq t sv = respond message_json (chmod_request V cr t) sv"
  "\<lbrakk>hq_method rq = ''POST''; hq_url rq = ''/api/v1/truncate''; hq_query rq = q; hq_json rq = Some j\<rbrakk> \<Longrightarrow>
     accepts S j \<Longrightarrow> truncate_of_json j = Some tr \<Longrightarrow>
     serve S V rq t sv = respond message_json (truncate_request V tr t) sv"
  "\<lbrakk>hq_method rq = ''POST''; hq_url rq = ''/api/v1/symlink''; hq_query rq = q; hq_json rq = Some j\<rbrakk> \<Longrightarrow>
     accepts S j \<Longrightarrow> symlink_of_json j = Some sr \<Longrightarrow>
     serve S V rq t sv = respond message_json (symlink_request V sr t) sv"
  by (simp_all add: serve_defs accepts_def)

lemma serve_xattr:
  "\<lbrakk>hq_method rq = ''GET''; hq_url rq = ''/api/v1/xattr''; hq_query rq = [(''path'', p), (''name'', n)]; hq_json rq = b\<rbrakk> \<Longrightarrow>
     serve S V rq t sv = respond xattr_value_json (get_xattr_request (sp_base64 S) V p n t) sv"
  "\<lbrakk>hq_method rq = ''POST''; hq_url rq = ''/api/v1/xattr''; hq_query rq = q; hq_json rq = Some j\<rbrakk> \<Longrightarrow>
     accepts S j \<Longrightarrow> set_xattr_of_json j = Some sx \<Longrightarrow>
     serve S V rq t sv = respond message_json (set_xattr_request (sp_base64 S) V sx t) sv"
  "\<lbrakk>hq_method rq = ''DELETE''; hq_url rq = ''/api/v1/xattr''; hq_query rq = [(''path'', p), (''name'', n)]; hq_json rq = b\<rbrakk> \<Longrightarrow>
     serve S V rq t sv = respond message_json (remove_xattr_request V p n t) sv"
  "\<lbrakk>hq_method rq = ''GET''; hq_url rq = ''/api/v1/xattr/list''; hq_query rq = [(''path'', p)]; hq_json rq = b\<rbrakk> \<Longrightarrow>
     serve S V rq t sv = respond xattr_list_json (list_xattr_request V p t) sv"
  by (simp_all add: serve_defs accepts_def)

subsection \<open>The two sides agree on their structs\<close>

lemma single_field_obj [simp]: "single_field k f (JObj [(k, j)]) = f j"
  by (simp add: single_field_def)

lemma request_bodies [simp]:
  "pred_option is_i64 x \<Longrightarrow>
     write_request_of_json (write_body p d x) = Some \<lparr>wr_path = p, wr_data = d, wr_offset = x\<rparr>"
  "create_directory_of_json (mkdir_body p m) = Some \<lparr>cdr_path = p, cdr_perm = m\<rparr>"
  "rename_of_json (rename_body old new) = Some \<lparr>rr_old_path = old, rr_new_path = new\<rparr>"
  "chmod_of_json (chmod_body p mo) = Some \<lparr>cr_path = p, cr_mode = mo\<rparr>"
  "n \<le> u64_max \<Longrightarrow> truncate_of_json (truncate_body p n) = Some \<lparr>tr_path = p, tr_size = n\<rparr>"
  "symlink_of_json (symlink_body target link) = Some \<lparr>sr_target = target, sr_link_path = link\<rparr>"
  "set_xattr_of_json (set_xattr_body p a v) = Some \<lparr>sx_path = p, sx_name = a, sx_value = v\<rparr>"
  "login_request_of_json (login_body u pw) = Some \<lparr>lq_username = u, lq_password = pw\<rparr>"
  by (simp_all add: request_of_json_defs write_body_def mkdir_body_def rename_body_def chmod_body_def
      truncate_body_def symlink_body_def set_xattr_body_def login_body_def)

definition client_metadata :: "MetadataResponse \<Rightarrow> FileMetadataResponse" where
  "client_metadata m = \<lparr>fmr_file_type = mr_file_type m, fmr_permissions = mr_permissions m, fmr_size = mr_size m,
     fmr_modified = mr_modified m, fmr_path = mr_path m, fmr_symlink_target = mr_symlink_target m\<rparr>"

definition client_entry :: "DirectoryEntry \<Rightarrow> ClientDirectoryEntry" where
  "client_entry e = \<lparr>cde_permissions = de_permissions e, cde_size = de_size e, cde_modified = de_modified e,
     cde_path = de_path e, cde_file_type = Some (de_file_type e)\<rparr>"

lemma response_bodies [simp]:
  "message_of_json (message_json m) = Some m"
  "xattr_value_of_json (xattr_value_json v) = Some v"
  "mr_size md \<le> u64_max \<Longrightarrow> metadata_of_json (metadata_json md) = Some (client_metadata md)"
  "de_size e \<le> u64_max \<Longrightarrow> entry_of_json (entry_json e) = Some (client_entry e)"
  by (simp_all add: message_of_json_def message_json_def xattr_value_of_json_def xattr_value_json_def
      metadata_of_json_def metadata_json_def client_metadata_def entry_of_json_def entry_json_def client_entry_def)

lemma response_lists [simp]:
  "xattr_list_of_json (xattr_list_json ns) = Some ns"
  "\<forall>e \<in> set es. de_size e \<le> u64_max \<Longrightarrow> list_of_json (entries_json es) = Some (map client_entry es)"
proof -
  have "those_map as_str (map JStr ns) = Some (map (\<lambda>x. x) ns)" by (rule those_map_map) simp
  then show "xattr_list_of_json (xattr_list_json ns) = Some ns"
    by (simp add: xattr_list_of_json_def xattr_list_json_def as_list_def)
  assume "\<forall>e \<in> set es. de_size e \<le> u64_max"
  then have "those_map entry_of_json (map entry_json es) = Some (map client_entry es)"
    by (intro those_map_map) simp
  then show "list_of_json (entries_json es) = Some (map client_entry es)"
    by (simp add: list_of_json_def entries_json_def as_list_def)
qed

subsection \<open>Calls\<close>

lemma direct_read_file:
  assumes "ci_open_until (cl_circuit c) = None" "cl_base_url c = base"
  shows "client_read_file (direct_net W S V base) p c (sv, t) =
    deliver W (\<lambda>s. wt_json_text W (JStr s)) c sv t (read_file V p t (sv_app sv))"
  unfolding client_read_file_def
  by (rule call_direct [OF assms serve_files(1)]) (simp_all add: handle_text_json)

lemma direct_create_file:
  assumes "ci_open_until (cl_circuit c) = None" "cl_base_url c = base"
  shows "client_create_file (direct_net W S V base) p c (sv, t) = deliver W (\<lambda>m. m) c sv t (create_file V p t (sv_app sv))"
  unfolding client_create_file_def
  by (rule call_direct [OF assms serve_files(2)]) (simp_all add: handle_response_ok)

lemma direct_write_file:
  assumes "ci_open_until (cl_circuit c) = None" "cl_base_url c = base"
    and "accepts S (write_body p d x)" "pred_option is_i64 x"
  shows "client_write_file (direct_net W S V base) p d x c (sv, t) =
    deliver W (\<lambda>m. m) c sv t (write_file V \<lparr>wr_path = p, wr_data = d, wr_offset = x\<rparr> t (sv_app sv))"
  unfolding client_write_file_def
  by (rule call_direct [OF assms(1,2) serve_files(4) [OF _ _ _ _ assms(3) request_bodies(1) [OF assms(4)]]])
    (simp_all add: handle_response_ok)

lemma direct_stat:
  assumes "ci_open_until (cl_circuit c) = None" "cl_base_url c = base"
    and "\<And>md. fst (stat_request (sp_fmt_time S) V p t (sv_app sv)) = Ok md \<Longrightarrow> mr_size md \<le> u64_max"
  shows "client_stat (direct_net W S V base) p c (sv, t) =
    deliver W client_metadata c sv t (stat_request (sp_fmt_time S) V p t (sv_app sv))"
  unfolding client_stat_def
  by (rule call_direct [OF assms(1,2) serve_metadata(1)]) (use assms(3) in \<open>simp_all add: handle_response_ok\<close>)

lemma direct_remove:
  assumes "ci_open_until (cl_circuit c) = None" "cl_base_url c = base"
  shows "client_remove (direct_net W S V base) p c (sv, t) =
    deliver W (\<lambda>m. m) c sv t (delete_file V p t (sv_app sv))"
  unfolding client_remove_def
  by (rule call_direct [OF assms serve_files(3)]) (simp_all add: handle_response_ok)

lemma direct_mkdir:
  assumes "ci_open_until (cl_circuit c) = None" "cl_base_url c = base" "accepts S (mkdir_body p m)"
  shows "client_mkdir (direct_net W S V base) p m c (sv, t) =
    deliver W (\<lambda>m. m) c sv t (create_directory V \<lparr>cdr_path = p, cdr_perm = m\<rparr> t (sv_app sv))"
  unfolding client_mkdir_def
  by (rule call_direct [OF assms(1,2) serve_directories(2) [OF _ _ _ _ assms(3) request_bodies(2)]]) (simp_all add: handle_response_ok)

lemma direct_read_dir:
  assumes "ci_open_until (cl_circuit c) = None" "cl_base_url c = base"
    and "\<And>es e. fst (list_directory (sp_fmt_time S) V p t (sv_app sv)) = Ok es \<Longrightarrow> e \<in> set es \<Longrightarrow> de_size e \<le> u64_max"
  shows "client_read_dir (direct_net W S V base) p c (sv, t) =
    deliver W (map client_entry) c sv t (list_directory (sp_fmt_time S) V p t (sv_app sv))"
  unfolding client_read_dir_def
  by (rule call_direct [OF assms(1,2) serve_directories(1)]) (use assms(3) in \<open>simp_all add: handle_response_ok\<close>)

lemma direct_rename:
  assumes "ci_open_until (cl_circuit c) = None" "cl_base_url c = base" "accepts S (rename_body p q)"
  shows "client_rename (direct_net W S V base) p q c (sv, t) =
    deliver W (\<lambda>m. m) c sv t (rename_request V \<lparr>rr_old_path = p, rr_new_path = q\<rparr> t (sv_app sv))"
  unfolding client_rename_def
  by (rule call_direct [OF assms(1,2) serve_metadata(2) [OF _ _ _ _ assms(3) request_bodies(3)]]) (simp_all add: handle_response_ok)

lemma direct_chmod:
  assumes "ci_open_until (cl_circuit c) = None" "cl_base_url c = base" "accepts S (chmod_body p mo)"
  shows "client_chmod (direct_net W S V base) p mo c (sv, t) =
    deliver W (\<lambda>m. m) c sv t (chmod_request V \<lparr>cr_path = p, cr_mode = mo\<rparr> t (sv_app sv))"
  unfolding client_chmod_def
  by (rule call_direct [OF assms(1,2) serve_metadata(3) [OF _ _ _ _ assms(3) request_bodies(4)]]) (simp_all add: handle_response_ok)

lemma direct_truncate:
  assumes "ci_open_until (cl_circuit c) = None" "cl_base_url c = base" "accepts S (truncate_body p n)" "n \<le> u64_max"
  shows "client_truncate (direct_net W S V base) p n c (sv, t) =
    deliver W (\<lambda>m. m) c sv t (truncate_request V \<lparr>tr_path = p, tr_size = n\<rparr> t (sv_app sv))"
  unfolding client_truncate_def
  by (rule call_direct [OF assms(1,2) serve_metadata(4) [OF _ _ _ _ assms(3) request_bodies(5) [OF assms(4)]]]) (simp_all add: handle_response_ok)

lemma direct_symlink:
  assumes "ci_open_until (cl_circuit c) = None" "cl_base_url c = base" "accepts S (symlink_body q p)"
  shows "client_symlink (direct_net W S V base) q p c (sv, t) =
    deliver W (\<lambda>m. m) c sv t (symlink_request V \<lparr>sr_target = q, sr_link_path = p\<rparr> t (sv_app sv))"
  unfolding client_symlink_def
  by (rule call_direct [OF assms(1,2) serve_metadata(5) [OF _ _ _ _ assms(3) request_bodies(6)]]) (simp_all add: handle_response_ok)

lemma direct_get_xattr:
  assumes "ci_open_until (cl_circuit c) = None" "cl_base_url c = base"
  shows "client_get_xattr (direct_net W S V base) p a c (sv, t) =
    deliver W (\<lambda>m. m) c sv t (get_xattr_request (sp_base64 S) V p a t (sv_app sv))"
  unfolding client_get_xattr_def
  by (rule call_direct [OF assms(1,2) serve_xattr(1)]) (simp_all add: handle_response_ok)

lemma direct_set_xattr:
  assumes "ci_open_until (cl_circuit c) = None" "cl_base_url c = base" "accepts S (set_xattr_body p a v)"
  shows "client_set_xattr (direct_net W S V base) p a v c (sv, t) =
    deliver W (\<lambda>m. m) c sv t (set_xattr_request (sp_base64 S) V \<lparr>sx_path = p, sx_name = a, sx_value = v\<rparr> t (sv_app sv))"
  unfolding client_set_xattr_def
  by (rule call_direct [OF assms(1,2) serve_xattr(2) [OF _ _ _ _ assms(3) request_bodies(7)]]) (simp_all add: handle_response_ok)

lemma direct_list_xattr:
  assumes "ci_open_until (cl_circuit c) = None" "cl_base_url c = base"
  shows "client_list_xattr (direct_net W S V base) p c (sv, t) =
    deliver W (\<lambda>ns. ns) c sv t (list_xattr_request V p t (sv_app sv))"
  unfolding client_list_xattr_def
  by (rule call_direct [OF assms(1,2) serve_xattr(4)]) (simp_all add: handle_response_ok)

lemma direct_remove_xattr:
  assumes "ci_open_until (cl_circuit c) = None" "cl_base_url c = base"
  shows "client_remove_xattr (direct_net W S V base) p a c (sv, t) =
    deliver W (\<lambda>m. m) c sv t (remove_xattr_request V p a t (sv_app sv))"
  unfolding client_remove_xattr_def
  by (rule call_direct [OF assms(1,2) serve_xattr(3)]) (simp_all add: handle_response_ok)

text \<open>
  \<^bold>\<open>C4\<close>. Remote procedure calls: with the circuit closed, every file call of the client is exactly one call of
  its handler on the server's state. A value comes back as the handler gave it, an error comes
  back with its code, message and detail, and in both cases the failure count is reset; a panic is an error that is counted.
  Reading a file is the exception: its handler answers with a JSON string and the client takes the body as it stands,
  so the caller gets the JSON text of the contents.
\<close>

theorem client_calls_handlers:
  assumes c: "ci_open_until (cl_circuit c) = None" "cl_base_url c = base"
    and ok: "\<And>j. j \<in> {write_body p d x, mkdir_body p perm, rename_body p q, chmod_body p mo, truncate_body p n,
      symlink_body q p, set_xattr_body p a v} \<Longrightarrow> accepts S j"
    and off: "pred_option is_i64 x" "n \<le> u64_max"
    and sz: "\<And>md. fst (stat_request (sp_fmt_time S) V p t (sv_app sv)) = Ok md \<Longrightarrow> mr_size md \<le> u64_max"
      "\<And>es e. fst (list_directory (sp_fmt_time S) V p t (sv_app sv)) = Ok es \<Longrightarrow> e \<in> set es \<Longrightarrow> de_size e \<le> u64_max"
  shows "let N = direct_net W S V base; app = sv_app sv; msg = deliver W (\<lambda>m. m) c sv t in
    client_read_file N p c (sv, t) = deliver W (\<lambda>s. wt_json_text W (JStr s)) c sv t (read_file V p t app) \<and>
    client_create_file N p c (sv, t) = msg (create_file V p t app) \<and>
    client_write_file N p d x c (sv, t) = msg (write_file V \<lparr>wr_path = p, wr_data = d, wr_offset = x\<rparr> t app) \<and>
    client_remove N p c (sv, t) = msg (delete_file V p t app) \<and>
    client_mkdir N p perm c (sv, t) = msg (create_directory V \<lparr>cdr_path = p, cdr_perm = perm\<rparr> t app) \<and>
    client_read_dir N p c (sv, t) =
      deliver W (map client_entry) c sv t (list_directory (sp_fmt_time S) V p t app) \<and>
    client_stat N p c (sv, t) = deliver W client_metadata c sv t (stat_request (sp_fmt_time S) V p t app) \<and>
    client_rename N p q c (sv, t) = msg (rename_request V \<lparr>rr_old_path = p, rr_new_path = q\<rparr> t app) \<and>
    client_chmod N p mo c (sv, t) = msg (chmod_request V \<lparr>cr_path = p, cr_mode = mo\<rparr> t app) \<and>
    client_truncate N p n c (sv, t) = msg (truncate_request V \<lparr>tr_path = p, tr_size = n\<rparr> t app) \<and>
    client_symlink N q p c (sv, t) = msg (symlink_request V \<lparr>sr_target = q, sr_link_path = p\<rparr> t app) \<and>
    client_get_xattr N p a c (sv, t) = msg (get_xattr_request (sp_base64 S) V p a t app) \<and>
    client_set_xattr N p a v c (sv, t) =
      msg (set_xattr_request (sp_base64 S) V \<lparr>sx_path = p, sx_name = a, sx_value = v\<rparr> t app) \<and>
    client_list_xattr N p c (sv, t) = deliver W (\<lambda>ns. ns) c sv t (list_xattr_request V p t app) \<and>
    client_remove_xattr N p a c (sv, t) = msg (remove_xattr_request V p a t app)"
proof -
  have acc: "accepts S (write_body p d x)" "accepts S (mkdir_body p perm)" "accepts S (rename_body p q)"
    "accepts S (chmod_body p mo)" "accepts S (truncate_body p n)" "accepts S (symlink_body q p)"
    "accepts S (set_xattr_body p a v)"
    by (simp_all add: ok)
  have "client_stat (direct_net W S V base) p c (sv, t) =
      deliver W client_metadata c sv t (stat_request (sp_fmt_time S) V p t (sv_app sv))"
    by (rule direct_stat [OF c sz(1)])
  moreover have "client_read_dir (direct_net W S V base) p c (sv, t) =
      deliver W (map client_entry) c sv t (list_directory (sp_fmt_time S) V p t (sv_app sv))"
    by (rule direct_read_dir [OF c sz(2)])
  ultimately show ?thesis
    unfolding Let_def direct_read_file [OF c] direct_create_file [OF c] direct_write_file [OF c acc(1) off(1)]
      direct_remove [OF c] direct_mkdir [OF c acc(2)]
      direct_rename [OF c acc(3)] direct_chmod [OF c acc(4)] direct_truncate [OF c acc(5) off(2)]
      direct_symlink [OF c acc(6)] direct_get_xattr [OF c] direct_set_xattr [OF c acc(7)] direct_list_xattr [OF c]
      direct_remove_xattr [OF c]
    by simp
qed

text \<open>Parameters for examples: a framework that rejects nothing, and JSON strings in quotes.\<close>

definition plain_params :: server_params where
  "plain_params = \<lparr>sp_axum = \<lparr>ax_query_rejection = \<lparr>hp_status = 400, hp_body = B_Text []\<rparr>,
       ax_body_rejection = (\<lambda>_. None), ax_json_rejection = \<lparr>hp_status = 422, hp_body = B_Text []\<rparr>,
       ax_not_found = \<lparr>hp_status = 404, hp_body = B_Text []\<rparr>,
       ax_method_not_allowed = \<lparr>hp_status = 405, hp_body = B_Text []\<rparr>,
       ax_metrics = (\<lambda>_ _. \<lparr>hp_status = 200, hp_body = B_Text []\<rparr>), ax_version = ''0.1.0''\<rparr>,
     sp_crypto = \<lparr>bc_hash = (\<lambda>p. Some p), bc_verify = (\<lambda>p h. Some (p = h)), jw_encode = (\<lambda>_ c _. Inr (cm_sub c))\<rparr>,
     sp_base64 = \<lparr>b64_encode = (\<lambda>b. b), b64_decode = Some\<rparr>, sp_fmt_time = (\<lambda>_. [])\<rparr>"

definition plain_texts :: wire_texts where
  "plain_texts = \<lparr>wt_json_text = (\<lambda>j. case j of JStr s \<Rightarrow> [CHR 0x22] @ s @ [CHR 0x22] | _ \<Rightarrow> []),
     wt_decode_error = \<lparr>re_connect = False, re_timeout = False, re_message = []\<rparr>,
     wt_status_text = (\<lambda>_. []), wt_lost = [], wt_no_host = []\<rparr>"

definition plain_server :: "'s \<Rightarrow> 's Server" where
  "plain_server s = \<lparr>sv_app = app_state_new s 2,
     sv_auth = auth_api_state_new (sp_crypto plain_params) ''1'' ''2'' ''3'' (jwt_config_default [])\<rparr>"

lemma accepts_plain: "accepts plain_params j"
  by (simp add: accepts_def plain_params_def)

lemma plain_root:
  "fst (stat_request (sp_fmt_time plain_params) mem_fs ''/'' 1 (sv_app (plain_server (mem_new 0)))) =
     Ok (metadata_response (\<lambda>_. []) (metadata_directory 0 ''/''))"
  "fst (list_directory (sp_fmt_time plain_params) mem_fs ''/'' 1 (sv_app (plain_server (mem_new 0)))) = Ok []"
proof -
  let ?st = "sv_app (plain_server (mem_new 0))"
  have v: "validate_path ''/'' = Ok ()" by (simp add: validate_path_def starts_with_def MAX_PATH_LEN_def)
  have "fst (mem_stat ''/'' 1 (mem_new 0)) = Ok (metadata_directory 0 ''/'')" by code_simp
  then have "\<exists>s. fs_stat mem_fs ''/'' 1 (as_vfs ?st) = (Ok (metadata_directory 0 ''/''), s)"
    by (cases "mem_stat ''/'' 1 (mem_new 0)") (simp add: mem_fs_def plain_server_def app_state_new_def)
  then obtain s where "fs_stat mem_fs ''/'' 1 (as_vfs ?st) = (Ok (metadata_directory 0 ''/''), s)" by blast
  from stat_request_miss [OF v _ _ this, of "\<lambda>_. []"]
  show "fst (stat_request (sp_fmt_time plain_params) mem_fs ''/'' 1 ?st) =
     Ok (metadata_response (\<lambda>_. []) (metadata_directory 0 ''/''))"
    by (simp add: plain_params_def plain_server_def app_state_new_def sc_new_with_ttl_def sc_lookup_def)
  have "fst (mem_read_dir ''/'' 1 (mem_new 0)) = Ok []" by code_simp
  then show "fst (list_directory (sp_fmt_time plain_params) mem_fs ''/'' 1 ?st) = Ok []"
    by (cases "mem_read_dir ''/'' 1 (mem_new 0)")
      (simp add: list_directory_def v vfs_then_def mem_fs_def plain_server_def app_state_new_def)
qed

theorem client_calls_handlers_witness:
  "let N = direct_net plain_texts plain_params mem_fs ''http://h''; sv = plain_server (mem_new 0);
       c = client_new ''http://h''
   in client_stat N ''/'' c (sv, 1) =
        deliver plain_texts client_metadata c sv 1 (stat_request (\<lambda>_. []) mem_fs ''/'' 1 (sv_app sv)) \<and>
      (\<exists>md. fst (client_stat N ''/'' c (sv, 1)) = Ok md \<and> fmr_file_type md = ''directory'')"
proof -
  let ?sv = "plain_server (mem_new 0)" and ?c = "client_new ''http://h''"
  let ?N = "direct_net plain_texts plain_params mem_fs ''http://h''"
  have fmt: "sp_fmt_time plain_params = (\<lambda>_. [])" by (simp add: plain_params_def)
  have "client_stat ?N ''/'' ?c (?sv, 1) =
      deliver plain_texts client_metadata ?c ?sv 1 (stat_request (sp_fmt_time plain_params) mem_fs ''/'' 1 (sv_app ?sv))"
    using client_calls_handlers [where c = ?c and base = "''http://h''" and S = plain_params and V = mem_fs and sv = ?sv
        and t = 1 and p = "''/''" and x = None and n = 0 and W = plain_texts] plain_root
    by (simp add: accepts_plain client_new_def Let_def metadata_response_def metadata_directory_def)
  moreover have "file_type (metadata_directory 0 ''/'') = ''directory''" by code_simp
  ultimately show ?thesis using plain_root(1) [unfolded fmt] unfolding fmt
    by (cases "stat_request (\<lambda>_. []) mem_fs ''/'' 1 (sv_app ?sv)")
      (simp add: deliver_def client_metadata_def metadata_response_def)
qed

end
