(* ===== verification/Fuse_Cache.thy ===== *)
theory Fuse_Cache
  imports Inode_Manager Rest_Client Stat_Cache
begin

text \<open>
  \<open>racfs-fuse/src/cache.rs\<close>: the caches of the FUSE front end (metadata and listings with a
  time to live, file contents) and its write-back buffer. The maps are those of the crate \<open>dashmap\<close>,
  the parameter \<open>F\<close>; clock readings are arguments.
\<close>

definition DEFAULT_TTL_SECS :: nat where "DEFAULT_TTL_SECS = 1"
definition DEFAULT_WRITE_BACK_MAX_CHUNK :: nat where "DEFAULT_WRITE_BACK_MAX_CHUNK = 64 * 1024"
definition DEFAULT_WRITE_BACK_FLUSH_SIZE :: nat where "DEFAULT_WRITE_BACK_FLUSH_SIZE = 256 * 1024"

record 'v CacheEntry =
  ce_value :: 'v
  ce_expires_at :: time

definition cache_entry_new :: "'v \<Rightarrow> time \<Rightarrow> time \<Rightarrow> ('v CacheEntry, 'e) outcome" where
  "cache_entry_new v ttl now =
     (if instant_max < now + ttl then Panic else Ok \<lparr>ce_value = v, ce_expires_at = now + ttl\<rparr>)"

definition is_valid :: "'v CacheEntry \<Rightarrow> time \<Rightarrow> bool" where
  "is_valid e now \<longleftrightarrow> now < ce_expires_at e"

type_synonym segment = "nat \<times> bytes"

record WriteBackEntry =
  wb_segments :: "segment list"
  wb_total_bytes :: nat

definition write_back_push :: "nat \<Rightarrow> bytes \<Rightarrow> WriteBackEntry \<Rightarrow> nat \<times> WriteBackEntry" where
  "write_back_push off d e =
     (let n = u64_add (wb_total_bytes e) (length d)
      in (n, \<lparr>wb_segments = wb_segments e @ [(off, d)], wb_total_bytes = n\<rparr>))"

record ('a, 'b, 'c, 'd) fuse_maps =
  fm_stat :: "('a, path, FileMetadataResponse CacheEntry) dash_api"
  fm_readdir :: "('b, path, ClientDirectoryEntry list CacheEntry) dash_api"
  fm_content :: "('c, path, bytes) dash_api"
  fm_write_back :: "('d, path, WriteBackEntry) dash_api"

record ('a, 'b, 'c, 'd) FuseCache =
  fc_ttl :: time
  fc_stat_cache :: 'a
  fc_readdir_cache :: 'b
  fc_file_content_cache :: 'c
  fc_write_back :: 'd
  fc_hits :: nat
  fc_misses :: nat

definition fuse_cache_new :: "('a, 'b, 'c, 'd) fuse_maps \<Rightarrow> time \<Rightarrow> ('a, 'b, 'c, 'd) FuseCache" where
  "fuse_cache_new F ttl = \<lparr>fc_ttl = ttl, fc_stat_cache = dm_empty (fm_stat F),
     fc_readdir_cache = dm_empty (fm_readdir F), fc_file_content_cache = dm_empty (fm_content F),
     fc_write_back = dm_empty (fm_write_back F), fc_hits = 0, fc_misses = 0\<rparr>"

definition with_default_ttl :: "('a, 'b, 'c, 'd) fuse_maps \<Rightarrow> ('a, 'b, 'c, 'd) FuseCache" where
  "with_default_ttl F = fuse_cache_new F (DEFAULT_TTL_SECS * 10 ^ 9)"

definition hit :: "('a, 'b, 'c, 'd) FuseCache \<Rightarrow> ('a, 'b, 'c, 'd) FuseCache" where
  "hit c = c\<lparr>fc_hits := u64_add (fc_hits c) 1\<rparr>"

definition miss :: "('a, 'b, 'c, 'd) FuseCache \<Rightarrow> ('a, 'b, 'c, 'd) FuseCache" where
  "miss c = c\<lparr>fc_misses := u64_add (fc_misses c) 1\<rparr>"

definition get_stat :: "('a, 'b, 'c, 'd) fuse_maps \<Rightarrow> path \<Rightarrow> time \<Rightarrow> ('a, 'b, 'c, 'd) FuseCache \<Rightarrow>
    FileMetadataResponse option \<times> ('a, 'b, 'c, 'd) FuseCache" where
  "get_stat F p now c =
     (case dm_get (fm_stat F) (fc_stat_cache c) p of
        None \<Rightarrow> (None, miss c)
      | Some e \<Rightarrow>
          if is_valid e now then (Some (ce_value e), hit c)
          else (None, miss (c\<lparr>fc_stat_cache := dm_remove (fm_stat F) (fc_stat_cache c) p\<rparr>)))"

definition get_stat_stale :: "('a, 'b, 'c, 'd) fuse_maps \<Rightarrow> path \<Rightarrow> ('a, 'b, 'c, 'd) FuseCache \<Rightarrow> FileMetadataResponse option" where
  "get_stat_stale F p c = map_option ce_value (dm_get (fm_stat F) (fc_stat_cache c) p)"

definition put_stat :: "('a, 'b, 'c, 'd) fuse_maps \<Rightarrow> path \<Rightarrow> FileMetadataResponse \<Rightarrow> time \<Rightarrow>
    ('a, 'b, 'c, 'd) FuseCache \<Rightarrow> (('a, 'b, 'c, 'd) FuseCache, 'e) outcome" where
  "put_stat F p md now c =
     and_then (cache_entry_new md (fc_ttl c) now) (\<lambda>e.
     Ok (c\<lparr>fc_stat_cache := dm_insert (fm_stat F) (fc_stat_cache c) p e\<rparr>))"

definition get_readdir :: "('a, 'b, 'c, 'd) fuse_maps \<Rightarrow> path \<Rightarrow> time \<Rightarrow> ('a, 'b, 'c, 'd) FuseCache \<Rightarrow>
    ClientDirectoryEntry list option \<times> ('a, 'b, 'c, 'd) FuseCache" where
  "get_readdir F p now c =
     (case dm_get (fm_readdir F) (fc_readdir_cache c) p of
        None \<Rightarrow> (None, miss c)
      | Some e \<Rightarrow>
          if is_valid e now then (Some (ce_value e), hit c)
          else (None, miss (c\<lparr>fc_readdir_cache := dm_remove (fm_readdir F) (fc_readdir_cache c) p\<rparr>)))"

definition get_readdir_stale :: "('a, 'b, 'c, 'd) fuse_maps \<Rightarrow> path \<Rightarrow> ('a, 'b, 'c, 'd) FuseCache \<Rightarrow>
    ClientDirectoryEntry list option" where
  "get_readdir_stale F p c = map_option ce_value (dm_get (fm_readdir F) (fc_readdir_cache c) p)"

definition put_readdir :: "('a, 'b, 'c, 'd) fuse_maps \<Rightarrow> path \<Rightarrow> ClientDirectoryEntry list \<Rightarrow> time \<Rightarrow>
    ('a, 'b, 'c, 'd) FuseCache \<Rightarrow> (('a, 'b, 'c, 'd) FuseCache, 'e) outcome" where
  "put_readdir F p es now c =
     and_then (cache_entry_new es (fc_ttl c) now) (\<lambda>e.
     Ok (c\<lparr>fc_readdir_cache := dm_insert (fm_readdir F) (fc_readdir_cache c) p e\<rparr>))"

definition fuse_invalidate :: "('a, 'b, 'c, 'd) fuse_maps \<Rightarrow> path \<Rightarrow> ('a, 'b, 'c, 'd) FuseCache \<Rightarrow>
    ('a, 'b, 'c, 'd) FuseCache" where
  "fuse_invalidate F p c =
     (let rd = dm_remove (fm_readdir F) (fc_readdir_cache c) p
      in c\<lparr>fc_stat_cache := dm_remove (fm_stat F) (fc_stat_cache c) p,
           fc_readdir_cache := (case parent p of Some q \<Rightarrow> dm_remove (fm_readdir F) rd q | None \<Rightarrow> rd),
           fc_file_content_cache := dm_remove (fm_content F) (fc_file_content_cache c) p,
           fc_write_back := dm_remove (fm_write_back F) (fc_write_back c) p\<rparr>)"

definition fuse_invalidate_rename :: "('a, 'b, 'c, 'd) fuse_maps \<Rightarrow> path \<Rightarrow> path \<Rightarrow> ('a, 'b, 'c, 'd) FuseCache \<Rightarrow>
    ('a, 'b, 'c, 'd) FuseCache" where
  "fuse_invalidate_rename F old new c =
     (let c1 = fuse_invalidate F new (fuse_invalidate F old c)
      in c1\<lparr>fc_readdir_cache := (case parent new of
             Some q \<Rightarrow> dm_remove (fm_readdir F) (fc_readdir_cache c1) q | None \<Rightarrow> fc_readdir_cache c1),
           fc_file_content_cache :=
             dm_remove (fm_content F) (dm_remove (fm_content F) (fc_file_content_cache c1) old) new,
           fc_write_back :=
             dm_remove (fm_write_back F) (dm_remove (fm_write_back F) (fc_write_back c1) old) new\<rparr>)"

definition get_file_content :: "('a, 'b, 'c, 'd) fuse_maps \<Rightarrow> path \<Rightarrow> ('a, 'b, 'c, 'd) FuseCache \<Rightarrow> bytes option" where
  "get_file_content F p c = dm_get (fm_content F) (fc_file_content_cache c) p"

definition put_file_content :: "('a, 'b, 'c, 'd) fuse_maps \<Rightarrow> path \<Rightarrow> bytes \<Rightarrow> ('a, 'b, 'c, 'd) FuseCache \<Rightarrow>
    ('a, 'b, 'c, 'd) FuseCache" where
  "put_file_content F p d c = c\<lparr>fc_file_content_cache := dm_insert (fm_content F) (fc_file_content_cache c) p d\<rparr>"

definition invalidate_file_content :: "('a, 'b, 'c, 'd) fuse_maps \<Rightarrow> path \<Rightarrow> ('a, 'b, 'c, 'd) FuseCache \<Rightarrow>
    ('a, 'b, 'c, 'd) FuseCache" where
  "invalidate_file_content F p c = c\<lparr>fc_file_content_cache := dm_remove (fm_content F) (fc_file_content_cache c) p\<rparr>"

definition push_write_back :: "('a, 'b, 'c, 'd) fuse_maps \<Rightarrow> path \<Rightarrow> nat \<Rightarrow> bytes \<Rightarrow> ('a, 'b, 'c, 'd) FuseCache \<Rightarrow>
    nat \<times> ('a, 'b, 'c, 'd) FuseCache" where
  "push_write_back F p off d c =
     (let e = (case dm_get (fm_write_back F) (fc_write_back c) p of
            Some e \<Rightarrow> e | None \<Rightarrow> \<lparr>wb_segments = [], wb_total_bytes = 0\<rparr>);
          (n, e') = write_back_push off d e
      in (n, c\<lparr>fc_write_back := dm_insert (fm_write_back F) (fc_write_back c) p e'\<rparr>))"

definition take_pending_writes :: "('a, 'b, 'c, 'd) fuse_maps \<Rightarrow> path \<Rightarrow> ('a, 'b, 'c, 'd) FuseCache \<Rightarrow>
    segment list \<times> ('a, 'b, 'c, 'd) FuseCache" where
  "take_pending_writes F p c =
     (case dm_get (fm_write_back F) (fc_write_back c) p of
        Some e \<Rightarrow> (wb_segments e, c\<lparr>fc_write_back := dm_remove (fm_write_back F) (fc_write_back c) p\<rparr>)
      | None \<Rightarrow> ([], c))"

subsection \<open>Laws\<close>

definition fuse_laws :: "('a, 'b, 'c, 'd) fuse_maps \<Rightarrow> bool" where
  "fuse_laws F \<longleftrightarrow> dash_laws path_eq (fm_stat F) \<and> dash_laws path_eq (fm_readdir F) \<and>
     dash_laws path_eq (fm_content F) \<and> dash_laws path_eq (fm_write_back F)"

definition list_fuse_maps :: "((path \<times> FileMetadataResponse CacheEntry) list,
    (path \<times> ClientDirectoryEntry list CacheEntry) list, (path \<times> bytes) list, (path \<times> WriteBackEntry) list) fuse_maps" where
  "list_fuse_maps = \<lparr>fm_stat = list_dash path_eq, fm_readdir = list_dash path_eq,
     fm_content = list_dash path_eq, fm_write_back = list_dash path_eq\<rparr>"

lemma list_fuse_laws: "fuse_laws list_fuse_maps"
  by (simp add: fuse_laws_def list_fuse_maps_def list_dash_laws)

text \<open>Once a lookup has missed, nothing stale is left to serve.\<close>

lemma get_stat_miss_not_stale:
  assumes "fuse_laws F" "get_stat F p now c = (None, c')"
  shows "get_stat_stale F p c' = None"
  using assms dash_lawsD(3) [of path_eq "fm_stat F"]
  by (auto simp: get_stat_def get_stat_stale_def miss_def hit_def fuse_laws_def split: option.splits if_splits)

lemma get_readdir_miss_not_stale:
  assumes "fuse_laws F" "get_readdir F p now c = (None, c')"
  shows "get_readdir_stale F p c' = None"
  using assms dash_lawsD(3) [of path_eq "fm_readdir F"]
  by (auto simp: get_readdir_def get_readdir_stale_def miss_def hit_def fuse_laws_def split: option.splits if_splits)

end
