(* ===== verification/Async_Fs.thy ===== *)
theory Async_Fs
  imports Fuse_Cache Server_Api
begin

text \<open>
  \<open>racfs-fuse/src/async_fs.rs\<close>: the operations of the FUSE front end over the HTTP client, the inode
  manager and the caches. The state is the front end and the world of the client; \<open>P\<close> bundles
  the third-party parts (network, maps, base64). An operation that fails returns the error number it reports to the
  kernel. Logging is left out.
\<close>

unbundle bit_operations_syntax

subsection \<open>Merging of buffered writes\<close>

text \<open>The loop over the sorted segments; a run that would outgrow a vector panics.\<close>

fun merge_loop :: "segment list \<Rightarrow> segment list \<Rightarrow> (segment list, 'e) outcome" where
  "merge_loop result [] = Ok result"
| "merge_loop result ((off, data) # segs) =
     (if result = [] then merge_loop [(off, data)] segs
      else
        (let (lo, ld) = last result
         in if off \<le> u64_add lo (length ld) then
              (let start = off - lo; stop = u64_add start (length data)
               in and_then (if stop > length ld then vec_resize stop ld else Ok ld) (\<lambda>v.
                  and_then (vec_copy_from_slice start stop data v) (\<lambda>v'.
                  merge_loop (butlast result @ [(lo, v')]) segs)))
            else merge_loop (result @ [(off, data)]) segs))"

definition merge_write_segments :: "segment list \<Rightarrow> (segment list, 'e) outcome" where
  "merge_write_segments segs = (if segs = [] then Ok segs else merge_loop [] (sort_key fst segs))"

subsection \<open>Attributes\<close>

datatype Errno = ENOENT | EIO | EINVAL | ENOATTR | EAGAIN | ERANGE

datatype FileType = FT_Directory | FT_Symlink | FT_RegularFile

record FileAttr =
  fa_ino :: inode
  fa_size :: nat
  fa_blocks :: nat
  fa_atime :: nat
  fa_mtime :: nat
  fa_ctime :: nat
  fa_crtime :: nat
  fa_kind :: FileType
  fa_perm :: "16 word"
  fa_nlink :: nat
  fa_uid :: nat
  fa_gid :: nat
  fa_rdev :: nat
  fa_blksize :: nat
  fa_flags :: nat

text \<open>
  The characters are compared one by one; a string of fewer than nine characters gives no
  permission. A byte of a longer character is never one of the letters.
\<close>

definition perm_bit :: "string \<Rightarrow> nat \<Rightarrow> char \<Rightarrow> mode \<Rightarrow> mode" where
  "perm_bit cs i c m = (if cs ! i = c then m else 0)"

text \<open>\<open>chars()\<close>: every character by its first byte.\<close>

definition char_heads :: "string \<Rightarrow> char list" where
  "char_heads s = filter (\<lambda>c. \<not> is_cont c) s"

definition parse_permissions :: "string \<Rightarrow> mode" where
  "parse_permissions perms =
     (let cs = char_heads perms
      in if length cs \<ge> 9 then
           perm_bit cs 0 (CHR ''r'') 0x100 OR perm_bit cs 1 (CHR ''w'') 0x80 OR perm_bit cs 2 (CHR ''x'') 0x40 OR
           perm_bit cs 3 (CHR ''r'') 0x20 OR perm_bit cs 4 (CHR ''w'') 0x10 OR perm_bit cs 5 (CHR ''x'') 0x8 OR
           perm_bit cs 6 (CHR ''r'') 0x4 OR perm_bit cs 7 (CHR ''w'') 0x2 OR perm_bit cs 8 (CHR ''x'') 0x1
         else 0)"

text \<open>Seconds since the epoch.\<close>

definition parse_timestamp :: "string \<Rightarrow> nat" where
  "parse_timestamp s = 0"

definition metadata_to_attr :: "inode \<Rightarrow> FileMetadataResponse \<Rightarrow> FileAttr" where
  "metadata_to_attr i md =
     (let kind = (if fmr_file_type md = ''directory'' then FT_Directory
            else if fmr_file_type md = ''symlink'' then FT_Symlink else FT_RegularFile);
          mtime = (case fmr_modified md of Some s \<Rightarrow> parse_timestamp s | None \<Rightarrow> 0)
      in \<lparr>fa_ino = i, fa_size = fmr_size md, fa_blocks = (fmr_size md + 511) div 512,
          fa_atime = mtime, fa_mtime = mtime, fa_ctime = mtime, fa_crtime = mtime, fa_kind = kind,
          fa_perm = ucast (parse_permissions (fmr_permissions md)),
          fa_nlink = (if kind = FT_Directory then 2 else 1), fa_uid = 1000, fa_gid = 1000, fa_rdev = 0,
          fa_blksize = 4096, fa_flags = 0\<rparr>)"

subsection \<open>State\<close>

record ('a, 'b, 'c, 'd, 'e, 'f) RacfsAsyncFs =
  rf_client :: Client
  rf_inodes :: "('e, 'f) InodeManager"
  rf_cache :: "('a, 'b, 'c, 'd) FuseCache"

record ('a, 'b, 'c, 'd, 'e, 'f, 'w) fuse_params =
  fp_net :: "'w net_api"
  fp_maps :: "('a, 'b, 'c, 'd) fuse_maps"
  fp_paths :: "('e, inode, path) dash_api"
  fp_inodes :: "('f, path, inode) dash_api"
  fp_base64 :: base64_api

type_synonym ('a, 'b, 'c, 'd, 'e, 'f, 'w, 'r) fuse_op =
  "('a, 'b, 'c, 'd, 'e, 'f) RacfsAsyncFs \<times> 'w \<Rightarrow> ('r, Errno) outcome \<times> ('a, 'b, 'c, 'd, 'e, 'f) RacfsAsyncFs \<times> 'w"

definition with_cache :: "('a, 'b, 'c, 'd, 'e, 'f, 'w) fuse_params \<Rightarrow> string \<Rightarrow> ('a, 'b, 'c, 'd) FuseCache \<Rightarrow>
    ('a, 'b, 'c, 'd, 'e, 'f) RacfsAsyncFs" where
  "with_cache P url cache = \<lparr>rf_client = client_new url,
     rf_inodes = inode_manager_new (fp_paths P) (fp_inodes P), rf_cache = cache\<rparr>"

definition async_fs_new :: "('a, 'b, 'c, 'd, 'e, 'f, 'w) fuse_params \<Rightarrow> string \<Rightarrow> ('a, 'b, 'c, 'd, 'e, 'f) RacfsAsyncFs" where
  "async_fs_new P url = with_cache P url (with_default_ttl (fp_maps P))"

text \<open>Sequencing with early return, and the accesses to the parts of the state.\<close>

definition fbind :: "('s \<Rightarrow> ('r, Errno) outcome \<times> 's) \<Rightarrow> ('r \<Rightarrow> 's \<Rightarrow> ('q, Errno) outcome \<times> 's) \<Rightarrow> 's \<Rightarrow> ('q, Errno) outcome \<times> 's" where
  "fbind m k s =
     (case m s of
        (Ok a, s') \<Rightarrow> k a s'
      | (Err e, s') \<Rightarrow> (Err e, s')
      | (Panic, s') \<Rightarrow> (Panic, s')
      | (Hang, s') \<Rightarrow> (Hang, s'))"

definition fret :: "'r \<Rightarrow> 's \<Rightarrow> ('r, Errno) outcome \<times> 's" where
  "fret a s = (Ok a, s)"

definition fresult :: "('r, Errno) outcome \<Rightarrow> 's \<Rightarrow> ('r, Errno) outcome \<times> 's" where
  "fresult r s = (r, s)"

definition inode_path :: "('a, 'b, 'c, 'd, 'e, 'f, 'w) fuse_params \<Rightarrow> inode \<Rightarrow> ('a, 'b, 'c, 'd, 'e, 'f, 'w, path) fuse_op" where
  "inode_path P i s = (ok_or (get_path (fp_paths P) i (rf_inodes (fst s))) ENOENT, s)"

definition child_path :: "('a, 'b, 'c, 'd, 'e, 'f, 'w) fuse_params \<Rightarrow> inode \<Rightarrow> string \<Rightarrow> ('a, 'b, 'c, 'd, 'e, 'f, 'w, path) fuse_op" where
  "child_path P dir name = fbind (inode_path P dir) (\<lambda>pp. fret (push pp (from_utf8_lossy name)))"

definition fallocate :: "('a, 'b, 'c, 'd, 'e, 'f, 'w) fuse_params \<Rightarrow> path \<Rightarrow> ('a, 'b, 'c, 'd, 'e, 'f, 'w, inode) fuse_op" where
  "fallocate P p = (\<lambda>(fs, w).
     let (i, m) = allocate (fp_paths P) (fp_inodes P) p (rf_inodes fs) in (Ok i, fs\<lparr>rf_inodes := m\<rparr>, w))"

definition fforget :: "('a, 'b, 'c, 'd, 'e, 'f, 'w) fuse_params \<Rightarrow> path \<Rightarrow> ('a, 'b, 'c, 'd, 'e, 'f, 'w, unit) fuse_op" where
  "fforget P p = (\<lambda>(fs, w).
     case get_inode (fp_inodes P) p (rf_inodes fs) of
       Some i \<Rightarrow> (Ok (), fs\<lparr>rf_inodes := inode_remove (fp_paths P) (fp_inodes P) i (rf_inodes fs)\<rparr>, w)
     | None \<Rightarrow> (Ok (), fs, w))"

definition fcache :: "(('a, 'b, 'c, 'd) FuseCache \<Rightarrow> 'r \<times> ('a, 'b, 'c, 'd) FuseCache) \<Rightarrow> ('a, 'b, 'c, 'd, 'e, 'f, 'w, 'r) fuse_op" where
  "fcache f = (\<lambda>(fs, w). let (r, c) = f (rf_cache fs) in (Ok r, fs\<lparr>rf_cache := c\<rparr>, w))"

definition fcache_put :: "(('a, 'b, 'c, 'd) FuseCache \<Rightarrow> (('a, 'b, 'c, 'd) FuseCache, Errno) outcome) \<Rightarrow>
    ('a, 'b, 'c, 'd, 'e, 'f, 'w, unit) fuse_op" where
  "fcache_put f = (\<lambda>(fs, w).
     case f (rf_cache fs) of
       Ok c \<Rightarrow> (Ok (), fs\<lparr>rf_cache := c\<rparr>, w) | Err e \<Rightarrow> (Err e, fs, w) | Panic \<Rightarrow> (Panic, fs, w) | Hang \<Rightarrow> (Hang, fs, w))"

definition finvalidate :: "('a, 'b, 'c, 'd, 'e, 'f, 'w) fuse_params \<Rightarrow> path \<Rightarrow> ('a, 'b, 'c, 'd, 'e, 'f, 'w, unit) fuse_op" where
  "finvalidate P p = fcache (\<lambda>c. ((), fuse_invalidate (fp_maps P) p c))"

text \<open>A call of the client: its result as a value, or mapped to an error number.\<close>

definition fattempt :: "('w, 'r) client_op \<Rightarrow> ('a, 'b, 'c, 'd, 'e, 'f, 'w, ClientError + 'r) fuse_op" where
  "fattempt op = (\<lambda>(fs, w).
     let (r, c, w') = op (rf_client fs) w; s = (fs\<lparr>rf_client := c\<rparr>, w')
     in case r of
          Ok a \<Rightarrow> (Ok (Inr a), s) | Err e \<Rightarrow> (Ok (Inl e), s) | Panic \<Rightarrow> (Panic, s) | Hang \<Rightarrow> (Hang, s))"

definition fcall :: "Errno \<Rightarrow> ('w, 'r) client_op \<Rightarrow> ('a, 'b, 'c, 'd, 'e, 'f, 'w, 'r) fuse_op" where
  "fcall en op = fbind (fattempt op) (\<lambda>r. fresult (case r of Inr a \<Rightarrow> Ok a | Inl _ \<Rightarrow> Err en))"

text \<open>The errors after which a stale entry may be served.\<close>

definition unreachable :: "ClientError \<Rightarrow> bool" where
  "unreachable e \<longleftrightarrow> (case e of CE_CircuitOpen \<Rightarrow> True | CE_Http _ \<Rightarrow> True | _ \<Rightarrow> False)"

definition TTL :: time where "TTL = 10 ^ 9"

definition fnow :: "('a, 'b, 'c, 'd, 'e, 'f, 'w) fuse_params \<Rightarrow> ('a, 'b, 'c, 'd, 'e, 'f, 'w, time) fuse_op" where
  "fnow P s = (Ok (net_now (fp_net P) (snd s)), s)"

subsection \<open>Write-back\<close>

fun send_segments :: "('a, 'b, 'c, 'd, 'e, 'f, 'w) fuse_params \<Rightarrow> path \<Rightarrow> segment list \<Rightarrow> ('a, 'b, 'c, 'd, 'e, 'f, 'w, unit) fuse_op" where
  "send_segments P p [] = fret ()"
| "send_segments P p ((off, data) # segs) =
     fbind (fcall EIO (client_write_file (fp_net P) (from_utf8_lossy p) (from_utf8_lossy data) (Some (i64_wrap (int off)))))
       (\<lambda>_. send_segments P p segs)"

definition flush_write_back :: "('a, 'b, 'c, 'd, 'e, 'f, 'w) fuse_params \<Rightarrow> path \<Rightarrow> ('a, 'b, 'c, 'd, 'e, 'f, 'w, unit) fuse_op" where
  "flush_write_back P p =
     fbind (fcache (take_pending_writes (fp_maps P) p)) (\<lambda>segments.
       if segments = [] then fret ()
       else
         fbind (fresult (merge_write_segments segments)) (\<lambda>merged.
         fbind (send_segments P p merged) (\<lambda>_.
         finvalidate P p)))"

text \<open>The result of the flush is dropped, except a panic.\<close>

definition release_async :: "('a, 'b, 'c, 'd, 'e, 'f, 'w) fuse_params \<Rightarrow> inode \<Rightarrow> ('a, 'b, 'c, 'd, 'e, 'f, 'w, unit) fuse_op" where
  "release_async P i s =
     (case get_path (fp_paths P) i (rf_inodes (fst s)) of
        Some p \<Rightarrow> (case flush_write_back P p s of (Err _, s') \<Rightarrow> (Ok (), s') | r \<Rightarrow> r)
      | None \<Rightarrow> (Ok (), s))"

subsection \<open>Lookups and attributes\<close>

definition fresh_stat :: "('a, 'b, 'c, 'd, 'e, 'f, 'w) fuse_params \<Rightarrow> path \<Rightarrow> ('a, 'b, 'c, 'd, 'e, 'f, 'w, FileMetadataResponse) fuse_op" where
  "fresh_stat P p =
     fbind (fnow P) (\<lambda>now.
     fbind (fcache (get_stat (fp_maps P) p now)) (\<lambda>cached.
       case cached of
         Some md \<Rightarrow> fret md
       | None \<Rightarrow>
           fbind (fattempt (client_stat (fp_net P) (from_utf8_lossy p))) (\<lambda>r.
             case r of
               Inr md \<Rightarrow>
                 fbind (fnow P) (\<lambda>now. fbind (fcache_put (put_stat (fp_maps P) p md now)) (\<lambda>_. fret md))
             | Inl e \<Rightarrow>
                 fbind (fcache (\<lambda>c. (if unreachable e then get_stat_stale (fp_maps P) p c else None, c))) (\<lambda>stale.
                   fresult (ok_or stale ENOENT)))))"

definition lookup_async :: "('a, 'b, 'c, 'd, 'e, 'f, 'w) fuse_params \<Rightarrow> inode \<Rightarrow> string \<Rightarrow> ('a, 'b, 'c, 'd, 'e, 'f, 'w, time \<times> FileAttr \<times> nat) fuse_op" where
  "lookup_async P dir name =
     fbind (child_path P dir name) (\<lambda>p.
     fbind (fresh_stat P p) (\<lambda>md.
     fbind (fallocate P p) (\<lambda>i.
     fret (TTL, metadata_to_attr i md, 0))))"

definition getattr_async :: "('a, 'b, 'c, 'd, 'e, 'f, 'w) fuse_params \<Rightarrow> inode \<Rightarrow> ('a, 'b, 'c, 'd, 'e, 'f, 'w, time \<times> FileAttr) fuse_op" where
  "getattr_async P i =
     fbind (inode_path P i) (\<lambda>p.
     fbind (fresh_stat P p) (\<lambda>md.
     fret (TTL, metadata_to_attr i md)))"

subsection \<open>Reading\<close>

definition content_slice :: "bytes \<Rightarrow> nat \<Rightarrow> nat \<Rightarrow> (bytes, Errno) outcome" where
  "content_slice data offset n =
     (let stop = min (u64_add offset n) (length data)
      in if offset < length data then index_range data offset stop else Ok [])"

definition read_async :: "('a, 'b, 'c, 'd, 'e, 'f, 'w) fuse_params \<Rightarrow> inode \<Rightarrow> nat \<Rightarrow> nat \<Rightarrow> ('a, 'b, 'c, 'd, 'e, 'f, 'w, bytes) fuse_op" where
  "read_async P i offset n =
     fbind (inode_path P i) (\<lambda>p.
     fbind (fcache (\<lambda>c. (get_file_content (fp_maps P) p c, c))) (\<lambda>cached.
       case cached of
         Some data \<Rightarrow> fresult (content_slice data offset n)
       | None \<Rightarrow>
           fbind (fcall EIO (client_read_file (fp_net P) (from_utf8_lossy p))) (\<lambda>data.
           fbind (fcache (\<lambda>c. ((), put_file_content (fp_maps P) p data c))) (\<lambda>_.
           fresult (content_slice data offset n)))))"

fun dir_entries :: "('a, 'b, 'c, 'd, 'e, 'f, 'w) fuse_params \<Rightarrow> ClientDirectoryEntry list \<Rightarrow>
    ('a, 'b, 'c, 'd, 'e, 'f, 'w, (inode \<times> FileType \<times> string) list) fuse_op" where
  "dir_entries P [] = fret []"
| "dir_entries P (e # es) =
     fbind (fallocate P (cde_path e)) (\<lambda>i.
     fbind (dir_entries P es) (\<lambda>rest.
       (let name = (case file_name (cde_path e) of Some n \<Rightarrow> n | None \<Rightarrow> []);
            kind = (if cde_file_type e = Some ''directory'' then FT_Directory
              else if cde_file_type e = Some ''symlink'' then FT_Symlink
              else if ends_with (cde_path e) ''/'' then FT_Directory else FT_RegularFile)
        in fret ((i, kind, name) # rest))))"

definition readdir_async :: "('a, 'b, 'c, 'd, 'e, 'f, 'w) fuse_params \<Rightarrow> inode \<Rightarrow> nat \<Rightarrow>
    ('a, 'b, 'c, 'd, 'e, 'f, 'w, (inode \<times> FileType \<times> string) list) fuse_op" where
  "readdir_async P i offset =
     fbind (inode_path P i) (\<lambda>p.
     fbind (fnow P) (\<lambda>now.
     fbind (fcache (get_readdir (fp_maps P) p now)) (\<lambda>cached.
     fbind (case cached of
         Some es \<Rightarrow> fret es
       | None \<Rightarrow>
           fbind (fattempt (client_read_dir (fp_net P) (from_utf8_lossy p))) (\<lambda>r.
             case r of
               Inr es \<Rightarrow>
                 fbind (fnow P) (\<lambda>now. fbind (fcache_put (put_readdir (fp_maps P) p es now)) (\<lambda>_. fret es))
             | Inl e \<Rightarrow>
                 fbind (fcache (\<lambda>c. (if unreachable e then get_readdir_stale (fp_maps P) p c else None, c))) (\<lambda>stale.
                   fresult (ok_or stale EIO)))) (\<lambda>es.
     fbind (dir_entries P es) (\<lambda>rest.
     fret (drop offset ([(i, FT_Directory, ''.''), (i, FT_Directory, ''..'')] @ rest)))))))"

subsection \<open>Changes\<close>

text \<open>\<open>stat\<close> after a creation, and the reply with a new inode.\<close>

definition created_reply :: "('a, 'b, 'c, 'd, 'e, 'f, 'w) fuse_params \<Rightarrow> path \<Rightarrow> ('a, 'b, 'c, 'd, 'e, 'f, 'w, time \<times> FileAttr \<times> nat) fuse_op" where
  "created_reply P p =
     fbind (finvalidate P p) (\<lambda>_.
     fbind (fcall EIO (client_stat (fp_net P) (from_utf8_lossy p))) (\<lambda>md.
     fbind (fallocate P p) (\<lambda>i.
     fret (TTL, metadata_to_attr i md, 0))))"

definition create_async :: "('a, 'b, 'c, 'd, 'e, 'f, 'w) fuse_params \<Rightarrow> inode \<Rightarrow> string \<Rightarrow> ('a, 'b, 'c, 'd, 'e, 'f, 'w, time \<times> FileAttr \<times> nat) fuse_op" where
  "create_async P dir name =
     fbind (child_path P dir name) (\<lambda>p.
     fbind (fcall EIO (client_create_file (fp_net P) (from_utf8_lossy p))) (\<lambda>_.
     created_reply P p))"

definition mkdir_async :: "('a, 'b, 'c, 'd, 'e, 'f, 'w) fuse_params \<Rightarrow> inode \<Rightarrow> string \<Rightarrow> mode \<Rightarrow> ('a, 'b, 'c, 'd, 'e, 'f, 'w, time \<times> FileAttr \<times> nat) fuse_op" where
  "mkdir_async P dir name m =
     fbind (child_path P dir name) (\<lambda>p.
     fbind (fcall EIO (client_mkdir (fp_net P) (from_utf8_lossy p) (Some m))) (\<lambda>_.
     created_reply P p))"

definition symlink_async :: "('a, 'b, 'c, 'd, 'e, 'f, 'w) fuse_params \<Rightarrow> inode \<Rightarrow> string \<Rightarrow> bytes \<Rightarrow> ('a, 'b, 'c, 'd, 'e, 'f, 'w, time \<times> FileAttr \<times> nat) fuse_op" where
  "symlink_async P dir name target =
     fbind (child_path P dir name) (\<lambda>p.
     fbind (fcall EIO (client_symlink (fp_net P) (from_utf8_lossy target) (from_utf8_lossy p))) (\<lambda>_.
     created_reply P p))"

definition write_async :: "('a, 'b, 'c, 'd, 'e, 'f, 'w) fuse_params \<Rightarrow> inode \<Rightarrow> nat \<Rightarrow> bytes \<Rightarrow> ('a, 'b, 'c, 'd, 'e, 'f, 'w, nat) fuse_op" where
  "write_async P i offset data =
     fbind (inode_path P i) (\<lambda>p.
       let len = length data mod 2 ^ 32 in
       if length data \<le> DEFAULT_WRITE_BACK_MAX_CHUNK then
         fbind (fcache (push_write_back (fp_maps P) p offset data)) (\<lambda>total.
         fbind (if total \<ge> DEFAULT_WRITE_BACK_FLUSH_SIZE then flush_write_back P p else fret ()) (\<lambda>_.
         fret len))
       else
         fbind (flush_write_back P p) (\<lambda>_.
         fbind (fcall EIO (client_write_file (fp_net P) (from_utf8_lossy p) (from_utf8_lossy data)
             (Some (i64_wrap (int offset))))) (\<lambda>_.
         fbind (finvalidate P p) (\<lambda>_.
         fret len))))"

definition remove_async :: "('a, 'b, 'c, 'd, 'e, 'f, 'w) fuse_params \<Rightarrow> inode \<Rightarrow> string \<Rightarrow> ('a, 'b, 'c, 'd, 'e, 'f, 'w, unit) fuse_op" where
  "remove_async P dir name =
     fbind (child_path P dir name) (\<lambda>p.
     fbind (fforget P p) (\<lambda>_.
     fbind (finvalidate P p) (\<lambda>_.
     fbind (fcall EIO (client_remove (fp_net P) (from_utf8_lossy p))) (\<lambda>_.
     fret ()))))"

definition unlink_async :: "('a, 'b, 'c, 'd, 'e, 'f, 'w) fuse_params \<Rightarrow> inode \<Rightarrow> string \<Rightarrow> ('a, 'b, 'c, 'd, 'e, 'f, 'w, unit) fuse_op" where
  "unlink_async = remove_async"

definition rmdir_async :: "('a, 'b, 'c, 'd, 'e, 'f, 'w) fuse_params \<Rightarrow> inode \<Rightarrow> string \<Rightarrow> ('a, 'b, 'c, 'd, 'e, 'f, 'w, unit) fuse_op" where
  "rmdir_async = remove_async"

definition rename_async :: "('a, 'b, 'c, 'd, 'e, 'f, 'w) fuse_params \<Rightarrow> inode \<Rightarrow> string \<Rightarrow> inode \<Rightarrow> string \<Rightarrow> ('a, 'b, 'c, 'd, 'e, 'f, 'w, unit) fuse_op" where
  "rename_async P dir name newdir newname =
     fbind (child_path P dir name) (\<lambda>old.
     fbind (child_path P newdir newname) (\<lambda>new.
     fbind (fcall EIO (client_rename (fp_net P) (from_utf8_lossy old) (from_utf8_lossy new))) (\<lambda>_.
     fbind (fcache (\<lambda>c. ((), fuse_invalidate_rename (fp_maps P) old new c))) (\<lambda>_.
     fbind (fforget P old) (\<lambda>_.
     fbind (fallocate P new) (\<lambda>_.
     fret ()))))))"

definition chmod_async :: "('a, 'b, 'c, 'd, 'e, 'f, 'w) fuse_params \<Rightarrow> inode \<Rightarrow> mode \<Rightarrow> ('a, 'b, 'c, 'd, 'e, 'f, 'w, time \<times> FileAttr) fuse_op" where
  "chmod_async P i m =
     fbind (inode_path P i) (\<lambda>p.
     fbind (fcall EIO (client_chmod (fp_net P) (from_utf8_lossy p) m)) (\<lambda>_.
     fbind (fcall EIO (client_stat (fp_net P) (from_utf8_lossy p))) (\<lambda>md.
     fret (TTL, metadata_to_attr i md))))"

definition truncate_async :: "('a, 'b, 'c, 'd, 'e, 'f, 'w) fuse_params \<Rightarrow> inode \<Rightarrow> nat \<Rightarrow> ('a, 'b, 'c, 'd, 'e, 'f, 'w, time \<times> FileAttr) fuse_op" where
  "truncate_async P i n =
     fbind (inode_path P i) (\<lambda>p.
     fbind (fcall EIO (client_truncate (fp_net P) (from_utf8_lossy p) n)) (\<lambda>_.
     fbind (finvalidate P p) (\<lambda>_.
     fbind (fcall EIO (client_stat (fp_net P) (from_utf8_lossy p))) (\<lambda>md.
     fret (TTL, metadata_to_attr i md)))))"

definition readlink_async :: "('a, 'b, 'c, 'd, 'e, 'f, 'w) fuse_params \<Rightarrow> inode \<Rightarrow> ('a, 'b, 'c, 'd, 'e, 'f, 'w, bytes) fuse_op" where
  "readlink_async P i =
     fbind (inode_path P i) (\<lambda>p.
     fbind (fcall EIO (client_stat (fp_net P) (from_utf8_lossy p))) (\<lambda>md.
     fresult (ok_or (fmr_symlink_target md) EINVAL)))"

subsection \<open>Extended attributes\<close>

definition getxattr_async :: "('a, 'b, 'c, 'd, 'e, 'f, 'w) fuse_params \<Rightarrow> inode \<Rightarrow> string \<Rightarrow> ('a, 'b, 'c, 'd, 'e, 'f, 'w, bytes) fuse_op" where
  "getxattr_async P i name =
     fbind (inode_path P i) (\<lambda>p.
     fbind (fcall ENOATTR (client_get_xattr (fp_net P) (from_utf8_lossy p) (from_utf8_lossy name))) (\<lambda>v.
     fresult (ok_or (b64_decode (fp_base64 P) v) EIO)))"

definition setxattr_async :: "('a, 'b, 'c, 'd, 'e, 'f, 'w) fuse_params \<Rightarrow> inode \<Rightarrow> string \<Rightarrow> bytes \<Rightarrow> ('a, 'b, 'c, 'd, 'e, 'f, 'w, unit) fuse_op" where
  "setxattr_async P i name v =
     fbind (inode_path P i) (\<lambda>p.
     fbind (fcall EIO (client_set_xattr (fp_net P) (from_utf8_lossy p) (from_utf8_lossy name) (b64_encode (fp_base64 P) v))) (\<lambda>_.
     finvalidate P p))"

definition listxattr_async :: "('a, 'b, 'c, 'd, 'e, 'f, 'w) fuse_params \<Rightarrow> inode \<Rightarrow> ('a, 'b, 'c, 'd, 'e, 'f, 'w, bytes) fuse_op" where
  "listxattr_async P i =
     fbind (inode_path P i) (\<lambda>p.
     fbind (fcall EIO (client_list_xattr (fp_net P) (from_utf8_lossy p))) (\<lambda>names.
     fret (concat (map (\<lambda>n. n @ [CHR 0x00]) names))))"

definition removexattr_async :: "('a, 'b, 'c, 'd, 'e, 'f, 'w) fuse_params \<Rightarrow> inode \<Rightarrow> string \<Rightarrow> ('a, 'b, 'c, 'd, 'e, 'f, 'w, unit) fuse_op" where
  "removexattr_async P i name =
     fbind (inode_path P i) (\<lambda>p.
     fbind (fcall ENOATTR (client_remove_xattr (fp_net P) (from_utf8_lossy p) (from_utf8_lossy name))) (\<lambda>_.
     finvalidate P p))"

subsection \<open>The kernel's directory buffer\<close>

text \<open>
  \<open>AsyncFilesystem::readdir\<close>: entries are added with the offset of the next one until the builder (the crate \<open>fuser\<close>,
  the parameter \<open>add\<close>) is full.
\<close>

fun fill_builder :: "('x \<Rightarrow> inode \<Rightarrow> nat \<Rightarrow> FileType \<Rightarrow> string \<Rightarrow> bool \<times> 'x) \<Rightarrow> nat \<Rightarrow> nat \<Rightarrow>
    (inode \<times> FileType \<times> string) list \<Rightarrow> 'x \<Rightarrow> 'x" where
  "fill_builder add offset k [] b = b"
| "fill_builder add offset k ((i, kind, name) # es) b =
     (let (full, b') = add b i (u64_add (u64_add offset k) 1) kind name
      in if full then b' else fill_builder add offset (k + 1) es b')"

definition fuse_readdir :: "('a, 'b, 'c, 'd, 'e, 'f, 'w) fuse_params \<Rightarrow> ('x \<Rightarrow> inode \<Rightarrow> nat \<Rightarrow> FileType \<Rightarrow> string \<Rightarrow> bool \<times> 'x) \<Rightarrow>
    inode \<Rightarrow> nat \<Rightarrow> 'x \<Rightarrow> ('a, 'b, 'c, 'd, 'e, 'f, 'w, 'x) fuse_op" where
  "fuse_readdir P add i offset b =
     fbind (readdir_async P i offset) (\<lambda>es. fret (fill_builder add offset 0 es b))"

end
