(* ===== verification/Fuse_Writes.thy ===== *)
theory Fuse_Writes
  imports Async_Fs
begin

text \<open>
  The write-back buffer of the FUSE front end: what merging the buffered segments does to a file
  compared with performing the writes one after another, how much is ever
  buffered, and what a failing backend leads to.
\<close>

subsection \<open>Sequences of writes\<close>

definition apply_segments :: "segment list \<Rightarrow> bytes \<Rightarrow> bytes" where
  "apply_segments segs v = foldl (\<lambda>v (off, d). posix_write off d v) v segs"

lemma apply_segments_simps [simp]:
  "apply_segments [] v = v"
  "apply_segments ((off, d) # segs) v = apply_segments segs (posix_write off d v)"
  "apply_segments (xs @ ys) v = apply_segments ys (apply_segments xs v)"
  by (simp_all add: apply_segments_def)

text \<open>A file is its length and its bytes, zero beyond the end.\<close>

definition byte_at :: "bytes \<Rightarrow> nat \<Rightarrow> char" where
  "byte_at v i = (if i < length v then v ! i else CHR 0x00)"

lemma bytes_eqI: "length u = length v \<Longrightarrow> (\<And>i. byte_at u i = byte_at v i) \<Longrightarrow> u = v"
  by (intro nth_equalityI) (auto simp: byte_at_def split: if_splits, metis)

lemma byte_at_posix_write:
  "byte_at (posix_write off d v) i = (if off \<le> i \<and> i < off + length d then byte_at d (i - off) else byte_at v i)"
  by (auto simp: posix_write_def byte_at_def nth_append max_def min_def split: if_splits)

text \<open>A write that starts inside, or right after, the previous one is a single longer write.\<close>

lemma posix_write_merge:
  assumes "lo \<le> off" "off \<le> lo + length ld"
  shows "posix_write off d (posix_write lo ld v) = posix_write lo (posix_write (off - lo) d ld) v"
proof (rule bytes_eqI)
  show "length (posix_write off d (posix_write lo ld v)) = length (posix_write lo (posix_write (off - lo) d ld) v)"
    using assms by (simp add: length_posix_write)
  have "i - off = i - lo - (off - lo)" for i using assms by simp
  then show "byte_at (posix_write off d (posix_write lo ld v)) i =
      byte_at (posix_write lo (posix_write (off - lo) d ld) v) i" for i
    using assms by (auto simp: byte_at_posix_write length_posix_write)
qed

lemma posix_write_commute:
  assumes "o1 + length d1 \<le> o2 \<or> o2 + length d2 \<le> o1"
  shows "posix_write o1 d1 (posix_write o2 d2 v) = posix_write o2 d2 (posix_write o1 d1 v)"
  using assms by (intro bytes_eqI) (auto simp: byte_at_posix_write length_posix_write)

subsection \<open>Merging\<close>

definition segment_ok :: "segment \<Rightarrow> bool" where
  "segment_ok s \<longleftrightarrow> fst s + length (snd s) \<le> isize_max"

lemma run_copy:
  assumes "start \<le> length ld" "start + length d \<le> isize_max"
  shows "and_then (if start + length d > length ld then vec_resize (start + length d) ld else Ok ld)
      (\<lambda>v. and_then (vec_copy_from_slice start (start + length d) d v) k) = k (posix_write start d ld)"
  using assms by (auto simp: vec_resize_def vec_copy_from_slice_def posix_write_def)

lemma merge_loop_correct:
  assumes "\<forall>s \<in> set (result @ segs). segment_ok s" "sorted (map fst (result @ segs))"
  shows "\<exists>runs. merge_loop result segs = Ok runs \<and>
    (\<forall>v. apply_segments runs v = apply_segments (result @ segs) v) \<and> (\<forall>s \<in> set runs. segment_ok s) \<and>
    (result @ segs \<noteq> [] \<longrightarrow> runs \<noteq> [])"
  using assms
proof (induction segs arbitrary: result)
  case (Cons seg segs)
  obtain off d where seg: "seg = (off, d)" by fastforce
  show ?case
  proof (cases "result = []")
    case True
    then show ?thesis using Cons.IH [of "[(off, d)]"] Cons.prems seg by fastforce
  next
    case False
    obtain lo ld where l: "last result = (lo, ld)" by fastforce
    then have result: "result = butlast result @ [(lo, ld)]" using False append_butlast_last_id by metis
    have ok: "segment_ok (lo, ld)" "segment_ok (off, d)"
      using Cons.prems(1) seg result by (metis append_is_Nil_conv in_set_conv_decomp list.set_intros(1) set_append UnCI)+
    have le: "lo \<le> off"
      using Cons.prems(2) seg result by (metis (no_types, lifting) fst_conv in_set_conv_decomp list.set_intros(1)
          list.simps(9) map_append sorted_append)
    have lend: "u64_add lo (length ld) = lo + length ld" using ok(1) by (simp add: segment_ok_def)
    show ?thesis
    proof (cases "off \<le> lo + length ld")
      case True
      let ?r = "butlast result @ [(lo, posix_write (off - lo) d ld)]"
      have stop: "u64_add (off - lo) (length d) = off - lo + length d" using ok(2) le by (simp add: segment_ok_def)
      have "off - lo \<le> length ld" "off - lo + length d \<le> isize_max"
        using True le ok(2) by (auto simp: segment_ok_def)
      from run_copy [OF this, of "\<lambda>v'. merge_loop (butlast result @ [(lo, v')]) segs"]
      have step: "merge_loop result (seg # segs) = merge_loop ?r segs"
        unfolding seg merge_loop.simps(2) Let_def l lend prod.case stop if_P [OF True] if_not_P [OF False] .
      have "segment_ok (lo, posix_write (off - lo) d ld)"
        using ok le by (auto simp: segment_ok_def length_posix_write)
      then have oks: "\<forall>s \<in> set (?r @ segs). segment_ok s"
        using Cons.prems(1) by (auto dest: in_set_butlastD)
      have "sorted (map fst ((butlast result @ [(lo, ld)]) @ seg # segs))"
        using Cons.prems(2) result by simp
      then have sorted: "sorted (map fst (?r @ segs))" by (simp add: sorted_append)
      have same: "apply_segments (?r @ segs) v = apply_segments (result @ seg # segs) v" for v
        using posix_write_merge [OF le True] by (subst (2) result) (simp add: seg)
      show ?thesis using Cons.IH [OF oks sorted] unfolding step same by simp
    next
      case far: False
      have step: "merge_loop result (seg # segs) = merge_loop (result @ [(off, d)]) segs"
        using far False l lend by (simp add: seg)
      show ?thesis using Cons.IH [of "result @ [(off, d)]"] Cons.prems unfolding step by (simp add: seg)
    qed
  qed
qed simp

text \<open>No write goes back into what an earlier one has written.\<close>

definition forward :: "segment list \<Rightarrow> bool" where
  "forward segs \<longleftrightarrow> sorted_wrt (\<lambda>x y. fst x \<le> fst y \<or> fst y + length (snd y) \<le> fst x) segs"

lemma apply_insort:
  "\<forall>y \<in> set ys. fst x \<le> fst y \<or> fst y + length (snd y) \<le> fst x \<Longrightarrow>
     apply_segments (insort_key fst x ys) v = apply_segments (x # ys) v"
proof (induction ys arbitrary: v)
  case (Cons y ys)
  then show ?case
    using posix_write_commute [of "fst y" "snd y" "fst x" "snd x" v]
    by (cases x; cases y) auto
qed simp

lemma apply_sort: "forward segs \<Longrightarrow> apply_segments (sort_key fst segs) v = apply_segments segs v"
proof (induction segs arbitrary: v)
  case (Cons x segs)
  then show ?case by (cases x) (simp add: forward_def apply_insort)
qed simp

text \<open>
  \<^bold>\<open>C8\<close>. Merging the buffered writes of a file: for segments that end within the range of a vector it
  does not panic, and sending the merged runs has the effect of the writes in the order of their offsets,
  writes at the same offset in the order they were made. So when no write goes back into the range of an
  earlier one, the file ends up as if each write had been performed when it was made.
\<close>

theorem fuse_merge:
  assumes "\<forall>(off, d) \<in> set segs. off + length d \<le> isize_max"
  shows "\<exists>runs. merge_write_segments segs = (Ok runs :: (segment list, 'e) outcome) \<and> (runs = [] \<longleftrightarrow> segs = []) \<and>
    (\<forall>v. apply_segments runs v = apply_segments (sort_key fst segs) v) \<and>
    (sorted_wrt (\<lambda>x y. fst x \<le> fst y \<or> fst y + length (snd y) \<le> fst x) segs \<longrightarrow>
       (\<forall>v. apply_segments runs v = apply_segments segs v))"
proof (cases "segs = []")
  case False
  have "\<forall>s \<in> set ([] @ sort_key fst segs). segment_ok s" using assms by (auto simp: segment_ok_def)
  moreover have "sorted (map fst ([] @ sort_key fst segs))" by simp
  ultimately obtain runs where "merge_loop [] (sort_key fst segs) = (Ok runs :: (segment list, 'e) outcome)"
    "\<And>v. apply_segments runs v = apply_segments (sort_key fst segs) v" "sort_key fst segs \<noteq> [] \<longrightarrow> runs \<noteq> []"
    using merge_loop_correct [of "[]" "sort_key fst segs"] by auto
  moreover have "sort_key fst segs \<noteq> []" using False by (metis length_0_conv length_sort)
  ultimately show ?thesis using False
    by (intro exI [of _ runs]) (simp add: merge_write_segments_def apply_sort [unfolded forward_def])
qed (simp add: merge_write_segments_def)

theorem fuse_merge_witness:
  "\<exists>runs. merge_write_segments [(2, ''cd''), (0, ''ab''), (4, ''e'')] = Ok runs \<and> apply_segments runs [] = ''abcde''"
proof -
  have "\<forall>(off, d) \<in> set [(2, ''cd''), (0, ''ab''), (4, ''e'')]. off + length d \<le> isize_max" by simp
  from fuse_merge [OF this] show ?thesis by (auto simp: posix_write_def)
qed

text \<open>A write that goes back over an earlier one loses to it.\<close>

lemma fuse_merge_keeps_older:
  "merge_write_segments [(1, ''a''), (0, ''bb'')] = Ok [(0, ''ba'')] \<and>
   apply_segments [(0, ''ba'')] v \<noteq> apply_segments [(1, ''a''), (0, ''bb'')] v"
proof
  show "merge_write_segments [(1, ''a''), (0, ''bb'')] = Ok [(0, ''ba'')]"
    by (simp add: merge_write_segments_def vec_copy_from_slice_def)
  have "byte_at (apply_segments [(0, ''ba'')] v) 1 \<noteq> byte_at (apply_segments [(1, ''a''), (0, ''bb'')] v) 1"
    by (simp add: byte_at_posix_write) (simp add: byte_at_def)
  then show "apply_segments [(0, ''ba'')] v \<noteq> apply_segments [(1, ''a''), (0, ''bb'')] v" by metis
qed

subsection \<open>How much is buffered\<close>

named_theorems keeps_intros \<open>operations that keep an invariant of the cache\<close>

text \<open>An operation keeps a property of the cache, whatever its result.\<close>

definition keeps :: "(('a, 'b, 'c, 'd) FuseCache \<Rightarrow> bool) \<Rightarrow> ('a, 'b, 'c, 'd, 'e, 'f, 'w, 'r) fuse_op \<Rightarrow> bool" where
  "keeps I m \<longleftrightarrow> (\<forall>s. I (rf_cache (fst s)) \<longrightarrow> I (rf_cache (fst (snd (m s)))))"

lemma keepsI: "(\<And>s. I (rf_cache (fst s)) \<Longrightarrow> I (rf_cache (fst (snd (m s))))) \<Longrightarrow> keeps I m"
  by (simp add: keeps_def)

lemma keepsD: "keeps I m \<Longrightarrow> I (rf_cache (fst s)) \<Longrightarrow> I (rf_cache (fst (snd (m s))))"
  unfolding keeps_def by blast

lemma keeps_fbind [keeps_intros]:
  assumes "keeps I m" "\<And>a. keeps I (k a)"
  shows "keeps I (fbind m k)"
proof (rule keepsI)
  fix s
  obtain r s' where m: "m s = (r, s')" by (cases "m s")
  assume "I (rf_cache (fst s))"
  with assms(1) m have "I (rf_cache (fst s'))" unfolding keeps_def by (metis snd_conv)
  with assms(2) show "I (rf_cache (fst (snd (fbind m k s))))"
    unfolding keeps_def by (cases r; cases s') (auto simp: fbind_def m)
qed

lemma keeps_basic [keeps_intros]:
  "keeps I (fret a)" "keeps I (fresult r)" "keeps I (inode_path P i)" "keeps I (fnow P)"
  "keeps I (fallocate P p)" "keeps I (fforget P p)" "keeps I (fattempt op)"
  by (auto simp: keeps_def fret_def fresult_def inode_path_def fnow_def fallocate_def fforget_def fattempt_def
      Let_def split: prod.splits option.splits outcome.splits)

lemma keeps_cases [keeps_intros]:
  "keeps I a \<Longrightarrow> (\<And>x. keeps I (b x)) \<Longrightarrow> keeps I (case y of None \<Rightarrow> a | Some x \<Rightarrow> b x)"
  "(\<And>x. keeps I (f x)) \<Longrightarrow> (\<And>x. keeps I (g x)) \<Longrightarrow> keeps I (case z of Inl x \<Rightarrow> f x | Inr x \<Rightarrow> g x)"
  by (simp_all split: option.split sum.split)

lemma keeps_fcall [keeps_intros]: "keeps I (fcall en op)"
  unfolding fcall_def by (intro keeps_intros)

lemma keeps_child_path [keeps_intros]: "keeps I (child_path P dir name)"
  unfolding child_path_def by (intro keeps_intros)

lemma keeps_fcache: "(\<And>c. I c \<Longrightarrow> I (snd (f c))) \<Longrightarrow> keeps I (fcache f)"
  by (rule keepsI) (simp add: fcache_def Let_def case_prod_unfold)

lemma keeps_fcache_put: "(\<And>c c'. I c \<Longrightarrow> f c = Ok c' \<Longrightarrow> I c') \<Longrightarrow> keeps I (fcache_put f)"
  by (rule keepsI) (auto simp: fcache_put_def split: prod.splits outcome.splits)

definition entry_bounded :: "WriteBackEntry \<Rightarrow> bool" where
  "entry_bounded e \<longleftrightarrow> wb_total_bytes e = sum_list (map (\<lambda>s. length (snd s)) (wb_segments e)) \<and>
     wb_total_bytes e < DEFAULT_WRITE_BACK_FLUSH_SIZE \<and>
     (\<forall>s \<in> set (wb_segments e). length (snd s) \<le> DEFAULT_WRITE_BACK_MAX_CHUNK)"

text \<open>All files but one (an exception is needed between a push and the flush it causes).\<close>

definition pending_except :: "('a, 'b, 'c, 'd) fuse_maps \<Rightarrow> (path \<Rightarrow> bool) \<Rightarrow> ('a, 'b, 'c, 'd) FuseCache \<Rightarrow> bool" where
  "pending_except F X c \<longleftrightarrow>
     (\<forall>q e. dm_get (fm_write_back F) (fc_write_back c) q = Some e \<longrightarrow> \<not> X q \<longrightarrow> entry_bounded e)"

abbreviation pending_bounded :: "('a, 'b, 'c, 'd) fuse_maps \<Rightarrow> ('a, 'b, 'c, 'd) FuseCache \<Rightarrow> bool" where
  "pending_bounded F \<equiv> pending_except F (\<lambda>_. False)"

lemma pending_exceptD:
  "pending_except F X c \<Longrightarrow> dm_get (fm_write_back F) (fc_write_back c) q = Some e \<Longrightarrow> \<not> X q \<Longrightarrow> entry_bounded e"
  by (simp add: pending_except_def)

lemma pending_same:
  "fc_write_back c' = fc_write_back c \<Longrightarrow> pending_except F X c' \<longleftrightarrow> pending_except F X c"
  by (simp add: pending_except_def)

lemma write_back_laws:
  assumes "fuse_laws F"
  shows "dm_get (fm_write_back F) (dm_insert (fm_write_back F) m k v) q =
      (if path_eq k q then Some v else dm_get (fm_write_back F) m q)"
    and "dm_get (fm_write_back F) (dm_remove (fm_write_back F) m k) q =
      (if path_eq k q then None else dm_get (fm_write_back F) m q)"
    and "dm_get (fm_write_back F) (dm_empty (fm_write_back F)) q = None"
    and "path_eq k q \<Longrightarrow> dm_get (fm_write_back F) m k = dm_get (fm_write_back F) m q"
  using assms dash_lawsD [of path_eq "fm_write_back F"] unfolding fuse_laws_def by blast+

lemma keeps_pending_cache:
  assumes "fuse_laws F"
  shows "keeps (pending_except F X) (fcache (get_stat F p now))"
    and "keeps (pending_except F X) (fcache (get_readdir F p now))"
    and "keeps (pending_except F X) (fcache (\<lambda>c. (f c, c)))"
    and "keeps (pending_except F X) (fcache (\<lambda>c. ((), put_file_content F p d c)))"
    and "keeps (pending_except F X) (fcache (\<lambda>c. ((), fuse_invalidate F p c)))"
    and "keeps (pending_except F X) (fcache (\<lambda>c. ((), fuse_invalidate_rename F p q c)))"
    and "keeps (pending_except F X) (fcache_put (put_stat F p md now))"
    and "keeps (pending_except F X) (fcache_put (put_readdir F p es now))"
    and "keeps (pending_except F X) (fcache (take_pending_writes F p))"
  by (auto simp: get_stat_def get_readdir_def hit_def miss_def put_file_content_def put_stat_def put_readdir_def
        fuse_invalidate_def fuse_invalidate_rename_def take_pending_writes_def pending_except_def outcome_simps
        Let_def write_back_laws [OF assms] intro!: keeps_fcache keeps_fcache_put split: option.splits if_splits)

lemma keeps_send_segments [keeps_intros]: "keeps I (send_segments P p segs)"
  by (induction segs) (auto intro!: keeps_intros)

lemma flush_clears:
  assumes F: "fuse_laws (fp_maps P)" and s: "pending_except (fp_maps P) (path_eq p) (rf_cache (fst s))"
  shows "pending_bounded (fp_maps P) (rf_cache (fst (snd (flush_write_back P p s))))"
proof -
  let ?F = "fp_maps P"
  obtain fs w where fs: "s = (fs, w)" by (cases s)
  obtain segs c where t: "take_pending_writes ?F p (rf_cache fs) = (segs, c)"
    by (cases "take_pending_writes ?F p (rf_cache fs)")
  have c: "pending_bounded ?F c"
  proof (cases "dm_get (fm_write_back ?F) (fc_write_back (rf_cache fs)) p")
    case None
    then have "\<not> path_eq p q" if "dm_get (fm_write_back ?F) (fc_write_back (rf_cache fs)) q = Some e" for q e
      using that write_back_laws(4) [OF F] by fastforce
    then show ?thesis using s t fs None by (auto simp: take_pending_writes_def pending_except_def)
  next
    case (Some e)
    then show ?thesis using s t fs
      by (auto simp: take_pending_writes_def pending_except_def write_back_laws [OF F] split: if_splits)
  qed
  have "keeps (pending_bounded ?F) (if segs = [] then fret ()
      else fbind (fresult (merge_write_segments segs)) (\<lambda>merged.
           fbind (send_segments P p merged) (\<lambda>_. finvalidate P p)))" for segs
    unfolding finvalidate_def using keeps_pending_cache(5) [OF F] by (auto intro!: keeps_intros)
  from this [of segs, unfolded keeps_def, rule_format, of "(fs\<lparr>rf_cache := c\<rparr>, w)"] c
  show ?thesis by (simp add: flush_write_back_def fbind_def fcache_def fs t)
qed

lemma keeps_flush: "fuse_laws (fp_maps P) \<Longrightarrow> keeps (pending_bounded (fp_maps P)) (flush_write_back P p)"
  by (intro keepsI flush_clears) (auto simp: pending_except_def)

lemma push_bounded:
  assumes F: "fuse_laws F" and c: "pending_bounded F c" and d: "length d \<le> DEFAULT_WRITE_BACK_MAX_CHUNK"
    and push: "push_write_back F p off d c = (n, c')"
  shows "pending_except F (path_eq p) c'" and "n < DEFAULT_WRITE_BACK_FLUSH_SIZE \<Longrightarrow> pending_bounded F c'"
proof -
  let ?e = "case dm_get (fm_write_back F) (fc_write_back c) p of
    Some e \<Rightarrow> e | None \<Rightarrow> \<lparr>wb_segments = [], wb_total_bytes = 0\<rparr>"
  have e: "entry_bounded ?e"
  proof (cases "dm_get (fm_write_back F) (fc_write_back c) p")
    case (Some e)
    then show ?thesis using pending_exceptD [OF c Some] by simp
  qed (simp add: entry_bounded_def DEFAULT_WRITE_BACK_FLUSH_SIZE_def)
  then have n: "n = wb_total_bytes ?e + length d"
    using push d by (auto simp: push_write_back_def write_back_push_def Let_def entry_bounded_def
        DEFAULT_WRITE_BACK_FLUSH_SIZE_def DEFAULT_WRITE_BACK_MAX_CHUNK_def)
  have get: "dm_get (fm_write_back F) (fc_write_back c') q =
      (if path_eq p q then Some \<lparr>wb_segments = wb_segments ?e @ [(off, d)], wb_total_bytes = n\<rparr>
       else dm_get (fm_write_back F) (fc_write_back c) q)" for q
    using push by (auto simp: push_write_back_def write_back_push_def Let_def write_back_laws [OF F])
  show "pending_except F (path_eq p) c'"
    using c by (auto simp: pending_except_def get)
  assume "n < DEFAULT_WRITE_BACK_FLUSH_SIZE"
  with e n d have "entry_bounded \<lparr>wb_segments = wb_segments ?e @ [(off, d)], wb_total_bytes = n\<rparr>"
    by (auto simp: entry_bounded_def)
  then show "pending_bounded F c'"
    using pending_exceptD [OF c] unfolding pending_except_def get by (simp split: if_splits)
qed

lemma keeps_write_async:
  fixes P :: "('a, 'b, 'c, 'd, 'e, 'f, 'w) fuse_params"
  assumes F: "fuse_laws (fp_maps P)"
  shows "keeps (pending_bounded (fp_maps P)) (write_async P i offset data)"
proof -
  let ?F = "fp_maps P" and ?I = "pending_bounded (fp_maps P)"
  have small: "keeps ?I (fbind (fcache (push_write_back ?F p offset data)) (\<lambda>total.
      fbind (if total \<ge> DEFAULT_WRITE_BACK_FLUSH_SIZE then flush_write_back P p else fret ()) (\<lambda>_. fret len)))"
    if "length data \<le> DEFAULT_WRITE_BACK_MAX_CHUNK" for p len
  proof (rule keepsI)
    fix s :: "('a, 'b, 'c, 'd, 'e, 'f) RacfsAsyncFs \<times> 'w"
    obtain fs w where s: "s = (fs, w)" by (cases s)
    obtain n c where push: "push_write_back ?F p offset data (rf_cache fs) = (n, c)"
      by (cases "push_write_back ?F p offset data (rf_cache fs)")
    let ?s = "(fs\<lparr>rf_cache := c\<rparr>, w)"
    let ?m = "if n \<ge> DEFAULT_WRITE_BACK_FLUSH_SIZE then flush_write_back P p else fret ()"
    assume "?I (rf_cache (fst s))"
    then have *: "?I (rf_cache (fst (snd (?m ?s))))"
      using push_bounded [OF F _ that push] flush_clears [OF F, of p ?s] by (auto simp: s fret_def)
    have ret: "fst (snd (fbind m (\<lambda>_. fret len) t)) = fst (snd (m t))" for m t
      by (simp add: fbind_def fret_def split: prod.splits outcome.splits)
    have first: "fbind (fcache (push_write_back ?F p offset data)) k s = k n ?s" for k
      by (simp add: s fbind_def fcache_def push)
    from * show "?I (rf_cache (fst (snd (fbind (fcache (push_write_back ?F p offset data)) (\<lambda>total.
      fbind (if total \<ge> DEFAULT_WRITE_BACK_FLUSH_SIZE then flush_write_back P p else fret ()) (\<lambda>_. fret len)) s))))"
      unfolding first ret .
  qed
  show ?thesis
  proof (cases "length data \<le> DEFAULT_WRITE_BACK_MAX_CHUNK")
    case True
    show ?thesis unfolding write_async_def Let_def if_P [OF True] by (intro keeps_fbind keeps_basic small True)
  next
    case False
    show ?thesis unfolding write_async_def Let_def if_not_P [OF False] finvalidate_def
      by (intro keeps_intros keeps_flush keeps_pending_cache F)
  qed
qed

lemma keeps_dir_entries [keeps_intros]: "keeps I (dir_entries P es)"
  by (induction es) (auto intro!: keeps_intros simp: Let_def)

lemma keeps_fresh_stat:
  assumes "fuse_laws (fp_maps P)"
  shows "keeps (pending_bounded (fp_maps P)) (fresh_stat P p)"
  unfolding fresh_stat_def
  by (intro keeps_intros keeps_pending_cache assms)

lemma keeps_release:
  assumes "fuse_laws (fp_maps P)"
  shows "keeps (pending_bounded (fp_maps P)) (release_async P i)"
  using keeps_flush [OF assms] unfolding keeps_def release_async_def
  by (auto split: option.splits prod.splits outcome.splits) (metis fst_conv snd_conv)+

text \<open>One operation of the front end.\<close>

inductive fuse_step :: "('a, 'b, 'c, 'd, 'e, 'f, 'w) fuse_params \<Rightarrow> ('a, 'b, 'c, 'd, 'e, 'f) RacfsAsyncFs \<times> 'w \<Rightarrow>
    ('a, 'b, 'c, 'd, 'e, 'f) RacfsAsyncFs \<times> 'w \<Rightarrow> bool" for P where
  lookup: "fuse_step P s (snd (lookup_async P dir name s))"
| getattr: "fuse_step P s (snd (getattr_async P i s))"
| read: "fuse_step P s (snd (read_async P i offset n s))"
| readdir: "fuse_step P s (snd (readdir_async P i offset s))"
| create: "fuse_step P s (snd (create_async P dir name s))"
| mkdir: "fuse_step P s (snd (mkdir_async P dir name m s))"
| symlink: "fuse_step P s (snd (symlink_async P dir name target s))"
| "write": "fuse_step P s (snd (write_async P i offset data s))"
| release: "fuse_step P s (snd (release_async P i s))"
| unlink: "fuse_step P s (snd (unlink_async P dir name s))"
| rmdir: "fuse_step P s (snd (rmdir_async P dir name s))"
| rename: "fuse_step P s (snd (rename_async P dir name newdir newname s))"
| chmod: "fuse_step P s (snd (chmod_async P i m s))"
| truncate: "fuse_step P s (snd (truncate_async P i n s))"
| readlink: "fuse_step P s (snd (readlink_async P i s))"
| getxattr: "fuse_step P s (snd (getxattr_async P i name s))"
| setxattr: "fuse_step P s (snd (setxattr_async P i name v s))"
| listxattr: "fuse_step P s (snd (listxattr_async P i s))"
| removexattr: "fuse_step P s (snd (removexattr_async P i name s))"

lemma fuse_step_pending:
  assumes F: "fuse_laws (fp_maps P)" and step: "fuse_step P s s'" and s: "pending_bounded (fp_maps P) (rf_cache (fst s))"
  shows "pending_bounded (fp_maps P) (rf_cache (fst s'))"
proof -
  let ?I = "pending_bounded (fp_maps P)"
  note rules = keeps_intros keeps_flush [OF F] keeps_write_async [OF F] keeps_release [OF F] keeps_fresh_stat [OF F]
    keeps_pending_cache [OF F]
  have created: "keeps ?I (created_reply P p)" for p
    unfolding created_reply_def finvalidate_def by (intro rules)
  have ops1: "keeps ?I (lookup_async P dir name)" "keeps ?I (getattr_async P i)" "keeps ?I (read_async P i offset n)" for dir name i offset n
    unfolding lookup_async_def getattr_async_def read_async_def
    by (intro rules)+
  have ops2: "keeps ?I (readdir_async P i offset)" for i offset
    unfolding readdir_async_def by (intro rules)
  have ops3: "keeps ?I (create_async P dir name)" "keeps ?I (mkdir_async P dir name m)"
    "keeps ?I (symlink_async P dir name target)" for dir name m target
    unfolding create_async_def mkdir_async_def symlink_async_def by (intro rules created)+
  have ops4: "keeps ?I (unlink_async P dir name)" "keeps ?I (rmdir_async P dir name)"
    "keeps ?I (rename_async P dir name newdir newname)" for dir name newdir newname
    unfolding unlink_async_def rmdir_async_def remove_async_def rename_async_def finvalidate_def by (intro rules)+
  have ops5: "keeps ?I (chmod_async P i m)" "keeps ?I (truncate_async P i n)" "keeps ?I (readlink_async P i)" for i m n
    unfolding chmod_async_def truncate_async_def readlink_async_def finvalidate_def by (intro rules)+
  have ops6: "keeps ?I (getxattr_async P i name)" "keeps ?I (setxattr_async P i name v)"
    "keeps ?I (listxattr_async P i)" "keeps ?I (removexattr_async P i name)" for i name v
    unfolding getxattr_async_def setxattr_async_def listxattr_async_def removexattr_async_def finvalidate_def
    by (intro rules)+
  note keep = keepsD [where I = ?I, OF _ s]
  from step show ?thesis
    by cases (simp_all only: ops1 [THEN keep] ops2 [THEN keep] ops3 [THEN keep] ops4 [THEN keep] ops5 [THEN keep]
      ops6 [THEN keep] keeps_write_async [OF F, THEN keep] keeps_release [OF F, THEN keep])
qed

lemma pending_new: "fuse_laws (fp_maps P) \<Longrightarrow> pending_bounded (fp_maps P) (rf_cache (async_fs_new P url))"
  by (simp add: pending_except_def async_fs_new_def with_cache_def with_default_ttl_def fuse_cache_new_def write_back_laws)

lemma fuse_run_pending:
  assumes "fuse_laws (fp_maps P)" "(fuse_step P)\<^sup>*\<^sup>* s s'" "pending_bounded (fp_maps P) (rf_cache (fst s))"
  shows "pending_bounded (fp_maps P) (rf_cache (fst s'))"
  using assms(2,3) by (induction rule: rtranclp_induct) (auto intro: fuse_step_pending [OF assms(1)])

text \<open>
  \<^bold>\<open>C9\<close>. The write-back buffer is bounded: after any operations on a new front end, whatever the network
  does, what is pending for a file is less than 256 KiB in pieces of at most 64 KiB, and the total kept
  with it is the sum of its pieces.
\<close>

theorem fuse_pending_bounded:
  assumes "fuse_laws (fp_maps P)" "(fuse_step P)\<^sup>*\<^sup>* (async_fs_new P url, w) (fs, w')"
    and "dm_get (fm_write_back (fp_maps P)) (fc_write_back (rf_cache fs)) p = Some e"
  shows "wb_total_bytes e = sum_list (map (\<lambda>s. length (snd s)) (wb_segments e)) \<and>
    wb_total_bytes e < 262144 \<and> (\<forall>s \<in> set (wb_segments e). length (snd s) \<le> 65536)"
proof -
  have "pending_bounded (fp_maps P) (rf_cache (fst (async_fs_new P url, w)))" by (simp add: pending_new [OF assms(1)])
  from pending_exceptD [OF fuse_run_pending [OF assms(1,2) this, simplified] assms(3)] show ?thesis
    by (simp add: entry_bounded_def DEFAULT_WRITE_BACK_FLUSH_SIZE_def DEFAULT_WRITE_BACK_MAX_CHUNK_def)
qed

text \<open>Parameters for examples: maps as lists and a network that is down.\<close>

definition down_net :: "nat net_api" where
  "down_net = \<lparr>net_now = (\<lambda>w. w), net_sleep = (\<lambda>ms w. w + ms),
     net_send = (\<lambda>_ w. (Err \<lparr>re_connect = False, re_timeout = False, re_message = ''down''\<rparr>, w)),
     net_json_text = (\<lambda>_. []), net_decode_error = \<lparr>re_connect = False, re_timeout = False, re_message = []\<rparr>,
     net_status_text = (\<lambda>_. [])\<rparr>"

definition list_params :: "'w net_api \<Rightarrow> ((path \<times> FileMetadataResponse CacheEntry) list,
    (path \<times> ClientDirectoryEntry list CacheEntry) list, (path \<times> bytes) list, (path \<times> WriteBackEntry) list,
    (inode \<times> path) list, (path \<times> inode) list, 'w) fuse_params" where
  "list_params N = \<lparr>fp_net = N, fp_maps = list_fuse_maps, fp_paths = list_dash (=), fp_inodes = list_dash path_eq,
     fp_base64 = \<lparr>b64_encode = (\<lambda>b. b), b64_decode = Some\<rparr>\<rparr>"

theorem fuse_pending_bounded_witness:
  "let P = list_params down_net; s = snd (write_async P 1 0 ''ab'' (async_fs_new P [], 0))
   in \<exists>e. dm_get (fm_write_back (fp_maps P)) (fc_write_back (rf_cache (fst s))) ''/'' = Some e \<and>
     wb_segments e = [(0, ''ab'')] \<and> wb_total_bytes e = 2 \<and> wb_total_bytes e < 262144"
proof -
  let ?P = "list_params down_net"
  obtain fs w where s: "snd (write_async ?P 1 0 ''ab'' (async_fs_new ?P [], 0)) = (fs, w)"
    by (cases "snd (write_async ?P 1 0 ''ab'' (async_fs_new ?P [], 0))")
  have run: "(fuse_step ?P)\<^sup>*\<^sup>* (async_fs_new ?P [], 0) (fs, w)"
    unfolding s [symmetric] by (rule r_into_rtranclp) (rule fuse_step.intros(8))
  have laws: "fuse_laws (fp_maps ?P)" by (simp add: list_params_def list_fuse_laws)
  have "dm_get (fm_write_back (fp_maps ?P)) (fc_write_back (rf_cache (fst (fs, w)))) ''/'' =
      Some \<lparr>wb_segments = [(0, ''ab'')], wb_total_bytes = 2\<rparr>"
    unfolding s [symmetric]
    by (simp add: write_async_def Let_def fbind_def inode_path_def get_path_def list_params_def async_fs_new_def with_cache_def
        inode_manager_new_def list_dash_def ROOT_INODE_def DEFAULT_WRITE_BACK_MAX_CHUNK_def
        DEFAULT_WRITE_BACK_FLUSH_SIZE_def fcache_def push_write_back_def with_default_ttl_def fuse_cache_new_def
        list_fuse_maps_def write_back_push_def fret_def)
  then show ?thesis unfolding Let_def s using fuse_pending_bounded [OF laws run] by simp
qed

subsection \<open>A backend that cannot be reached\<close>

lemma fresh_stat_unreachable:
  assumes "fuse_laws (fp_maps P)"
    and "\<forall>e. dm_get (fm_stat (fp_maps P)) (fc_stat_cache (rf_cache fs)) p = Some e \<longrightarrow> ce_expires_at e \<le> net_now (fp_net P) w"
    and "client_stat (fp_net P) (from_utf8_lossy p) (rf_client fs) w = (Err e, cl, w')"
  shows "\<exists>s. fresh_stat P p (fs, w) = (Err ENOENT, s)"
proof -
  obtain r c where g: "get_stat (fp_maps P) p (net_now (fp_net P) w) (rf_cache fs) = (r, c)"
    by (cases "get_stat (fp_maps P) p (net_now (fp_net P) w) (rf_cache fs)")
  then have r: "r = None" using assms(2) by (auto simp: get_stat_def is_valid_def split: option.splits if_splits)
  from get_stat_miss_not_stale [OF assms(1) g [unfolded r]] show ?thesis
    by (simp add: fresh_stat_def fbind_def fnow_def fcache_def g r fattempt_def assms(3) fresult_def)
qed

text \<open>
  \<^bold>\<open>C10\<close>. Nothing stale is ever served: when the backend cannot be asked and the cache holds no unexpired entry, looking up
  a name and reading attributes fail with ENOENT, and listing a directory fails with EIO, although the
  code means to fall back to an expired entry. The lookup that finds an entry expired has already removed it.
\<close>

theorem fuse_never_degrades:
  assumes F: "fuse_laws (fp_maps P)"
    and stat: "\<forall>e. dm_get (fm_stat (fp_maps P)) (fc_stat_cache (rf_cache fs)) p = Some e \<longrightarrow>
      ce_expires_at e \<le> net_now (fp_net P) w"
      "client_stat (fp_net P) (from_utf8_lossy p) (rf_client fs) w = (Err e, cl, w')"
    and dir: "\<forall>e. dm_get (fm_readdir (fp_maps P)) (fc_readdir_cache (rf_cache fs)) p = Some e \<longrightarrow>
      ce_expires_at e \<le> net_now (fp_net P) w"
      "client_read_dir (fp_net P) (from_utf8_lossy p) (rf_client fs) w = (Err e', cl', w'')"
  shows "(get_path (fp_paths P) i (rf_inodes fs) = Some p \<longrightarrow>
      fst (getattr_async P i (fs, w)) = Err ENOENT \<and> fst (readdir_async P i offset (fs, w)) = Err EIO) \<and>
    (get_path (fp_paths P) i (rf_inodes fs) = Some q \<and> push q (from_utf8_lossy name) = p \<longrightarrow>
      fst (lookup_async P i name (fs, w)) = Err ENOENT)"
proof -
  obtain s where fr: "fresh_stat P p (fs, w) = (Err ENOENT, s)"
    using fresh_stat_unreachable [OF F stat] by blast
  obtain r c where g: "get_readdir (fp_maps P) p (net_now (fp_net P) w) (rf_cache fs) = (r, c)"
    by (cases "get_readdir (fp_maps P) p (net_now (fp_net P) w) (rf_cache fs)")
  then have r: "r = None" using dir(1) by (auto simp: get_readdir_def is_valid_def split: option.splits if_splits)
  note none = get_readdir_miss_not_stale [OF F g [unfolded r]]
  show ?thesis
    by (auto simp: getattr_async_def lookup_async_def readdir_async_def fbind_def inode_path_def child_path_def fr
        fnow_def fcache_def g r fattempt_def dir(2) none fresult_def fret_def)
qed

theorem fuse_never_degrades_witness:
  "let P = list_params down_net; fs = async_fs_new P [];
       md = \<lparr>fmr_file_type = ''directory'', fmr_permissions = [], fmr_size = 0, fmr_modified = None,
             fmr_path = ''/'', fmr_symlink_target = None\<rparr>;
       fs' = fs\<lparr>rf_cache := (rf_cache fs)\<lparr>fc_stat_cache := [(''/'', \<lparr>ce_value = md, ce_expires_at = 5\<rparr>)]\<rparr>\<rparr>
   in get_stat_stale (fp_maps P) ''/'' (rf_cache fs') = Some md \<and> fst (getattr_async P 1 (fs', 7)) = Err ENOENT"
proof -
  let ?P = "list_params down_net" and ?fs = "async_fs_new (list_params down_net) []"
  let ?md = "\<lparr>fmr_file_type = ''directory'', fmr_permissions = [], fmr_size = 0, fmr_modified = None,
      fmr_path = ''/'', fmr_symlink_target = None\<rparr>"
  let ?fs' = "?fs\<lparr>rf_cache := (rf_cache ?fs)\<lparr>fc_stat_cache := [(''/'', \<lparr>ce_value = ?md, ce_expires_at = 5\<rparr>)]\<rparr>\<rparr>"
  note defs = list_params_def down_net_def async_fs_new_def with_cache_def with_default_ttl_def fuse_cache_new_def
    list_fuse_maps_def list_dash_def inode_manager_new_def ROOT_INODE_def client_new_def
  have laws: "fuse_laws (fp_maps ?P)" by (simp add: list_params_def list_fuse_laws)
  have stat: "\<forall>e. dm_get (fm_stat (fp_maps ?P)) (fc_stat_cache (rf_cache ?fs')) ''/'' = Some e \<longrightarrow>
      ce_expires_at e \<le> net_now (fp_net ?P) 7" by (simp add: defs)
  have dir: "\<forall>e. dm_get (fm_readdir (fp_maps ?P)) (fc_readdir_cache (rf_cache ?fs')) ''/'' = Some e \<longrightarrow>
      ce_expires_at e \<le> net_now (fp_net ?P) 7" by (simp add: defs)
  have calls: "\<exists>e cl w. client_stat (fp_net ?P) (from_utf8_lossy ''/'') (rf_client ?fs') 7 = (Err e, cl, w)"
    "\<exists>e cl w. client_read_dir (fp_net ?P) (from_utf8_lossy ''/'') (rf_client ?fs') 7 = (Err e, cl, w)"
    by (simp_all add: defs client_stat_def client_read_dir_def client_call_def exchange_def send_with_retry_def
        send_attempts.simps client_consts)
  have path: "get_path (fp_paths ?P) 1 (rf_inodes ?fs') = Some ''/''" by (simp add: defs get_path_def)
  from calls fuse_never_degrades [OF laws stat _ dir, where i = 1] path
  have "fst (getattr_async ?P 1 (?fs', 7)) = Err ENOENT" by blast
  moreover have "get_stat_stale (fp_maps ?P) ''/'' (rf_cache ?fs') = Some ?md" by (simp add: defs get_stat_stale_def)
  ultimately show ?thesis by simp
qed

text \<open>Invalidation forgets pending writes: setting an attribute loses what was written before.\<close>

lemma fuse_invalidate_drops_writes:
  assumes "fuse_laws F"
  shows "dm_get (fm_write_back F) (fc_write_back (fuse_invalidate F p c)) p = None"
  by (simp add: fuse_invalidate_def Let_def write_back_laws [OF assms])

end
