(* ===== verification/Server_Stack.thy ===== *)
theory Server_Stack
  imports Server_Api Mountable_FS Mem_FS
begin

text \<open>
  The server on the router on a mounted MemFS: what the handlers for one file do to it, in terms of
  the contents the file system holds. The lemmas carry the properties of whole requests.
\<close>

lemma resolve_fs_backends [simp]: "resolve_fs T (m\<lparr>mo_backends := b\<rparr>) p = resolve_fs T m p"
  by (simp add: resolve_fs_def Let_def split: option.splits)

lemma mo_call_resolved:
  assumes "resolve_fs T m p = Ok (f, rel)" "op f rel now (mo_backends m f) = (r, s)"
  shows "mo_call T p op now m = (r, m\<lparr>mo_backends := (mo_backends m)(f := s)\<rparr>)"
  using assms by (simp add: mo_call_def)

text \<open>A regular file with these contents.\<close>

definition mem_file :: "bytes \<Rightarrow> mem_entry \<Rightarrow> bool" where
  "mem_file d e \<longleftrightarrow> me_data e = d \<and> \<not> me_is_symlink e \<and> \<not> is_directory (me_metadata e) \<and>
     file_type (me_metadata e) = ''file'' \<and> md_size (me_metadata e) = length d"

definition serves_file :: "'t trie_api \<Rightarrow> (fs_ref \<Rightarrow> MemFS FileSystem) \<Rightarrow> path \<Rightarrow> fs_ref \<Rightarrow> path \<Rightarrow> bytes \<Rightarrow>
    ('t, MemFS) MountableFS AppState \<Rightarrow> bool" where
  "serves_file T V p f rel d st \<longleftrightarrow> resolve_fs T (as_vfs st) p = Ok (f, rel) \<and> V f = mem_fs \<and>
     validate_path p = Ok () \<and> (\<exists>e. pm_get (mem_files (mo_backends (as_vfs st) f)) rel = Some e \<and> mem_file d e)"

definition uncached :: "path \<Rightarrow> 's AppState \<Rightarrow> bool" where
  "uncached p st \<longleftrightarrow> pm_get (sc_entries (as_stat_cache st)) p = None"

text \<open>Nothing else moves: the other backends and the time to live of the stat cache.\<close>

definition only_file :: "fs_ref \<Rightarrow> ('t, MemFS) MountableFS AppState \<Rightarrow> ('t, MemFS) MountableFS AppState \<Rightarrow> bool" where
  "only_file f st st' \<longleftrightarrow> (\<forall>g. g \<noteq> f \<longrightarrow> mo_backends (as_vfs st') g = mo_backends (as_vfs st) g) \<and>
     sc_ttl (as_stat_cache st') = sc_ttl (as_stat_cache st)"

lemma only_file_trans: "only_file f a b \<Longrightarrow> only_file f b c \<Longrightarrow> only_file f a c"
  by (simp add: only_file_def)

lemma serves_fileE:
  assumes "serves_file T V p f rel d st"
  obtains e where "resolve_fs T (as_vfs st) p = Ok (f, rel)" "V f = mem_fs" "validate_path p = Ok ()"
    "pm_get (mem_files (mo_backends (as_vfs st) f)) rel = Some e" "mem_file d e"
  using assms unfolding serves_file_def by blast

lemma mem_files_inc [simp]:
  "mem_files (mem_inc_op op fs) = mem_files fs" "mem_files (mem_inc_entries n fs) = mem_files fs"
  by (simp_all add: mem_inc_op_def mem_inc_entries_def split: option.splits)

lemma new_file_plain: "mem_file [] (mem_plain_entry [] (metadata_file now p 0))"
  by (simp add: mem_file_def mem_plain_entry_def metadata_file_def file_type_def is_directory_def Let_def mode_defs)

lemma mem_file_written:
  "mem_file old e \<Longrightarrow> mem_file d (e\<lparr>me_data := d, me_metadata := (me_metadata e)\<lparr>md_size := length d, md_modified := Some now\<rparr>\<rparr>)"
  by (simp add: mem_file_def file_type_def is_directory_def)

text \<open>The handlers on such a file.\<close>

lemma create_serves:
  assumes res: "resolve_fs T (as_vfs st) p = Ok (f, rel)" and V: "V f = mem_fs"
    and c: "create_file (mountable_fs T V) p now st = (Ok msg, st1)"
  shows "serves_file T V p f rel [] st1 \<and> uncached p st1 \<and> only_file f st st1 \<and> msg = ''Created file: '' @ p"
proof -
  let ?m = "as_vfs st"
  have vp: "validate_path p = Ok ()"
    using c validate_path_total [of p] by (auto simp: create_file_def)
  obtain r fs1 where cr: "mem_create rel now (mo_backends ?m f) = (r, fs1)" by fastforce
  have mc: "mo_create T V p now ?m = (r, ?m\<lparr>mo_backends := (mo_backends ?m)(f := fs1)\<rparr>)"
    unfolding mo_create_def by (rule mo_call_resolved [OF res]) (simp add: V mem_fs_def cr)
  have r: "r = Ok ()" using c vp mc
    by (cases r) (auto simp: create_file_def mountable_fs_def vfs_then_def)
  have "pm_get (mem_files fs1) rel = Some (mem_plain_entry [] (metadata_file now rel 0))"
    using cr r by (auto simp: mem_create_def mem_put_def path_map.hm_get_insert split: outcome.splits if_splits)
  with c vp mc r res V new_file_plain show ?thesis
    by (auto simp: create_file_def mountable_fs_def vfs_then_def serves_file_def uncached_def only_file_def
        inc_metric_def drop_stat_def sc_entry_invalidate)
qed

lemma write_serves:
  assumes sf: "serves_file T V p f rel old st" and d: "length d \<le> MAX_WRITE_BODY_LEN" and x: "x = None \<or> x = Some 0"
  shows "\<exists>st'. write_file (mountable_fs T V) \<lparr>wr_path = p, wr_data = d, wr_offset = x\<rparr> now st =
      (Ok (''Wrote '' @ dec (length d) @ '' bytes''), st') \<and>
    serves_file T V p f rel d st' \<and> uncached p st' \<and> only_file f st st'"
proof -
  from sf obtain e where s: "resolve_fs T (as_vfs st) p = Ok (f, rel)" "V f = mem_fs" "validate_path p = Ok ()"
    "pm_get (mem_files (mo_backends (as_vfs st) f)) rel = Some e" "mem_file old e" by (rule serves_fileE)
  let ?e = "e\<lparr>me_data := d, me_metadata := (me_metadata e)\<lparr>md_size := length d, md_modified := Some now\<rparr>\<rparr>"
  let ?b = "mem_inc_op ''write'' (mem_put rel ?e (mo_backends (as_vfs st) f))"
  have "mem_write_data old d 0 WF_NONE = Ok d"
    by (simp add: mem_write_data_def Let_def contains_append_def flags_contains_def write_flag_defs)
  then have w: "mem_write rel d 0 WF_NONE now (mo_backends (as_vfs st) f) = (Ok (length d), ?b)"
    using s(4,5) by (simp add: mem_write_def mem_file_def)
  let ?m = "(as_vfs st)\<lparr>mo_backends := (mo_backends (as_vfs st))(f := ?b)\<rparr>"
  have fw: "fs_write (mountable_fs T V) p d 0 WF_NONE now (as_vfs st) = (Ok (length d), ?m)"
    using mo_call_resolved [OF s(1), of "\<lambda>f r. fs_write (V f) r d 0 WF_NONE" now] w
    by (simp add: mountable_fs_def mo_write_def s(2) mem_fs_def)
  have off: "(case x of None \<Rightarrow> 0 | Some x \<Rightarrow> x) = 0" using x by auto
  have "pm_get (mem_files ?b) rel = Some ?e" by (simp add: mem_put_def path_map.hm_get_insert)
  with s(1-3) mem_file_written [OF s(5), of d now] fw d off show ?thesis
    by (auto simp: write_file_def validate_write_data_len_def vfs_then_def serves_file_def uncached_def only_file_def
        inc_metric_def drop_stat_def sc_entry_invalidate)
qed

lemma read_serves:
  assumes sf: "serves_file T V p f rel d st" and d: "utf8_valid d"
  shows "\<exists>st'. read_file (mountable_fs T V) p now st = (Ok d, st') \<and> serves_file T V p f rel d st' \<and>
    as_stat_cache st' = as_stat_cache st \<and> only_file f st st'"
proof -
  from sf obtain e where s: "resolve_fs T (as_vfs st) p = Ok (f, rel)" "V f = mem_fs" "validate_path p = Ok ()"
    "pm_get (mem_files (mo_backends (as_vfs st) f)) rel = Some e" "mem_file d e" by (rule serves_fileE)
  let ?fs = "mo_backends (as_vfs st) f"
  obtain b where b: "mem_read rel 0 (- 1) now ?fs = (Ok d, b)" "mem_files b = mem_files ?fs"
    using s(4,5) by (simp add: mem_read_def read_slice_all is_i64_def mem_file_def)
  have fr: "fs_read (mountable_fs T V) p 0 (- 1) now (as_vfs st) =
      (Ok d, (as_vfs st)\<lparr>mo_backends := (mo_backends (as_vfs st))(f := b)\<rparr>)"
    using mo_call_resolved [OF s(1), of "\<lambda>f r. fs_read (V f) r 0 (- 1)" now] b
    by (simp add: mountable_fs_def mo_read_def s(2) mem_fs_def)
  with s b d show ?thesis
    by (auto simp: read_file_def vfs_then_def utf8_valid_def from_utf8_lossy_valid serves_file_def only_file_def inc_metric_def)
qed

lemma stat_serves:
  assumes sf: "serves_file T V p f rel d st" and u: "uncached p st"
    and clock: "now + sc_ttl (as_stat_cache st) \<le> instant_max"
  shows "\<exists>md k st'. stat_request fmt (mountable_fs T V) p now st = (Ok md, st') \<and> mr_size md = length d \<and>
    mr_file_type md = ''file'' \<and> mr_permissions md = octal k \<and> serves_file T V p f rel d st' \<and> only_file f st st'"
proof -
  from sf obtain e where s: "resolve_fs T (as_vfs st) p = Ok (f, rel)" "V f = mem_fs" "validate_path p = Ok ()"
    "pm_get (mem_files (mo_backends (as_vfs st) f)) rel = Some e" "mem_file d e" by (rule serves_fileE)
  let ?b = "mem_inc_op ''stat'' (mo_backends (as_vfs st) f)"
  have "mem_stat rel now (mo_backends (as_vfs st) f) = (Ok (me_metadata e), ?b)"
    using s(4) by (simp add: mem_stat_def)
  then have fs: "fs_stat (mountable_fs T V) p now (as_vfs st) =
      (Ok (me_metadata e), (as_vfs st)\<lparr>mo_backends := (mo_backends (as_vfs st))(f := ?b)\<rparr>)"
    using mo_call_resolved [OF s(1), of "\<lambda>f r. fs_stat (V f) r" now]
    by (simp add: mountable_fs_def mo_stat_def s(2) mem_fs_def)
  with s u clock show ?thesis
    by (auto simp: stat_request_def get_or_fetch_def Let_def sc_lookup_def uncached_def sc_store_def inc_metric_def
        serves_file_def only_file_def metadata_response_def mem_file_def)
qed

subsection \<open>An example\<close>

text \<open>A router with a MemFS mounted at \<open>/a\<close> behind a new server.\<close>

abbreviation example_state :: "((string \<times> fs_ref) list, MemFS) MountableFS AppState" where
  "example_state \<equiv> app_state_new (snd (mount list_trie ''/a'' 3 (mountable_new list_trie (\<lambda>_. mem_new 0)))) 2"

lemma example_file:
  "resolve_fs list_trie (as_vfs example_state) ''/a/x'' = Ok (3, ''/x'')"
  "\<exists>st1. create_file (mountable_fs list_trie (\<lambda>_. mem_fs)) ''/a/x'' 1 example_state = (Ok ''Created file: /a/x'', st1)"
proof -
  let ?m = "snd (mount list_trie ''/a'' 3 (mountable_new list_trie (\<lambda>_. mem_new 0)))"
  let ?V = "mountable_fs list_trie (\<lambda>_. mem_fs)" and ?st = "app_state_new ?m 2"
  have n: "mount_names [''a'']" "render True [''a''] = ''/a''"
    by (simp_all add: mount_names_def valid_name_def render_def)
  have tab: "mo_table list_trie ?m [([''a''], 3)]"
    using mount_table_step [OF list_trie_laws mo_table_new [OF list_trie_laws, of "\<lambda>_. mem_new 0"]
      n(1), where f = 3] by (simp add: n(2))
  have k: "norm_names ''/a/x'' = [''a'', ''x'']" "has_root ''/a/x''"
    "\<forall>c \<in> set (names_key [''a'', ''x'']). \<not> is_cont c" by code_simp+
  have l: "longest [([''a''], 3)] (names_key [''a'', ''x'']) [''a''] 3"
    by (simp add: longest_def names_key_def render_def starts_with_def)
  show res: "resolve_fs list_trie (as_vfs ?st) ''/a/x'' = Ok (3, ''/x'')"
    using resolve_longest [OF tab k(2), of "[''a'']" 3] k l by (simp add: render_def app_state_new_def)
  have b: "mo_backends (as_vfs ?st) 3 = mem_new 0"
    by (simp add: mount_def mountable_new_def Let_def app_state_new_def)
  have mc: "fst (mem_create ''/x'' 1 (mem_new 0)) = Ok ()" by code_simp
  have vp: "validate_path ''/a/x'' = Ok ()"
    by (simp add: validate_path_def starts_with_def MAX_PATH_LEN_def)
  have "\<exists>s. fs_create ?V ''/a/x'' 1 (as_vfs ?st) = (Ok (), s)"
    using mo_call_resolved [OF res, of "\<lambda>f r. fs_create mem_fs r" 1] mc
    by (cases "mem_create ''/x'' 1 (mem_new 0)") (simp add: mountable_fs_def mo_create_def mem_fs_def b)
  then show "\<exists>st1. create_file ?V ''/a/x'' 1 ?st = (Ok ''Created file: /a/x'', st1)"
    by (auto simp: create_file_def vp vfs_then_def)
qed

lemma example_text: "utf8_valid ''hello''" "''Wrote '' @ dec (length ''hello'') @ '' bytes'' = ''Wrote 5 bytes''"
  by code_simp+

lemma example_bounds: "1 + sc_ttl (as_stat_cache example_state) \<le> instant_max" "length ''hello'' \<le> MAX_WRITE_BODY_LEN"
  by (simp_all add: MAX_WRITE_BODY_LEN_def app_state_new_def sc_new_with_ttl_def)

end
