(* ===== verification/Fuse_Stack.thy ===== *)
theory Fuse_Stack
  imports Client_Server Fuse_Writes Server_Stack
begin

text \<open>
  The FUSE front end on the client, the server, the router and a mounted MemFS: one file that is created, written,
  released and read back. The lemmas follow the file through one operation each.
\<close>

subsection \<open>Permissions\<close>

lemma octal_digits: "c \<in> set (octal n) \<Longrightarrow> \<exists>k < 10. c = digit k"
proof (induction n rule: octal.induct)
  case (1 n)
  show ?case
  proof (cases "n < 8")
    case True
    then show ?thesis using "1.prems" by (auto simp: octal.simps [of n] intro!: exI [of _ n])
  next
    case False
    then have "c \<in> set (octal (n div 8)) \<or> c = digit (n mod 8)" using "1.prems" by (auto simp: octal.simps [of n])
    moreover have "n mod 8 < 10" using mod_less_divisor [of 8 n] by linarith
    ultimately show ?thesis using "1.IH" [OF False] by blast
  qed
qed

text \<open>The server prints permissions in octal, which the front end does not understand.\<close>

lemma parse_permissions_octal: "parse_permissions (octal n) = 0"
proof -
  let ?cs = "char_heads (octal n)"
  have "perm_bit ?cs i c m = 0" if "9 \<le> length ?cs" "c \<in> {CHR ''r'', CHR ''w'', CHR ''x''}" "i < 9" for i c m
  proof -
    have "?cs ! i \<in> set (octal n)" using that(1,3) nth_mem [of i ?cs] by (simp add: char_heads_def)
    then obtain k where "k < 10" "?cs ! i = digit k" using octal_digits by blast
    then have "of_char (?cs ! i) = (48 + k :: nat)" by (simp add: of_char_digit)
    then have "?cs ! i \<noteq> c" using that(2) \<open>k < 10\<close> by auto
    then show ?thesis by (simp add: perm_bit_def)
  qed
  then show ?thesis by (simp add: parse_permissions_def Let_def)
qed

subsection \<open>One file\<close>

text \<open>
  The front end knows the file under an inode and holds nothing of it but pending writes; its client is
  connected to the server at \<open>base\<close>.
\<close>

definition holds_file :: "('a, 'b, 'c, 'd, 'e, 'f, 'w) fuse_params \<Rightarrow> string \<Rightarrow> time \<Rightarrow> inode \<Rightarrow> path \<Rightarrow>
    WriteBackEntry option \<Rightarrow> ('a, 'b, 'c, 'd, 'e, 'f) RacfsAsyncFs \<Rightarrow> bool" where
  "holds_file P base ttl i p wb fs \<longleftrightarrow>
     ci_open_until (cl_circuit (rf_client fs)) = None \<and> cl_base_url (rf_client fs) = base \<and>
     get_path (fp_paths P) i (rf_inodes fs) = Some p \<and> fc_ttl (rf_cache fs) = ttl \<and>
     dm_get (fm_stat (fp_maps P)) (fc_stat_cache (rf_cache fs)) p = None \<and>
     dm_get (fm_content (fp_maps P)) (fc_file_content_cache (rf_cache fs)) p = None \<and>
     dm_get (fm_write_back (fp_maps P)) (fc_write_back (rf_cache fs)) p = wb"

lemma answered_simps [simp]:
  "ci_open_until (cl_circuit (answered c)) = ci_open_until (cl_circuit c)" "cl_base_url (answered c) = cl_base_url c"
  by (simp_all add: answered_def)

lemma deliver_Ok [simp]: "deliver W g c sv t (Ok a, app) = (Ok (g a), answered c, (sv\<lparr>sv_app := app\<rparr>, t))"
  by (simp add: deliver_def)

lemma fcall_Ok:
  "op (rf_client fs) w = (Ok a, c, w') \<Longrightarrow> fcall en op (fs, w) = (Ok a, (fs\<lparr>rf_client := c\<rparr>, w'))"
  by (simp add: fcall_def fbind_def fattempt_def fresult_def)

lemma finvalidate_Ok:
  "finvalidate P p (fs, w) = (Ok (), (fs\<lparr>rf_cache := fuse_invalidate (fp_maps P) p (rf_cache fs)\<rparr>, w))"
  by (simp add: finvalidate_def fcache_def)

lemma client_stat_direct:
  assumes "stat_request (sp_fmt_time S) V p t st = (Ok md, app)" "sv_app sv = st" "mr_size md \<le> u64_max"
    and "ci_open_until (cl_circuit c) = None" "cl_base_url c = base"
  shows "client_stat (direct_net W S V base) p c (sv, t) = (Ok (client_metadata md), answered c, (sv\<lparr>sv_app := app\<rparr>, t))"
  by (subst direct_stat [OF assms(4,5)]) (use assms(1-3) in simp_all)

lemma stat_maps:
  assumes "fuse_laws F"
  shows "dm_get (fm_stat F) (dm_remove (fm_stat F) m k) q = (if path_eq k q then None else dm_get (fm_stat F) m q)"
    and "dm_get (fm_content F) (dm_remove (fm_content F) n k) q = (if path_eq k q then None else dm_get (fm_content F) n q)"
  using assms dash_lawsD(3) [of path_eq "fm_stat F"] dash_lawsD(3) [of path_eq "fm_content F"]
  unfolding fuse_laws_def by blast+

lemma fuse_invalidated:
  assumes "fuse_laws F"
  shows "dm_get (fm_stat F) (fc_stat_cache (fuse_invalidate F p c)) p = None"
    "dm_get (fm_content F) (fc_file_content_cache (fuse_invalidate F p c)) p = None"
    "dm_get (fm_write_back F) (fc_write_back (fuse_invalidate F p c)) p = None"
    "fc_ttl (fuse_invalidate F p c) = fc_ttl c"
  by (simp_all add: fuse_invalidate_def Let_def stat_maps [OF assms] write_back_laws [OF assms])

lemma write_buffers:
  assumes F: "fuse_laws (fp_maps P)" and h: "holds_file P base ttl i p None fs"
    and d: "length d \<le> DEFAULT_WRITE_BACK_MAX_CHUNK"
  shows "\<exists>fs'. write_async P i 0 d (fs, w) = (Ok (length d), (fs', w)) \<and>
    holds_file P base ttl i p (Some \<lparr>wb_segments = [(0, d)], wb_total_bytes = length d\<rparr>) fs'"
proof -
  have bounds: "length d < DEFAULT_WRITE_BACK_FLUSH_SIZE" "length d \<le> u64_max" "length d mod 2 ^ 32 = length d"
    using d by (simp_all add: DEFAULT_WRITE_BACK_MAX_CHUNK_def DEFAULT_WRITE_BACK_FLUSH_SIZE_def)
  from h d bounds show ?thesis
    by (auto simp: write_async_def fbind_def inode_path_def holds_file_def fcache_def push_write_back_def
        write_back_push_def Let_def fret_def write_back_laws [OF F])
qed

lemma merge_single: "merge_write_segments [s] = Ok [s]"
  by (cases s) (simp add: merge_write_segments_def)

lemma create_known:
  assumes F: "fuse_laws (fp_maps P)" "dash_laws (=) (fp_paths P)"
    and N: "fp_net P = direct_net W S (mountable_fs T V) base"
    and c: "ci_open_until (cl_circuit (rf_client fs)) = None" "cl_base_url (rf_client fs) = base"
    and dir: "get_path (fp_paths P) dir (rf_inodes fs) = Some q" "push q (from_utf8_lossy name) = p"
    and new: "get_inode (fp_inodes P) p (rf_inodes fs) = None" and u: "from_utf8_lossy p = p"
    and res: "resolve_fs T (as_vfs (sv_app sv)) p = Ok (f, rel)" "V f = mem_fs"
    and cr: "create_file (mountable_fs T V) p t (sv_app sv) = (Ok msg, app)"
    and clock: "t + sc_ttl (as_stat_cache (sv_app sv)) \<le> instant_max"
  shows "\<exists>i a fs' sv'. create_async P dir name (fs, (sv, t)) = (Ok (TTL, a, 0), (fs', (sv', t))) \<and> fa_ino a = i \<and>
    holds_file P base (fc_ttl (rf_cache fs)) i p None fs' \<and> serves_file T V p f rel [] (sv_app sv') \<and>
    only_file f (sv_app sv) (sv_app sv')"
proof -
  let ?V = "mountable_fs T V" and ?F = "fp_maps P" and ?sv1 = "sv\<lparr>sv_app := app\<rparr>"
  note cs = create_serves [where V = V, OF res cr]
  then have "t + sc_ttl (as_stat_cache app) \<le> instant_max" using clock by (simp add: only_file_def)
  then obtain md k app2 where st: "stat_request (sp_fmt_time S) ?V p t app = (Ok md, app2)" "mr_size md = 0"
    "serves_file T V p f rel [] app2" "only_file f app app2"
    using stat_serves [of T V p f rel "[]" app t "sp_fmt_time S"] cs by auto
  let ?fs1 = "fs\<lparr>rf_client := answered (rf_client fs)\<rparr>"
  let ?fs2 = "?fs1\<lparr>rf_cache := fuse_invalidate ?F p (rf_cache fs)\<rparr>"
  let ?fs3 = "?fs2\<lparr>rf_client := answered (answered (rf_client fs))\<rparr>"
  have path: "child_path P dir name (fs, (sv, t)) = (Ok p, (fs, (sv, t)))"
    by (simp add: child_path_def fbind_def inode_path_def dir fret_def)
  have create: "fcall EIO (client_create_file (fp_net P) (from_utf8_lossy p)) (fs, (sv, t)) = (Ok msg, (?fs1, (?sv1, t)))"
    by (rule fcall_Ok) (simp add: N u direct_create_file [OF c] cr)
  have stat: "fcall EIO (client_stat (fp_net P) (from_utf8_lossy p)) (?fs2, (?sv1, t)) =
      (Ok (client_metadata md), (?fs3, (?sv1\<lparr>sv_app := app2\<rparr>, t)))"
    by (rule fcall_Ok) (simp add: N u client_stat_direct [OF st(1)] c st(2))
  obtain i m where al: "allocate (fp_paths P) (fp_inodes P) p (rf_inodes fs) = (i, m)"
    by (cases "allocate (fp_paths P) (fp_inodes P) p (rf_inodes fs)")
  then have "get_path (fp_paths P) i m = Some p"
    using new by (auto simp: allocate_def get_inode_def alloc_commit_def Let_def get_path_def dash_lawsD(2) [OF F(2)])
  moreover have "create_async P dir name (fs, (sv, t)) =
      (Ok (TTL, metadata_to_attr i (client_metadata md), 0), (?fs3\<lparr>rf_inodes := m\<rparr>, (?sv1\<lparr>sv_app := app2\<rparr>, t)))"
    by (simp add: create_async_def created_reply_def fbind_def path create stat finvalidate_Ok fallocate_def fret_def al)
  ultimately show ?thesis
    using c st(3) only_file_trans [of f "sv_app sv" app app2] cs st(4)
    by (auto simp: holds_file_def fuse_invalidated [OF F(1)] metadata_to_attr_def Let_def)
qed

lemma release_stores:
  assumes F: "fuse_laws (fp_maps P)" and N: "fp_net P = direct_net W S (mountable_fs T V) base"
    and h: "holds_file P base ttl i p (Some \<lparr>wb_segments = [(0, d)], wb_total_bytes = n\<rparr>) fs"
    and u: "from_utf8_lossy p = p" "from_utf8_lossy d = d" and acc: "accepts S (write_body p d (Some 0))"
    and sf: "serves_file T V p f rel old (sv_app sv)" and d: "length d \<le> MAX_WRITE_BODY_LEN"
  shows "\<exists>fs' sv'. release_async P i (fs, (sv, t)) = (Ok (), (fs', (sv', t))) \<and> holds_file P base ttl i p None fs' \<and>
    serves_file T V p f rel d (sv_app sv') \<and> uncached p (sv_app sv') \<and> only_file f (sv_app sv) (sv_app sv')"
proof -
  let ?V = "mountable_fs T V" and ?F = "fp_maps P"
  obtain app where w: "write_file ?V \<lparr>wr_path = p, wr_data = d, wr_offset = Some 0\<rparr> t (sv_app sv) =
      (Ok (''Wrote '' @ dec (length d) @ '' bytes''), app)"
    "serves_file T V p f rel d app" "uncached p app" "only_file f (sv_app sv) app"
    using write_serves [OF sf d, of "Some 0" t] by blast
  let ?fs1 = "fs\<lparr>rf_cache := (rf_cache fs)\<lparr>fc_write_back := dm_remove (fm_write_back ?F) (fc_write_back (rf_cache fs)) p\<rparr>\<rparr>"
  let ?fs2 = "?fs1\<lparr>rf_client := answered (rf_client fs)\<rparr>"
  let ?fs3 = "?fs2\<lparr>rf_cache := fuse_invalidate ?F p (rf_cache ?fs2)\<rparr>"
  have take: "fcache (take_pending_writes ?F p) (fs, (sv, t)) = (Ok [(0, d)], (?fs1, (sv, t)))"
    using h by (simp add: fcache_def take_pending_writes_def holds_file_def)
  have merge: "fresult (merge_write_segments [(0, d)]) (?fs1, (sv, t)) = (Ok [(0, d)], (?fs1, (sv, t)))"
    by (simp add: fresult_def merge_single)
  have put: "fcall EIO (client_write_file (fp_net P) (from_utf8_lossy p) (from_utf8_lossy d) (Some (i64_wrap 0))) (?fs1, (sv, t)) =
      (Ok (''Wrote '' @ dec (length d) @ '' bytes''), (?fs2, (sv\<lparr>sv_app := app\<rparr>, t)))"
    by (rule fcall_Ok) (use h in \<open>simp add: N u holds_file_def direct_write_file acc w is_i64_def\<close>)
  have "flush_write_back P p (fs, (sv, t)) = (Ok (), (?fs3, (sv\<lparr>sv_app := app\<rparr>, t)))"
    by (simp add: flush_write_back_def fbind_def take merge put fret_def finvalidate_Ok)
  moreover have "get_path (fp_paths P) i (rf_inodes fs) = Some p" using h by (simp add: holds_file_def)
  ultimately have "release_async P i (fs, (sv, t)) = (Ok (), (?fs3, (sv\<lparr>sv_app := app\<rparr>, t)))"
    by (simp add: release_async_def)
  moreover have "holds_file P base ttl i p None ?fs3"
    using h by (simp add: holds_file_def fuse_invalidated [OF F])
  ultimately show ?thesis using w(2-4) by auto
qed

lemma read_back:
  assumes N: "fp_net P = direct_net W S (mountable_fs T V) base" and h: "holds_file P base ttl i p wb fs"
    and u: "from_utf8_lossy p = p" and d: "utf8_valid d" and sf: "serves_file T V p f rel d (sv_app sv)" and n: "n \<le> u64_max"
  shows "fst (read_async P i 0 n (fs, (sv, t))) = Ok (take n (wt_json_text W (JStr d)))"
proof -
  obtain app where r: "read_file (mountable_fs T V) p t (sv_app sv) = (Ok d, app)"
    using read_serves [OF sf d, of t] by blast
  have "fcall EIO (client_read_file (fp_net P) (from_utf8_lossy p)) (fs, (sv, t)) =
      (Ok (wt_json_text W (JStr d)), (fs\<lparr>rf_client := answered (rf_client fs)\<rparr>, (sv\<lparr>sv_app := app\<rparr>, t)))"
    by (rule fcall_Ok) (use h in \<open>simp add: N u holds_file_def direct_read_file r\<close>)
  moreover have "content_slice x 0 n = Ok (take n x)" for x
    using n by (auto simp: content_slice_def index_range_def Let_def min_def)
  ultimately show ?thesis
    using h by (simp add: read_async_def fbind_def inode_path_def holds_file_def fcache_def get_file_content_def fresult_def)
qed

lemma attributes_back:
  assumes N: "fp_net P = direct_net W S (mountable_fs T V) base" and h: "holds_file P base ttl i p wb fs"
    and u: "from_utf8_lossy p = p" and sf: "serves_file T V p f rel d (sv_app sv)" "uncached p (sv_app sv)"
    and clock: "t + sc_ttl (as_stat_cache (sv_app sv)) \<le> instant_max" "t + ttl \<le> instant_max" and d: "length d \<le> u64_max"
  shows "\<exists>a. fst (getattr_async P i (fs, (sv, t))) = Ok (TTL, a) \<and> fa_size a = length d \<and>
    fa_kind a = FT_RegularFile \<and> fa_perm a = 0"
proof -
  obtain md k app where st: "stat_request (sp_fmt_time S) (mountable_fs T V) p t (sv_app sv) = (Ok md, app)"
    "mr_size md = length d" "mr_file_type md = ''file''" "mr_permissions md = octal k"
    using stat_serves [OF sf clock(1), of "sp_fmt_time S"] by blast
  have "client_stat (fp_net P) (from_utf8_lossy p) (rf_client fs) (sv, t) =
      (Ok (client_metadata md), answered (rf_client fs), (sv\<lparr>sv_app := app\<rparr>, t))"
    using h d by (simp add: N u holds_file_def client_stat_direct [OF st(1)] st(2))
  then show ?thesis
    using h clock(2) st(2-4)
    by (simp add: getattr_async_def fbind_def inode_path_def holds_file_def fresh_stat_def fnow_def fcache_def get_stat_def
        miss_def N fattempt_def fcache_put_def put_stat_def cache_entry_new_def fret_def metadata_to_attr_def Let_def
        client_metadata_def parse_permissions_octal)
qed

end
