(* ===== verification/File_Locks.thy ===== *)
theory File_Locks
  imports Async_Fs
begin

text \<open>
  Advisory file locks of the FUSE front end (\<open>racfs-fuse/src/advanced.rs\<close>): a table of lock ranges per inode, how
  a lock is requested, granted, released, and what the table guarantees to its owners.
\<close>

definition MULTI_MOUNT_PLACEHOLDER :: nat where "MULTI_MOUNT_PLACEHOLDER = 2"
definition FUSE_PROTOCOL_VERSION :: nat where "FUSE_PROTOCOL_VERSION = 7"

definition F_RDLCK :: int where "F_RDLCK = 0"
definition F_WRLCK :: int where "F_WRLCK = 1"
definition F_UNLCK :: int where "F_UNLCK = 2"

lemmas lock_types = F_RDLCK_def F_WRLCK_def F_UNLCK_def

type_synonym LockOwner = nat

record LockEntry =
  le_start :: nat
  le_end :: nat
  le_typ :: int
  le_pid :: nat
  le_owner :: LockOwner

type_synonym FileLockState = "(inode, LockEntry list) hash_map"

definition lock_state_new :: FileLockState where
  "lock_state_new = []"

fun first_conflict :: "nat \<Rightarrow> nat \<Rightarrow> int \<Rightarrow> LockOwner \<Rightarrow> LockEntry list \<Rightarrow> (nat \<times> nat \<times> int \<times> nat) option" where
  "first_conflict start stop typ exclude_owner [] = None"
| "first_conflict start stop typ exclude_owner (e # es) =
     (if le_owner e = exclude_owner then first_conflict start stop typ exclude_owner es
      else if \<not> (start \<le> le_end e \<and> le_start e \<le> stop) then first_conflict start stop typ exclude_owner es
      else if typ = F_WRLCK \<or> le_typ e = F_WRLCK then Some (le_start e, le_end e, le_typ e, le_pid e)
      else first_conflict start stop typ exclude_owner es)"

definition get_conflict :: "inode \<Rightarrow> nat \<Rightarrow> nat \<Rightarrow> int \<Rightarrow> LockOwner \<Rightarrow> FileLockState \<Rightarrow> (nat \<times> nat \<times> int \<times> nat) option" where
  "get_conflict ino start stop typ exclude_owner st =
     (case hm_get (=) st ino of None \<Rightarrow> None | Some es \<Rightarrow> first_conflict start stop typ exclude_owner es)"

text \<open>What an owner keeps when it locks or unlocks a range.\<close>

definition retain_outside :: "LockOwner \<Rightarrow> nat \<Rightarrow> nat \<Rightarrow> LockEntry list \<Rightarrow> LockEntry list" where
  "retain_outside owner start stop es = filter (\<lambda>e. le_owner e \<noteq> owner \<or> le_end e < start \<or> le_start e > stop) es"

definition unlock :: "inode \<Rightarrow> LockOwner \<Rightarrow> nat \<Rightarrow> nat \<Rightarrow> FileLockState \<Rightarrow> FileLockState" where
  "unlock ino owner start stop st =
     (case hm_get (=) st ino of
        None \<Rightarrow> st
      | Some es \<Rightarrow>
          let es' = retain_outside owner start stop es
          in if es' = [] then hm_remove (=) st ino else hm_insert (=) st ino es')"

text \<open>The second critical section of \<open>set_lock\<close>: the lock is entered without looking again.\<close>

definition lock_commit :: "inode \<Rightarrow> LockOwner \<Rightarrow> nat \<Rightarrow> nat \<Rightarrow> int \<Rightarrow> nat \<Rightarrow> FileLockState \<Rightarrow> FileLockState" where
  "lock_commit ino owner start stop typ pid st =
     (let es = (case hm_get (=) st ino of None \<Rightarrow> [] | Some es \<Rightarrow> es)
      in hm_insert (=) st ino (retain_outside owner start stop es @
           [\<lparr>le_start = start, le_end = stop, le_typ = typ, le_pid = pid, le_owner = owner\<rparr>]))"

definition set_lock :: "inode \<Rightarrow> LockOwner \<Rightarrow> nat \<Rightarrow> nat \<Rightarrow> int \<Rightarrow> nat \<Rightarrow> bool \<Rightarrow> FileLockState \<Rightarrow> (unit, Errno) outcome \<times> FileLockState" where
  "set_lock ino owner start stop typ pid sleep st =
     (if typ = F_UNLCK then (Ok (), unlock ino owner start stop st)
      else if get_conflict ino start stop typ owner st \<noteq> None then (Err EAGAIN, st)
      else (Ok (), lock_commit ino owner start stop typ pid st))"

definition remove_owner :: "LockOwner \<Rightarrow> FileLockState \<Rightarrow> FileLockState" where
  "remove_owner owner st =
     filter (\<lambda>(_, es). es \<noteq> []) (map (\<lambda>(ino, es). (ino, filter (\<lambda>e. le_owner e \<noteq> owner) es)) st)"

inductive lock_step :: "FileLockState \<Rightarrow> FileLockState \<Rightarrow> bool" where
  set_lock: "lock_step st (snd (set_lock ino owner start stop typ pid sleep st))"
| unlock: "lock_step st (unlock ino owner start stop st)"
| remove_owner: "lock_step st (remove_owner owner st)"

subsection \<open>The locks of an inode\<close>

definition locks_of :: "FileLockState \<Rightarrow> inode \<Rightarrow> LockEntry list" where
  "locks_of st ino = (case hm_get (=) st ino of None \<Rightarrow> [] | Some es \<Rightarrow> es)"

text \<open>Two locks that must not be held together.\<close>

definition locks_clash :: "LockEntry \<Rightarrow> LockEntry \<Rightarrow> bool" where
  "locks_clash e f \<longleftrightarrow> le_owner e \<noteq> le_owner f \<and> le_start e \<le> le_end f \<and> le_start f \<le> le_end e \<and>
     (le_typ e = F_WRLCK \<or> le_typ f = F_WRLCK)"

definition exclusive :: "FileLockState \<Rightarrow> bool" where
  "exclusive st \<longleftrightarrow> hm_inv (=) st \<and> (\<forall>ino. \<forall>e \<in> set (locks_of st ino). \<forall>f \<in> set (locks_of st ino). \<not> locks_clash e f)"

lemma locks_clash_sym: "locks_clash e f \<longleftrightarrow> locks_clash f e"
  by (auto simp: locks_clash_def)

lemma exclusiveI:
  "hm_inv (=) st \<Longrightarrow> (\<And>ino e f. e \<in> set (locks_of st ino) \<Longrightarrow> f \<in> set (locks_of st ino) \<Longrightarrow> \<not> locks_clash e f) \<Longrightarrow> exclusive st"
  by (simp add: exclusive_def)

lemma exclusiveD:
  "exclusive st \<Longrightarrow> hm_inv (=) st"
  "exclusive st \<Longrightarrow> e \<in> set (locks_of st ino) \<Longrightarrow> f \<in> set (locks_of st ino) \<Longrightarrow> \<not> locks_clash e f"
  by (simp_all add: exclusive_def)

lemma exclusive_subset:
  assumes "exclusive st" "hm_inv (=) st'" "\<And>ino. set (locks_of st' ino) \<subseteq> set (locks_of st ino)"
  shows "exclusive st'"
  using assms by (intro exclusiveI) (auto dest: exclusiveD(2))

lemma first_conflict_None:
  "first_conflict start stop typ owner es = None \<longleftrightarrow>
     (\<forall>e \<in> set es. \<not> locks_clash \<lparr>le_start = start, le_end = stop, le_typ = typ, le_pid = pid, le_owner = owner\<rparr> e)"
  by (induction es) (auto simp: locks_clash_def)

lemma get_conflict_None:
  "get_conflict ino start stop typ owner st = None \<longleftrightarrow>
     (\<forall>e \<in> set (locks_of st ino). \<not> locks_clash \<lparr>le_start = start, le_end = stop, le_typ = typ, le_pid = pid, le_owner = owner\<rparr> e)"
  by (auto simp: get_conflict_def locks_of_def first_conflict_None [of _ _ _ _ _ pid] split: option.splits)

lemma locks_of_unlock:
  "locks_of (unlock ino owner start stop st) j =
     (if j = ino then retain_outside owner start stop (locks_of st ino) else locks_of st j)"
  by (auto simp: unlock_def locks_of_def Let_def str_map.hm_get_remove str_map.hm_get_insert retain_outside_def split: option.splits)

lemma locks_of_commit:
  "locks_of (lock_commit ino owner start stop typ pid st) j =
     (if j = ino then retain_outside owner start stop (locks_of st ino) @
        [\<lparr>le_start = start, le_end = stop, le_typ = typ, le_pid = pid, le_owner = owner\<rparr>] else locks_of st j)"
  by (auto simp: lock_commit_def locks_of_def Let_def str_map.hm_get_insert split: option.splits)

lemma hm_get_map_filter:
  assumes "hm_inv (=) m"
  shows "hm_get (=) (filter (\<lambda>(_, v). P v) (map (\<lambda>(k, v). (k, f v)) m)) k =
    (case hm_get (=) m k of None \<Rightarrow> None | Some v \<Rightarrow> if P (f v) then Some (f v) else None)"
  using assms
proof (induction m)
  case (Cons kv m)
  then show ?case by (cases kv) (auto split: option.splits)
qed simp

lemma hm_inv_map: "hm_inv (=) m \<Longrightarrow> hm_inv (=) (map (\<lambda>(k, v). (k, f v)) m)"
proof (induction m)
  case (Cons kv m)
  moreover have "hm_get (=) (map (\<lambda>(k, v). (k, f v)) m) k = map_option f (hm_get (=) m k)" for k
    by (induction m) auto
  ultimately show ?case by (cases kv) simp
qed simp

lemma locks_of_remove_owner:
  "hm_inv (=) st \<Longrightarrow> locks_of (remove_owner owner st) ino = filter (\<lambda>e. le_owner e \<noteq> owner) (locks_of st ino)"
  by (simp add: locks_of_def remove_owner_def hm_get_map_filter split: option.splits)

lemma hm_inv_locks:
  "hm_inv (=) st \<Longrightarrow> hm_inv (=) (unlock ino owner start stop st)"
  "hm_inv (=) st \<Longrightarrow> hm_inv (=) (lock_commit ino owner start stop typ pid st)"
  "hm_inv (=) st \<Longrightarrow> hm_inv (=) (remove_owner owner st)"
  by (auto simp: unlock_def lock_commit_def remove_owner_def Let_def
      intro!: str_map.hm_inv_insert str_map.hm_inv_remove str_map.hm_inv_filter hm_inv_map split: option.splits)

lemma lock_commit_exclusive:
  assumes "exclusive st" "get_conflict ino start stop typ owner st = None"
  shows "exclusive (lock_commit ino owner start stop typ pid st)"
proof (rule exclusiveI)
  let ?n = "\<lparr>le_start = start, le_end = stop, le_typ = typ, le_pid = pid, le_owner = owner\<rparr>"
  have n: "\<not> locks_clash ?n e" if "e \<in> set (locks_of st ino)" for e
    using assms(2) that unfolding get_conflict_None [of _ _ _ _ _ _ pid] by blast
  moreover have "\<not> locks_clash ?n ?n" by (simp add: locks_clash_def)
  ultimately show "\<not> locks_clash e f" if "e \<in> set (locks_of (lock_commit ino owner start stop typ pid st) j)"
    "f \<in> set (locks_of (lock_commit ino owner start stop typ pid st) j)" for j e f
    using that exclusiveD(2) [OF assms(1)] locks_clash_sym
    by (auto simp: locks_of_commit retain_outside_def split: if_splits)
qed (rule hm_inv_locks(2) [OF exclusiveD(1) [OF assms(1)]])

lemma lock_step_exclusive: "lock_step st st' \<Longrightarrow> exclusive st \<Longrightarrow> exclusive st'"
proof (induction rule: lock_step.induct)
  case (set_lock st ino owner start stop k pid sleep)
  have "exclusive (unlock ino owner start stop st)"
    by (rule exclusive_subset [OF set_lock hm_inv_locks(1) [OF exclusiveD(1) [OF set_lock]]])
      (auto simp: locks_of_unlock retain_outside_def)
  with set_lock lock_commit_exclusive [OF set_lock] show ?case
    by (cases "get_conflict ino start stop k owner st") (simp_all add: set_lock_def)
next
  case (unlock st ino owner start stop)
  show ?case
    by (rule exclusive_subset [OF unlock hm_inv_locks(1) [OF exclusiveD(1) [OF unlock]]])
      (auto simp: locks_of_unlock retain_outside_def)
next
  case (remove_owner st owner)
  show ?case
    by (rule exclusive_subset [OF remove_owner hm_inv_locks(3) [OF exclusiveD(1) [OF remove_owner]]])
      (auto simp: locks_of_remove_owner exclusiveD(1) [OF remove_owner])
qed

lemma lock_run_exclusive: "lock_step\<^sup>*\<^sup>* lock_state_new st \<Longrightarrow> exclusive st"
proof (induction rule: rtranclp_induct)
  case base
  show ?case by (simp add: exclusive_def lock_state_new_def locks_of_def)
qed (rule lock_step_exclusive)

subsection \<open>What the owners can rely on\<close>

definition holds_lock :: "FileLockState \<Rightarrow> inode \<Rightarrow> LockOwner \<Rightarrow> nat \<Rightarrow> int \<Rightarrow> bool" where
  "holds_lock st ino owner b typ \<longleftrightarrow>
     (\<exists>e \<in> set (locks_of st ino). le_owner e = owner \<and> le_start e \<le> b \<and> b \<le> le_end e \<and> le_typ e = typ)"

lemma exclusive_holds:
  assumes "exclusive st" "holds_lock st ino x b F_WRLCK" "holds_lock st ino y b t"
  shows "x = y"
proof -
  obtain e f where e: "e \<in> set (locks_of st ino)" "le_owner e = x" "le_start e \<le> b" "b \<le> le_end e" "le_typ e = F_WRLCK"
    and f: "f \<in> set (locks_of st ino)" "le_owner f = y" "le_start f \<le> b" "b \<le> le_end f"
    using assms(2,3) unfolding holds_lock_def by blast
  from exclusiveD(2) [OF assms(1) e(1) f(1)] e f show ?thesis by (simp add: locks_clash_def)
qed

lemma commit_holds:
  "holds_lock (lock_commit ino owner start stop typ pid st) j x b t \<longleftrightarrow>
     (if j = ino \<and> x = owner
      then (start \<le> b \<and> b \<le> stop \<and> t = typ) \<or>
        (\<exists>e \<in> set (locks_of st ino). le_owner e = owner \<and> (le_end e < start \<or> le_start e > stop) \<and>
           le_start e \<le> b \<and> b \<le> le_end e \<and> le_typ e = t)
      else holds_lock st j x b t)"
  by (auto simp: holds_lock_def locks_of_commit retain_outside_def)

text \<open>
  \<^bold>\<open>C12\<close>. Advisory locks: in every state the table can reach by requests, releases and closed files, no byte that one owner
  has locked for writing is locked by another. A request is refused with EAGAIN exactly when another owner has a
  conflicting lock on an overlapping range, and then nothing changes; a granted request gives its owner the requested
  lock on every byte of the range and leaves the locks of all other owners and all other inodes as
  they were. After a file is closed, its owner holds nothing.
\<close>

theorem lock_table:
  assumes "lock_step\<^sup>*\<^sup>* lock_state_new st" "typ \<noteq> F_UNLCK"
  shows "(\<forall>j x y b t. holds_lock st j x b F_WRLCK \<and> holds_lock st j y b t \<longrightarrow> x = y) \<and>
    (let clash = (\<exists>e \<in> set (locks_of st ino). le_owner e \<noteq> owner \<and> start \<le> le_end e \<and> le_start e \<le> stop \<and>
           (typ = F_WRLCK \<or> le_typ e = F_WRLCK));
         (r, st') = set_lock ino owner start stop typ pid sleep st
     in if clash then r = Err EAGAIN \<and> st' = st
        else r = Ok () \<and> (\<forall>b. start \<le> b \<and> b \<le> stop \<longrightarrow> (\<forall>t. holds_lock st' ino owner b t \<longleftrightarrow> t = typ)) \<and>
          (\<forall>j x b t. j \<noteq> ino \<or> x \<noteq> owner \<longrightarrow> holds_lock st' j x b t = holds_lock st j x b t)) \<and>
    (\<forall>j x b t. holds_lock (remove_owner owner st) j x b t \<longleftrightarrow> x \<noteq> owner \<and> holds_lock st j x b t)"
proof -
  note ex = lock_run_exclusive [OF assms(1)]
  have clash: "(\<exists>e \<in> set (locks_of st ino). le_owner e \<noteq> owner \<and> start \<le> le_end e \<and> le_start e \<le> stop \<and>
      (typ = F_WRLCK \<or> le_typ e = F_WRLCK)) \<longleftrightarrow> get_conflict ino start stop typ owner st \<noteq> None"
    by (auto simp: get_conflict_None [of _ _ _ _ _ _ pid] locks_clash_def)
  have "holds_lock (remove_owner owner st) j x b t \<longleftrightarrow> x \<noteq> owner \<and> holds_lock st j x b t" for j x b t
    by (auto simp: holds_lock_def locks_of_remove_owner exclusiveD(1) [OF ex])
  moreover have "\<forall>j x y b t. holds_lock st j x b F_WRLCK \<and> holds_lock st j y b t \<longrightarrow> x = y"
    using exclusive_holds [OF ex] by blast
  ultimately show ?thesis
    unfolding clash using assms(2) by (auto simp: set_lock_def Let_def commit_holds)
qed

theorem lock_table_witness:
  "let st = snd (set_lock 10 3 0 99 F_WRLCK 7 False lock_state_new)
   in fst (set_lock 10 4 50 150 F_RDLCK 8 False st) = Err EAGAIN \<and> holds_lock st 10 3 60 F_WRLCK \<and>
      \<not> holds_lock (remove_owner 3 st) 10 3 60 F_WRLCK"
proof -
  let ?st = "snd (set_lock 10 3 0 99 F_WRLCK 7 False lock_state_new)"
  have run: "lock_step\<^sup>*\<^sup>* lock_state_new ?st" by (rule r_into_rtranclp) (rule lock_step.set_lock)
  have es: "locks_of ?st 10 = [\<lparr>le_start = 0, le_end = 99, le_typ = F_WRLCK, le_pid = 7, le_owner = 3\<rparr>]"
    by (simp add: set_lock_def get_conflict_def lock_commit_def lock_state_new_def locks_of_def retain_outside_def Let_def lock_types)
  have "F_RDLCK \<noteq> F_UNLCK" by (simp add: lock_types)
  from lock_table [OF run this, where ino = 10 and owner = 4 and start = 50 and stop = 150 and pid = 8 and sleep = False]
  have "fst (set_lock 10 4 50 150 F_RDLCK 8 False ?st) = Err EAGAIN"
    by (cases "set_lock 10 4 50 150 F_RDLCK 8 False ?st") (simp add: es Let_def)
  moreover have "holds_lock ?st 10 3 60 F_WRLCK" by (simp add: holds_lock_def es)
  moreover have "\<not> holds_lock (remove_owner 3 ?st) 10 3 60 F_WRLCK"
    using lock_table [OF run \<open>F_RDLCK \<noteq> F_UNLCK\<close>, where owner = 3] by blast
  ultimately show ?thesis by (simp add: Let_def)
qed

text \<open>Unlocking part of a range gives up the whole lock; POSIX keeps the rest.\<close>

lemma unlock_drops_rest:
  assumes "locks_of st ino = [e]" "le_owner e = owner" "le_start e \<le> stop" "start \<le> le_end e"
  shows "\<not> holds_lock (unlock ino owner start stop st) ino owner b t"
  using assms by (simp add: holds_lock_def locks_of_unlock retain_outside_def)

text \<open>The check and the entry of a lock are separate critical sections: two requests that both pass the check are both granted.\<close>

lemma lock_race:
  assumes "locks_of st ino = []" "start \<le> stop" "x \<noteq> y"
  shows "get_conflict ino start stop F_WRLCK x st = None \<and> get_conflict ino start stop F_WRLCK y st = None \<and>
    \<not> exclusive (lock_commit ino y start stop F_WRLCK q (lock_commit ino x start stop F_WRLCK p st))"
proof -
  let ?st = "lock_commit ino y start stop F_WRLCK q (lock_commit ino x start stop F_WRLCK p st)"
  have "holds_lock ?st ino x start F_WRLCK" "holds_lock ?st ino y start F_WRLCK"
    using assms by (simp_all add: commit_holds)
  then have "\<not> exclusive ?st" using exclusive_holds assms(3) by blast
  with assms(1) show ?thesis by (simp add: get_conflict_None [of _ _ _ _ _ _ 0])
qed

end
