(* ===== verification/Blocking_Adapter.thy ===== *)
theory Blocking_Adapter
  imports File_Locks Fuse_Writes
begin

text \<open>
  The blocking adapter (\<open>racfs-fuse/src/blocking_adapter.rs\<close>): what the kernel calls. Every request runs one operation of
  the asynchronous front end to completion and turns its result into a reply; lock requests go to the lock
  table. A panic of an operation takes the request down without a reply.
\<close>

record ('a, 'b, 'c, 'd, 'e, 'f) BlockingAdapter =
  ba_async_fs :: "('a, 'b, 'c, 'd, 'e, 'f) RacfsAsyncFs"
  ba_lock_state :: FileLockState

text \<open>The replies of the crate fuser; a directory reply is a buffer that its parameter fills.\<close>

datatype 'x reply =
    R_Entry time FileAttr nat
  | R_Attr time FileAttr
  | R_Data bytes
  | R_Directory 'x
  | R_Created time FileAttr nat nat nat
  | R_Written nat
  | R_Size nat
  | R_Locked nat nat int nat
  | R_Ok
  | R_Error Errno

type_synonym ('a, 'b, 'c, 'd, 'e, 'f, 'w, 'x) adapter_op =
  "('a, 'b, 'c, 'd, 'e, 'f) BlockingAdapter \<times> 'w \<Rightarrow> ('x reply, unit) outcome \<times> (('a, 'b, 'c, 'd, 'e, 'f) BlockingAdapter \<times> 'w)"

definition adapter_new :: "('a, 'b, 'c, 'd, 'e, 'f, 'w) fuse_params \<Rightarrow> string \<Rightarrow> ('a, 'b, 'c, 'd, 'e, 'f) BlockingAdapter" where
  "adapter_new P server_url = \<lparr>ba_async_fs = async_fs_new P server_url, ba_lock_state = lock_state_new\<rparr>"

text \<open>\<open>block_on\<close> and the \<open>match\<close> on its result.\<close>

definition block_on :: "('a, 'b, 'c, 'd, 'e, 'f, 'w, 'r) fuse_op \<Rightarrow> ('r \<Rightarrow> 'x reply) \<Rightarrow> ('a, 'b, 'c, 'd, 'e, 'f, 'w, 'x) adapter_op" where
  "block_on m f s =
     (let (r, (fs, w)) = m (ba_async_fs (fst s), snd s)
      in ((case r of Ok a \<Rightarrow> Ok (f a) | Err e \<Rightarrow> Ok (R_Error e) | Panic \<Rightarrow> Panic | Hang \<Rightarrow> Hang),
          ((fst s)\<lparr>ba_async_fs := fs\<rparr>, w)))"

definition reply_entry :: "time \<times> FileAttr \<times> nat \<Rightarrow> 'x reply" where
  "reply_entry = (\<lambda>(ttl, attr, generation). R_Entry ttl attr generation)"

definition reply_attr :: "time \<times> FileAttr \<Rightarrow> 'x reply" where
  "reply_attr = (\<lambda>(ttl, attr). R_Attr ttl attr)"

text \<open>Attribute values and lists: a size of zero asks for the length, and a buffer that is too small is refused.\<close>

definition reply_xattr :: "nat \<Rightarrow> bytes \<Rightarrow> 'x reply" where
  "reply_xattr sz data =
     (if sz = 0 then R_Size (length data mod 2 ^ 32)
      else if length data \<le> sz then R_Data data
      else R_Error ERANGE)"

definition adapter_lookup :: "('a, 'b, 'c, 'd, 'e, 'f, 'w) fuse_params \<Rightarrow> inode \<Rightarrow> string \<Rightarrow> ('a, 'b, 'c, 'd, 'e, 'f, 'w, 'x) adapter_op" where
  "adapter_lookup P dir name =
     block_on (lookup_async P dir name) reply_entry"

definition adapter_getattr :: "('a, 'b, 'c, 'd, 'e, 'f, 'w) fuse_params \<Rightarrow> inode \<Rightarrow> ('a, 'b, 'c, 'd, 'e, 'f, 'w, 'x) adapter_op" where
  "adapter_getattr P i =
     block_on (getattr_async P i) reply_attr"

definition adapter_readdir :: "('a, 'b, 'c, 'd, 'e, 'f, 'w) fuse_params \<Rightarrow> ('x \<Rightarrow> inode \<Rightarrow> nat \<Rightarrow> FileType \<Rightarrow> string \<Rightarrow> bool \<times> 'x) \<Rightarrow>
    inode \<Rightarrow> nat \<Rightarrow> 'x \<Rightarrow> ('a, 'b, 'c, 'd, 'e, 'f, 'w, 'x) adapter_op" where
  "adapter_readdir P add i offset b =
     block_on (readdir_async P i offset) (\<lambda>es. R_Directory (fill_builder add offset 0 es b))"

definition adapter_read :: "('a, 'b, 'c, 'd, 'e, 'f, 'w) fuse_params \<Rightarrow> inode \<Rightarrow> nat \<Rightarrow> nat \<Rightarrow> ('a, 'b, 'c, 'd, 'e, 'f, 'w, 'x) adapter_op" where
  "adapter_read P i offset n =
     block_on (read_async P i offset n) R_Data"

definition adapter_create :: "('a, 'b, 'c, 'd, 'e, 'f, 'w) fuse_params \<Rightarrow> inode \<Rightarrow> string \<Rightarrow> ('a, 'b, 'c, 'd, 'e, 'f, 'w, 'x) adapter_op" where
  "adapter_create P dir name =
     block_on (create_async P dir name) (\<lambda>(ttl, attr, generation). R_Created ttl attr generation 0 0)"

definition adapter_mkdir :: "('a, 'b, 'c, 'd, 'e, 'f, 'w) fuse_params \<Rightarrow> inode \<Rightarrow> string \<Rightarrow> mode \<Rightarrow> ('a, 'b, 'c, 'd, 'e, 'f, 'w, 'x) adapter_op" where
  "adapter_mkdir P dir name m =
     block_on (mkdir_async P dir name m) reply_entry"

definition adapter_write :: "('a, 'b, 'c, 'd, 'e, 'f, 'w) fuse_params \<Rightarrow> inode \<Rightarrow> nat \<Rightarrow> bytes \<Rightarrow> ('a, 'b, 'c, 'd, 'e, 'f, 'w, 'x) adapter_op" where
  "adapter_write P i offset data =
     block_on (write_async P i offset data) R_Written"

definition adapter_unlink :: "('a, 'b, 'c, 'd, 'e, 'f, 'w) fuse_params \<Rightarrow> inode \<Rightarrow> string \<Rightarrow> ('a, 'b, 'c, 'd, 'e, 'f, 'w, 'x) adapter_op" where
  "adapter_unlink P dir name =
     block_on (unlink_async P dir name) (\<lambda>_. R_Ok)"

definition adapter_rmdir :: "('a, 'b, 'c, 'd, 'e, 'f, 'w) fuse_params \<Rightarrow> inode \<Rightarrow> string \<Rightarrow> ('a, 'b, 'c, 'd, 'e, 'f, 'w, 'x) adapter_op" where
  "adapter_rmdir P dir name =
     block_on (rmdir_async P dir name) (\<lambda>_. R_Ok)"

definition adapter_rename :: "('a, 'b, 'c, 'd, 'e, 'f, 'w) fuse_params \<Rightarrow> inode \<Rightarrow> string \<Rightarrow> inode \<Rightarrow> string \<Rightarrow> ('a, 'b, 'c, 'd, 'e, 'f, 'w, 'x) adapter_op" where
  "adapter_rename P dir name newdir newname =
     block_on (rename_async P dir name newdir newname) (\<lambda>_. R_Ok)"

definition adapter_release :: "('a, 'b, 'c, 'd, 'e, 'f, 'w) fuse_params \<Rightarrow> inode \<Rightarrow> LockOwner option \<Rightarrow> ('a, 'b, 'c, 'd, 'e, 'f, 'w, 'x) adapter_op" where
  "adapter_release P i lock_owner s =
     (let ba = (case lock_owner of
          Some owner \<Rightarrow> (fst s)\<lparr>ba_lock_state := remove_owner owner (ba_lock_state (fst s))\<rparr>
        | None \<Rightarrow> fst s)
      in block_on (release_async P i) (\<lambda>_. R_Ok) (ba, snd s))"

text \<open>Only one of size and mode is applied; owner, group and times are not.\<close>

definition adapter_setattr :: "('a, 'b, 'c, 'd, 'e, 'f, 'w) fuse_params \<Rightarrow> inode \<Rightarrow> mode option \<Rightarrow> nat option \<Rightarrow> ('a, 'b, 'c, 'd, 'e, 'f, 'w, 'x) adapter_op" where
  "adapter_setattr P i m sz =
     (case sz of
        Some n \<Rightarrow> block_on (truncate_async P i n) reply_attr
      | None \<Rightarrow>
          (case m of
             Some mo \<Rightarrow> block_on (chmod_async P i mo) reply_attr
           | None \<Rightarrow> block_on (getattr_async P i) reply_attr))"

definition adapter_readlink :: "('a, 'b, 'c, 'd, 'e, 'f, 'w) fuse_params \<Rightarrow> inode \<Rightarrow> ('a, 'b, 'c, 'd, 'e, 'f, 'w, 'x) adapter_op" where
  "adapter_readlink P i =
     block_on (readlink_async P i) R_Data"

definition adapter_symlink :: "('a, 'b, 'c, 'd, 'e, 'f, 'w) fuse_params \<Rightarrow> inode \<Rightarrow> string \<Rightarrow> path \<Rightarrow> ('a, 'b, 'c, 'd, 'e, 'f, 'w, 'x) adapter_op" where
  "adapter_symlink P dir name target =
     block_on (symlink_async P dir name (from_utf8_lossy target)) reply_entry"

definition adapter_getxattr :: "('a, 'b, 'c, 'd, 'e, 'f, 'w) fuse_params \<Rightarrow> inode \<Rightarrow> string \<Rightarrow> nat \<Rightarrow> ('a, 'b, 'c, 'd, 'e, 'f, 'w, 'x) adapter_op" where
  "adapter_getxattr P i name sz =
     block_on (getxattr_async P i name) (reply_xattr sz)"

definition adapter_setxattr :: "('a, 'b, 'c, 'd, 'e, 'f, 'w) fuse_params \<Rightarrow> inode \<Rightarrow> string \<Rightarrow> bytes \<Rightarrow> ('a, 'b, 'c, 'd, 'e, 'f, 'w, 'x) adapter_op" where
  "adapter_setxattr P i name v =
     block_on (setxattr_async P i name v) (\<lambda>_. R_Ok)"

definition adapter_listxattr :: "('a, 'b, 'c, 'd, 'e, 'f, 'w) fuse_params \<Rightarrow> inode \<Rightarrow> nat \<Rightarrow> ('a, 'b, 'c, 'd, 'e, 'f, 'w, 'x) adapter_op" where
  "adapter_listxattr P i sz =
     block_on (listxattr_async P i) (reply_xattr sz)"

definition adapter_removexattr :: "('a, 'b, 'c, 'd, 'e, 'f, 'w) fuse_params \<Rightarrow> inode \<Rightarrow> string \<Rightarrow> ('a, 'b, 'c, 'd, 'e, 'f, 'w, 'x) adapter_op" where
  "adapter_removexattr P i name =
     block_on (removexattr_async P i name) (\<lambda>_. R_Ok)"

definition adapter_getlk :: "inode \<Rightarrow> LockOwner \<Rightarrow> nat \<Rightarrow> nat \<Rightarrow> int \<Rightarrow> ('a, 'b, 'c, 'd, 'e, 'f, 'w, 'x) adapter_op" where
  "adapter_getlk i lock_owner start stop k s =
     (case get_conflict i start stop k lock_owner (ba_lock_state (fst s)) of
        Some (a, b, c, pid) \<Rightarrow> (Ok (R_Locked a b c pid), s)
      | None \<Rightarrow> (Ok (R_Locked start stop F_UNLCK 0), s))"

definition adapter_setlk :: "inode \<Rightarrow> LockOwner \<Rightarrow> nat \<Rightarrow> nat \<Rightarrow> int \<Rightarrow> nat \<Rightarrow> bool \<Rightarrow> ('a, 'b, 'c, 'd, 'e, 'f, 'w, 'x) adapter_op" where
  "adapter_setlk i lock_owner start stop k pid sleep s =
     (let (r, st) = set_lock i lock_owner start stop k pid sleep (ba_lock_state (fst s))
      in ((case r of Ok _ \<Rightarrow> Ok R_Ok | Err e \<Rightarrow> Ok (R_Error e) | Panic \<Rightarrow> Panic | Hang \<Rightarrow> Hang),
          ((fst s)\<lparr>ba_lock_state := st\<rparr>, snd s)))"

subsection \<open>Requests of the kernel\<close>

type_synonym 'x dir_builder = "'x \<Rightarrow> inode \<Rightarrow> nat \<Rightarrow> FileType \<Rightarrow> string \<Rightarrow> bool \<times> 'x"

inductive adapter_step :: "('a, 'b, 'c, 'd, 'e, 'f, 'w) fuse_params \<Rightarrow> 'x dir_builder \<Rightarrow> ('a, 'b, 'c, 'd, 'e, 'f) BlockingAdapter \<times> 'w \<Rightarrow>
    ('a, 'b, 'c, 'd, 'e, 'f) BlockingAdapter \<times> 'w \<Rightarrow> bool"
  for P :: "('a, 'b, 'c, 'd, 'e, 'f, 'w) fuse_params" and add :: "'x dir_builder" where
  k_lookup: "adapter_lookup P dir name s = (r :: ('x reply, unit) outcome, s') \<Longrightarrow> adapter_step P add s s'"
| k_getattr: "adapter_getattr P i s = (r :: ('x reply, unit) outcome, s') \<Longrightarrow> adapter_step P add s s'"
| k_readdir: "adapter_readdir P add i offset b s = (r :: ('x reply, unit) outcome, s') \<Longrightarrow> adapter_step P add s s'"
| k_read: "adapter_read P i offset n s = (r :: ('x reply, unit) outcome, s') \<Longrightarrow> adapter_step P add s s'"
| k_create: "adapter_create P dir name s = (r :: ('x reply, unit) outcome, s') \<Longrightarrow> adapter_step P add s s'"
| k_mkdir: "adapter_mkdir P dir name m s = (r :: ('x reply, unit) outcome, s') \<Longrightarrow> adapter_step P add s s'"
| k_write: "adapter_write P i offset data s = (r :: ('x reply, unit) outcome, s') \<Longrightarrow> adapter_step P add s s'"
| k_unlink: "adapter_unlink P dir name s = (r :: ('x reply, unit) outcome, s') \<Longrightarrow> adapter_step P add s s'"
| k_rmdir: "adapter_rmdir P dir name s = (r :: ('x reply, unit) outcome, s') \<Longrightarrow> adapter_step P add s s'"
| k_rename: "adapter_rename P dir name newdir newname s = (r :: ('x reply, unit) outcome, s') \<Longrightarrow> adapter_step P add s s'"
| k_release: "adapter_release P i lock_owner s = (r :: ('x reply, unit) outcome, s') \<Longrightarrow> adapter_step P add s s'"
| k_setattr: "adapter_setattr P i mo sz s = (r :: ('x reply, unit) outcome, s') \<Longrightarrow> adapter_step P add s s'"
| k_readlink: "adapter_readlink P i s = (r :: ('x reply, unit) outcome, s') \<Longrightarrow> adapter_step P add s s'"
| k_symlink: "adapter_symlink P dir name target s = (r :: ('x reply, unit) outcome, s') \<Longrightarrow> adapter_step P add s s'"
| k_getxattr: "adapter_getxattr P i name n s = (r :: ('x reply, unit) outcome, s') \<Longrightarrow> adapter_step P add s s'"
| k_setxattr: "adapter_setxattr P i name v s = (r :: ('x reply, unit) outcome, s') \<Longrightarrow> adapter_step P add s s'"
| k_listxattr: "adapter_listxattr P i n s = (r :: ('x reply, unit) outcome, s') \<Longrightarrow> adapter_step P add s s'"
| k_removexattr: "adapter_removexattr P i name s = (r :: ('x reply, unit) outcome, s') \<Longrightarrow> adapter_step P add s s'"
| k_getlk: "adapter_getlk i lock_owner start stop k s = (r :: ('x reply, unit) outcome, s') \<Longrightarrow> adapter_step P add s s'"
| k_setlk: "adapter_setlk i lock_owner start stop k pid sleep s = (r :: ('x reply, unit) outcome, s') \<Longrightarrow> adapter_step P add s s'"

subsection \<open>Projection to the parts\<close>

lemmas adapter_defs = adapter_lookup_def adapter_getattr_def adapter_readdir_def adapter_read_def adapter_create_def
  adapter_mkdir_def adapter_write_def adapter_unlink_def adapter_rmdir_def adapter_rename_def adapter_readlink_def
  adapter_symlink_def adapter_getxattr_def adapter_setxattr_def adapter_listxattr_def adapter_removexattr_def

lemma block_on_parts:
  assumes "block_on m f s = (r, s')"
  shows "(ba_async_fs (fst s'), snd s') = snd (m (ba_async_fs (fst s), snd s))"
    and "ba_lock_state (fst s') = ba_lock_state (fst s)"
  using assms by (auto simp: block_on_def Let_def split: prod.splits)

definition adapter_front :: "('a, 'b, 'c, 'd, 'e, 'f) BlockingAdapter \<times> 'w \<Rightarrow> ('a, 'b, 'c, 'd, 'e, 'f) RacfsAsyncFs \<times> 'w" where
  "adapter_front s = (ba_async_fs (fst s), snd s)"

text \<open>A request is at most one operation of the front end and one of the lock table.\<close>

definition part_steps :: "('a, 'b, 'c, 'd, 'e, 'f, 'w) fuse_params \<Rightarrow> ('a, 'b, 'c, 'd, 'e, 'f) BlockingAdapter \<times> 'w \<Rightarrow>
    ('a, 'b, 'c, 'd, 'e, 'f) BlockingAdapter \<times> 'w \<Rightarrow> bool" where
  "part_steps P s s' \<longleftrightarrow>
     (fuse_step P)\<^sup>*\<^sup>* (adapter_front s) (adapter_front s') \<and>
     lock_step\<^sup>*\<^sup>* (ba_lock_state (fst s)) (ba_lock_state (fst s'))"

lemma block_on_part_steps:
  assumes "block_on m f s = (r, s')" "\<And>t. fuse_step P t (snd (m t))"
  shows "part_steps P s s'"
  using block_on_parts [OF assms(1)] assms(2) [of "adapter_front s"]
  by (auto simp: part_steps_def adapter_front_def)

lemma adapter_step_parts: "adapter_step P add s s' \<Longrightarrow> part_steps P s s'"
proof (induction rule: adapter_step.induct)
  case (k_release i lock_owner s r s')
  let ?ba = "case lock_owner of Some owner \<Rightarrow> (fst s)\<lparr>ba_lock_state := remove_owner owner (ba_lock_state (fst s))\<rparr> | None \<Rightarrow> fst s"
  from k_release have b: "block_on (release_async P i) (\<lambda>_. R_Ok) (?ba, snd s) = (r, s')"
    by (simp add: adapter_release_def Let_def)
  have "lock_step\<^sup>*\<^sup>* (ba_lock_state (fst s)) (ba_lock_state ?ba)"
    by (auto split: option.splits intro: lock_step.remove_owner)
  moreover have "adapter_front (?ba, snd s) = adapter_front s" by (auto simp: adapter_front_def split: option.splits)
  ultimately show ?case
    using block_on_part_steps [OF b fuse_step.release] by (auto simp: part_steps_def)
next
  case (k_setattr i mo sz s r s')
  then show ?case
    by (auto simp: adapter_setattr_def split: option.splits intro: block_on_part_steps fuse_step.intros)
next
  case (k_getlk i lock_owner start stop k s r s')
  then have "s' = s" by (auto simp: adapter_getlk_def split: option.splits)
  then show ?case by (simp add: part_steps_def)
next
  case (k_setlk i lock_owner start stop k pid sleep s r s')
  then have "adapter_front s' = adapter_front s"
    "ba_lock_state (fst s') = snd (set_lock i lock_owner start stop k pid sleep (ba_lock_state (fst s)))"
    by (auto simp: adapter_setlk_def adapter_front_def Let_def split: prod.splits)
  then show ?case by (simp add: part_steps_def) (rule r_into_rtranclp, rule lock_step.set_lock)
qed (auto simp: adapter_defs intro: block_on_part_steps fuse_step.intros)

lemma adapter_run_parts: "(adapter_step P add)\<^sup>*\<^sup>* s s' \<Longrightarrow> part_steps P s s'"
proof (induction rule: rtranclp_induct)
  case base
  show ?case by (simp add: part_steps_def)
next
  case (step t u)
  then show ?case using adapter_step_parts [of P add t u] by (auto simp: part_steps_def)
qed

subsection \<open>Closing a file\<close>

definition nothing_pending :: "('a, 'b, 'c, 'd) fuse_maps \<Rightarrow> path \<Rightarrow> ('a, 'b, 'c, 'd) FuseCache \<Rightarrow> bool" where
  "nothing_pending F p c \<longleftrightarrow> dm_get (fm_write_back F) (fc_write_back c) p = None"

lemma flush_nothing_pending:
  assumes F: "fuse_laws (fp_maps P)"
  shows "nothing_pending (fp_maps P) p (rf_cache (fst (snd (flush_write_back P p s))))"
proof -
  let ?F = "fp_maps P"
  obtain fs w where fs: "s = (fs, w)" by (cases s)
  obtain segs c where t: "take_pending_writes ?F p (rf_cache fs) = (segs, c)"
    by (cases "take_pending_writes ?F p (rf_cache fs)")
  then have c: "nothing_pending ?F p c"
    by (auto simp: take_pending_writes_def nothing_pending_def write_back_laws [OF F] split: option.splits)
  have "keeps (nothing_pending ?F p) (finvalidate P p)"
    unfolding finvalidate_def
    by (rule keeps_fcache) (simp add: nothing_pending_def fuse_invalidate_def Let_def write_back_laws [OF F])
  then have "keeps (nothing_pending ?F p) (if segs = [] then fret ()
      else fbind (fresult (merge_write_segments segs)) (\<lambda>merged.
           fbind (send_segments P p merged) (\<lambda>_. finvalidate P p)))"
    by (auto intro!: keeps_intros)
  from this [unfolded keeps_def, rule_format, of "(fs\<lparr>rf_cache := c\<rparr>, w)"] c
  show ?thesis by (simp add: flush_write_back_def fbind_def fcache_def fs t)
qed

lemma release_nothing_pending:
  assumes "fuse_laws (fp_maps P)" "get_path (fp_paths P) i (rf_inodes (fst s)) = Some p"
  shows "nothing_pending (fp_maps P) p (rf_cache (fst (snd (release_async P i s))))"
  using flush_nothing_pending [OF assms(1), of p s] assms(2)
  by (auto simp: release_async_def split: prod.splits outcome.splits)

text \<open>
  \<^bold>\<open>C11\<close>. The requests of the kernel, in any order and whatever the network does: what is buffered for a file stays below
  256 KiB, no byte locked for writing is locked by two owners, and when a file is closed by a lock
  owner that owner holds no lock on any file and nothing is left in the buffer of the file.
\<close>

theorem adapter_safe:
  assumes F: "fuse_laws (fp_maps P)" and run: "(adapter_step P (add :: 'x dir_builder))\<^sup>*\<^sup>* (adapter_new P url, w) (ba, w')"
  shows "(\<forall>p e. dm_get (fm_write_back (fp_maps P)) (fc_write_back (rf_cache (ba_async_fs ba))) p = Some e \<longrightarrow> wb_total_bytes e < 262144) \<and>
    (\<forall>j x y b t. holds_lock (ba_lock_state ba) j x b F_WRLCK \<and> holds_lock (ba_lock_state ba) j y b t \<longrightarrow> x = y) \<and>
    (\<forall>i p owner. get_path (fp_paths P) i (rf_inodes (ba_async_fs ba)) = Some p \<longrightarrow>
       (let ba' = fst (snd (adapter_release P i (Some owner) (ba, w') :: ('x reply, unit) outcome \<times> _))
        in (\<forall>j b t. \<not> holds_lock (ba_lock_state ba') j owner b t) \<and>
           dm_get (fm_write_back (fp_maps P)) (fc_write_back (rf_cache (ba_async_fs ba'))) p = None))"
proof (intro conjI allI impI)
  from adapter_run_parts [OF run]
  have front: "(fuse_step P)\<^sup>*\<^sup>* (async_fs_new P url, w) (ba_async_fs ba, w')" and locks: "lock_step\<^sup>*\<^sup>* lock_state_new (ba_lock_state ba)"
    by (simp_all add: part_steps_def adapter_front_def adapter_new_def)
  have "pending_bounded (fp_maps P) (rf_cache (ba_async_fs ba))"
    using fuse_run_pending [OF F front] by (simp add: pending_new [OF F])
  then show "wb_total_bytes e < 262144"
    if "dm_get (fm_write_back (fp_maps P)) (fc_write_back (rf_cache (ba_async_fs ba))) p = Some e" for p e
    using that by (auto dest: pending_exceptD simp: entry_bounded_def DEFAULT_WRITE_BACK_FLUSH_SIZE_def)
  note ex = lock_run_exclusive [OF locks]
  show "x = y" if "holds_lock (ba_lock_state ba) j x b F_WRLCK \<and> holds_lock (ba_lock_state ba) j y b t" for j x y b t
    using that exclusive_holds [OF ex] by blast
  show "let ba' = fst (snd (adapter_release P i (Some owner) (ba, w') :: ('x reply, unit) outcome \<times> _))
      in (\<forall>j b t. \<not> holds_lock (ba_lock_state ba') j owner b t) \<and>
         dm_get (fm_write_back (fp_maps P)) (fc_write_back (rf_cache (ba_async_fs ba'))) p = None"
    if p: "get_path (fp_paths P) i (rf_inodes (ba_async_fs ba)) = Some p" for i p owner
  proof -
    let ?ba = "ba\<lparr>ba_lock_state := remove_owner owner (ba_lock_state ba)\<rparr>"
    obtain r s' where b: "block_on (release_async P i) (\<lambda>_. R_Ok :: 'x reply) (?ba, w') = (r, s')" by (metis prod.exhaust)
    have s': "snd (adapter_release P i (Some owner) (ba, w') :: ('x reply, unit) outcome \<times> _) = s'"
      using b by (simp add: adapter_release_def)
    have "ba_lock_state (fst s') = remove_owner owner (ba_lock_state ba)"
      "ba_async_fs (fst s') = fst (snd (release_async P i (ba_async_fs ba, w')))"
      using block_on_parts [OF b] by (simp_all add: prod_eq_iff)
    then show ?thesis
      using release_nothing_pending [OF F, of i "(ba_async_fs ba, w')" p] p
      unfolding s' by (auto simp: nothing_pending_def holds_lock_def locks_of_remove_owner exclusiveD(1) [OF ex])
  qed
qed

theorem adapter_safe_witness:
  "let P = list_params down_net;
       (r, s) = adapter_setlk 10 3 0 99 F_WRLCK 7 False (adapter_new P [], 0) :: (unit reply, unit) outcome \<times> _
   in r = Ok R_Ok \<and> holds_lock (ba_lock_state (fst s)) 10 3 60 F_WRLCK \<and>
      \<not> holds_lock (ba_lock_state (fst (snd (adapter_release P 1 (Some 3) s :: (unit reply, unit) outcome \<times> _)))) 10 3 60 F_WRLCK"
proof -
  let ?P = "list_params down_net"
  obtain r s where s: "adapter_setlk 10 3 0 99 F_WRLCK 7 False (adapter_new ?P [], 0 :: nat) = (r :: (unit reply, unit) outcome, s)"
    by (metis prod.exhaust)
  have run: "(adapter_step ?P ((\<lambda>x _ _ _ _. (False, x)) :: unit dir_builder))\<^sup>*\<^sup>* (adapter_new ?P [], 0) (fst s, snd s)"
    unfolding prod.collapse by (rule r_into_rtranclp) (rule adapter_step.k_setlk [OF s])
  have laws: "fuse_laws (fp_maps ?P)" by (simp add: list_params_def list_fuse_laws)
  have st: "r = Ok R_Ok" "locks_of (ba_lock_state (fst s)) 10 = [\<lparr>le_start = 0, le_end = 99, le_typ = F_WRLCK, le_pid = 7, le_owner = 3\<rparr>]"
    "ba_async_fs (fst s) = async_fs_new ?P []"
    using s by (auto simp: adapter_setlk_def adapter_new_def set_lock_def get_conflict_def lock_commit_def lock_state_new_def
        locks_of_def retain_outside_def Let_def lock_types)
  have "get_path (fp_paths ?P) 1 (rf_inodes (ba_async_fs (fst s))) = Some ''/''"
    by (simp add: st(3) list_params_def async_fs_new_def with_cache_def get_path_def inode_manager_new_def ROOT_INODE_def list_dash_def)
  with adapter_safe [OF laws run]
  have "\<not> holds_lock (ba_lock_state (fst (snd (adapter_release ?P 1 (Some 3) s :: (unit reply, unit) outcome \<times> _)))) 10 3 60 F_WRLCK"
    unfolding Let_def by simp
  moreover have "holds_lock (ba_lock_state (fst s)) 10 3 60 F_WRLCK" by (simp add: holds_lock_def st(2))
  ultimately show ?thesis by (simp add: s st(1))
qed

end
