(* ===== verification/Static_FS.thy ===== *)
theory Static_FS
  imports Mem_FS
begin

text \<open>
  The two plugins with fixed contents: HelloFS (\<open>racfs-plugin-hellofs/src/fs\<close>) and ServerInfoFS
  (\<open>racfs-plugin-serverinfofs/src/fs\<close>).
\<close>

subsection \<open>HelloFS\<close>

record HelloEntry =
  he_data :: bytes
  he_metadata :: FileMetadata

record HelloFS =
  hello_files :: "(path, HelloEntry) hash_map"

definition hello_readme :: bytes where
  "hello_readme = ''HelloFS - A simple static read-only demo filesystem for RACFS.'' @ [CHR 0x0A, CHR 0x0A] @
     ''This plugin demonstrates a minimal filesystem implementation with fixed content.'' @ [CHR 0x0A] @
     ''All write operations will fail with a ReadOnly error.'' @ [CHR 0x0A]"

definition hello_file :: "time \<Rightarrow> path \<Rightarrow> bytes \<Rightarrow> HelloEntry" where
  "hello_file now p d = \<lparr>he_data = d, he_metadata = metadata_file now p (length d)\<rparr>"

definition hello_new :: "time \<Rightarrow> HelloFS" where
  "hello_new now =
     (let files = pm_insert [] ''/'' \<lparr>he_data = [], he_metadata = metadata_directory now ''/''\<rparr>;
          files = pm_insert files ''/hello'' (hello_file now ''/hello'' ''Hello, World!'');
          files = pm_insert files ''/version'' (hello_file now ''/version'' ''1.0.0'');
          files = pm_insert files ''/readme.txt'' (hello_file now ''/readme.txt'' hello_readme)
      in \<lparr>hello_files = files\<rparr>)"

definition hello_get_entry :: "path \<Rightarrow> HelloFS \<Rightarrow> HelloEntry fs_result" where
  "hello_get_entry p fs = ok_or (pm_get (hello_files fs) p) (NotFound p)"

definition hello_read :: "path \<Rightarrow> int \<Rightarrow> int \<Rightarrow> (HelloFS, bytes) fs_op" where
  "hello_read p offset sz now fs =
     (and_then (hello_get_entry p fs) (\<lambda>e.
        if is_directory (he_metadata e) then Err (IsDirectory p) else read_slice (he_data e) offset sz), fs)"

definition hello_stat :: "path \<Rightarrow> (HelloFS, FileMetadata) fs_op" where
  "hello_stat p now fs = (and_then (hello_get_entry p fs) (\<lambda>e. Ok (he_metadata e)), fs)"

definition hello_create :: "path \<Rightarrow> (HelloFS, unit) fs_op" where
  "hello_create p now fs = (Err ReadOnly, fs)"

definition hello_write :: "path \<Rightarrow> bytes \<Rightarrow> int \<Rightarrow> flags \<Rightarrow> (HelloFS, nat) fs_op" where
  "hello_write p d offset fl now fs = (Err ReadOnly, fs)"

definition hello_mkdir :: "path \<Rightarrow> mode \<Rightarrow> (HelloFS, unit) fs_op" where
  "hello_mkdir p m now fs = (Err ReadOnly, fs)"

definition hello_read_dir :: "path \<Rightarrow> (HelloFS, FileMetadata list) fs_op" where
  "hello_read_dir p now fs = (Ok (list_dir (from_utf8_lossy p) (map (\<lambda>(q, e). (q, he_metadata e)) (hello_files fs))), fs)"

definition hello_remove :: "path \<Rightarrow> (HelloFS, unit) fs_op" where
  "hello_remove p now fs = (Err ReadOnly, fs)"

definition hello_remove_all :: "path \<Rightarrow> (HelloFS, unit) fs_op" where
  "hello_remove_all p now fs = (Err ReadOnly, fs)"

definition hello_rename :: "path \<Rightarrow> path \<Rightarrow> (HelloFS, unit) fs_op" where
  "hello_rename p q now fs = (Err ReadOnly, fs)"

definition hello_chmod :: "path \<Rightarrow> mode \<Rightarrow> (HelloFS, unit) fs_op" where
  "hello_chmod p m now fs = (Err ReadOnly, fs)"

definition hello_touch :: "path \<Rightarrow> (HelloFS, unit) fs_op" where
  "hello_touch p now fs = (Err ReadOnly, fs)"

definition hello_fs :: "HelloFS FileSystem" where
  "hello_fs = \<lparr>fs_read = hello_read, fs_stat = hello_stat, fs_create = hello_create, fs_write = hello_write,
     fs_mkdir = hello_mkdir, fs_read_dir = hello_read_dir, fs_remove = hello_remove,
     fs_remove_all = hello_remove_all, fs_rename = hello_rename, fs_chmod = hello_chmod,
     fs_truncate = default_truncate, fs_touch = hello_touch, fs_readlink = default_readlink,
     fs_symlink = default_symlink, fs_get_xattr = default_get_xattr, fs_set_xattr = default_set_xattr,
     fs_remove_xattr = default_remove_xattr, fs_list_xattr = default_list_xattr\<rparr>"

lemmas default_defs = default_truncate_def default_touch_def default_readlink_def default_symlink_def default_get_xattr_def
  default_set_xattr_def default_remove_xattr_def default_list_xattr_def

interpretation hello: read_only_fs hello_fs
  by unfold_locales (simp_all add: hello_fs_def refuses_def observes_def default_defs hello_create_def hello_write_def hello_mkdir_def
      hello_remove_def hello_remove_all_def hello_rename_def hello_chmod_def hello_touch_def hello_read_def hello_stat_def
      hello_read_dir_def)

subsection \<open>ServerInfoFS\<close>

text \<open>The host is a parameter: its name, if it has one that can be read, and its number of processors.\<close>

record host_info =
  host_name :: "string option"
  host_cpus :: nat

record ServerInfoEntry =
  si_path :: path
  si_content :: bytes
  si_metadata :: FileMetadata

record ServerInfoFS =
  si_entries :: "ServerInfoEntry list"
  si_start_time :: time

definition server_info_file :: "time \<Rightarrow> path \<Rightarrow> bytes \<Rightarrow> ServerInfoEntry" where
  "server_info_file now p d = \<lparr>si_path = p, si_content = d, si_metadata = metadata_file now p (length d)\<rparr>"

definition server_info_dir :: "time \<Rightarrow> path \<Rightarrow> ServerInfoEntry" where
  "server_info_dir now p = \<lparr>si_path = p, si_content = [], si_metadata = metadata_directory now p\<rparr>"

definition get_uptime :: "time \<Rightarrow> ServerInfoFS \<Rightarrow> string" where
  "get_uptime now fs = dec ((now - si_start_time fs) div 10 ^ 9)"

definition get_hostname :: "host_info \<Rightarrow> string" where
  "get_hostname H = (case host_name H of Some h \<Rightarrow> from_utf8_lossy h | None \<Rightarrow> ''unknown'')"

definition initialize_entries :: "host_info \<Rightarrow> time \<Rightarrow> ServerInfoFS \<Rightarrow> ServerInfoFS" where
  "initialize_entries H now fs = fs\<lparr>si_entries := si_entries fs @
     [server_info_dir now ''/'', server_info_file now ''/version'' ''0.1.0'',
      server_info_file now ''/uptime'' (get_uptime now fs), server_info_file now ''/hostname'' (get_hostname H),
      server_info_dir now ''/memory'', server_info_file now ''/memory/total'' ''8589934592'',
      server_info_file now ''/memory/used'' ''4294967296'', server_info_file now ''/memory/available'' ''4294967296'',
      server_info_dir now ''/cpu'', server_info_file now ''/cpu/count'' (dec (host_cpus H)),
      server_info_file now ''/cpu/load_avg'' ''0.50 0.40 0.30'', server_info_dir now ''/plugins'',
      server_info_file now ''/plugins/list'' ''hellofs,heartbeatfs,serverinfofs'']\<rparr>"

definition server_info_new :: "host_info \<Rightarrow> time \<Rightarrow> ServerInfoFS" where
  "server_info_new H now = initialize_entries H now \<lparr>si_entries = [], si_start_time = now\<rparr>"

text \<open>\<open>update\<close> changes the first entry with the path; no trait operation calls it.\<close>

fun update_entries :: "time \<Rightarrow> bytes \<Rightarrow> ServerInfoEntry list \<Rightarrow> ServerInfoEntry list" where
  "update_entries now d [] = []"
| "update_entries now d (e # es) =
     (if path_eq (si_path e) ''/uptime''
      then e\<lparr>si_content := d, si_metadata := (si_metadata e)\<lparr>md_size := length d, md_modified := Some now\<rparr>\<rparr> # es
      else e # update_entries now d es)"

definition server_info_update :: "time \<Rightarrow> ServerInfoFS \<Rightarrow> ServerInfoFS" where
  "server_info_update now fs = fs\<lparr>si_entries := update_entries now (get_uptime now fs) (si_entries fs)\<rparr>"

definition server_info_get_entry :: "path \<Rightarrow> ServerInfoFS \<Rightarrow> ServerInfoEntry fs_result" where
  "server_info_get_entry p fs = ok_or (List.find (\<lambda>e. path_eq (si_path e) p) (si_entries fs)) (NotFound p)"

definition server_info_read :: "path \<Rightarrow> int \<Rightarrow> int \<Rightarrow> (ServerInfoFS, bytes) fs_op" where
  "server_info_read p offset sz now fs =
     (and_then (server_info_get_entry p fs) (\<lambda>e.
        if is_directory (si_metadata e) then Err (IsDirectory p) else read_slice (si_content e) offset sz), fs)"

definition server_info_stat :: "path \<Rightarrow> (ServerInfoFS, FileMetadata) fs_op" where
  "server_info_stat p now fs = (and_then (server_info_get_entry p fs) (\<lambda>e. Ok (si_metadata e)), fs)"

definition server_info_create :: "path \<Rightarrow> (ServerInfoFS, unit) fs_op" where
  "server_info_create p now fs = (Err (PermissionDenied p), fs)"

definition server_info_write :: "path \<Rightarrow> bytes \<Rightarrow> int \<Rightarrow> flags \<Rightarrow> (ServerInfoFS, nat) fs_op" where
  "server_info_write p d offset fl now fs = (Err (PermissionDenied p), fs)"

definition server_info_mkdir :: "path \<Rightarrow> mode \<Rightarrow> (ServerInfoFS, unit) fs_op" where
  "server_info_mkdir p m now fs = (Err (PermissionDenied p), fs)"

definition server_info_dir_entry :: "string \<Rightarrow> ServerInfoEntry \<Rightarrow> FileMetadata option" where
  "server_info_dir_entry prefix e =
     (let relative = (if prefix = [] then si_path e
                      else case path_strip_prefix (si_path e) prefix of Some r \<Rightarrow> r | None \<Rightarrow> si_path e);
          cs = components relative
      in if relative = ''/'' then None
         else if length cs = 1 \<or> length cs = 2 \<and> hd cs = RootDir then Some ((si_metadata e)\<lparr>md_path := si_path e\<rparr>)
         else None)"

definition server_info_read_dir :: "path \<Rightarrow> (ServerInfoFS, FileMetadata list) fs_op" where
  "server_info_read_dir p now fs =
     (let p' = from_utf8_lossy p; prefix = (if p' = ''/'' then [] else p')
      in (Ok (List.map_filter (server_info_dir_entry prefix)
            (filter (\<lambda>e. starts_with (si_path e) prefix \<and> si_path e \<noteq> prefix) (si_entries fs))), fs))"

definition server_info_remove :: "path \<Rightarrow> (ServerInfoFS, unit) fs_op" where
  "server_info_remove p now fs = (Err (PermissionDenied p), fs)"

definition server_info_remove_all :: "path \<Rightarrow> (ServerInfoFS, unit) fs_op" where
  "server_info_remove_all p now fs = (Err (PermissionDenied p), fs)"

definition server_info_rename :: "path \<Rightarrow> path \<Rightarrow> (ServerInfoFS, unit) fs_op" where
  "server_info_rename p q now fs = (Err (PermissionDenied p), fs)"

definition server_info_chmod :: "path \<Rightarrow> mode \<Rightarrow> (ServerInfoFS, unit) fs_op" where
  "server_info_chmod p m now fs = (Err (PermissionDenied p), fs)"

definition server_info_truncate :: "path \<Rightarrow> nat \<Rightarrow> (ServerInfoFS, unit) fs_op" where
  "server_info_truncate p n now fs = (Err (PermissionDenied p), fs)"

definition server_info_touch :: "path \<Rightarrow> (ServerInfoFS, unit) fs_op" where
  "server_info_touch p now fs = (Err (PermissionDenied p), fs)"

definition server_info_fs :: "ServerInfoFS FileSystem" where
  "server_info_fs = \<lparr>fs_read = server_info_read, fs_stat = server_info_stat, fs_create = server_info_create,
     fs_write = server_info_write, fs_mkdir = server_info_mkdir, fs_read_dir = server_info_read_dir,
     fs_remove = server_info_remove, fs_remove_all = server_info_remove_all, fs_rename = server_info_rename,
     fs_chmod = server_info_chmod, fs_truncate = server_info_truncate, fs_touch = server_info_touch,
     fs_readlink = default_readlink, fs_symlink = default_symlink, fs_get_xattr = default_get_xattr,
     fs_set_xattr = default_set_xattr, fs_remove_xattr = default_remove_xattr, fs_list_xattr = default_list_xattr\<rparr>"

interpretation server_info: read_only_fs server_info_fs
  by unfold_locales (simp_all add: server_info_fs_def refuses_def observes_def default_defs server_info_create_def
      server_info_write_def server_info_mkdir_def server_info_remove_def server_info_remove_all_def server_info_rename_def
      server_info_chmod_def server_info_truncate_def server_info_touch_def server_info_read_def server_info_stat_def
      server_info_read_dir_def Let_def)

subsection \<open>Immutability\<close>

text \<open>The contents a file is created with, and their metadata.\<close>

definition hello_contents :: "path \<Rightarrow> bytes option" where
  "hello_contents p = (if p = ''/hello'' then Some ''Hello, World!'' else if p = ''/version'' then Some ''1.0.0''
     else if p = ''/readme.txt'' then Some hello_readme else None)"

definition server_info_contents :: "host_info \<Rightarrow> path \<Rightarrow> bytes option" where
  "server_info_contents H p =
     map_of [(''/version'', ''0.1.0''), (''/uptime'', ''0''), (''/hostname'', get_hostname H), (''/memory/total'', ''8589934592''),
       (''/memory/used'', ''4294967296''), (''/memory/available'', ''4294967296''), (''/cpu/count'', dec (host_cpus H)),
       (''/cpu/load_avg'', ''0.50 0.40 0.30''), (''/plugins/list'', ''hellofs,heartbeatfs,serverinfofs'')] p"

lemma metadata_file_plain: "\<not> is_directory (metadata_file now p n)" "md_size (metadata_file now p n) = n"
  by (simp_all add: metadata_kinds metadata_sizes)

lemma hello_entry:
  assumes "hello_contents p = Some d"
  shows "hello_get_entry p (hello_new now) = Ok (hello_file now p d)"
proof -
  have "\<not> path_eq ''/'' ''/hello''" "\<not> path_eq ''/'' ''/version''" "\<not> path_eq ''/'' ''/readme.txt''"
    "\<not> path_eq ''/hello'' ''/version''" "\<not> path_eq ''/hello'' ''/readme.txt''" "\<not> path_eq ''/version'' ''/readme.txt''"
    by code_simp+
  then show ?thesis using assms
    by (auto simp: hello_contents_def hello_get_entry_def hello_new_def Let_def path_map.hm_get_insert ok_or_def
        split: if_splits dest: path_map.sym)
qed

lemma find_by_path:
  assumes "e \<in> set es" "distinct (map si_path es)"
    and "\<And>a b. a \<in> set (map si_path es) \<Longrightarrow> b \<in> set (map si_path es) \<Longrightarrow> path_eq a b \<Longrightarrow> a = b"
  shows "List.find (\<lambda>x. path_eq (si_path x) (si_path e)) es = Some e"
  using assms
proof (induction es)
  case (Cons x es)
  show ?case
  proof (cases "x = e")
    case True
    then show ?thesis by simp
  next
    case False
    then have e: "e \<in> set es" using Cons.prems(1) by simp
    then have "si_path x \<noteq> si_path e" using Cons.prems(2) by auto
    then have "\<not> path_eq (si_path x) (si_path e)" using Cons.prems(3) [of "si_path x" "si_path e"] e by auto
    moreover have "List.find (\<lambda>x. path_eq (si_path x) (si_path e)) es = Some e"
    proof (rule Cons.IH [OF e])
      show "distinct (map si_path es)" using Cons.prems(2) by simp
      show "a = b" if "a \<in> set (map si_path es)" "b \<in> set (map si_path es)" "path_eq a b" for a b
        using Cons.prems(3) [of a b] that by simp
    qed
    ultimately show ?thesis by simp
  qed
qed simp

definition server_info_paths :: "path list" where
  "server_info_paths = [''/'', ''/version'', ''/uptime'', ''/hostname'', ''/memory'', ''/memory/total'', ''/memory/used'',
     ''/memory/available'', ''/cpu'', ''/cpu/count'', ''/cpu/load_avg'', ''/plugins'', ''/plugins/list'']"

lemma server_info_paths_distinct:
  "distinct server_info_paths" "\<forall>a \<in> set server_info_paths. \<forall>b \<in> set server_info_paths. path_eq a b \<longrightarrow> a = b"
  by code_simp+

lemma server_info_entry:
  assumes "server_info_contents H p = Some d"
  shows "server_info_get_entry p (server_info_new H now) = Ok (server_info_file now p d)"
proof -
  let ?es = "si_entries (server_info_new H now)"
  have paths: "map si_path ?es = server_info_paths"
    by (simp add: server_info_new_def initialize_entries_def server_info_file_def server_info_dir_def server_info_paths_def)
  have "dec 0 = ''0''" by code_simp
  then have "server_info_file now p d \<in> set ?es"
    using assms by (auto simp: server_info_contents_def server_info_new_def initialize_entries_def get_uptime_def split: if_splits)
  from find_by_path [OF this] server_info_paths_distinct
  have "List.find (\<lambda>x. path_eq (si_path x) p) ?es = Some (server_info_file now p d)"
    unfolding paths by (simp add: server_info_file_def)
  then show ?thesis by (simp add: server_info_get_entry_def ok_or_def)
qed

text \<open>
  The static plugins: whatever trait operations are called on them, HelloFS and ServerInfoFS stay in the state they
  were created in. Writing, creating, removing, renaming, changing modes and touching are refused
  with \<open>ReadOnly\<close> and with \<open>PermissionDenied\<close> for the path respectively (\<open>truncate\<close> of HelloFS with the default error), their files always read back as created with the length their metadata says, and so the uptime that
  ServerInfoFS reports is always 0.
\<close>

theorem static_plugins:
  assumes "fs_reachable hello_fs (hello_new t0) s" "fs_reachable server_info_fs (server_info_new H t1) u"
  shows "s = hello_new t0 \<and> u = server_info_new H t1 \<and>
    (\<forall>p d. hello_contents p = Some d \<longrightarrow> hello_read p 0 (- 1) now s = (Ok d, s) \<and>
       (\<exists>md. hello_stat p now s = (Ok md, s) \<and> md_size md = length d)) \<and>
    (\<forall>p d. server_info_contents H p = Some d \<longrightarrow> server_info_read p 0 (- 1) now u = (Ok d, u) \<and>
       (\<exists>md. server_info_stat p now u = (Ok md, u) \<and> md_size md = length d)) \<and>
    fst (server_info_read ''/uptime'' 0 (- 1) now u) = Ok ''0'' \<and>
    (\<forall>p d off fl. fs_write hello_fs p d off fl now s = (Err ReadOnly, s) \<and>
       fs_write server_info_fs p d off fl now u = (Err (PermissionDenied p), u)) \<and>
    (\<forall>p q m n. \<forall>r \<in> {fs_create hello_fs p, fs_mkdir hello_fs p m, fs_remove hello_fs p, fs_remove_all hello_fs p,
         fs_rename hello_fs p q, fs_chmod hello_fs p m, fs_touch hello_fs p}. r now s = (Err ReadOnly, s)) \<and>
    (\<forall>p n. fst (fs_truncate hello_fs p n now s) = Err (NotSupported ''truncate not implemented'')) \<and>
    (\<forall>p q m n. \<forall>r \<in> {fs_create server_info_fs p, fs_mkdir server_info_fs p m, fs_remove server_info_fs p, fs_remove_all server_info_fs p,
         fs_rename server_info_fs p q, fs_chmod server_info_fs p m, fs_touch server_info_fs p, fs_truncate server_info_fs p n}.
       r now u = (Err (PermissionDenied p), u))"
proof -
  have eq: "s = hello_new t0" "u = server_info_new H t1"
    using hello.reachable_same server_info.reachable_same assms by blast+
  have "hello_read p 0 (- 1) now s = (Ok d, s) \<and> (\<exists>md. hello_stat p now s = (Ok md, s) \<and> md_size md = length d)"
    if "hello_contents p = Some d" for p d
    using hello_entry [OF that, of t0] unfolding eq
    by (simp add: hello_read_def hello_stat_def hello_file_def metadata_file_plain read_slice_all is_i64_def)
  moreover have info: "server_info_read p 0 (- 1) now u = (Ok d, u) \<and> (\<exists>md. server_info_stat p now u = (Ok md, u) \<and> md_size md = length d)"
    if "server_info_contents H p = Some d" for p d
    using server_info_entry [OF that, of t1] unfolding eq
    by (simp add: server_info_read_def server_info_stat_def server_info_file_def metadata_file_plain read_slice_all is_i64_def)
  moreover have "server_info_contents H ''/uptime'' = Some ''0''" by (simp add: server_info_contents_def)
  ultimately show ?thesis using eq info [of "''/uptime''" "''0''"]
    by (simp add: hello_fs_def server_info_fs_def default_truncate_def hello_write_def hello_create_def hello_mkdir_def hello_remove_def
        hello_remove_all_def hello_rename_def hello_chmod_def hello_touch_def server_info_write_def server_info_create_def
        server_info_mkdir_def server_info_remove_def server_info_remove_all_def server_info_rename_def server_info_chmod_def
        server_info_touch_def server_info_truncate_def)
qed

theorem static_plugins_witness:
  "let s = snd (fs_write hello_fs ''/hello'' ''x'' 0 0 5 (hello_new 1))
   in s = hello_new 1 \<and> hello_read ''/hello'' 0 (- 1) 9 s = (Ok ''Hello, World!'', s)"
proof -
  let ?s = "snd (fs_write hello_fs ''/hello'' ''x'' 0 0 5 (hello_new 1))"
  have "fs_reachable hello_fs (hello_new 1) ?s"
    by (rule fs_reachable.step [OF fs_reachable.start]) (rule fs_step.store)
  note st = static_plugins [OF this fs_reachable.start, where now = 9]
  have "hello_contents ''/hello'' = Some ''Hello, World!''" by (simp add: hello_contents_def)
  with st [THEN conjunct1] st [THEN conjunct2, THEN conjunct2, THEN conjunct1] show ?thesis unfolding Let_def by blast
qed

end
