(* ===== verification/Heartbeat_FS.thy ===== *)
theory Heartbeat_FS
  imports Fs_Contract
begin

text \<open>
  HeartbeatFS (\<open>racfs-plugin-heartbeatfs/src/fs\<close>): a counter of beats behind virtual files. The text of a time is the crate
  chrono's, a parameter.
\<close>

datatype HealthStatus = HS_Ok | HS_Error

record HeartbeatState =
  hb_start_time :: time
  hb_beats :: nat
  hb_last_beat :: time
  hb_status :: HealthStatus
  hb_files :: "(path \<times> bytes) list"

definition heartbeat_state_new :: "time \<Rightarrow> HeartbeatState" where
  "heartbeat_state_new now = \<lparr>hb_start_time = now, hb_beats = 0, hb_last_beat = now, hb_status = HS_Ok, hb_files = []\<rparr>"

fun health_text :: "HealthStatus \<Rightarrow> string" where
  "health_text HS_Ok = ''ok''"
| "health_text HS_Error = ''error''"

definition refresh_files :: "(time \<Rightarrow> string) \<Rightarrow> time \<Rightarrow> HeartbeatState \<Rightarrow> HeartbeatState" where
  "refresh_files to_rfc now s = s\<lparr>hb_files :=
     [(''/status'', health_text (hb_status s)), (''/uptime'', dec ((now - hb_start_time s) div 10 ^ 9)),
      (''/beats'', dec (hb_beats s)), (''/last_beat'', to_rfc (hb_last_beat s))]\<rparr>"

definition heartbeat :: "(time \<Rightarrow> string) \<Rightarrow> time \<Rightarrow> HeartbeatState \<Rightarrow> HeartbeatState" where
  "heartbeat to_rfc now s =
     refresh_files to_rfc now (s\<lparr>hb_beats := u64_add (hb_beats s) 1, hb_last_beat := now, hb_status := HS_Ok\<rparr>)"

definition heartbeat_new :: "(time \<Rightarrow> string) \<Rightarrow> time \<Rightarrow> HeartbeatState" where
  "heartbeat_new to_rfc now = refresh_files to_rfc now (heartbeat_state_new now)"

definition heartbeat_get_entry :: "path \<Rightarrow> HeartbeatState \<Rightarrow> bytes fs_result" where
  "heartbeat_get_entry p s = ok_or (map_option snd (List.find (\<lambda>(q, _). path_eq q p) (hb_files s))) (NotFound p)"

definition is_valid_path :: "path \<Rightarrow> bool" where
  "is_valid_path p \<longleftrightarrow> p \<in> {''/status'', ''/uptime'', ''/beats'', ''/last_beat'', ''/pulse''}"

definition heartbeat_read :: "path \<Rightarrow> int \<Rightarrow> int \<Rightarrow> (HeartbeatState, bytes) fs_op" where
  "heartbeat_read p offset sz now s =
     (if \<not> is_valid_path p then Err (NotFound p)
      else and_then (heartbeat_get_entry p s) (\<lambda>data. read_slice data offset sz), s)"

definition heartbeat_stat :: "path \<Rightarrow> (HeartbeatState, FileMetadata) fs_op" where
  "heartbeat_stat p now s =
     (if path_eq p ''/'' then Ok (metadata_directory now ''/'')
      else if \<not> is_valid_path p then Err (NotFound p)
      else and_then (heartbeat_get_entry p s) (\<lambda>data. Ok (metadata_file now p (length data))), s)"

definition heartbeat_create :: "path \<Rightarrow> (HeartbeatState, unit) fs_op" where
  "heartbeat_create p now s = (Err ReadOnly, s)"

definition heartbeat_write :: "(time \<Rightarrow> string) \<Rightarrow> path \<Rightarrow> bytes \<Rightarrow> int \<Rightarrow> flags \<Rightarrow> (HeartbeatState, nat) fs_op" where
  "heartbeat_write to_rfc p data offset fl now s =
     (if \<not> path_eq p ''/pulse'' then (Err ReadOnly, s)
      else if offset \<noteq> 0 then (Err (InvalidInput ''offset must be 0''), s)
      else if \<not> utf8_valid data then (Err (InvalidInput ''invalid UTF-8''), s)
      else if trim data \<noteq> ''beat'' then (Err (InvalidInput (''must write '' @ [CHR 0x27] @ ''beat'' @ [CHR 0x27] @ '' to /pulse'')), s)
      else (Ok (length data), heartbeat to_rfc now s))"

definition heartbeat_mkdir :: "path \<Rightarrow> mode \<Rightarrow> (HeartbeatState, unit) fs_op" where
  "heartbeat_mkdir p m now s = (Err ReadOnly, s)"

definition heartbeat_read_dir :: "path \<Rightarrow> (HeartbeatState, FileMetadata list) fs_op" where
  "heartbeat_read_dir p now s =
     (if \<not> path_eq p ''/'' then Err (NotFound p)
      else Ok [metadata_file now ''/status'' 2, metadata_file now ''/uptime'' 8, metadata_file now ''/beats'' 8,
        metadata_file now ''/last_beat'' 32, metadata_file now ''/pulse'' 0], s)"

definition heartbeat_remove :: "path \<Rightarrow> (HeartbeatState, unit) fs_op" where
  "heartbeat_remove p now s = (Err ReadOnly, s)"

definition heartbeat_remove_all :: "path \<Rightarrow> (HeartbeatState, unit) fs_op" where
  "heartbeat_remove_all p now s = (Err ReadOnly, s)"

definition heartbeat_rename :: "path \<Rightarrow> path \<Rightarrow> (HeartbeatState, unit) fs_op" where
  "heartbeat_rename p q now s = (Err ReadOnly, s)"

definition heartbeat_chmod :: "path \<Rightarrow> mode \<Rightarrow> (HeartbeatState, unit) fs_op" where
  "heartbeat_chmod p m now s = (Err ReadOnly, s)"

definition heartbeat_truncate :: "path \<Rightarrow> nat \<Rightarrow> (HeartbeatState, unit) fs_op" where
  "heartbeat_truncate p n now s = (Err ReadOnly, s)"

definition heartbeat_touch :: "path \<Rightarrow> (HeartbeatState, unit) fs_op" where
  "heartbeat_touch p now s = (Err ReadOnly, s)"

definition heartbeat_fs :: "(time \<Rightarrow> string) \<Rightarrow> HeartbeatState FileSystem" where
  "heartbeat_fs to_rfc = \<lparr>fs_read = heartbeat_read, fs_stat = heartbeat_stat, fs_create = heartbeat_create,
     fs_write = heartbeat_write to_rfc, fs_mkdir = heartbeat_mkdir, fs_read_dir = heartbeat_read_dir,
     fs_remove = heartbeat_remove, fs_remove_all = heartbeat_remove_all, fs_rename = heartbeat_rename,
     fs_chmod = heartbeat_chmod, fs_truncate = heartbeat_truncate, fs_touch = heartbeat_touch,
     fs_readlink = default_readlink, fs_symlink = default_symlink, fs_get_xattr = default_get_xattr,
     fs_set_xattr = default_set_xattr, fs_remove_xattr = default_remove_xattr, fs_list_xattr = default_list_xattr\<rparr>"

subsection \<open>The files show the counter\<close>

text \<open>The files are those of the last beat (or of the start).\<close>

definition heartbeat_ok :: "(time \<Rightarrow> string) \<Rightarrow> HeartbeatState \<Rightarrow> bool" where
  "heartbeat_ok to_rfc s \<longleftrightarrow> hb_status s = HS_Ok \<and> hb_files s = hb_files (refresh_files to_rfc (hb_last_beat s) s)"

lemma heartbeat_step:
  assumes "fs_step (heartbeat_fs to_rfc) s t"
  shows "t = s \<or> (\<exists>now. t = heartbeat to_rfc now s)"
  using assms
  by cases (auto simp: heartbeat_fs_def heartbeat_read_def heartbeat_stat_def heartbeat_create_def heartbeat_write_def
      heartbeat_mkdir_def heartbeat_read_dir_def heartbeat_remove_def heartbeat_remove_all_def heartbeat_rename_def
      heartbeat_chmod_def heartbeat_truncate_def heartbeat_touch_def default_readlink_def default_symlink_def
      default_get_xattr_def default_set_xattr_def default_remove_xattr_def default_list_xattr_def)

lemma heartbeat_ok_beat: "heartbeat_ok to_rfc (heartbeat to_rfc now s)"
  by (simp add: heartbeat_ok_def heartbeat_def refresh_files_def)

lemma heartbeat_ok_reachable:
  assumes "fs_reachable (heartbeat_fs to_rfc) (heartbeat_new to_rfc t) s"
  shows "heartbeat_ok to_rfc s"
proof (rule fs_reachable_inv [OF assms])
  show "heartbeat_ok to_rfc (heartbeat_new to_rfc t)"
    by (simp add: heartbeat_new_def heartbeat_ok_def refresh_files_def heartbeat_state_new_def)
  show "heartbeat_ok to_rfc u" if "fs_step (heartbeat_fs to_rfc) s u" "heartbeat_ok to_rfc s" for s u
    using heartbeat_step [OF that(1)] that(2) heartbeat_ok_beat by blast
qed

lemma heartbeat_paths:
  "\<not> path_eq ''/status'' ''/uptime''" "\<not> path_eq ''/status'' ''/beats''" "\<not> path_eq ''/status'' ''/last_beat''"
  "\<not> path_eq ''/status'' ''/pulse''" "\<not> path_eq ''/uptime'' ''/beats''" "\<not> path_eq ''/uptime'' ''/last_beat''"
  "\<not> path_eq ''/uptime'' ''/pulse''" "\<not> path_eq ''/beats'' ''/last_beat''" "\<not> path_eq ''/beats'' ''/pulse''"
  "\<not> path_eq ''/last_beat'' ''/pulse''" "\<not> path_eq ''/pulse'' ''/''"
  by code_simp+

text \<open>Writes to the pulse.\<close>

definition pulse :: "(time \<Rightarrow> string) \<Rightarrow> bytes \<times> time \<Rightarrow> HeartbeatState \<Rightarrow> HeartbeatState" where
  "pulse to_rfc w s = snd (heartbeat_write to_rfc ''/pulse'' (fst w) 0 WF_NONE (snd w) s)"

definition is_beat :: "bytes \<Rightarrow> bool" where
  "is_beat d \<longleftrightarrow> utf8_valid d \<and> trim d = ''beat''"

lemma pulse_beats: "hb_beats (pulse to_rfc w s) = (if is_beat (fst w) then u64_add (hb_beats s) 1 else hb_beats s)"
  by (simp add: pulse_def heartbeat_write_def heartbeat_def refresh_files_def is_beat_def)

lemma pulses_beats:
  "hb_beats s < 2 ^ 64 \<Longrightarrow> hb_beats (fold (pulse to_rfc) ws s) = (hb_beats s + length (filter (\<lambda>w. is_beat (fst w)) ws)) mod 2 ^ 64"
proof (induction ws arbitrary: s)
  case (Cons w ws)
  have "hb_beats (pulse to_rfc w s) < 2 ^ 64" using Cons.prems by (simp add: pulse_beats u64_add_def)
  from Cons.IH [OF this] show ?case by (simp add: pulse_beats u64_add_def mod_add_left_eq)
qed simp

lemma pulses_reachable:
  "fs_reachable (heartbeat_fs to_rfc) s0 s \<Longrightarrow> fs_reachable (heartbeat_fs to_rfc) s0 (fold (pulse to_rfc) ws s)"
proof (induction ws arbitrary: s)
  case (Cons w ws)
  have "fs_step (heartbeat_fs to_rfc) s (pulse to_rfc w s)"
    using fs_step.store [of "heartbeat_fs to_rfc" s "''/pulse''"] by (simp add: heartbeat_fs_def pulse_def)
  with Cons show ?case by (simp add: fs_reachable.step)
qed simp

text \<open>
  HeartbeatFS counts beats: after any writes to \<open>/pulse\<close> on a new file system, the file \<open>/beats\<close> holds, in decimal, how many
  of them were the word \<open>beat\<close> up to white space (modulo the width of the counter), and \<open>/status\<close> is \<open>ok\<close>. In every reachable state the four
  files are those of the last beat, so the uptime is the one at that beat and not the current one, and \<open>/pulse\<close> itself is listed but can be
  neither read nor examined.
\<close>

theorem heartbeat_counts:
  assumes "fs_reachable (heartbeat_fs to_rfc) (heartbeat_new to_rfc t) s"
  shows "fst (heartbeat_read ''/beats'' 0 (- 1) now (fold (pulse to_rfc) ws (heartbeat_new to_rfc t))) =
      Ok (dec (length (filter (\<lambda>w. is_beat (fst w)) ws) mod 2 ^ 64)) \<and>
    fst (heartbeat_read ''/beats'' 0 (- 1) now s) = Ok (dec (hb_beats s)) \<and>
    fst (heartbeat_read ''/status'' 0 (- 1) now s) = Ok ''ok'' \<and>
    fst (heartbeat_read ''/uptime'' 0 (- 1) now s) = Ok (dec ((hb_last_beat s - hb_start_time s) div 10 ^ 9)) \<and>
    fst (heartbeat_read ''/last_beat'' 0 (- 1) now s) = Ok (to_rfc (hb_last_beat s)) \<and>
    ''/pulse'' \<in> md_path ` (case fst (heartbeat_read_dir ''/'' now s) of Ok es \<Rightarrow> set es | _ \<Rightarrow> {}) \<and>
    fst (heartbeat_read ''/pulse'' 0 (- 1) now s) = Err (NotFound ''/pulse'') \<and>
    fst (heartbeat_stat ''/pulse'' now s) = Err (NotFound ''/pulse'')"
proof -
  have files: "hb_files s = [(''/status'', ''ok''), (''/uptime'', dec ((hb_last_beat s - hb_start_time s) div 10 ^ 9)),
      (''/beats'', dec (hb_beats s)), (''/last_beat'', to_rfc (hb_last_beat s))]"
    if "fs_reachable (heartbeat_fs to_rfc) (heartbeat_new to_rfc t) s" for s
    using heartbeat_ok_reachable [OF that] by (simp add: heartbeat_ok_def refresh_files_def)
  note reads = heartbeat_read_def heartbeat_stat_def is_valid_path_def heartbeat_get_entry_def ok_or_def read_slice_all is_i64_def
  let ?s = "fold (pulse to_rfc) ws (heartbeat_new to_rfc t)"
  have "hb_beats ?s = length (filter (\<lambda>w. is_beat (fst w)) ws) mod 2 ^ 64"
    using pulses_beats [of "heartbeat_new to_rfc t" to_rfc ws]
    by (simp add: heartbeat_new_def refresh_files_def heartbeat_state_new_def)
  then have "fst (heartbeat_read ''/beats'' 0 (- 1) now ?s) = Ok (dec (length (filter (\<lambda>w. is_beat (fst w)) ws) mod 2 ^ 64))"
    using files [OF pulses_reachable [OF fs_reachable.start]] by (simp add: reads heartbeat_paths)
  then show ?thesis
    using files [OF assms] by (simp add: reads heartbeat_paths heartbeat_read_dir_def metadata_file_def)
qed

theorem heartbeat_counts_witness:
  "fst (heartbeat_read ''/beats'' 0 (- 1) 9 (fold (pulse (\<lambda>_. [])) [(''beat'', 2), (''miss'', 3), ('' beat '', 4)]
     (heartbeat_new (\<lambda>_. []) 1))) = Ok ''2''"
proof -
  let ?ws = "[(''beat'', 2), (''miss'', 3), ('' beat '', 4)] :: (bytes \<times> time) list"
  have "is_beat ''beat''" "\<not> is_beat ''miss''" "is_beat '' beat ''" by code_simp+
  then have "length (filter (\<lambda>w. is_beat (fst w)) ?ws) mod 2 ^ 64 = 2" by simp
  moreover have "dec 2 = ''2''" by code_simp
  ultimately show ?thesis
    using heartbeat_counts [where s = "heartbeat_new (\<lambda>_. []) 1" and now = 9 and ws = ?ws and t = 1 and to_rfc = "\<lambda>_. []", OF fs_reachable.start] by simp
qed

end
