(* ===== verification/Dev_FS.thy ===== *)
theory Dev_FS
  imports Fs_Contract
begin

unbundle bit_operations_syntax

text \<open>
  DevFS (\<open>racfs-plugin-devfs/src/fs\<close>): the virtual devices null, zero, random and urandom. The bytes of the random devices come from
  a linear congruential generator that starts at the clock.
\<close>

datatype DeviceType = Dev_Null | Dev_Zero | Dev_Random | Dev_URandom

record DevFS =
  dev_devices :: "(path, DeviceType) hash_map"

definition register_device :: "path \<Rightarrow> DeviceType \<Rightarrow> DevFS \<Rightarrow> unit fs_result \<times> DevFS" where
  "register_device p d fs = (Ok (), fs\<lparr>dev_devices := pm_insert (dev_devices fs) p d\<rparr>)"

definition dev_new :: DevFS where
  "dev_new =
     (let fs = \<lparr>dev_devices = []\<rparr>;
          fs = snd (register_device ''/dev/null'' Dev_Null fs);
          fs = snd (register_device ''/dev/zero'' Dev_Zero fs);
          fs = snd (register_device ''/dev/random'' Dev_Random fs);
          fs = snd (register_device ''/dev/urandom'' Dev_URandom fs)
      in fs)"

definition get_device :: "path \<Rightarrow> DevFS \<Rightarrow> DeviceType option" where
  "get_device p fs = pm_get (dev_devices fs) p"

definition create_device_metadata :: "path \<Rightarrow> DeviceType \<Rightarrow> FileMetadata" where
  "create_device_metadata p d = (metadata_new p (S_IFCHR OR 0x1B6))\<lparr>md_size := 0\<rparr>"

text \<open>The generator: \<open>wrapping_mul\<close> and \<open>wrapping_add\<close> on 64 bits, the output byte from bits 16 to 23.\<close>

definition lcg_next :: "64 word \<Rightarrow> 64 word" where
  "lcg_next seed = seed * 1103515245 + 12345"

definition lcg_byte :: "64 word \<Rightarrow> char" where
  "lcg_byte seed = char_of (unat (drop_bit 16 seed))"

fun lcg_bytes :: "nat \<Rightarrow> 64 word \<Rightarrow> bytes" where
  "lcg_bytes 0 seed = []"
| "lcg_bytes (Suc n) seed = lcg_byte (lcg_next seed) # lcg_bytes n (lcg_next seed)"

definition dev_read :: "path \<Rightarrow> int \<Rightarrow> int \<Rightarrow> (DevFS, bytes) fs_op" where
  "dev_read p offset sz now fs =
     (and_then (ok_or (get_device p fs) (NotFound p)) (\<lambda>d.
        let n = (if sz < 0 then 4096 else nat sz)
        in case d of
             Dev_Null \<Rightarrow> Ok []
           | Dev_Zero \<Rightarrow> Ok (replicate n (CHR 0x00))
           | Dev_Random \<Rightarrow> Ok (lcg_bytes n (of_nat now))
           | Dev_URandom \<Rightarrow> Ok (lcg_bytes n (of_nat now))), fs)"

definition dev_stat :: "path \<Rightarrow> (DevFS, FileMetadata) fs_op" where
  "dev_stat p now fs = (and_then (ok_or (get_device p fs) (NotFound p)) (\<lambda>d. Ok (create_device_metadata p d)), fs)"

definition dev_create :: "path \<Rightarrow> (DevFS, unit) fs_op" where
  "dev_create p now fs = (Err (NotSupported ''cannot create device files manually''), fs)"

definition dev_write :: "path \<Rightarrow> bytes \<Rightarrow> int \<Rightarrow> flags \<Rightarrow> (DevFS, nat) fs_op" where
  "dev_write p data offset fl now fs =
     (and_then (ok_or (get_device p fs) (NotFound p)) (\<lambda>d.
        case d of Dev_Null \<Rightarrow> Ok (length data) | _ \<Rightarrow> Ok (length data)), fs)"

definition dev_mkdir :: "path \<Rightarrow> mode \<Rightarrow> (DevFS, unit) fs_op" where
  "dev_mkdir p m now fs = (Err (NotSupported ''cannot create directories in devfs''), fs)"

definition dev_read_dir :: "path \<Rightarrow> (DevFS, FileMetadata list) fs_op" where
  "dev_read_dir p now fs =
     (if \<not> path_eq p ''/'' \<and> \<not> path_eq p [] then Err (NotADirectory p)
      else Ok (map (\<lambda>(q, d). create_device_metadata q d) (dev_devices fs)), fs)"

definition dev_remove :: "path \<Rightarrow> (DevFS, unit) fs_op" where
  "dev_remove p now fs =
     (case pm_get (dev_devices fs) p of
        Some _ \<Rightarrow> (Ok (), fs\<lparr>dev_devices := pm_remove (dev_devices fs) p\<rparr>)
      | None \<Rightarrow> (Err (NotFound p), fs))"

definition dev_remove_all :: "path \<Rightarrow> (DevFS, unit) fs_op" where
  "dev_remove_all p = dev_remove p"

definition dev_rename :: "path \<Rightarrow> path \<Rightarrow> (DevFS, unit) fs_op" where
  "dev_rename p q now fs = (Err (NotSupported ''cannot rename device files''), fs)"

definition dev_chmod :: "path \<Rightarrow> mode \<Rightarrow> (DevFS, unit) fs_op" where
  "dev_chmod p m now fs = (and_then (ok_or (get_device p fs) (NotFound p)) (\<lambda>_. Ok ()), fs)"

definition dev_fs :: "DevFS FileSystem" where
  "dev_fs = \<lparr>fs_read = dev_read, fs_stat = dev_stat, fs_create = dev_create, fs_write = dev_write,
     fs_mkdir = dev_mkdir, fs_read_dir = dev_read_dir, fs_remove = dev_remove, fs_remove_all = dev_remove_all,
     fs_rename = dev_rename, fs_chmod = dev_chmod, fs_truncate = default_truncate, fs_touch = default_touch,
     fs_readlink = default_readlink, fs_symlink = default_symlink, fs_get_xattr = default_get_xattr,
     fs_set_xattr = default_set_xattr, fs_remove_xattr = default_remove_xattr, fs_list_xattr = default_list_xattr\<rparr>"

subsection \<open>Devices\<close>

lemma lcg_bytes_nth:
  "i < n \<Longrightarrow> lcg_bytes n seed ! i = lcg_byte ((lcg_next ^^ Suc i) seed)"
proof (induction n arbitrary: i seed)
  case (Suc n)
  then show ?case by (cases i) (simp_all add: funpow_swap1)
qed simp

lemma length_lcg_bytes [simp]: "length (lcg_bytes n seed) = n"
  by (induction n arbitrary: seed) simp_all

text \<open>Devices can only disappear.\<close>

definition dev_within :: "DevFS \<Rightarrow> DevFS \<Rightarrow> bool" where
  "dev_within fs fs' \<longleftrightarrow> (\<forall>p. get_device p fs' = None \<or> get_device p fs' = get_device p fs)"

lemma dev_step_within:
  assumes "fs_step dev_fs s t"
  shows "dev_within s t"
  using assms
  by cases (auto simp: dev_fs_def dev_within_def get_device_def dev_read_def dev_stat_def dev_create_def dev_write_def dev_mkdir_def
      dev_read_dir_def dev_remove_def dev_remove_all_def dev_rename_def dev_chmod_def default_truncate_def default_touch_def
      default_readlink_def default_symlink_def default_get_xattr_def default_set_xattr_def default_remove_xattr_def
      default_list_xattr_def path_map.hm_get_remove split: option.splits)

lemma dev_reachable_within:
  assumes "fs_reachable dev_fs s0 s"
  shows "dev_within s0 s"
proof (rule fs_reachable_inv [OF assms])
  show "dev_within s0 s0" by (simp add: dev_within_def)
  show "dev_within s0 t" if "fs_step dev_fs s t" "dev_within s0 s" for s t
    using dev_step_within [OF that(1)] that(2) unfolding dev_within_def by metis
qed

lemma dev_new_devices:
  "get_device ''/dev/null'' dev_new = Some Dev_Null" "get_device ''/dev/zero'' dev_new = Some Dev_Zero"
  "get_device ''/dev/random'' dev_new = Some Dev_Random" "get_device ''/dev/urandom'' dev_new = Some Dev_URandom"
  "get_device ''/'' dev_new = None"
  by code_simp+

text \<open>
  The devices: in every state a new DevFS can reach, a device that is still there is the one it was created as. Reading the null device
  gives nothing, reading the zero device gives as many zeros as asked for (4096 for a negative size), and reading a random
  device gives that many bytes, byte \<open>i\<close> being bits 16 to 23 of the state \<open>i + 1\<close> steps after the clock, so two reads at the same
  time agree on their common length. Writes are accepted whole and change nothing, and only removing a device changes the state. The root can be
  listed but not examined.
\<close>

theorem dev_devices_spec:
  assumes "fs_reachable dev_fs dev_new s"
  shows "(\<forall>p d. get_device p s = Some d \<longrightarrow> get_device p dev_new = Some d) \<and>
    (\<forall>p d off sz now. get_device p s = Some d \<longrightarrow>
       (\<exists>b. dev_read p off sz now s = (Ok b, s) \<and> length b = (if d = Dev_Null then 0 else if sz < 0 then 4096 else nat sz) \<and>
          (d = Dev_Zero \<longrightarrow> set b \<subseteq> {CHR 0x00}) \<and>
          (d \<in> {Dev_Random, Dev_URandom} \<longrightarrow> (\<forall>i < length b. b ! i = lcg_byte ((lcg_next ^^ Suc i) (of_nat now))))) \<and>
       (\<forall>data fl. dev_write p data off fl now s = (Ok (length data), s))) \<and>
    (\<forall>now. fst (dev_stat ''/'' now s) = Err (NotFound ''/'') \<and> is_ok (fst (dev_read_dir ''/'' now s)))"
proof -
  have within: "get_device p s = None \<or> get_device p s = get_device p dev_new" for p
    using dev_reachable_within [OF assms] by (simp add: dev_within_def)
  have "\<exists>b. dev_read p off sz now s = (Ok b, s) \<and> length b = (if d = Dev_Null then 0 else if sz < 0 then 4096 else nat sz) \<and>
      (d = Dev_Zero \<longrightarrow> set b \<subseteq> {CHR 0x00}) \<and>
      (d \<in> {Dev_Random, Dev_URandom} \<longrightarrow> (\<forall>i < length b. b ! i = lcg_byte ((lcg_next ^^ Suc i) (of_nat now))))"
    if "get_device p s = Some d" for p d off sz now
    using that by (cases d) (auto simp: dev_read_def ok_or_def Let_def lcg_bytes_nth simp del: funpow.simps)
  moreover have "dev_write p data off fl now s = (Ok (length data), s)" if "get_device p s = Some d" for p d data off fl now
    using that by (cases d) (simp_all add: dev_write_def ok_or_def)
  moreover have "get_device ''/'' s = None" using within [of "''/''"] dev_new_devices(5) by simp
  then have "fst (dev_stat ''/'' now s) = Err (NotFound ''/'') \<and> is_ok (fst (dev_read_dir ''/'' now s))" for now
    by (simp add: dev_stat_def ok_or_def dev_read_dir_def)
  moreover have "get_device p dev_new = Some d" if "get_device p s = Some d" for p d
    using within [of p] that by simp
  ultimately show ?thesis by simp
qed

theorem dev_devices_spec_witness:
  "let s = snd (dev_remove ''/dev/null'' 1 dev_new)
   in get_device ''/dev/null'' s = None \<and> (\<exists>b. dev_read ''/dev/zero'' 7 3 2 s = (Ok b, s) \<and> length b = 3 \<and> set b \<subseteq> {CHR 0x00})"
proof -
  let ?s = "snd (dev_remove ''/dev/null'' 1 dev_new)"
  have run: "fs_reachable dev_fs dev_new ?s"
    using fs_reachable.step [OF fs_reachable.start fs_step.remove, of dev_fs dev_new "''/dev/null''" 1] by (simp add: dev_fs_def)
  have dev: "get_device ''/dev/zero'' ?s = Some Dev_Zero" "get_device ''/dev/null'' ?s = None" by code_simp+
  note reads = dev_devices_spec [OF run, THEN conjunct2, THEN conjunct1, rule_format, OF dev(1), of 7 3 2, THEN conjunct1]
  then obtain b where "dev_read ''/dev/zero'' 7 3 2 ?s = (Ok b, ?s)" "length b = 3" "set b \<subseteq> {CHR 0x00}"
    by (elim exE conjE) simp
  with dev(2) show ?thesis unfolding Let_def by blast
qed

end
