(* ===== verification/Proxy_FS.thy ===== *)
theory Proxy_FS
  imports Client_Server
begin

text \<open>
  ProxyFS (\<open>racfs-plugin-proxyfs/src/fs\<close>): a file system that sends every operation to another server. The state of the backend is
  the world behind the network, and the network is a parameter.
\<close>

record ProxyFS =
  px_base_url :: string

definition proxy_new :: "string \<Rightarrow> ProxyFS" where
  "proxy_new base_url = \<lparr>px_base_url = base_url\<rparr>"

definition proxy_file_query :: "path \<Rightarrow> (string \<times> string) list" where
  "proxy_file_query p = [(''path'', from_utf8_lossy p)]"

definition proxy_write_body :: "path \<Rightarrow> bytes \<Rightarrow> int \<Rightarrow> json" where
  "proxy_write_body p data offset = JObj [(''path'', JStr (from_utf8_lossy p)), (''data'', JStr (from_utf8_lossy data)), (''offset'', JNum offset)]"

definition proxy_rename_body :: "path \<Rightarrow> path \<Rightarrow> json" where
  "proxy_rename_body p q = JObj [(''old_path'', JStr (from_utf8_lossy p)), (''new_path'', JStr (from_utf8_lossy q))]"

definition proxy_chmod_body :: "path \<Rightarrow> mode \<Rightarrow> json" where
  "proxy_chmod_body p m = JObj [(''path'', JStr (from_utf8_lossy p)), (''mode'', word_json m)]"

definition proxy_mkdir_body :: "path \<Rightarrow> mode \<Rightarrow> json" where
  "proxy_mkdir_body p m = JObj [(''path'', JStr (from_utf8_lossy p)), (''perm'', word_json m)]"

text \<open>A request and its response; a failure to send becomes an I/O error, the status of a response is not looked at.\<close>

definition proxy_send :: "'w net_api \<Rightarrow> ProxyFS \<Rightarrow> string \<Rightarrow> string \<Rightarrow> (string \<times> string) list \<Rightarrow> json option \<Rightarrow> 'w \<Rightarrow>
    http_response fs_result \<times> 'w" where
  "proxy_send N px m path query body w =
     (case net_send N \<lparr>hq_method = m, hq_url = px_base_url px @ path, hq_query = query, hq_json = body, hq_authorization = None\<rparr> w of
        (Ok r, w') \<Rightarrow> (Ok r, w')
      | (Err e, w') \<Rightarrow> (Err (Io (re_message e)), w')
      | (Panic, w') \<Rightarrow> (Panic, w')
      | (Hang, w') \<Rightarrow> (Hang, w'))"

definition proxy_done :: "'a \<Rightarrow> http_response fs_result \<times> 'w \<Rightarrow> 'a fs_result \<times> 'w" where
  "proxy_done a x = (and_then (fst x) (\<lambda>_. Ok a), snd x)"

definition proxy_text :: "'w net_api \<Rightarrow> http_response \<Rightarrow> string fs_result" where
  "proxy_text N r =
     (case hp_body r of B_Json j \<Rightarrow> Ok (net_json_text N j) | B_Text t \<Rightarrow> Ok t | B_Broken e \<Rightarrow> Err (Io (re_message e)))"

definition proxy_read :: "'w net_api \<Rightarrow> ProxyFS \<Rightarrow> path \<Rightarrow> int \<Rightarrow> int \<Rightarrow> ('w, bytes) fs_op" where
  "proxy_read N px p offset sz now w =
     (let (r, w') = proxy_send N px ''GET'' ''/api/v1/files'' (proxy_file_query p) None w
      in (and_then r (\<lambda>r. and_then (proxy_text N r) (\<lambda>text. read_slice text offset sz)), w'))"

definition proxy_parse_stat :: "string \<Rightarrow> FileMetadata fs_result" where
  "proxy_parse_stat text =
     (let parts = split_whitespace text
      in if length parts \<ge> 5 then
           Ok \<lparr>md_path = parts ! 4, md_size = (case parse_u64 (parts ! 2) of Some n \<Rightarrow> n | None \<Rightarrow> 0),
               md_mode = (case parse_uint (2 ^ 32 - 1) (parts ! 1) of Some n \<Rightarrow> of_nat n | None \<Rightarrow> 0x1A4),
               md_created = None, md_modified = None, md_accessed = None, md_is_symlink = False, md_symlink_target = None\<rparr>
         else Err (Io ''Invalid stat response''))"

definition proxy_stat :: "'w net_api \<Rightarrow> ProxyFS \<Rightarrow> path \<Rightarrow> ('w, FileMetadata) fs_op" where
  "proxy_stat N px p now w =
     (let (r, w') = proxy_send N px ''GET'' ''/api/v1/stat'' (proxy_file_query p) None w
      in (and_then r (\<lambda>r. and_then (proxy_text N r) proxy_parse_stat), w'))"

definition proxy_create :: "'w net_api \<Rightarrow> ProxyFS \<Rightarrow> path \<Rightarrow> ('w, unit) fs_op" where
  "proxy_create N px p now w = proxy_done () (proxy_send N px ''POST'' ''/api/v1/files'' (proxy_file_query p) None w)"

definition proxy_write :: "'w net_api \<Rightarrow> ProxyFS \<Rightarrow> path \<Rightarrow> bytes \<Rightarrow> int \<Rightarrow> flags \<Rightarrow> ('w, nat) fs_op" where
  "proxy_write N px p data offset fl now w =
     proxy_done (length data) (proxy_send N px ''PUT'' ''/api/v1/files'' [] (Some (proxy_write_body p data offset)) w)"

definition proxy_mkdir :: "'w net_api \<Rightarrow> ProxyFS \<Rightarrow> path \<Rightarrow> mode \<Rightarrow> ('w, unit) fs_op" where
  "proxy_mkdir N px p m now w = proxy_done () (proxy_send N px ''POST'' ''/api/v1/directories'' [] (Some (proxy_mkdir_body p m)) w)"

definition proxy_line :: "time \<Rightarrow> string \<Rightarrow> FileMetadata" where
  "proxy_line now line =
     (let parts = split_whitespace line
      in if length parts \<ge> 4 then
           \<lparr>md_path = parts ! 3, md_size = (case parse_u64 (parts ! 2) of Some n \<Rightarrow> n | None \<Rightarrow> 0),
            md_mode = (case parse_uint (2 ^ 32 - 1) (parts ! 1) of Some n \<Rightarrow> of_nat n | None \<Rightarrow> 0x1A4),
            md_created = None, md_modified = None, md_accessed = None, md_is_symlink = False, md_symlink_target = None\<rparr>
         else metadata_file now line 0)"

definition proxy_read_dir :: "'w net_api \<Rightarrow> ProxyFS \<Rightarrow> path \<Rightarrow> ('w, FileMetadata list) fs_op" where
  "proxy_read_dir N px p now w =
     (let (r, w') = proxy_send N px ''GET'' ''/api/v1/directories'' (proxy_file_query p) None w
      in (and_then r (\<lambda>r. and_then (proxy_text N r) (\<lambda>text.
            Ok (map (proxy_line now) (filter (\<lambda>l. l \<noteq> []) (str_lines text))))), w'))"

definition proxy_remove :: "'w net_api \<Rightarrow> ProxyFS \<Rightarrow> path \<Rightarrow> ('w, unit) fs_op" where
  "proxy_remove N px p now w = proxy_done () (proxy_send N px ''DELETE'' ''/api/v1/files'' (proxy_file_query p) None w)"

definition proxy_remove_all :: "'w net_api \<Rightarrow> ProxyFS \<Rightarrow> path \<Rightarrow> ('w, unit) fs_op" where
  "proxy_remove_all N px p = proxy_remove N px p"

definition proxy_rename :: "'w net_api \<Rightarrow> ProxyFS \<Rightarrow> path \<Rightarrow> path \<Rightarrow> ('w, unit) fs_op" where
  "proxy_rename N px p q now w = proxy_done () (proxy_send N px ''POST'' ''/api/v1/rename'' [] (Some (proxy_rename_body p q)) w)"

definition proxy_chmod :: "'w net_api \<Rightarrow> ProxyFS \<Rightarrow> path \<Rightarrow> mode \<Rightarrow> ('w, unit) fs_op" where
  "proxy_chmod N px p m now w = proxy_done () (proxy_send N px ''POST'' ''/api/v1/chmod'' [] (Some (proxy_chmod_body p m)) w)"

definition proxy_fs :: "'w net_api \<Rightarrow> ProxyFS \<Rightarrow> 'w FileSystem" where
  "proxy_fs N px = \<lparr>fs_read = proxy_read N px, fs_stat = proxy_stat N px, fs_create = proxy_create N px,
     fs_write = proxy_write N px, fs_mkdir = proxy_mkdir N px, fs_read_dir = proxy_read_dir N px, fs_remove = proxy_remove N px,
     fs_remove_all = proxy_remove_all N px, fs_rename = proxy_rename N px, fs_chmod = proxy_chmod N px,
     fs_truncate = default_truncate, fs_touch = default_touch, fs_readlink = default_readlink,
     fs_symlink = default_symlink, fs_get_xattr = default_get_xattr, fs_set_xattr = default_set_xattr,
     fs_remove_xattr = default_remove_xattr, fs_list_xattr = default_list_xattr\<rparr>"

subsection \<open>A proxy in front of a server\<close>

lemma proxy_bodies:
  "proxy_write_body p d off = write_body (from_utf8_lossy p) (from_utf8_lossy d) (Some off)"
  "proxy_rename_body p q = rename_body (from_utf8_lossy p) (from_utf8_lossy q)"
  "proxy_chmod_body p m = chmod_body (from_utf8_lossy p) m"
  "proxy_mkdir_body p m = mkdir_body (from_utf8_lossy p) (Some m)"
  by (simp_all add: proxy_write_body_def write_body_def proxy_rename_body_def rename_body_def proxy_chmod_body_def
      chmod_body_def proxy_mkdir_body_def mkdir_body_def opt_json_def)

text \<open>What comes back of a handler's result: the response, whatever it is.\<close>

definition relayed :: "wire_texts \<Rightarrow> ('a \<Rightarrow> json) \<Rightarrow> 's Server \<Rightarrow> time \<Rightarrow> 'a http_result \<times> 's AppState \<Rightarrow>
    http_response fs_result \<times> ('s Server \<times> time)" where
  "relayed W enc sv t x =
     (let (r, app) = x; w = (sv\<lparr>sv_app := app\<rparr>, t)
      in case r of
           Ok a \<Rightarrow> (Ok \<lparr>hp_status = 200, hp_body = B_Json (enc a)\<rparr>, w)
         | Err e \<Rightarrow> (Ok (her_into_response e), w)
         | Panic \<Rightarrow> (Err (Io (wt_lost W)), w)
         | Hang \<Rightarrow> (Hang, w))"

lemma proxy_send_direct:
  assumes "\<And>rq. \<lbrakk>hq_method rq = m; hq_url rq = path; hq_query rq = query; hq_json rq = body\<rbrakk> \<Longrightarrow> serve S V rq t sv = respond enc h sv"
  shows "proxy_send (direct_net W S V base) (proxy_new base) m path query body (sv, t) = relayed W enc sv t (h (sv_app sv))"
proof -
  obtain r app where h: "h (sv_app sv) = (r, app)" by fastforce
  have strip: "str_strip_prefix (base @ path) base = Some path" by (simp add: str_strip_prefix_eq_Some)
  show ?thesis
    by (cases r) (simp_all add: proxy_send_def direct_net_def proxy_new_def strip assms respond_def h relayed_def lost_def)
qed

text \<open>The calls of a proxy that change something, and what it reads.\<close>

definition forwarded :: "wire_texts \<Rightarrow> 'b \<Rightarrow> 's Server \<Rightarrow> time \<Rightarrow> 'a http_result \<times> 's AppState \<Rightarrow> 'b fs_result \<times> ('s Server \<times> time)" where
  "forwarded W b sv t x =
     (let (r, app) = x; w = (sv\<lparr>sv_app := app\<rparr>, t)
      in case r of Ok _ \<Rightarrow> (Ok b, w) | Err _ \<Rightarrow> (Ok b, w) | Panic \<Rightarrow> (Err (Io (wt_lost W)), w) | Hang \<Rightarrow> (Hang, w))"

lemma proxy_done_relayed: "proxy_done b (relayed W enc sv t x) = forwarded W b sv t x"
  by (auto simp: proxy_done_def relayed_def forwarded_def Let_def split: prod.splits outcome.splits)

lemmas proxy_changes = proxy_create_def proxy_write_def proxy_mkdir_def proxy_remove_def proxy_remove_all_def proxy_rename_def proxy_chmod_def

lemma proxy_text_json [simp]: "proxy_text (direct_net W S V base) \<lparr>hp_status = n, hp_body = B_Json j\<rparr> = Ok (wt_json_text W j)"
  by (simp add: proxy_text_def)

text \<open>
  \<^bold>\<open>C13\<close>. A proxy in front of a server, over a network that delivers: creating, writing, making directories, removing, renaming and
  changing modes are exactly the call of the handler on the server's state, but the proxy reports success also when the
  handler has failed, and removing a tree is removing one file. A read returns the window of the JSON text of the contents, and of the JSON
  text of the error when the file cannot be read. An examination fails whenever the answer has fewer than five words.
\<close>

theorem proxy_forwards:
  assumes ok: "\<And>j. j \<in> {proxy_write_body p d off, proxy_mkdir_body p m, proxy_rename_body p q, proxy_chmod_body p m} \<Longrightarrow> accepts S j"
    and off: "is_i64 off"
  shows "let N = direct_net W S V base; px = proxy_new base; app = sv_app sv; p' = from_utf8_lossy p; w = (sv, t) in
    proxy_create N px p now w = forwarded W () sv t (create_file V p' t app) \<and>
    proxy_write N px p d off fl now w =
      forwarded W (length d) sv t (write_file V \<lparr>wr_path = p', wr_data = from_utf8_lossy d, wr_offset = Some off\<rparr> t app) \<and>
    proxy_mkdir N px p m now w = forwarded W () sv t (create_directory V \<lparr>cdr_path = p', cdr_perm = Some m\<rparr> t app) \<and>
    proxy_remove N px p now w = forwarded W () sv t (delete_file V p' t app) \<and>
    proxy_remove_all N px p now w = forwarded W () sv t (delete_file V p' t app) \<and>
    proxy_rename N px p q now w = forwarded W () sv t (rename_request V \<lparr>rr_old_path = p', rr_new_path = from_utf8_lossy q\<rparr> t app) \<and>
    proxy_chmod N px p m now w = forwarded W () sv t (chmod_request V \<lparr>cr_path = p', cr_mode = m\<rparr> t app) \<and>
    fst (proxy_read N px p o1 sz now w) =
      (case fst (read_file V p' t app) of
         Ok s \<Rightarrow> read_slice (wt_json_text W (JStr s)) o1 sz
       | Err e \<Rightarrow> read_slice (wt_json_text W (her_to_json e)) o1 sz
       | Panic \<Rightarrow> Err (Io (wt_lost W)) | Hang \<Rightarrow> Hang) \<and>
    (\<forall>md. fst (stat_request (sp_fmt_time S) V p' t app) = Ok md \<and> length (split_whitespace (wt_json_text W (metadata_json md))) < 5 \<longrightarrow>
       fst (proxy_stat N px p now w) = Err (Io ''Invalid stat response''))"
proof -
  let ?N = "direct_net W S V base" and ?px = "proxy_new base" and ?p = "from_utf8_lossy p"
  have acc: "accepts S (write_body ?p (from_utf8_lossy d) (Some off))" "accepts S (mkdir_body ?p (Some m))"
    "accepts S (rename_body ?p (from_utf8_lossy q))" "accepts S (chmod_body ?p m)"
    using ok by (simp_all add: proxy_bodies)
  note send = proxy_send_direct [where W = W and base = base]
  note calls = proxy_changes proxy_bodies proxy_file_query_def
    send [OF serve_files(2)] send [OF serve_files(3)]
    send [OF serve_files(4) [OF _ _ _ _ acc(1) request_bodies(1)]] send [OF serve_directories(2) [OF _ _ _ _ acc(2) request_bodies(2)]]
    send [OF serve_metadata(2) [OF _ _ _ _ acc(3) request_bodies(3)]] send [OF serve_metadata(3) [OF _ _ _ _ acc(4) request_bodies(4)]]
    proxy_done_relayed
  have "fst (proxy_read ?N ?px p o1 sz now (sv, t)) =
      (case fst (read_file V ?p t (sv_app sv)) of
         Ok s \<Rightarrow> read_slice (wt_json_text W (JStr s)) o1 sz
       | Err e \<Rightarrow> read_slice (wt_json_text W (her_to_json e)) o1 sz
       | Panic \<Rightarrow> Err (Io (wt_lost W)) | Hang \<Rightarrow> Hang)"
    by (simp add: proxy_read_def proxy_file_query_def send [OF serve_files(1)] relayed_def her_into_response_def
        split: prod.splits outcome.splits)
  moreover have "fst (proxy_stat ?N ?px p now (sv, t)) = Err (Io ''Invalid stat response'')"
    if "fst (stat_request (sp_fmt_time S) V ?p t (sv_app sv)) = Ok md" "length (split_whitespace (wt_json_text W (metadata_json md))) < 5" for md
    using that by (cases "stat_request (sp_fmt_time S) V ?p t (sv_app sv)")
      (simp add: proxy_stat_def proxy_file_query_def send [OF serve_metadata(1)] relayed_def proxy_parse_stat_def)
  ultimately show ?thesis using off by (simp add: calls) blast
qed

theorem proxy_forwards_witness:
  "let N = direct_net plain_texts plain_params mem_fs ''http://h''; sv = plain_server (mem_new 0)
   in fst (delete_file mem_fs ''/x'' 1 (sv_app sv)) \<noteq> Ok ''Deleted: /x'' \<and> fst (proxy_remove N (proxy_new ''http://h'') ''/x'' 2 (sv, 1)) = Ok ()"
proof -
  let ?N = "direct_net plain_texts plain_params mem_fs ''http://h''" and ?sv = "plain_server (mem_new 0)"
  have u: "from_utf8_lossy ''/x'' = ''/x''" by code_simp
  have v: "validate_path ''/x'' = Ok ()" by (simp add: validate_path_def starts_with_def MAX_PATH_LEN_def)
  have "fst (mem_remove ''/x'' 1 (mem_new 0)) = Err (NotFound ''/x'')" by code_simp
  then have d: "\<exists>e. fst (delete_file mem_fs ''/x'' 1 (sv_app ?sv)) = Err e"
    by (cases "mem_remove ''/x'' 1 (mem_new 0)")
      (simp add: delete_file_def v vfs_then_def mem_fs_def plain_server_def app_state_new_def)
  have "proxy_remove ?N (proxy_new ''http://h'') ''/x'' 2 (?sv, 1) = forwarded plain_texts () ?sv 1 (delete_file mem_fs ''/x'' 1 (sv_app ?sv))"
    using proxy_forwards [where S = plain_params and p = "''/x''" and off = 0 and W = plain_texts and V = mem_fs and base = "''http://h''"
        and sv = ?sv and t = 1 and now = 2, OF accepts_plain]
    by (simp add: Let_def u is_i64_def)
  with d show ?thesis
    by (cases "delete_file mem_fs ''/x'' 1 (sv_app ?sv)") (auto simp: Let_def forwarded_def)
qed

end
