(* ===== verification/Http_FS.thy ===== *)
theory Http_FS
  imports Fs_Contract
begin

text \<open>
  The crate \<open>racfs-plugin-httpfs\<close>: HTTP requests as files. A request is a directory below \<open>/requests\<close> with the files \<open>url\<close>, \<open>method\<close>,
  \<open>headers.json\<close> and \<open>body\<close>; writing \<open>send\<close> to its \<open>trigger\<close> sends it and stores the answer below \<open>/responses\<close>, and the answers of GET
  requests are cached below \<open>/cache\<close>. The state is the map of files and the state of the network. The hasher of the standard library, \<open>serde_json\<close> and \<open>reqwest\<close> are
  parameters.
\<close>

subsection \<open>State\<close>

type_synonym headers = "(string, string) hash_map"

record HttpEntry =
  he_data :: bytes
  he_metadata :: FileMetadata

record HttpFS =
  ht_files :: "(path \<times> HttpEntry) list"

record http_call =
  ht_method :: string
  ht_url :: string
  ht_headers :: "(string \<times> string) list"
  ht_body :: "bytes option"

text \<open>An answer: header values that are not text are \<open>None\<close>, and reading the body may fail.\<close>

record http_answer =
  ha_status :: nat
  ha_headers :: "(string \<times> string option) list"
  ha_body :: "string + bytes"

record 'w http_params =
  hx_hash :: "string \<Rightarrow> 64 word"
  hx_of_json :: "string \<Rightarrow> string + headers"
  hx_to_json :: "headers \<Rightarrow> string + string"
  hx_build :: "(unit, string) outcome"
  hx_send :: "http_call \<Rightarrow> 'w \<Rightarrow> (http_answer, string) outcome \<times> 'w"

type_synonym 'w http_state = "HttpFS \<times> 'w"

subsection \<open>Request identifiers, cache keys, cache control\<close>

definition parse_request_id :: "path \<Rightarrow> string fs_result" where
  "parse_request_id p =
     (let cs = components p
      in if length cs < 3 \<or> cs ! 0 \<noteq> RootDir \<or> cs ! 1 \<noteq> Normal ''requests'' then Err (InvalidInput ''invalid request path'')
         else (case cs ! 2 of
             Normal name \<Rightarrow> if utf8_valid name then Ok name else Err (InvalidInput ''invalid request ID'')
           | _ \<Rightarrow> Err (InvalidInput ''invalid request ID'')))"

definition hex_digit :: "nat \<Rightarrow> char" where
  "hex_digit d = ''0123456789abcdef'' ! d"

definition hex16 :: "64 word \<Rightarrow> string" where
  "hex16 w = map (\<lambda>i. hex_digit (nat (uint w div 16 ^ i mod 16))) (rev [0..<16])"

definition url_to_cache_key :: "'w http_params \<Rightarrow> string \<Rightarrow> string" where
  "url_to_cache_key H url = hex16 (hx_hash H url)"

record CacheDirective =
  cd_max_age_secs :: "nat option"
  cd_no_store :: bool

definition directive_step :: "CacheDirective \<Rightarrow> string \<Rightarrow> CacheDirective" where
  "directive_step d part =
     (let part = trim part
      in if eq_ignore_ascii_case part ''no-store'' then d\<lparr>cd_no_store := True\<rparr>
         else if eq_ignore_ascii_case part ''no-cache'' then d\<lparr>cd_max_age_secs := Some 0\<rparr>
         else if eq_ignore_ascii_case (take 8 part) ''max-age='' then
           (case parse_u64 (trim (drop 8 part)) of Some n \<Rightarrow> d\<lparr>cd_max_age_secs := Some n\<rparr> | None \<Rightarrow> d)
         else d)"

definition header_or :: "headers \<Rightarrow> string \<Rightarrow> string \<Rightarrow> string option" where
  "header_or hs a b = (case hm_get (=) hs a of Some v \<Rightarrow> Some v | None \<Rightarrow> hm_get (=) hs b)"

definition parse_cache_control :: "headers \<Rightarrow> CacheDirective" where
  "parse_cache_control hs =
     foldl directive_step \<lparr>cd_max_age_secs = None, cd_no_store = False\<rparr>
       (split_on (CHR '','') (case header_or hs ''cache-control'' ''Cache-Control'' of Some v \<Rightarrow> v | None \<Rightarrow> []))"

definition DEFAULT_CACHE_TTL_SECS :: nat where "DEFAULT_CACHE_TTL_SECS = 60"

subsection \<open>Entries\<close>

definition http_file :: "time \<Rightarrow> path \<Rightarrow> bytes \<Rightarrow> nat \<Rightarrow> HttpEntry" where
  "http_file now p data sz = \<lparr>he_data = data, he_metadata = metadata_file now p sz\<rparr>"

definition http_dir :: "time \<Rightarrow> path \<Rightarrow> HttpEntry" where
  "http_dir now p = \<lparr>he_data = [], he_metadata = metadata_directory now p\<rparr>"

definition http_put :: "path \<Rightarrow> HttpEntry \<Rightarrow> HttpFS \<Rightarrow> HttpFS" where
  "http_put p e fs = fs\<lparr>ht_files := pm_insert (ht_files fs) p e\<rparr>"

definition init_directories :: "time \<Rightarrow> HttpFS \<Rightarrow> HttpFS" where
  "init_directories now fs = fold (\<lambda>p. http_put p (http_dir now p)) [''/'', ''/requests'', ''/responses'', ''/cache''] fs"

definition http_new :: "time \<Rightarrow> HttpFS" where
  "http_new now = init_directories now \<lparr>ht_files = []\<rparr>"

definition http_get_entry :: "HttpFS \<Rightarrow> path \<Rightarrow> HttpEntry fs_result" where
  "http_get_entry fs p = ok_or (pm_get (ht_files fs) p) (NotFound p)"

definition http_ensure_parent_exists :: "HttpFS \<Rightarrow> path \<Rightarrow> unit fs_result" where
  "http_ensure_parent_exists fs p =
     (case parent p of
        None \<Rightarrow> Ok ()
      | Some par \<Rightarrow>
          if par = ''/'' then Ok ()
          else and_then (ok_or (pm_get (ht_files fs) par) (NotFound par)) (\<lambda>e.
            if is_directory (he_metadata e) then Ok () else Err (NotADirectory par)))"

definition read_bytes_sync :: "HttpFS \<Rightarrow> path \<Rightarrow> bytes fs_result" where
  "read_bytes_sync fs p =
     and_then (http_get_entry fs p) (\<lambda>e. if is_directory (he_metadata e) then Err (IsDirectory p) else Ok (he_data e))"

definition read_to_string_sync :: "HttpFS \<Rightarrow> path \<Rightarrow> string fs_result" where
  "read_to_string_sync fs p =
     and_then (read_bytes_sync fs p) (\<lambda>data.
       case utf8_error 0 data of None \<Rightarrow> Ok data | Some e \<Rightarrow> Err (InvalidUtf8 (utf8_error_message e)))"

text \<open>\<open>unwrap_or_default\<close> and \<open>ok\<close>.\<close>

fun or_default :: "'a list fs_result \<Rightarrow> 'a list" where
  "or_default (Ok a) = a"
| "or_default _ = []"

fun to_option :: "'a fs_result \<Rightarrow> 'a option" where
  "to_option (Ok a) = Some a"
| "to_option _ = None"

subsection \<open>Responses and the cache\<close>

definition response_path :: "string \<Rightarrow> string \<Rightarrow> path" where
  "response_path rid name = ''/responses/'' @ rid @ ''/'' @ name"

definition request_path :: "string \<Rightarrow> string \<Rightarrow> path" where
  "request_path rid name = ''/requests/'' @ rid @ ''/'' @ name"

definition store_response_direct :: "'w http_params \<Rightarrow> string \<Rightarrow> nat \<Rightarrow> headers \<Rightarrow> bytes \<Rightarrow> (HttpFS, unit) fs_op" where
  "store_response_direct H rid status_code hs body now fs =
     (let dir = ''/responses/'' @ rid;
          fs1 = (if pm_contains (ht_files fs) dir then fs else http_put dir (http_dir now dir) fs);
          sp = response_path rid ''status''; status = dec status_code;
          fs2 = http_put sp (http_file now sp status (length status)) fs1
      in case hx_to_json H hs of
           Inl e \<Rightarrow> (Err (Io (''failed to serialize headers: '' @ e)), fs2)
         | Inr j \<Rightarrow>
             let hp = response_path rid ''headers.json''; bp = response_path rid ''body''
             in (Ok (), http_put bp (http_file now bp body (length body)) (http_put hp (http_file now hp j (length j)) fs2)))"

definition cache_base :: "string \<Rightarrow> path" where
  "cache_base key = ''/cache/'' @ key"

definition get_cached_response :: "'w http_params \<Rightarrow> string \<Rightarrow> time \<Rightarrow> HttpFS \<Rightarrow> (nat \<times> headers \<times> bytes) option" where
  "get_cached_response H key now fs =
     (let base = cache_base key in
      Option.bind (to_option (read_to_string_sync fs (push base ''expiry''))) (\<lambda>expiry_str.
      Option.bind (parse_u64 (trim expiry_str)) (\<lambda>expiry_secs.
      if int (now div 10 ^ 9) > i64_wrap (int expiry_secs) then None
      else
      Option.bind (to_option (read_to_string_sync fs (push base ''status''))) (\<lambda>status_str.
      Option.bind (parse_uint 65535 (trim status_str)) (\<lambda>status_code.
      Option.bind (to_option (read_to_string_sync fs (push base ''headers.json''))) (\<lambda>json.
      case hx_of_json H json of
        Inl _ \<Rightarrow> None
      | Inr hs \<Rightarrow> map_option (\<lambda>body. (status_code, hs, body)) (to_option (read_bytes_sync fs (push base ''body'')))))))))"

definition set_cached_response :: "'w http_params \<Rightarrow> string \<Rightarrow> nat \<Rightarrow> headers \<Rightarrow> bytes \<Rightarrow> nat \<Rightarrow> (HttpFS, unit) fs_op" where
  "set_cached_response H key status_code hs body max_age_secs now fs =
     (let base = cache_base key;
          fs1 = (if pm_contains (ht_files fs) base then fs else http_put base (http_dir now base) fs);
          expiry_secs = u64_add (now div 10 ^ 9) max_age_secs;
          sp = push base ''status'';
          fs2 = http_put sp (http_file now sp (dec status_code) 3) fs1
      in case hx_to_json H hs of
           Inl e \<Rightarrow> (Err (Io (''serialize headers: '' @ e)), fs2)
         | Inr j \<Rightarrow>
             let hp = push base ''headers.json''; bp = push base ''body''; ep = push base ''expiry'';
                 fs3 = http_put ep (http_file now ep (dec expiry_secs) 20)
                   (http_put bp (http_file now bp body (length body)) (http_put hp (http_file now hp j (length j)) fs2))
             in (Ok (), case header_or hs ''etag'' ''ETag'' of
                   None \<Rightarrow> fs3
                 | Some etag \<Rightarrow> http_put (push base ''etag'') (http_file now (push base ''etag'') etag (length etag)) fs3))"

definition get_cached_etag :: "string \<Rightarrow> HttpFS \<Rightarrow> string option" where
  "get_cached_etag key fs = to_option (read_to_string_sync fs (cache_base key @ ''/etag''))"

definition get_cached_body_only :: "string \<Rightarrow> HttpFS \<Rightarrow> bytes option" where
  "get_cached_body_only key fs = to_option (read_bytes_sync fs (cache_base key @ ''/body''))"

subsection \<open>Sending a request\<close>

definition request_headers :: "'w http_params \<Rightarrow> string \<Rightarrow> headers fs_result" where
  "request_headers H json =
     (if json = [] then Ok []
      else case hx_of_json H json of Inl e \<Rightarrow> Err (InvalidInput (''invalid headers.json: '' @ e)) | Inr hs \<Rightarrow> Ok hs)"

definition build_client :: "'w http_params \<Rightarrow> unit fs_result" where
  "build_client H =
     (case hx_build H of Ok _ \<Rightarrow> Ok () | Err e \<Rightarrow> Err (Io (''failed to build HTTP client: '' @ e)) | Panic \<Rightarrow> Panic | Hang \<Rightarrow> Hang)"

definition request_call :: "string \<Rightarrow> string \<Rightarrow> headers \<Rightarrow> bytes \<Rightarrow> string \<Rightarrow> HttpFS \<Rightarrow> http_call" where
  "request_call method_upper url hs body key fs =
     \<lparr>ht_method = method_upper, ht_url = (if method_upper = ''GET'' then trim url else url),
      ht_headers = hs @ (case (if method_upper = ''GET'' then get_cached_etag key fs else None) of
        None \<Rightarrow> [] | Some etag \<Rightarrow> [(''If-None-Match'', trim_char (CHR 0x22) etag)]),
      ht_body = (if body \<noteq> [] \<and> method_upper \<in> {''POST'', ''PUT'', ''PATCH''} then Some body else None)\<rparr>"

definition send_call :: "'w http_params \<Rightarrow> http_call \<Rightarrow> 'w \<Rightarrow> http_answer fs_result \<times> 'w" where
  "send_call H c w =
     (case hx_send H c w of
        (Ok a, w') \<Rightarrow> (Ok a, w')
      | (Err e, w') \<Rightarrow> (Err (Io (''HTTP request failed: '' @ e)), w')
      | (Panic, w') \<Rightarrow> (Panic, w')
      | (Hang, w') \<Rightarrow> (Hang, w'))"

definition answer_headers :: "http_answer \<Rightarrow> headers" where
  "answer_headers a =
     foldl (\<lambda>m (k, v). hm_insert (=) m k v) [] (List.map_filter (\<lambda>(k, v). map_option (Pair k) v) (ha_headers a))"

definition answer_body :: "http_answer \<Rightarrow> bool \<Rightarrow> string \<Rightarrow> HttpFS \<Rightarrow> bytes fs_result" where
  "answer_body a is_get key fs =
     (if ha_status a = 304 \<and> is_get then Ok (case get_cached_body_only key fs of Some b \<Rightarrow> b | None \<Rightarrow> [])
      else case ha_body a of Inr b \<Rightarrow> Ok b | Inl e \<Rightarrow> Err (Io (''failed to read response body: '' @ e)))"

text \<open>The response is stored; an answer of status 200 to a GET enters the cache unless it says \<open>no-store\<close>, and a failure to do so is only logged.\<close>

definition cache_answer :: "'w http_params \<Rightarrow> string \<Rightarrow> nat \<Rightarrow> headers \<Rightarrow> bytes \<Rightarrow> time \<Rightarrow> HttpFS \<Rightarrow> HttpFS" where
  "cache_answer H key status_code hs body now fs =
     (let directive = parse_cache_control hs
      in if cd_no_store directive then fs
         else snd (set_cached_response H key status_code hs body
           (case cd_max_age_secs directive of Some n \<Rightarrow> n | None \<Rightarrow> DEFAULT_CACHE_TTL_SECS) now fs))"

definition take_answer :: "'w http_params \<Rightarrow> string \<Rightarrow> bool \<Rightarrow> string \<Rightarrow> http_answer \<Rightarrow> (HttpFS, unit) fs_op" where
  "take_answer H rid is_get key a now fs =
     try_then (answer_body a is_get key fs) (\<lambda>body fs.
       let hs = answer_headers a; (r, fs') = store_response_direct H rid (ha_status a) hs body now fs
       in try_then r (\<lambda>_ fs. (Ok (), if is_get \<and> ha_status a = 200 then cache_answer H key (ha_status a) hs body now fs else fs)) fs') fs"

definition supported_methods :: "string list" where
  "supported_methods = [''GET'', ''POST'', ''PUT'', ''DELETE'', ''PATCH'', ''HEAD'']"

definition perform_request :: "'w http_params \<Rightarrow> string \<Rightarrow> string \<Rightarrow> string \<Rightarrow> string \<Rightarrow> bytes \<Rightarrow> string \<Rightarrow> ('w http_state, unit) fs_op" where
  "perform_request H rid url meth json body key now =
     (let method_upper = to_uppercase (trim meth) in
      try_then (request_headers H json) (\<lambda>hs.
      try_then (build_client H) (\<lambda>_.
      try_then (if method_upper \<in> set supported_methods then Ok () else Err (InvalidInput (''unsupported HTTP method: '' @ meth))) (\<lambda>_ (fs, w).
        let (r, w') = send_call H (request_call method_upper url hs body key fs) w
        in try_then r (\<lambda>a (fs, w). let (r, fs') = take_answer H rid (method_upper = ''GET'') key a now fs in (r, (fs', w))) (fs, w')))))"

definition execute_request_sync :: "'w http_params \<Rightarrow> string \<Rightarrow> ('w http_state, unit) fs_op" where
  "execute_request_sync H rid now s =
     (let fs = fst s in
      try_then (read_to_string_sync fs (request_path rid ''url'')) (\<lambda>url.
      try_then (read_to_string_sync fs (request_path rid ''method'')) (\<lambda>meth s.
        let json = or_default (read_to_string_sync fs (request_path rid ''headers.json''));
            body = or_default (read_bytes_sync fs (request_path rid ''body''));
            is_get = (to_uppercase (trim meth) = ''GET'');
            key = (if is_get then url_to_cache_key H (trim url) else [])
        in case (if is_get then get_cached_response H key now fs else None) of
             Some (status_code, hs, cached_body) \<Rightarrow>
               (let (r, fs') = store_response_direct H rid status_code hs cached_body now fs in (r, (fs', snd s)))
           | None \<Rightarrow> perform_request H rid url meth json body key now s)) s)"

subsection \<open>The trait operations\<close>

text \<open>Operations that do not use the network.\<close>

definition local_op :: "(HttpFS, 'a) fs_op \<Rightarrow> ('w http_state, 'a) fs_op" where
  "local_op op now s = (let (r, fs') = op now (fst s) in (r, (fs', snd s)))"

definition http_read :: "path \<Rightarrow> int \<Rightarrow> int \<Rightarrow> (HttpFS, bytes) fs_op" where
  "http_read p offset sz now fs =
     (and_then (http_get_entry fs p) (\<lambda>e.
        if is_directory (he_metadata e) then Err (IsDirectory p) else read_slice (he_data e) offset sz), fs)"

definition http_stat :: "path \<Rightarrow> (HttpFS, FileMetadata) fs_op" where
  "http_stat p now fs = (and_then (http_get_entry fs p) (\<lambda>e. Ok (he_metadata e)), fs)"

definition http_create :: "path \<Rightarrow> (HttpFS, unit) fs_op" where
  "http_create p now fs =
     try_then (http_ensure_parent_exists fs p) (\<lambda>_ fs.
       if pm_contains (ht_files fs) p then (Err (AlreadyExists p), fs)
       else if (case parent p of Some par \<Rightarrow> from_utf8_lossy par \<in> {''/requests'', ''/responses'', ''/cache''} | None \<Rightarrow> False)
       then (Err (PermissionDenied p), fs)
       else (Ok (), http_put p (http_file now p [] 0) fs)) fs"

definition http_write_data :: "bytes \<Rightarrow> bytes \<Rightarrow> int \<Rightarrow> flags \<Rightarrow> bytes fs_result" where
  "http_write_data old data offset flags =
     (if contains_append flags \<or> as_usize offset \<ge> length old then
        (let stop = as_usize (max offset 0) in
         and_then (if stop > length old then vec_resize stop old else Ok old) (\<lambda>d. Ok (d @ data)))
      else Ok data)"

definition http_write :: "'w http_params \<Rightarrow> path \<Rightarrow> bytes \<Rightarrow> int \<Rightarrow> flags \<Rightarrow> ('w http_state, nat) fs_op" where
  "http_write H p data offset flags now s =
     (case pm_get (ht_files (fst s)) p of
        None \<Rightarrow> (Err (NotFound p), s)
      | Some e \<Rightarrow>
          if is_directory (he_metadata e) then (Err (IsDirectory p), s)
          else if path_ends_with p ''trigger'' \<and> trim (from_utf8_lossy data) = ''send'' then
            (case parse_request_id p of
               Ok rid \<Rightarrow> (let (r, s') = execute_request_sync H rid now s in try_then r (\<lambda>_ s. (Ok (length data), s)) s')
             | _ \<Rightarrow> (Ok (length data), s))
          else if path_starts_with p ''/responses/'' then (Err ReadOnly, s)
          else try_then (http_write_data (he_data e) data offset flags) (\<lambda>d (fs, w).
            (Ok (length data),
             (http_put p (e\<lparr>he_data := d, he_metadata := (he_metadata e)\<lparr>md_size := length d, md_modified := Some now\<rparr>\<rparr>) fs, w))) s)"

definition http_mkdir :: "path \<Rightarrow> mode \<Rightarrow> (HttpFS, unit) fs_op" where
  "http_mkdir p perm now fs =
     (if (case parent p of Some par \<Rightarrow> from_utf8_lossy par \<notin> {''/'', ''/requests'', ''/responses'', ''/cache''} | None \<Rightarrow> False)
      then (Err (PermissionDenied p), fs)
      else if pm_contains (ht_files fs) p then (Err (AlreadyExists p), fs)
      else (Ok (), http_put p (http_dir now p) fs))"

text \<open>The first name of an entry below the listed directory; a name is listed once, with the metadata of whichever entry comes first.\<close>

definition first_name :: "string \<Rightarrow> path \<Rightarrow> string option" where
  "first_name prefix p =
     (let relative = (if prefix = [] then p else case path_strip_prefix p prefix of Some r \<Rightarrow> r | None \<Rightarrow> p)
      in if relative = ''/'' then None
         else map_option (\<lambda>c. from_utf8_lossy (component_str c))
           (List.find (\<lambda>c. case c of Normal _ \<Rightarrow> True | _ \<Rightarrow> False) (components relative)))"

fun http_list :: "string \<Rightarrow> string list \<Rightarrow> (path \<times> HttpEntry) list \<Rightarrow> FileMetadata list" where
  "http_list prefix seen [] = []"
| "http_list prefix seen ((p, e) # fs) =
     (case first_name prefix p of
        None \<Rightarrow> http_list prefix seen fs
      | Some n \<Rightarrow>
          if n \<in> set seen then http_list prefix seen fs
          else (he_metadata e)\<lparr>md_path := push (if prefix = [] then ''/'' else prefix) n\<rparr> # http_list prefix (n # seen) fs)"

definition http_read_dir :: "path \<Rightarrow> (HttpFS, FileMetadata list) fs_op" where
  "http_read_dir p now fs =
     (let prefix = (if from_utf8_lossy p = ''/'' then [] else from_utf8_lossy p)
      in (Ok (http_list prefix [] (filter (\<lambda>(q, _). starts_with (from_utf8_lossy q) prefix \<and> from_utf8_lossy q \<noteq> prefix) (ht_files fs))), fs))"

definition http_remove :: "path \<Rightarrow> (HttpFS, unit) fs_op" where
  "http_remove p now fs =
     (case pm_get (ht_files fs) p of
        None \<Rightarrow> (Err (NotFound p), fs)
      | Some e \<Rightarrow>
          let fs' = fs\<lparr>ht_files := pm_remove (ht_files fs) p\<rparr>
          in if is_directory (he_metadata e) \<and> (\<exists>(q, _) \<in> set (ht_files fs'). \<not> path_eq q p \<and> path_starts_with q p)
             then (Err DirectoryNotEmpty, fs') else (Ok (), fs'))"

definition http_remove_all :: "path \<Rightarrow> (HttpFS, unit) fs_op" where
  "http_remove_all p now fs =
     (if \<not> pm_contains (ht_files fs) p then (Err (NotFound p), fs)
      else (Ok (), fs\<lparr>ht_files := hm_retain (\<lambda>q. \<not> path_starts_with q p \<or> path_eq q p) (ht_files fs)\<rparr>))"

definition http_rename :: "path \<Rightarrow> path \<Rightarrow> (HttpFS, unit) fs_op" where
  "http_rename old new now fs =
     (case pm_get (ht_files fs) old of
        None \<Rightarrow> (Err (NotFound old), fs)
      | Some e \<Rightarrow>
          let files' = pm_remove (ht_files fs) old
          in if pm_contains files' new then (Err (AlreadyExists new), fs\<lparr>ht_files := pm_insert files' old e\<rparr>)
             else (Ok (), fs\<lparr>ht_files := pm_insert files' new (e\<lparr>he_metadata := (he_metadata e)\<lparr>md_path := new\<rparr>\<rparr>)\<rparr>))"

definition http_chmod :: "path \<Rightarrow> mode \<Rightarrow> (HttpFS, unit) fs_op" where
  "http_chmod p m now fs =
     (case pm_get (ht_files fs) p of
        None \<Rightarrow> (Err (NotFound p), fs)
      | Some e \<Rightarrow> (Ok (), http_put p (e\<lparr>he_metadata := (set_permissions m (he_metadata e))\<lparr>md_modified := Some now\<rparr>\<rparr>) fs))"

definition http_truncate :: "path \<Rightarrow> nat \<Rightarrow> (HttpFS, unit) fs_op" where
  "http_truncate p n now fs =
     (case pm_get (ht_files fs) p of
        None \<Rightarrow> (Err (NotFound p), fs)
      | Some e \<Rightarrow>
          if is_directory (he_metadata e) then (Err (IsDirectory p), fs)
          else try_then (if n < length (he_data e) then Ok (take n (he_data e))
                          else if n > length (he_data e) then vec_resize n (he_data e) else Ok (he_data e)) (\<lambda>d fs.
            (Ok (), http_put p (e\<lparr>he_data := d, he_metadata := (he_metadata e)\<lparr>md_size := n, md_modified := Some now\<rparr>\<rparr>) fs)) fs)"

definition http_stamp :: "path \<Rightarrow> time \<Rightarrow> HttpFS \<Rightarrow> HttpFS" where
  "http_stamp p now fs =
     (case pm_get (ht_files fs) p of
        None \<Rightarrow> fs
      | Some e \<Rightarrow> http_put p (e\<lparr>he_metadata := (he_metadata e)\<lparr>md_accessed := Some now, md_modified := Some now\<rparr>\<rparr>) fs)"

definition http_touch :: "path \<Rightarrow> (HttpFS, unit) fs_op" where
  "http_touch p now fs =
     (if pm_contains (ht_files fs) p then (Ok (), http_stamp p now fs)
      else (let (r, fs') = http_create p now fs in try_then r (\<lambda>_ fs. (Ok (), http_stamp p now fs)) fs'))"

definition http_fs :: "'w http_params \<Rightarrow> 'w http_state FileSystem" where
  "http_fs H = \<lparr>fs_read = \<lambda>p off sz. local_op (http_read p off sz), fs_stat = \<lambda>p. local_op (http_stat p),
     fs_create = \<lambda>p. local_op (http_create p), fs_write = http_write H,
     fs_mkdir = \<lambda>p m. local_op (http_mkdir p m), fs_read_dir = \<lambda>p. local_op (http_read_dir p),
     fs_remove = \<lambda>p. local_op (http_remove p), fs_remove_all = \<lambda>p. local_op (http_remove_all p),
     fs_rename = \<lambda>p q. local_op (http_rename p q), fs_chmod = \<lambda>p m. local_op (http_chmod p m),
     fs_truncate = \<lambda>p n. local_op (http_truncate p n), fs_touch = \<lambda>p. local_op (http_touch p),
     fs_readlink = default_readlink, fs_symlink = default_symlink, fs_get_xattr = default_get_xattr,
     fs_set_xattr = default_set_xattr, fs_remove_xattr = default_remove_xattr, fs_list_xattr = default_list_xattr\<rparr>"

text \<open>Removing a tree keeps its root: the entry of the path itself survives.\<close>

lemma http_remove_all_keeps:
  assumes "pm_get (ht_files fs) p = Some e"
  shows "fst (http_remove_all p now fs) = Ok () \<and> pm_get (ht_files (snd (http_remove_all p now fs))) p = Some e"
proof -
  let ?P = "\<lambda>q. \<not> path_starts_with q p \<or> path_eq q p"
  have "pm_get (hm_retain ?P (ht_files fs)) p = (if ?P p then pm_get (ht_files fs) p else None)"
    by (rule path_map.hm_get_retain) (simp add: path_eq_def path_starts_with_def)
  with assms show ?thesis by (simp add: http_remove_all_def hm_contains_def)
qed

subsection \<open>What is stored is read back\<close>

lemma hex_digit_plain: "d < 16 \<Longrightarrow> hex_digit d \<noteq> slash" "d < 16 \<Longrightarrow> hex_digit d \<noteq> CHR ''.''"
  by (auto simp: hex_digit_def less_Suc_eq numeral_eq_Suc)

lemma cache_key_valid: "valid_name (url_to_cache_key H url)"
proof -
  have "c \<noteq> slash \<and> c \<noteq> CHR ''.''" if "c \<in> set (hex16 w)" for c w
    using that hex_digit_plain [of "nat (uint w div 16 ^ i mod 16)" for i] by (auto simp: hex16_def nat_less_iff)
  moreover have "length (hex16 w) = 16" for w by (simp add: hex16_def)
  ultimately show ?thesis unfolding valid_name_def url_to_cache_key_def
    by (metis list.set_intros(1) list.size(3) zero_neq_numeral)
qed

lemma http_paths:
  assumes "valid_name k" "valid_name n"
  shows "push (cache_base k) n = render True [''cache'', k, n]" "response_path k n = render True [''responses'', k, n]"
    "cache_base k @ ''/'' @ n = render True [''cache'', k, n]" "''/responses/'' @ k = render True [''responses'', k]"
    "cache_base k = render True [''cache'', k]"
proof -
  have v: "valid_names [''cache'', k]" "valid_names [n]" using assms by (simp_all add: valid_name_def)
  show base: "cache_base k = render True [''cache'', k]" by (simp add: cache_base_def render_def)
  have "render False [n] = n" by (simp add: render_def)
  with push_render [OF v(1), of n True] assms(2) show "push (cache_base k) n = render True [''cache'', k, n]"
    by (simp add: base)
qed (simp_all add: response_path_def cache_base_def render_def)

lemma http_file_plain [simp]: "\<not> is_directory (he_metadata (http_file now p d n))" "he_data (http_file now p d n) = d"
  by (simp_all add: http_file_def)

lemma read_put:
  "read_bytes_sync (http_put p e fs) q =
     (if path_eq p q then (if is_directory (he_metadata e) then Err (IsDirectory q) else Ok (he_data e)) else read_bytes_sync fs q)"
  by (simp add: read_bytes_sync_def http_get_entry_def http_put_def path_map.hm_get_insert ok_or_def)

lemma read_text: "read_bytes_sync fs p = Ok d \<Longrightarrow> utf8_error 0 d = None \<Longrightarrow> read_to_string_sync fs p = Ok d"
  by (simp add: read_to_string_sync_def)

text \<open>What is relied on of \<open>serde_json\<close>: a map of strings is printed as a text that is read back as the same map.\<close>

definition headers_law :: "'w http_params \<Rightarrow> bool" where
  "headers_law H \<longleftrightarrow>
     (\<forall>hs. \<exists>j hs'. hx_to_json H hs = Inr j \<and> utf8_error 0 j = None \<and> hx_of_json H j = Inr hs' \<and> hm_get (=) hs' = hm_get (=) hs)"

definition cache_holds :: "string \<Rightarrow> nat \<Rightarrow> string \<Rightarrow> bytes \<Rightarrow> nat \<Rightarrow> HttpFS \<Rightarrow> bool" where
  "cache_holds key st j b expiry fs \<longleftrightarrow>
     read_bytes_sync fs (push (cache_base key) ''status'') = Ok (dec st) \<and>
     read_bytes_sync fs (push (cache_base key) ''headers.json'') = Ok j \<and>
     read_bytes_sync fs (push (cache_base key) ''body'') = Ok b \<and>
     read_bytes_sync fs (push (cache_base key) ''expiry'') = Ok (dec expiry)"

definition response_holds :: "string \<Rightarrow> nat \<Rightarrow> string \<Rightarrow> bytes \<Rightarrow> HttpFS \<Rightarrow> bool" where
  "response_holds rid st j b fs \<longleftrightarrow>
     read_bytes_sync fs (response_path rid ''status'') = Ok (dec st) \<and>
     read_bytes_sync fs (response_path rid ''headers.json'') = Ok j \<and>
     read_bytes_sync fs (response_path rid ''body'') = Ok b"

lemma names_valid [simp]:
  "valid_name ''status''" "valid_name ''headers.json''" "valid_name ''body''" "valid_name ''expiry''" "valid_name ''etag''"
  "valid_name ''cache''" "valid_name ''responses''"
  by (simp_all add: valid_name_def)

lemma names_differ [simp]:
  "path_eq (push (cache_base k) n) (push (cache_base k) m) \<longleftrightarrow> n = m"
  "path_eq (response_path k n) (response_path k m) \<longleftrightarrow> n = m"
  if "valid_name k" "valid_name n" "valid_name m"
  using that by (simp_all add: http_paths(1,2) component_path_eq_render)

lemma put_files:
  assumes k: "valid_name k"
  shows "cache_holds k st j b x (http_put (push (cache_base k) ''expiry'') (http_file t1 q1 (dec x) n1)
      (http_put (push (cache_base k) ''body'') (http_file t2 q2 b n2)
      (http_put (push (cache_base k) ''headers.json'') (http_file t3 q3 j n3)
      (http_put (push (cache_base k) ''status'') (http_file t4 q4 (dec st) n4) fs))))"
    and "response_holds k st j b (http_put (response_path k ''body'') (http_file t2 q2 b n2)
      (http_put (response_path k ''headers.json'') (http_file t3 q3 j n3)
      (http_put (response_path k ''status'') (http_file t4 q4 (dec st) n4) fs)))"
  using k by (simp_all add: cache_holds_def response_holds_def read_put)

lemma put_etag: "valid_name k \<Longrightarrow> cache_holds k st j b x fs \<Longrightarrow> cache_holds k st j b x (http_put (push (cache_base k) ''etag'') e fs)"
  by (simp add: cache_holds_def read_put)

lemma set_cached_holds:
  assumes k: "valid_name key" and j: "hx_to_json H hs = Inr j"
  shows "fst (set_cached_response H key st hs b age now fs) = Ok ()"
    and "cache_holds key st j b (u64_add (now div 10 ^ 9) age) (snd (set_cached_response H key st hs b age now fs))"
  unfolding set_cached_response_def Let_def j
  by (auto intro!: put_etag [OF k] put_files [OF k] split: option.split)

lemma store_response_holds:
  assumes k: "valid_name rid" and j: "hx_to_json H hs = Inr j"
  shows "fst (store_response_direct H rid st hs b now fs) = Ok ()"
    and "response_holds rid st j b (snd (store_response_direct H rid st hs b now fs))"
  unfolding store_response_direct_def Let_def j by (auto intro!: put_files [OF k])

lemma cached_lookup:
  assumes c: "cache_holds key st j b expiry fs" and j: "utf8_error 0 j = None" "hx_of_json H j = Inr hs"
    and st: "st \<le> 65535" and e: "expiry \<le> u64_max"
  shows "get_cached_response H key now fs = (if int (now div 10 ^ 9) > i64_wrap (int expiry) then None else Some (st, hs, b))"
proof -
  have "read_to_string_sync fs (push (cache_base key) ''expiry'') = Ok (dec expiry)"
    "read_to_string_sync fs (push (cache_base key) ''status'') = Ok (dec st)"
    "read_to_string_sync fs (push (cache_base key) ''headers.json'') = Ok j"
    using c j(1) by (auto simp: cache_holds_def utf8_dec intro!: read_text)
  then show ?thesis
    using c j(2) st e by (simp add: get_cached_response_def Let_def trim_dec parse_u64_dec parse_uint_dec cache_holds_def)
qed

subsection \<open>Requests\<close>

text \<open>A GET request with this URL file, up to the spelling of the method and white space around it.\<close>

definition get_request :: "HttpFS \<Rightarrow> string \<Rightarrow> string \<Rightarrow> bool" where
  "get_request fs rid url \<longleftrightarrow>
     (\<exists>m. read_to_string_sync fs (request_path rid ''url'') = Ok url \<and>
        read_to_string_sync fs (request_path rid ''method'') = Ok m \<and> to_uppercase (trim m) = ''GET'')"

definition get_call :: "'w http_params \<Rightarrow> string \<Rightarrow> headers \<Rightarrow> HttpFS \<Rightarrow> http_call" where
  "get_call H url hs fs = request_call ''GET'' url hs [] (url_to_cache_key H (trim url)) fs"

lemma execute_get:
  fixes H :: "'w http_params"
  assumes "get_request fs rid url"
  shows "execute_request_sync H rid now (fs, w) =
    (case get_cached_response H (url_to_cache_key H (trim url)) now fs of
       Some (st, hs, b) \<Rightarrow> (let (r, fs') = store_response_direct H rid st hs b now fs in (r, (fs', w)))
     | None \<Rightarrow>
         try_then (request_headers H (or_default (read_to_string_sync fs (request_path rid ''headers.json'')))) (\<lambda>hs.
         try_then (build_client H) (\<lambda>_ (fs, w).
           let (r, w') = send_call H (get_call H url hs fs) w
           in try_then r (\<lambda>a (fs, w). let (r, fs') = take_answer H rid True (url_to_cache_key H (trim url)) a now fs in (r, (fs', w))) (fs, w'))) (fs, w))"
proof -
  obtain m where u: "read_to_string_sync fs (request_path rid ''url'') = Ok url"
    "read_to_string_sync fs (request_path rid ''method'') = Ok m" "to_uppercase (trim m) = ''GET''"
    using assms by (auto simp: get_request_def)
  have "request_call ''GET'' url hs b (url_to_cache_key H (trim url)) fs = get_call H url hs fs" for hs b fs
    by (simp add: get_call_def request_call_def)
  moreover have "try_then (Ok a) f = f a" for a :: unit and f :: "unit \<Rightarrow> 'w http_state \<Rightarrow> unit fs_result \<times> 'w http_state"
    by (rule ext) simp
  ultimately show ?thesis
    using u by (cases "get_cached_response H (url_to_cache_key H (trim url)) now fs")
      (simp_all add: execute_request_sync_def perform_request_def supported_methods_def Let_def split: prod.split)
qed

text \<open>A request that fails leaves the files alone.\<close>

lemma stored_ok:
  assumes "headers_law H"
  shows "fst (store_response_direct H rid st hs b now fs) = Ok ()"
proof -
  obtain j where "hx_to_json H hs = Inr j" using assms unfolding headers_law_def by blast
  then show ?thesis by (simp add: store_response_direct_def Let_def)
qed

lemma take_answer_fails:
  assumes "headers_law H" "take_answer H rid g key a now fs = (r, fs')" "r \<noteq> Ok ()"
  shows "fs' = fs"
proof (cases "answer_body a g key fs")
  case (Ok b)
  obtain fs1 where "store_response_direct H rid (ha_status a) (answer_headers a) b now fs = (Ok (), fs1)"
    using stored_ok [OF assms(1)] by (metis prod.collapse)
  with Ok assms(2,3) show ?thesis by (auto simp: take_answer_def)
qed (use assms in \<open>auto simp: take_answer_def\<close>)

lemma perform_fails:
  assumes "headers_law H" "perform_request H rid url m json body key now s = (r, s')" "r \<noteq> Ok ()"
  shows "fst s' = fst s"
  using assms(2,3) take_answer_fails [OF assms(1)] unfolding perform_request_def Let_def
  by (elim try_then_fails) (auto split: prod.splits elim!: try_then_fails)

lemma execute_fails:
  assumes "headers_law H" "execute_request_sync H rid now s = (r, s')" "r \<noteq> Ok ()"
  shows "fst s' = fst s"
  using assms(2,3) perform_fails [OF assms(1)] stored_ok [OF assms(1)] unfolding execute_request_sync_def Let_def
  by (elim try_then_fails) (auto split: if_splits prod.splits option.splits; metis fst_conv)+

text \<open>Writing \<open>send\<close> to the trigger of a request sends it.\<close>

definition has_trigger :: "HttpFS \<Rightarrow> string \<Rightarrow> bool" where
  "has_trigger fs rid \<longleftrightarrow> valid_name rid \<and> utf8_valid rid \<and> is_ok (read_bytes_sync fs (request_path rid ''trigger''))"

lemma trigger_sends:
  assumes "has_trigger (fst s) rid" "trim (from_utf8_lossy d) = ''send''"
  shows "http_write H (request_path rid ''trigger'') d off fl now s =
    (let (r, s') = execute_request_sync H rid now s in try_then r (\<lambda>_ s. (Ok (length d), s)) s')"
proof -
  have v: "valid_names [''requests'', rid, ''trigger'']" using assms by (simp add: has_trigger_def valid_name_def)
  have "request_path rid ''trigger'' = render True [''requests'', rid, ''trigger'']" by (simp add: request_path_def render_def)
  then have c: "components (request_path rid ''trigger'') = [RootDir, Normal ''requests'', Normal rid, Normal ''trigger'']"
    using components_render [OF v] by (simp add: lead_def)
  have t: "components ''trigger'' = [Normal ''trigger'']" by code_simp
  obtain e where "pm_get (ht_files (fst s)) (request_path rid ''trigger'') = Some e" "\<not> is_directory (he_metadata e)"
    using assms by (cases "pm_get (ht_files (fst s)) (request_path rid ''trigger'')")
      (auto simp: has_trigger_def read_bytes_sync_def http_get_entry_def ok_or_def split: if_splits)
  then show ?thesis
    using assms by (simp add: http_write_def path_ends_with_def c t parse_request_id_def has_trigger_def)
qed

lemma cache_keeps_response:
  assumes "valid_name key" "valid_name rid" "valid_name n"
  shows "read_bytes_sync (snd (set_cached_response H key st hs b age now fs)) (response_path rid n) = read_bytes_sync fs (response_path rid n)"
proof -
  have d: "\<not> path_eq (push (cache_base key) m) (response_path rid n)" if "valid_name m" for m
    using assms that by (simp add: http_paths(1,2) component_path_eq_render)
  have "\<not> path_eq (cache_base key) (response_path rid n)"
    using assms http_paths(5) [OF assms(1,3)] http_paths(2) [OF assms(2,3)] by (simp add: component_path_eq_render)
  with d show ?thesis by (simp add: set_cached_response_def Let_def read_put split: sum.split option.split)
qed

definition headers_text :: "'w http_params \<Rightarrow> headers \<Rightarrow> string \<Rightarrow> bool" where
  "headers_text H hs j \<longleftrightarrow> utf8_error 0 j = None \<and> (\<exists>hs'. hx_of_json H j = Inr hs' \<and> hm_get (=) hs' = hm_get (=) hs)"

definition cache_ttl :: "http_answer \<Rightarrow> nat" where
  "cache_ttl a = (case cd_max_age_secs (parse_cache_control (answer_headers a)) of Some n \<Rightarrow> n | None \<Rightarrow> DEFAULT_CACHE_TTL_SECS)"

text \<open>The answer of the network to a GET is stored and cached.\<close>

lemma take_answer_cached:
  assumes law: "headers_law H" and v: "valid_name rid" "valid_name key"
    and a: "ha_status a = 200" "ha_body a = Inr b" "\<not> cd_no_store (parse_cache_control (answer_headers a))"
  shows "\<exists>fs1 j. take_answer H rid True key a now fs = (Ok (), fs1) \<and> headers_text H (answer_headers a) j \<and>
    response_holds rid 200 j b fs1 \<and> cache_holds key 200 j b (u64_add (now div 10 ^ 9) (cache_ttl a)) fs1"
proof -
  obtain j hs' where j: "hx_to_json H (answer_headers a) = Inr j" "utf8_error 0 j = None" "hx_of_json H j = Inr hs'"
    "hm_get (=) hs' = hm_get (=) (answer_headers a)"
    using law unfolding headers_law_def by blast
  let ?st = "store_response_direct H rid 200 (answer_headers a) b now fs"
  let ?c = "set_cached_response H key 200 (answer_headers a) b (cache_ttl a) now (snd ?st)"
  have "take_answer H rid True key a now fs = (Ok (), snd ?c)"
    using a store_response_holds(1) [OF v(1) j(1), of 200 b now fs]
    by (cases ?st) (simp add: take_answer_def answer_body_def cache_answer_def Let_def cache_ttl_def)
  moreover have "response_holds rid 200 j b (snd ?c)"
    using store_response_holds(2) [OF v(1) j(1), of 200 b now fs]
    by (simp add: response_holds_def cache_keeps_response [OF v(2,1)])
  moreover note set_cached_holds(2) [OF v(2) j(1)]
  ultimately show ?thesis using j(2-4) unfolding headers_text_def by blast
qed

text \<open>A request for which the cache holds an answer that has not expired is answered from it.\<close>

lemma cached_answer:
  assumes law: "headers_law H" and get: "get_request fs rid url" and v: "valid_name rid"
    and c: "cache_holds (url_to_cache_key H (trim url)) 200 j b x fs" and j: "headers_text H hs j"
    and x: "int x \<le> i64_max" "now div 10 ^ 9 \<le> x"
  shows "\<exists>fs3 j'. execute_request_sync H rid now (fs, w) = (Ok (), (fs3, w)) \<and> response_holds rid 200 j' b fs3 \<and> headers_text H hs j'"
proof -
  obtain hs' where hs': "utf8_error 0 j = None" "hx_of_json H j = Inr hs'" "hm_get (=) hs' = hm_get (=) hs"
    using j by (auto simp: headers_text_def)
  obtain j' hs2 where j': "hx_to_json H hs' = Inr j'" "utf8_error 0 j' = None" "hx_of_json H j' = Inr hs2" "hm_get (=) hs2 = hm_get (=) hs'"
    using law unfolding headers_law_def by blast
  have "get_cached_response H (url_to_cache_key H (trim url)) now fs = Some (200, hs', b)"
    using cached_lookup [OF c hs'(1,2), of now] x by (simp add: i64_wrap_id is_i64_def)
  moreover note store_response_holds [OF v j'(1), of 200 b now fs]
  ultimately show ?thesis
    using j'(2-4) hs'(3) by (cases "store_response_direct H rid 200 hs' b now fs") (auto simp: execute_get [OF get] headers_text_def)
qed

text \<open>
  Every later GET request for this URL in a state with the cache entry of \<open>fs1\<close>: sending it by its trigger leaves the network alone and stores the cached answer up to
  the second \<open>x\<close>, and the entry is not used after it.
\<close>

definition serves_cached :: "'w http_params \<Rightarrow> string \<Rightarrow> headers \<Rightarrow> bytes \<Rightarrow> nat \<Rightarrow> HttpFS \<Rightarrow> bool" where
  "serves_cached H url hs b x fs1 \<longleftrightarrow>
     (\<forall>fs2 rid url2 d off fl now w.
        has_trigger fs2 rid \<and> trim (from_utf8_lossy d) = ''send'' \<and> get_request fs2 rid url2 \<and> trim url2 = trim url \<and>
        (\<forall>n \<in> {''status'', ''headers.json'', ''body'', ''expiry''}. let f = push (cache_base (url_to_cache_key H (trim url))) n in
           read_bytes_sync fs2 f = read_bytes_sync fs1 f) \<longrightarrow>
        (if now div 10 ^ 9 \<le> x
         then \<exists>fs3 j. http_write H (request_path rid ''trigger'') d off fl now (fs2, w) = (Ok (length d), (fs3, w)) \<and>
           response_holds rid 200 j b fs3 \<and> headers_text H hs j
         else get_cached_response H (url_to_cache_key H (trim url)) now fs2 = None))"

lemma cached_serves:
  assumes law: "headers_law H" and c1: "cache_holds (url_to_cache_key H (trim url)) 200 j b x fs1" and j: "headers_text H hs j"
    and x: "int x \<le> i64_max"
  shows "serves_cached H url hs b x fs1"
  unfolding serves_cached_def
proof (intro allI impI, elim conjE)
  fix fs2 rid url2 d off fl now w
  let ?key = "url_to_cache_key H (trim url)"
  assume trig: "has_trigger fs2 rid" "trim (from_utf8_lossy d) = ''send''" and r2: "get_request fs2 rid url2" "trim url2 = trim url"
    and same: "\<forall>n \<in> {''status'', ''headers.json'', ''body'', ''expiry''}. let f = push (cache_base ?key) n in
        read_bytes_sync fs2 f = read_bytes_sync fs1 f"
  have c: "cache_holds ?key 200 j b x fs2" using c1 same by (simp add: cache_holds_def)
  obtain hs' where j': "utf8_error 0 j = None" "hx_of_json H j = Inr hs'" using j by (auto simp: headers_text_def)
  have "get_cached_response H ?key now fs2 = None" if "\<not> now div 10 ^ 9 \<le> x"
    using cached_lookup [OF c j'] x that by (simp add: is_i64_def)
  moreover have "valid_name rid" using trig(1) by (simp add: has_trigger_def)
  from cached_answer [OF law r2(1) this _ j x, unfolded r2(2), OF c]
  have "\<exists>fs3 j'. execute_request_sync H rid now (fs2, w) = (Ok (), (fs3, w)) \<and> response_holds rid 200 j' b fs3 \<and> headers_text H hs j'"
    if "now div 10 ^ 9 \<le> x" using that by blast
  ultimately show "if now div 10 ^ 9 \<le> x
      then \<exists>fs3 j. http_write H (request_path rid ''trigger'') d off fl now (fs2, w) = (Ok (length d), (fs3, w)) \<and>
        response_holds rid 200 j b fs3 \<and> headers_text H hs j
      else get_cached_response H ?key now fs2 = None"
    using trigger_sends [of "(fs2, w)", OF _ trig(2), of rid H off fl now] trig(1) by (cases "now div 10 ^ 9 \<le> x") fastforce+
qed

text \<open>
  \<^bold>\<open>C16\<close>. The cache of HttpFS: a GET request that is answered by the network with status 200, and not marked \<open>no-store\<close>, stores status, headers and body as
  the response of the request and in the cache. As long as nobody changes the cache entry, writing \<open>send\<close> to the trigger of any
  GET request for the same URL (up to surrounding white space) is then answered without the network, with the same status, headers
  and body, up to and including the second in which the maximal age given by \<open>Cache-Control\<close> (60 seconds without one)
  has passed, and the entry is not used after it. A request that fails, for whatever reason, changes no file.
\<close>

theorem http_cache:
  assumes law: "headers_law H" and get: "get_request fs rid url" "valid_name rid"
    and miss: "get_cached_response H (url_to_cache_key H (trim url)) now fs = None"
    and built: "request_headers H (or_default (read_to_string_sync fs (request_path rid ''headers.json''))) = Ok hs" "build_client H = Ok ()"
    and sent: "hx_send H (get_call H url hs fs) w = (Ok a, w1)"
    and a: "ha_status a = 200" "ha_body a = Inr b" "\<not> cd_no_store (parse_cache_control (answer_headers a))"
    and room: "int (now div 10 ^ 9) + int (cache_ttl a) \<le> i64_max"
  shows "(\<exists>fs1 j. execute_request_sync H rid now (fs, w) = (Ok (), (fs1, w1)) \<and>
      response_holds rid 200 j b fs1 \<and> headers_text H (answer_headers a) j \<and>
      serves_cached H url (answer_headers a) b (now div 10 ^ 9 + cache_ttl a) fs1) \<and>
    (\<forall>rid now s. fst (execute_request_sync H rid now s) \<noteq> Ok () \<longrightarrow> fst (snd (execute_request_sync H rid now s)) = fst s)"
proof (intro conjI allI impI)
  let ?key = "url_to_cache_key H (trim url)" and ?x = "now div 10 ^ 9 + cache_ttl a"
  show "fst (snd (execute_request_sync H rid now s)) = fst s" if "fst (execute_request_sync H rid now s) \<noteq> Ok ()" for rid now s
    using execute_fails [OF law _ that] by (metis prod.collapse)
  obtain fs1 j where taken: "take_answer H rid True ?key a now fs = (Ok (), fs1)" "headers_text H (answer_headers a) j"
    "response_holds rid 200 j b fs1" "cache_holds ?key 200 j b (u64_add (now div 10 ^ 9) (cache_ttl a)) fs1"
    using take_answer_cached [OF law get(2) cache_key_valid a] by blast
  have x: "u64_add (now div 10 ^ 9) (cache_ttl a) = ?x" "int ?x \<le> i64_max" using room by (simp_all add: u64_add_def)
  have "execute_request_sync H rid now (fs, w) = (Ok (), (fs1, w1))"
    using miss built sent taken(1) by (simp add: execute_get [OF get(1)] send_call_def)
  with taken(2,3) cached_serves [OF law taken(4) [unfolded x(1)] taken(2) x(2)]
  show "\<exists>fs1 j. execute_request_sync H rid now (fs, w) = (Ok (), (fs1, w1)) \<and> response_holds rid 200 j b fs1 \<and>
      headers_text H (answer_headers a) j \<and> serves_cached H url (answer_headers a) b ?x fs1" by blast
qed

text \<open>A network that answers every request, and a printer and reader of headers for it.\<close>

fun enc_str :: "string \<Rightarrow> string" where
  "enc_str [] = ''.''"
| "enc_str (c # s) = [CHR '':'', char_of (byte_val c div 16 + 65), char_of (byte_val c mod 16 + 65)] @ enc_str s"

fun dec_str :: "string \<Rightarrow> string \<times> string" where
  "dec_str (x # h # l # t) =
     (if x = CHR '':'' then (let (s, u) = dec_str t in (char_of (16 * (byte_val h - 65) + (byte_val l - 65)) # s, u)) else ([], h # l # t))"
| "dec_str (x # t) = ([], t)"
| "dec_str [] = ([], [])"

fun enc_headers :: "headers \<Rightarrow> string" where
  "enc_headers [] = []"
| "enc_headers ((k, v) # hs) = enc_str k @ enc_str v @ enc_headers hs"

fun dec_headers :: "nat \<Rightarrow> string \<Rightarrow> headers" where
  "dec_headers 0 t = []"
| "dec_headers (Suc n) t = (if t = [] then [] else let (k, u) = dec_str t; (v, r) = dec_str u in (k, v) # dec_headers n r)"

lemma byte_val_small: "n < 128 \<Longrightarrow> byte_val (char_of n) = n"
  by (simp add: of_char_of)

lemma nibbles: "byte_val c div 16 < 16" "byte_val c mod 16 < 16"
proof -
  have "byte_val c \<in> range (of_char :: char \<Rightarrow> nat)" by simp
  then have "byte_val c < 256" unfolding range_nat_of_char by simp
  then show "byte_val c div 16 < 16" "byte_val c mod 16 < 16" by linarith+
qed

lemma dec_enc_str: "dec_str (enc_str s @ t) = (s, t)"
proof (induction s)
  case Nil
  show ?case by (cases t rule: dec_str.cases) auto
next
  case (Cons c s)
  have "byte_val (char_of (byte_val c div 16 + 65)) = byte_val c div 16 + 65"
    "byte_val (char_of (byte_val c mod 16 + 65)) = byte_val c mod 16 + 65"
    using nibbles [of c] by (simp_all add: byte_val_small)
  with Cons show ?case by simp
qed

lemma enc_str_ascii: "c \<in> set (enc_str s) \<Longrightarrow> byte_val c < 128"
proof (induction s)
  case (Cons d s)
  with nibbles [of d] show ?case by (auto simp: byte_val_small)
qed auto

lemma enc_headers_ascii: "c \<in> set (enc_headers hs) \<Longrightarrow> byte_val c < 128"
  by (induction hs rule: enc_headers.induct) (auto dest: enc_str_ascii)

lemma dec_enc_headers: "length hs \<le> n \<Longrightarrow> dec_headers n (enc_headers hs) = hs"
proof (induction hs arbitrary: n rule: enc_headers.induct)
  case 1
  show ?case by (cases n) auto
next
  case (2 k v hs)
  then obtain m where "n = Suc m" "length hs \<le> m" by (cases n) auto
  moreover have "enc_str k \<noteq> []" by (cases k) auto
  ultimately show ?case using 2 by (simp add: dec_enc_str)
qed

lemma length_enc_headers: "length hs \<le> length (enc_headers hs)"
proof (induction hs rule: enc_headers.induct)
  case (2 k v hs)
  moreover have "0 < length (enc_str k)" by (cases k) auto
  ultimately show ?case by (simp del: length_greater_0_conv)
qed simp

definition demo_answer :: http_answer where
  "demo_answer = \<lparr>ha_status = 200, ha_headers = [(''cache-control'', Some ''public''), (''etag'', Some ''x'')], ha_body = Inr ''hi''\<rparr>"

definition demo_http :: "nat http_params" where
  "demo_http = \<lparr>hx_hash = \<lambda>_. 7, hx_of_json = \<lambda>j. Inr (dec_headers (length j) j), hx_to_json = \<lambda>hs. Inr (enc_headers hs),
     hx_build = Ok (), hx_send = \<lambda>_ n. (Ok demo_answer, Suc n)\<rparr>"

lemma demo_law: "headers_law demo_http"
  by (simp add: headers_law_def demo_http_def utf8_error_ascii enc_headers_ascii dec_enc_headers length_enc_headers)

definition demo_request :: "HttpFS \<Rightarrow> HttpFS" where
  "demo_request = http_put ''/requests/r/url'' (http_file 0 [] ''http://h/x'' 0) \<circ>
     http_put ''/requests/r/method'' (http_file 0 [] ''get'' 0) \<circ> http_put ''/requests/r/trigger'' (http_file 0 [] [] 0)"

lemma demo_reads:
  "read_bytes_sync (demo_request fs) (request_path ''r'' ''url'') = Ok ''http://h/x''"
  "read_bytes_sync (demo_request fs) (request_path ''r'' ''method'') = Ok ''get''"
  "read_bytes_sync (demo_request fs) (request_path ''r'' ''trigger'') = Ok []"
  "n \<in> {''status'', ''headers.json'', ''body'', ''expiry''} \<Longrightarrow>
     read_bytes_sync (demo_request fs) (push (cache_base (url_to_cache_key demo_http (trim ''http://h/x''))) n) =
     read_bytes_sync fs (push (cache_base (url_to_cache_key demo_http (trim ''http://h/x''))) n)"
proof -
  have p: "request_path ''r'' ''url'' = ''/requests/r/url''" "request_path ''r'' ''method'' = ''/requests/r/method''"
    "request_path ''r'' ''trigger'' = ''/requests/r/trigger''"
    by (simp_all add: request_path_def)
  have d: "\<not> path_eq ''/requests/r/url'' ''/requests/r/method''" "\<not> path_eq ''/requests/r/url'' ''/requests/r/trigger''"
    "\<not> path_eq ''/requests/r/method'' ''/requests/r/trigger''" by code_simp+
  show "read_bytes_sync (demo_request fs) (request_path ''r'' ''url'') = Ok ''http://h/x''"
    "read_bytes_sync (demo_request fs) (request_path ''r'' ''method'') = Ok ''get''"
    "read_bytes_sync (demo_request fs) (request_path ''r'' ''trigger'') = Ok []"
    by (simp_all add: p d demo_request_def read_put)
  have "\<forall>n \<in> set [''status'', ''headers.json'', ''body'', ''expiry'']. \<forall>f \<in> set [''/requests/r/url'', ''/requests/r/method'', ''/requests/r/trigger''].
      \<not> path_eq f (push (cache_base (url_to_cache_key demo_http (trim ''http://h/x''))) n)" by code_simp
  then show "read_bytes_sync (demo_request fs) (push (cache_base (url_to_cache_key demo_http (trim ''http://h/x''))) n) =
      read_bytes_sync fs (push (cache_base (url_to_cache_key demo_http (trim ''http://h/x''))) n)"
    if "n \<in> {''status'', ''headers.json'', ''body'', ''expiry''}"
    using that by (auto simp: demo_request_def read_put)
qed

lemma demo_get: "get_request (demo_request fs) ''r'' ''http://h/x''"
proof -
  have "to_uppercase (trim ''get'') = ''GET''" "utf8_error 0 ''get'' = None" "utf8_error 0 ''http://h/x'' = None" by code_simp+
  then show ?thesis using demo_reads(1,2) [THEN read_text] by (simp add: get_request_def)
qed

lemma demo_absent:
  assumes "p \<in> {request_path ''r'' ''headers.json'', push (cache_base (url_to_cache_key demo_http (trim ''http://h/x''))) ''expiry''}"
  shows "read_to_string_sync (demo_request (http_new 0)) p = Err (NotFound p)"
proof -
  have "\<forall>p \<in> set [request_path ''r'' ''headers.json'', push (cache_base (url_to_cache_key demo_http (trim ''http://h/x''))) ''expiry''].
      \<forall>f \<in> set [''/'', ''/requests'', ''/responses'', ''/cache'', ''/requests/r/url'', ''/requests/r/method'', ''/requests/r/trigger''].
      \<not> path_eq f p" by code_simp
  then have "\<not> path_eq f p" if "f \<in> {''/'', ''/requests'', ''/responses'', ''/cache'', ''/requests/r/url'', ''/requests/r/method'', ''/requests/r/trigger''}" for f
    using assms that by auto
  moreover have "read_bytes_sync \<lparr>ht_files = []\<rparr> p = Err (NotFound p)" by (simp add: read_bytes_sync_def http_get_entry_def ok_or_def)
  ultimately show ?thesis
    by (simp add: read_to_string_sync_def demo_request_def http_new_def init_directories_def read_put)
qed

theorem http_cache_witness:
  "\<exists>fs1 fs3. execute_request_sync demo_http ''r'' 0 (demo_request (http_new 0), 0) = (Ok (), (fs1, Suc 0)) \<and>
     http_write demo_http (request_path ''r'' ''trigger'') ''send'' 0 0 60000000000 (demo_request fs1, 9) = (Ok (length ''send''), (fs3, 9))"
proof -
  let ?fs = "demo_request (http_new 0)"
  have reads: "or_default (read_to_string_sync ?fs (request_path ''r'' ''headers.json'')) = []"
    "to_option (read_to_string_sync ?fs (push (cache_base (url_to_cache_key demo_http (trim ''http://h/x''))) ''expiry'')) = None"
    by (simp_all add: demo_absent)
  have ans: "cache_ttl demo_answer = 60" "\<not> cd_no_store (parse_cache_control (answer_headers demo_answer))" by code_simp+
  have v: "valid_name ''r''" "utf8_valid ''r''" "trim (from_utf8_lossy ''send'') = ''send''" by code_simp+
  have "\<exists>fs1 j. execute_request_sync demo_http ''r'' 0 (?fs, 0) = (Ok (), (fs1, Suc 0)) \<and> response_holds ''r'' 200 j ''hi'' fs1 \<and>
      headers_text demo_http (answer_headers demo_answer) j \<and>
      serves_cached demo_http ''http://h/x'' (answer_headers demo_answer) ''hi'' (0 div 10 ^ 9 + cache_ttl demo_answer) fs1"
    by (rule http_cache [OF demo_law demo_get v(1), where hs = "[]", THEN conjunct1])
      (use reads ans in \<open>simp_all add: get_cached_response_def request_headers_def build_client_def demo_http_def demo_answer_def\<close>)
  then obtain fs1 where fs1: "execute_request_sync demo_http ''r'' 0 (?fs, 0) = (Ok (), (fs1, Suc 0))"
    "serves_cached demo_http ''http://h/x'' (answer_headers demo_answer) ''hi'' 60 fs1" by (auto simp: ans(1))
  have "has_trigger (demo_request fs1) ''r''" using v by (simp add: has_trigger_def demo_reads(3))
  with fs1(2) [unfolded serves_cached_def, rule_format,
      where ?fs2.0 = "demo_request fs1" and rid = "''r''" and d = "''send''" and ?url2.0 = "''http://h/x''" and now = 60000000000
        and off = 0 and fl = 0 and w = 9]
  have "\<exists>fs3. http_write demo_http (request_path ''r'' ''trigger'') ''send'' 0 0 60000000000 (demo_request fs1, 9) = (Ok (length ''send''), (fs3, 9))"
    using v(3) demo_get demo_reads(4) by auto
  with fs1(1) show ?thesis by blast
qed

end
