(* ===== verification/Sql_Table.thy ===== *)
theory Sql_Table
  imports Fs_Contract
begin

text \<open>
  What the crates \<open>racfs-plugin-sqlfs\<close> and \<open>racfs-plugin-pgsfs\<close> share: a table of files with the path as its primary key, the SQL statements the two crates
  send, and the database (\<open>rusqlite\<close>, \<open>sqlx\<close>) as a parameter with a state of its own. What SQL says of the statements is a predicate on the
  database, \<open>sql_laws\<close>; any statement may fail.
\<close>

subsection \<open>Statements\<close>

record sql_row =
  sr_data :: "bytes option"
  sr_is_dir :: bool
  sr_mode :: mode
  sr_created :: "int option"
  sr_modified :: "int option"
  sr_accessed :: "int option"

type_synonym sql_table = "string \<rightharpoonup> sql_row"

text \<open>
  The statements with the values bound to their parameters. The last argument of \<open>Set_Path\<close> and of the other updates is the path in the
  condition; \<open>Move_Like\<close> is \<open>UPDATE files SET path = ?1 || SUBSTR(path, ?2 + 1) WHERE path LIKE ?3\<close>.
\<close>

datatype sql_stmt =
    Create_Table
  | Create_Index string
  | Insert string sql_row
  | Insert_Or_Ignore string sql_row
  | Select_Path string
  | Select_Like string
  | Delete_Path string
  | Delete_Tree string string
  | Set_Data bytes int string
  | Set_Data_Times bytes int int string
  | Set_Times int int string
  | Set_Mode mode int string
  | Set_Path string string
  | Move_Like string nat string

text \<open>
  The database: preparing a statement, running it (with the rows it returns), counting the rows whose path is like a pattern, and iterating over them, where each row may
  fail. The last three are the text of the error for a missing row, and \<open>chrono\<close>'s conversions between a time and milliseconds.
\<close>

record 'w sql_db =
  db_prepare :: "sql_stmt \<Rightarrow> 'w \<Rightarrow> (string + unit) \<times> 'w"
  db_run :: "sql_stmt \<Rightarrow> 'w \<Rightarrow> (string + (string \<times> sql_row) list) \<times> 'w"
  db_count :: "string \<Rightarrow> 'w \<Rightarrow> (string + int) \<times> 'w"
  db_iterate :: "string \<Rightarrow> 'w \<Rightarrow> (string + (string + string \<times> sql_row) list) \<times> 'w"
  db_no_rows :: string
  db_millis :: "time \<Rightarrow> int"
  db_from_millis :: "int \<Rightarrow> time option"

definition sql_io :: "string \<Rightarrow> string \<Rightarrow> FSError" where
  "sql_io what e = Io (what @ '': '' @ e)"

definition row_data :: "sql_row \<Rightarrow> bytes" where
  "row_data r = (case sr_data r of Some d \<Rightarrow> d | None \<Rightarrow> [])"

definition row_metadata :: "'w sql_db \<Rightarrow> string \<Rightarrow> sql_row \<Rightarrow> FileMetadata" where
  "row_metadata D q r = \<lparr>md_path = q, md_size = length (row_data r), md_mode = sr_mode r,
     md_created = Option.bind (sr_created r) (db_from_millis D), md_modified = Option.bind (sr_modified r) (db_from_millis D),
     md_accessed = Option.bind (sr_accessed r) (db_from_millis D), md_is_symlink = False, md_symlink_target = None\<rparr>"

definition new_row :: "'w sql_db \<Rightarrow> bool \<Rightarrow> mode \<Rightarrow> time \<Rightarrow> sql_row" where
  "new_row D dir m now = \<lparr>sr_data = Some [], sr_is_dir = dir, sr_mode = m, sr_created = Some (db_millis D now),
     sr_modified = Some (db_millis D now), sr_accessed = Some (db_millis D now)\<rparr>"

text \<open>\<open>WriteFlags::from_bits_truncate\<close> keeps the flags the type declares.\<close>

definition write_flags_truncate :: "flags \<Rightarrow> flags" where
  "write_flags_truncate bits = bits AND (WF_SYNC OR WF_APPEND)"

text \<open>The type has no flag \<open>0x0020\<close>, so the test for it always holds.\<close>

lemma truncate_always: "flags_contains flags (write_flags_truncate 0x0020)"
  by (simp add: flags_contains_def write_flags_truncate_def WF_SYNC_def WF_APPEND_def)

subsection \<open>Patterns\<close>

text \<open>
  \<open>LIKE\<close>: a percent sign stands for any characters, an underscore for one. SQLite ignores the case of ASCII letters and has no escape character by default;
  PostgreSQL compares exactly and a backslash takes the next character literally. Characters are those of UTF-8.
\<close>

definition next_char :: "string \<Rightarrow> string" where
  "next_char s = dropWhile is_cont (tl s)"

lemma next_char_shorter: "s \<noteq> [] \<Longrightarrow> length (next_char s) < length s"
  by (cases s) (simp_all add: next_char_def le_imp_less_Suc length_dropWhile_le)

function like :: "(char \<Rightarrow> char \<Rightarrow> bool) \<Rightarrow> char option \<Rightarrow> string \<Rightarrow> string \<Rightarrow> bool" where
  "like same escape [] s = (s = [])"
| "like same escape (c # p) s =
     (if escape = Some c then (case p of [] \<Rightarrow> False | d # p' \<Rightarrow> (case s of [] \<Rightarrow> False | x # s' \<Rightarrow> d = x \<and> like same escape p' s'))
      else if c = CHR ''%'' then like same escape p s \<or> (if s = [] then False else like same escape (c # p) (next_char s))
      else if c = CHR ''_'' then (if s = [] then False else like same escape p (next_char s))
      else (case s of [] \<Rightarrow> False | x # s' \<Rightarrow> same c x \<and> like same escape p s'))"
  by pat_completeness auto
termination
  by (relation "measure (\<lambda>(same, escape, p, s). length p + length s)") (auto dest: next_char_shorter intro: less_SucI)

declare like.simps(2) [simp del]

definition sqlite_like :: "string \<Rightarrow> string \<Rightarrow> bool" where
  "sqlite_like = like (\<lambda>a b. ascii_upper a = ascii_upper b) None"

definition postgres_like :: "string \<Rightarrow> string \<Rightarrow> bool" where
  "postgres_like = like (=) (Some (CHR 0x5C))"

text \<open>\<open>SUBSTR(s, n + 1)\<close> counts characters.\<close>

fun skip_chars :: "nat \<Rightarrow> string \<Rightarrow> string" where
  "skip_chars 0 s = s"
| "skip_chars (Suc n) s = skip_chars n (next_char s)"

definition below :: "string \<Rightarrow> string \<Rightarrow> bool" where
  "below k q \<longleftrightarrow> starts_with q (k @ ''/'')"

lemma below_iff: "below k q \<longleftrightarrow> (\<exists>t. q = k @ ''/'' @ t)"
  by (auto simp: below_def starts_with_def) (metis append.assoc append_Cons append_Nil append_take_drop_id length_append_singleton)

lemma not_below_self [simp]: "\<not> below k k"
  by (simp add: below_iff)

lemma like_any: "escape \<noteq> Some (CHR ''%'') \<Longrightarrow> like same escape ''%'' s"
proof (induction "length s" arbitrary: s rule: less_induct)
  case less
  show ?case
  proof (cases "s = []")
    case False
    then show ?thesis using less.hyps [OF next_char_shorter] less.prems by (subst like.simps) simp
  qed (use less.prems in \<open>simp add: like.simps\<close>)
qed

text \<open>A path without wildcards matches what lies below it.\<close>

definition plain :: "string \<Rightarrow> bool" where
  "plain k \<longleftrightarrow> set k \<inter> {CHR ''%'', CHR ''_'', CHR 0x5C} = {}"

lemma like_below:
  assumes "plain k" "escape = None \<or> escape = Some (CHR 0x5C)" "\<And>x. same slash x \<longleftrightarrow> x = slash"
  shows "like same escape (k @ ''/%'') s \<longleftrightarrow> (\<exists>k' t. s = k' @ ''/'' @ t \<and> list_all2 same k k')"
  using assms(1)
proof (induction k arbitrary: s)
  case Nil
  have "like same escape (slash # ''%'') s \<longleftrightarrow> (\<exists>t. s = slash # t)"
    using assms(2,3) like_any [of escape same] by (subst like.simps) (auto split: list.split)
  then show ?case by simp
next
  case (Cons c k)
  have IH: "like same escape (k @ ''/%'') s \<longleftrightarrow> (\<exists>k' t. s = k' @ ''/'' @ t \<and> list_all2 same k k')" for s
    using Cons by (simp add: plain_def)
  have "escape \<noteq> Some c" "c \<noteq> CHR ''%''" "c \<noteq> CHR ''_''" using Cons.prems assms(2) by (auto simp: plain_def)
  then have "like same escape (c # k @ ''/%'') s \<longleftrightarrow> (\<exists>x s'. s = x # s' \<and> same c x \<and> like same escape (k @ ''/%'') s')"
    by (subst like.simps) (simp split: list.split)
  also have "\<dots> \<longleftrightarrow> (\<exists>k' t. s = k' @ ''/'' @ t \<and> list_all2 same (c # k) k')"
    unfolding IH list_all2_Cons1 by (metis append_Cons)
  finally show ?case by simp
qed

lemma postgres_like_below: "plain k \<Longrightarrow> postgres_like (k @ ''/%'') q \<longleftrightarrow> below k q"
  by (subst postgres_like_def, subst like_below) (auto simp: below_iff list_all2_eq [symmetric])

lemma ascii_upper_slash: "ascii_upper x = slash \<longleftrightarrow> x = slash"
proof
  assume h: "ascii_upper x = slash"
  have "byte_val x - 32 \<noteq> byte_val slash" if "97 \<le> byte_val x" using that by simp
  with h show "x = slash" by (cases "97 \<le> byte_val x \<and> byte_val x \<le> 122") (auto simp: ascii_upper_def dest: arg_cong [where f = byte_val])
qed (simp add: ascii_upper_def)

lemma list_all2_upper: "list_all2 (\<lambda>a b. ascii_upper a = ascii_upper b) k k' \<longleftrightarrow> map ascii_upper k = map ascii_upper k'"
  by (simp add: list.rel_map(1) list.rel_map(2) flip: list.rel_eq)

lemma upper_slash [simp]: "ascii_upper slash = slash"
  by (simp add: ascii_upper_slash)

lemma sqlite_like_below:
  "plain k \<Longrightarrow> sqlite_like (k @ ''/%'') q \<longleftrightarrow> (\<exists>k' t. q = k' @ ''/'' @ t \<and> map ascii_upper k = map ascii_upper k')"
  unfolding sqlite_like_def by (subst like_below) (auto simp: list_all2_upper eq_commute [of slash] ascii_upper_slash)

lemma skip_chars_ascii: "\<forall>c \<in> set (drop 1 s @ ''/''). \<not> is_cont c \<Longrightarrow> skip_chars (length s) (s @ slash # t) = slash # t"
proof (induction s)
  case (Cons c s)
  have "next_char ((c # s) @ slash # t) = s @ slash # t"
    using Cons.prems by (cases s) (simp_all add: next_char_def)
  moreover have "skip_chars (length s) (s @ slash # t) = slash # t"
    using Cons by (cases s) auto
  ultimately show ?case by simp
qed simp

subsection \<open>What the statements do\<close>

definition upd_row :: "sql_table \<Rightarrow> string \<Rightarrow> (sql_row \<Rightarrow> sql_row) \<Rightarrow> sql_table" where
  "upd_row t k f = t(k := map_option f (t k))"

text \<open>Renaming every path: the paths stay distinct and keep their rows.\<close>

definition renamed :: "(string \<Rightarrow> string) \<Rightarrow> sql_table \<Rightarrow> sql_table \<Rightarrow> bool" where
  "renamed f t t' \<longleftrightarrow> inj_on f (dom t) \<and> dom t' = f ` dom t \<and> (\<forall>q \<in> dom t. t' (f q) = t q)"

fun sql_step :: "(string \<Rightarrow> string \<Rightarrow> bool) \<Rightarrow> sql_stmt \<Rightarrow> sql_table \<Rightarrow> sql_table \<Rightarrow> bool" where
  "sql_step lk (Insert k r) t t' \<longleftrightarrow> t k = None \<and> t' = t(k \<mapsto> r)"
| "sql_step lk (Insert_Or_Ignore k r) t t' \<longleftrightarrow> t' = (if t k = None then t(k \<mapsto> r) else t)"
| "sql_step lk (Delete_Path k) t t' \<longleftrightarrow> t' = t(k := None)"
| "sql_step lk (Delete_Tree k pat) t t' \<longleftrightarrow> t' = (\<lambda>q. if q = k \<or> lk pat q then None else t q)"
| "sql_step lk (Set_Data d m k) t t' \<longleftrightarrow> t' = upd_row t k (\<lambda>r. r\<lparr>sr_data := Some d, sr_modified := Some m\<rparr>)"
| "sql_step lk (Set_Data_Times d m a k) t t' \<longleftrightarrow> t' = upd_row t k (\<lambda>r. r\<lparr>sr_data := Some d, sr_modified := Some m, sr_accessed := Some a\<rparr>)"
| "sql_step lk (Set_Times a m k) t t' \<longleftrightarrow> t' = upd_row t k (\<lambda>r. r\<lparr>sr_modified := Some m, sr_accessed := Some a\<rparr>)"
| "sql_step lk (Set_Mode x m k) t t' \<longleftrightarrow> t' = upd_row t k (\<lambda>r. r\<lparr>sr_mode := x, sr_modified := Some m\<rparr>)"
| "sql_step lk (Set_Path new old) t t' \<longleftrightarrow> renamed (\<lambda>q. if q = old then new else q) t t'"
| "sql_step lk (Move_Like new n pat) t t' \<longleftrightarrow> renamed (\<lambda>q. if lk pat q then new @ skip_chars n q else q) t t'"
| "sql_step lk st t t' \<longleftrightarrow> t' = t"

definition rows_like :: "(string \<Rightarrow> string \<Rightarrow> bool) \<Rightarrow> string \<Rightarrow> sql_table \<Rightarrow> (string \<times> sql_row) list \<Rightarrow> bool" where
  "rows_like lk pat t rows \<longleftrightarrow> distinct (map fst rows) \<and> set rows = {(q, r). t q = Some r \<and> lk pat q}"

text \<open>The promises of SQL; \<open>tab\<close> is the table in a state of the database. A statement that fails changes nothing.\<close>

definition sql_laws :: "(string \<Rightarrow> string \<Rightarrow> bool) \<Rightarrow> 'w sql_db \<Rightarrow> ('w \<Rightarrow> sql_table) \<Rightarrow> bool" where
  "sql_laws lk D tab \<longleftrightarrow>
     (\<forall>st w. tab (snd (db_prepare D st w)) = tab w) \<and>
     (\<forall>st w e w'. db_run D st w = (Inl e, w') \<longrightarrow> tab w' = tab w) \<and>
     (\<forall>st w rows w'. db_run D st w = (Inr rows, w') \<longrightarrow> sql_step lk st (tab w) (tab w') \<and>
        (\<forall>k. st = Select_Path k \<longrightarrow> rows = (case tab w k of None \<Rightarrow> [] | Some r \<Rightarrow> [(k, r)])) \<and>
        (\<forall>pat. st = Select_Like pat \<longrightarrow> rows_like lk pat (tab w) rows)) \<and>
     (\<forall>pat w. tab (snd (db_count D pat w)) = tab w) \<and>
     (\<forall>pat w n w'. db_count D pat w = (Inr n, w') \<longrightarrow> (0 < n \<longleftrightarrow> (\<exists>q \<in> dom (tab w). lk pat q))) \<and>
     (\<forall>pat w. tab (snd (db_iterate D pat w)) = tab w) \<and>
     (\<forall>pat w rows w'. db_iterate D pat w = (Inr (map Inr rows), w') \<longrightarrow> rows_like lk pat (tab w) rows)"

lemma sql_lawsD:
  assumes "sql_laws lk D tab"
  shows "db_prepare D st w = (x, w') \<Longrightarrow> tab w' = tab w"
    and "db_run D st w = (Inl e, w') \<Longrightarrow> tab w' = tab w"
    and "db_run D st w = (Inr rows, w') \<Longrightarrow> sql_step lk st (tab w) (tab w')"
    and "db_run D (Select_Path k) w = (Inr rows, w') \<Longrightarrow> rows = (case tab w k of None \<Rightarrow> [] | Some r \<Rightarrow> [(k, r)])"
    and "db_run D (Select_Like pat) w = (Inr rows, w') \<Longrightarrow> rows_like lk pat (tab w) rows"
    and "db_count D pat w = (y, w') \<Longrightarrow> tab w' = tab w"
    and "db_count D pat w = (Inr n, w') \<Longrightarrow> 0 < n \<longleftrightarrow> (\<exists>q \<in> dom (tab w). lk pat q)"
    and "db_iterate D pat w = (z, w') \<Longrightarrow> tab w' = tab w"
    and "db_iterate D pat w = (Inr (map Inr rows), w') \<Longrightarrow> rows_like lk pat (tab w) rows"
proof -
  obtain prep: "\<And>st w. tab (snd (db_prepare D st w)) = tab w"
    and fail: "\<And>st w e w'. db_run D st w = (Inl e, w') \<Longrightarrow> tab w' = tab w"
    and run: "\<And>st w rows w'. db_run D st w = (Inr rows, w') \<Longrightarrow> sql_step lk st (tab w) (tab w') \<and>
        (\<forall>k. st = Select_Path k \<longrightarrow> rows = (case tab w k of None \<Rightarrow> [] | Some r \<Rightarrow> [(k, r)])) \<and>
        (\<forall>pat. st = Select_Like pat \<longrightarrow> rows_like lk pat (tab w) rows)"
    and cnt: "\<And>pat w. tab (snd (db_count D pat w)) = tab w"
    and cnt_n: "\<And>pat w n w'. db_count D pat w = (Inr n, w') \<Longrightarrow> 0 < n \<longleftrightarrow> (\<exists>q \<in> dom (tab w). lk pat q)"
    and iter: "\<And>pat w. tab (snd (db_iterate D pat w)) = tab w"
    and iter_rows: "\<And>pat w rows w'. db_iterate D pat w = (Inr (map Inr rows), w') \<Longrightarrow> rows_like lk pat (tab w) rows"
    using assms unfolding sql_laws_def by (elim conjE) (rule that; (rule allE, assumption)?; simp)
  show "db_prepare D st w = (x, w') \<Longrightarrow> tab w' = tab w" using prep [of st w] by simp
  show "db_run D st w = (Inl e, w') \<Longrightarrow> tab w' = tab w" by (rule fail)
  show "db_run D st w = (Inr rows, w') \<Longrightarrow> sql_step lk st (tab w) (tab w')" using run by blast
  show "db_run D (Select_Path k) w = (Inr rows, w') \<Longrightarrow> rows = (case tab w k of None \<Rightarrow> [] | Some r \<Rightarrow> [(k, r)])" using run by blast
  show "db_run D (Select_Like pat) w = (Inr rows, w') \<Longrightarrow> rows_like lk pat (tab w) rows" using run by blast
  show "db_count D pat w = (y, w') \<Longrightarrow> tab w' = tab w" using cnt [of pat w] by simp
  show "db_count D pat w = (Inr n, w') \<Longrightarrow> 0 < n \<longleftrightarrow> (\<exists>q \<in> dom (tab w). lk pat q)" by (rule cnt_n)
  show "db_iterate D pat w = (z, w') \<Longrightarrow> tab w' = tab w" using iter [of pat w] by simp
  show "db_iterate D pat w = (Inr (map Inr rows), w') \<Longrightarrow> rows_like lk pat (tab w) rows" by (rule iter_rows)
qed

subsection \<open>Calls that change the table only when they succeed\<close>

text \<open>
  A call that returns a value has brought the table from \<open>t\<close> to one its result is right for; any other outcome leaves the table as it was. The
  rules follow the shape of the code. \<open>tab\<close> may be any view of the state.
\<close>

definition tab_ok :: "('w \<Rightarrow> 't) \<Rightarrow> 't \<Rightarrow> ('a \<Rightarrow> 't \<Rightarrow> bool) \<Rightarrow> 'a fs_result \<times> 'w \<Rightarrow> bool" where
  "tab_ok tab t Q x \<longleftrightarrow> (case fst x of Ok a \<Rightarrow> Q a (tab (snd x)) | _ \<Rightarrow> tab (snd x) = t)"

named_theorems tab_intros \<open>rules for calls on a table\<close>

lemma tab_ok_Ok [tab_intros]: "Q a (tab w) \<Longrightarrow> tab_ok tab t Q (Ok a, w)"
  by (simp add: tab_ok_def)

lemma tab_ok_Err [tab_intros]: "tab w = t \<Longrightarrow> tab_ok tab t Q (Err e, w)"
  by (simp add: tab_ok_def)

lemma tab_ok_try [tab_intros]:
  "tab w = t \<Longrightarrow> (\<And>a. r = Ok a \<Longrightarrow> tab_ok tab t Q (f a w)) \<Longrightarrow> tab_ok tab t Q (try_then r f w)"
  by (cases r) (simp_all add: tab_ok_def)

lemma tab_ok_call:
  "(\<And>e w'. call w = (Inl e, w') \<Longrightarrow> tab w' = t) \<Longrightarrow> (\<And>a w'. call w = (Inr a, w') \<Longrightarrow> tab_ok tab t Q (f a w')) \<Longrightarrow>
    tab_ok tab t Q (call_then g call f w)"
  by (auto simp: call_then_def tab_ok_def split: prod.splits sum.splits)

text \<open>After an operation that has only looked at the table.\<close>

lemma tab_ok_bind:
  "tab_ok tab t (\<lambda>a t'. t' = t \<and> P a) (m w) \<Longrightarrow> (\<And>a w'. P a \<Longrightarrow> tab w' = t \<Longrightarrow> tab_ok tab t Q (f a w')) \<Longrightarrow> tab_ok tab t Q (bind_op m f w)"
  by (cases "m w", rename_tac r w', case_tac r) (auto simp: bind_op_def tab_ok_def)

lemma tab_ok_mono: "tab_ok tab t P x \<Longrightarrow> (\<And>a t'. P a t' \<Longrightarrow> Q a t') \<Longrightarrow> tab_ok tab t Q x"
  by (auto simp: tab_ok_def split: outcome.splits)

lemma tab_ok_If [tab_intros]: "(b \<Longrightarrow> tab_ok tab t Q (f w)) \<Longrightarrow> (\<not> b \<Longrightarrow> tab_ok tab t Q (g w)) \<Longrightarrow> tab_ok tab t Q ((if b then f else g) w)"
  by simp

lemma tab_ok_If2 [tab_intros]: "(b \<Longrightarrow> tab_ok tab t Q x) \<Longrightarrow> (\<not> b \<Longrightarrow> tab_ok tab t Q y) \<Longrightarrow> tab_ok tab t Q (if b then x else y)"
  by simp

lemma tab_ok_run [tab_intros]:
  "sql_laws lk D tab \<Longrightarrow> tab w = t \<Longrightarrow> (\<And>rows w'. sql_step lk st t (tab w') \<Longrightarrow> tab_ok tab t Q (f rows w')) \<Longrightarrow>
    tab_ok tab t Q (call_then g (db_run D st) f w)"
  by (rule tab_ok_call) (auto dest: sql_lawsD)

lemma tab_ok_select:
  assumes L: "sql_laws lk D tab" and t: "tab w = t"
    and f: "\<And>w'. tab w' = t \<Longrightarrow> tab_ok tab t Q (f (case t k of None \<Rightarrow> [] | Some r \<Rightarrow> [(k, r)]) w')"
  shows "tab_ok tab t Q (call_then g (db_run D (Select_Path k)) f w)"
proof (rule tab_ok_call)
  show "tab w' = t" if "db_run D (Select_Path k) w = (Inl e, w')" for e w' using sql_lawsD(2) [OF L that] t by simp
  show "tab_ok tab t Q (f rows w')" if "db_run D (Select_Path k) w = (Inr rows, w')" for rows w'
    using sql_lawsD(3,4) [OF L that] f t by simp
qed

lemma tab_ok_prepare [tab_intros]:
  "sql_laws lk D tab \<Longrightarrow> tab w = t \<Longrightarrow> (\<And>w'. tab w' = t \<Longrightarrow> tab_ok tab t Q (f () w')) \<Longrightarrow> tab_ok tab t Q (call_then g (db_prepare D st) f w)"
  by (rule tab_ok_call) (auto dest: sql_lawsD(1))

lemma tab_ok_count:
  assumes L: "sql_laws lk D tab" and t: "tab w = t"
    and f: "\<And>n w'. tab w' = t \<Longrightarrow> 0 < n \<longleftrightarrow> (\<exists>q \<in> dom t. lk pat q) \<Longrightarrow> tab_ok tab t Q (f n w')"
  shows "tab_ok tab t Q (call_then g (db_count D pat) f w)"
proof (rule tab_ok_call)
  show "tab w' = t" if "db_count D pat w = (Inl e, w')" for e w' using sql_lawsD(6) [OF L that] t by simp
  show "tab_ok tab t Q (f n w')" if "db_count D pat w = (Inr n, w')" for n w'
    using sql_lawsD(6,7) [OF L that] f t by blast
qed

text \<open>Paths as the table has them, the directory a new path needs, and what a write that succeeds leaves behind.\<close>

definition abs_path :: "path \<Rightarrow> string" where
  "abs_path p = (if starts_with p ''/'' then p else ''/'' @ p)"

definition parent_dir :: "sql_table \<Rightarrow> string \<Rightarrow> bool" where
  "parent_dir t k \<longleftrightarrow> (case parent k of None \<Rightarrow> True
     | Some par \<Rightarrow> abs_path par = ''/'' \<or> (\<exists>r. t (abs_path par) = Some r \<and> sr_mode r AND S_IFMT = S_IFDIR))"

definition kept_or_replaced :: "bytes \<Rightarrow> bytes \<Rightarrow> int \<Rightarrow> flags \<Rightarrow> bytes" where
  "kept_or_replaced old data offset flags =
     (if contains_append flags \<or> offset < 0 \<or> nat offset \<ge> length old
      then old @ replicate (nat offset - length old) (CHR 0x00) @ data else data)"

definition file_written :: "sql_table \<Rightarrow> string \<Rightarrow> bytes \<Rightarrow> int \<Rightarrow> sql_table" where
  "file_written t k d m = upd_row t k (\<lambda>r. r\<lparr>sr_data := Some d, sr_modified := Some m, sr_accessed := Some m\<rparr>)"

definition file_resized :: "sql_table \<Rightarrow> string \<Rightarrow> nat \<Rightarrow> int \<Rightarrow> sql_table" where
  "file_resized t k n m =
     upd_row t k (\<lambda>r. r\<lparr>sr_data := Some (take n (row_data r) @ replicate (n - length (row_data r)) (CHR 0x00)), sr_modified := Some m\<rparr>)"

lemma row_is_directory: "is_directory (row_metadata D q r) \<longleftrightarrow> sr_mode r AND S_IFMT = S_IFDIR"
  by (simp add: is_directory_def row_metadata_def)

subsection \<open>Calls of more than one change\<close>

text \<open>As above, with a condition on the table for every outcome but a value.\<close>

definition tab_or :: "('w \<Rightarrow> 't) \<Rightarrow> ('t \<Rightarrow> bool) \<Rightarrow> ('a \<Rightarrow> 't \<Rightarrow> bool) \<Rightarrow> 'a fs_result \<times> 'w \<Rightarrow> bool" where
  "tab_or tab F Q x \<longleftrightarrow> (case fst x of Ok a \<Rightarrow> Q a (tab (snd x)) | _ \<Rightarrow> F (tab (snd x)))"

lemma tab_or_Ok: "Q a (tab w) \<Longrightarrow> tab_or tab F Q (Ok a, w)"
  by (simp add: tab_or_def)

lemma tab_or_Err: "F (tab w) \<Longrightarrow> tab_or tab F Q (Err e, w)"
  by (simp add: tab_or_def)

lemma tab_or_try: "F (tab w) \<Longrightarrow> (\<And>a. r = Ok a \<Longrightarrow> tab_or tab F Q (f a w)) \<Longrightarrow> tab_or tab F Q (try_then r f w)"
  by (cases r) (simp_all add: tab_or_def)

lemma tab_or_bind:
  "tab_ok tab t (\<lambda>a t'. t' = t \<and> P a) (m w) \<Longrightarrow> F t \<Longrightarrow> (\<And>a w'. P a \<Longrightarrow> tab w' = t \<Longrightarrow> tab_or tab F Q (f a w')) \<Longrightarrow>
    tab_or tab F Q (bind_op m f w)"
  by (cases "m w", rename_tac r w', case_tac r) (auto simp: bind_op_def tab_ok_def tab_or_def)

lemma tab_or_run:
  assumes L: "sql_laws lk D tab" and F: "F (tab w)" and f: "\<And>rows w'. sql_step lk st (tab w) (tab w') \<Longrightarrow> tab_or tab F Q (f rows w')"
  shows "tab_or tab F Q (call_then g (db_run D st) f w)"
proof -
  obtain x w' where x: "db_run D st w = (x, w')" by (metis prod.exhaust)
  then show ?thesis using sql_lawsD(2,3) [OF L] F f by (cases x) (auto simp: call_then_def tab_or_def)
qed

lemma tab_or_If: "(b \<Longrightarrow> tab_or tab F Q (f w)) \<Longrightarrow> (\<not> b \<Longrightarrow> tab_or tab F Q (g w)) \<Longrightarrow> tab_or tab F Q ((if b then f else g) w)"
  by simp

lemma tab_or_seq:
  "tab_or tab F P (m w) \<Longrightarrow> (\<And>a w'. P a (tab w') \<Longrightarrow> tab_or tab F Q (f a w')) \<Longrightarrow> tab_or tab F Q (bind_op m f w)"
  by (cases "m w", rename_tac r w', case_tac r) (auto simp: bind_op_def tab_or_def)

lemma tab_or_like:
  assumes L: "sql_laws lk D tab" and F: "F (tab w)"
    and f: "\<And>rows w'. tab w' = tab w \<Longrightarrow> rows_like lk pat (tab w) rows \<Longrightarrow> tab_or tab F Q (f rows w')"
  shows "tab_or tab F Q (call_then g (db_run D (Select_Like pat)) f w)"
proof -
  obtain x w' where x: "db_run D (Select_Like pat) w = (x, w')" by (metis prod.exhaust)
  show ?thesis
  proof (cases x)
    case (Inl e)
    then show ?thesis using sql_lawsD(2) [OF L] x F by (simp add: call_then_def tab_or_def)
  next
    case (Inr rows)
    then have "tab_or tab F Q (f rows w')" using sql_lawsD(3,5) [OF L x [unfolded Inr]] f by simp
    then show ?thesis by (simp add: call_then_def x Inr)
  qed
qed

lemma tab_or_mono: "tab_or tab F P x \<Longrightarrow> (\<And>t. F t \<Longrightarrow> G t) \<Longrightarrow> (\<And>a t. P a t \<Longrightarrow> Q a t) \<Longrightarrow> tab_or tab G Q x"
  by (auto simp: tab_or_def split: outcome.splits)

lemma tab_or_ok: "tab_ok tab t Q x \<Longrightarrow> F t \<Longrightarrow> tab_or tab F Q x"
  by (auto simp: tab_ok_def tab_or_def split: outcome.splits)

subsection \<open>Moving a directory\<close>

definition below_moved :: "string \<Rightarrow> string \<Rightarrow> string \<Rightarrow> string" where
  "below_moved old new q = (if below old q then new @ drop (length old) q else q)"

definition moved :: "string \<Rightarrow> string \<Rightarrow> string \<Rightarrow> string" where
  "moved old new q = (if q = old then new else below_moved old new q)"

lemma renamed_cong: "(\<And>q. q \<in> dom t \<Longrightarrow> f q = g q) \<Longrightarrow> renamed f t t' \<longleftrightarrow> renamed g t t'"
  unfolding renamed_def by (metis (mono_tags, lifting) image_cong inj_on_cong)

lemma renamed_id: "renamed (\<lambda>q. q) t t"
  by (simp add: renamed_def)

lemma renamed_comp: "renamed f t t1 \<Longrightarrow> renamed g t1 t2 \<Longrightarrow> renamed (g \<circ> f) t t2"
  by (auto simp: renamed_def image_comp intro: comp_inj_on)

text \<open>One more path renamed that was not touched before.\<close>

lemma renamed_one:
  assumes f: "renamed f t t1" and c: "c \<in> dom t" "f c = c" and g: "renamed (\<lambda>q. if q = c then c' else q) t1 t2"
  shows "renamed (f(c := c')) t t2"
proof -
  have "((\<lambda>q. if q = c then c' else q) \<circ> f) q = (f(c := c')) q" if "q \<in> dom t" for q
    using f c that unfolding renamed_def inj_on_def by auto
  with renamed_comp [OF f g] show ?thesis by (metis (no_types, lifting) renamed_cong)
qed

lemma renamed_moved:
  assumes "renamed (below_moved old new) t t1" "t old \<noteq> None" "renamed (\<lambda>q. if q = old then new else q) t1 t2"
  shows "renamed (moved old new) t t2"
proof -
  have "moved old new = (below_moved old new)(old := new)" by (auto simp: moved_def fun_eq_iff)
  with renamed_one [OF assms(1) _ _ assms(3)] assms(2) show ?thesis by (auto simp: below_moved_def)
qed

text \<open>SQLite ignores case: no other path may be stored below a name that differs from \<open>k\<close> in case only.\<close>

definition no_twin :: "(string \<rightharpoonup> 'r) \<Rightarrow> string \<Rightarrow> bool" where
  "no_twin t k \<longleftrightarrow> (\<forall>q \<in> dom t. below (map ascii_upper k) (map ascii_upper q) \<longrightarrow> below k q)"

lemma sqlite_like_upper:
  assumes "plain k"
  shows "sqlite_like (k @ ''/%'') q \<longleftrightarrow> below (map ascii_upper k) (map ascii_upper q)"
proof
  assume "below (map ascii_upper k) (map ascii_upper q)"
  then obtain k' c t where "q = k' @ c # t" "map ascii_upper k' = map ascii_upper k" "ascii_upper c = slash"
    unfolding below_iff by (auto simp: map_eq_append_conv Cons_eq_map_conv)
  then show "sqlite_like (k @ ''/%'') q" unfolding sqlite_like_below [OF assms] by (auto simp: ascii_upper_slash)
qed (use assms in \<open>auto simp: sqlite_like_below below_iff\<close>)

lemma sqlite_rows_below: "plain k \<Longrightarrow> no_twin t k \<Longrightarrow> q \<in> dom t \<Longrightarrow> sqlite_like (k @ ''/%'') q \<longleftrightarrow> below k q"
  unfolding no_twin_def sqlite_like_upper by (auto simp: below_iff)

subsection \<open>A database in memory\<close>

definition canonical :: "(string \<times> sql_row) list \<Rightarrow> (string \<times> sql_row) list" where
  "canonical t = map (\<lambda>k. (k, the (map_of t k))) (remdups (map fst t))"

definition mem_update :: "string \<Rightarrow> (sql_row \<Rightarrow> sql_row) \<Rightarrow> (string \<times> sql_row) list \<Rightarrow> (string \<times> sql_row) list" where
  "mem_update k f t = map (\<lambda>(q, r). (q, if q = k then f r else r)) t"

definition mem_rename :: "(string \<Rightarrow> string) \<Rightarrow> (string \<times> sql_row) list \<Rightarrow> (string + (string \<times> sql_row) list) \<times> (string \<times> sql_row) list" where
  "mem_rename f t = (if distinct (map f (remdups (map fst t))) then (Inr [], map (\<lambda>(q, r). (f q, r)) (canonical t))
     else (Inl ''UNIQUE constraint failed'', t))"

fun mem_run :: "(string \<Rightarrow> string \<Rightarrow> bool) \<Rightarrow> sql_stmt \<Rightarrow> (string \<times> sql_row) list \<Rightarrow> (string + (string \<times> sql_row) list) \<times> (string \<times> sql_row) list" where
  "mem_run lk (Insert k r) t = (if map_of t k = None then (Inr [], (k, r) # t) else (Inl ''UNIQUE constraint failed'', t))"
| "mem_run lk (Insert_Or_Ignore k r) t = (Inr [], if map_of t k = None then (k, r) # t else t)"
| "mem_run lk (Select_Path k) t = (Inr (case map_of t k of None \<Rightarrow> [] | Some r \<Rightarrow> [(k, r)]), t)"
| "mem_run lk (Select_Like pat) t = (Inr (filter (\<lambda>(q, r). lk pat q) (canonical t)), t)"
| "mem_run lk (Delete_Path k) t = (Inr [], filter (\<lambda>(q, r). q \<noteq> k) t)"
| "mem_run lk (Delete_Tree k pat) t = (Inr [], filter (\<lambda>(q, r). \<not> (q = k \<or> lk pat q)) t)"
| "mem_run lk (Set_Data d m k) t = (Inr [], mem_update k (\<lambda>r. r\<lparr>sr_data := Some d, sr_modified := Some m\<rparr>) t)"
| "mem_run lk (Set_Data_Times d m a k) t = (Inr [], mem_update k (\<lambda>r. r\<lparr>sr_data := Some d, sr_modified := Some m, sr_accessed := Some a\<rparr>) t)"
| "mem_run lk (Set_Times a m k) t = (Inr [], mem_update k (\<lambda>r. r\<lparr>sr_modified := Some m, sr_accessed := Some a\<rparr>) t)"
| "mem_run lk (Set_Mode x m k) t = (Inr [], mem_update k (\<lambda>r. r\<lparr>sr_mode := x, sr_modified := Some m\<rparr>) t)"
| "mem_run lk (Set_Path new old) t = mem_rename (\<lambda>q. if q = old then new else q) t"
| "mem_run lk (Move_Like new n pat) t = mem_rename (\<lambda>q. if lk pat q then new @ skip_chars n q else q) t"
| "mem_run lk st t = (Inr [], t)"

definition memory_sql :: "(string \<Rightarrow> string \<Rightarrow> bool) \<Rightarrow> (string \<times> sql_row) list sql_db" where
  "memory_sql lk = \<lparr>db_prepare = \<lambda>st. Pair (Inr ()), db_run = mem_run lk,
     db_count = \<lambda>pat t. (Inr (int (length (filter (\<lambda>(q, r). lk pat q) t))), t),
     db_iterate = \<lambda>pat t. (Inr (map Inr (filter (\<lambda>(q, r). lk pat q) (canonical t))), t),
     db_no_rows = ''Query returned no rows'', db_millis = int, db_from_millis = \<lambda>m. Some (nat m)\<rparr>"

lemma map_fst_canonical: "map fst (canonical t) = remdups (map fst t)"
  by (simp add: canonical_def comp_def)

lemma canonical_set: "(q, r) \<in> set (canonical t) \<longleftrightarrow> map_of t q = Some r"
proof -
  have "(q, r) \<in> set (canonical t) \<longleftrightarrow> q \<in> fst ` set t \<and> r = the (map_of t q)" by (auto simp: canonical_def)
  also have "q \<in> fst ` set t \<longleftrightarrow> map_of t q \<noteq> None" by (simp add: map_of_eq_None_iff)
  finally show ?thesis by auto
qed

lemma canonical_rows: "rows_like lk pat (map_of t) (filter (\<lambda>(q, r). lk pat q) (canonical t))"
proof -
  have "distinct (map fst (canonical t))" by (simp add: map_fst_canonical)
  then show ?thesis by (auto simp: rows_like_def canonical_set distinct_map_filter)
qed

lemma map_of_filter_path: "map_of (filter (\<lambda>(q, r). P q) t) = (\<lambda>q. if P q then map_of t q else None)"
  by (induction t) auto

lemma map_of_mem_update: "map_of (mem_update k f t) = upd_row (map_of t) k f"
  by (induction t) (auto simp: mem_update_def upd_row_def fun_eq_iff)

lemma mem_rename_ok:
  assumes "mem_rename f t = (Inr rows, t')"
  shows "renamed f (map_of t) (map_of t')"
proof -
  have d: "distinct (map f (remdups (map fst t)))" and t': "t' = map (\<lambda>(q, r). (f q, r)) (canonical t)"
    using assms by (auto simp: mem_rename_def split: if_splits)
  have keys: "map fst t' = map f (remdups (map fst t))"
    unfolding t' map_fst_canonical [symmetric] by (simp add: comp_def case_prod_beta)
  have inj: "inj_on f (dom (map_of t))" using d by (simp add: distinct_map dom_map_of_conv_image_fst)
  have "dom (map_of t') = f ` dom (map_of t)"
    using arg_cong [OF keys, of set] by (simp add: dom_map_of_conv_image_fst)
  moreover have "map_of t' (f q) = map_of t q" if q: "q \<in> dom (map_of t)" for q
  proof -
    obtain r where r: "map_of t q = Some r" using domD [OF q] by (elim exE)
    then have "(f q, r) \<in> set t'" unfolding t' by (force simp: canonical_set)
    then show ?thesis using r d keys by (metis map_of_eq_Some_iff)
  qed
  ultimately show ?thesis using inj by (simp add: renamed_def)
qed

lemma memory_sql_laws: "sql_laws lk (memory_sql lk) map_of"
proof -
  have fails: "map_of t' = map_of t" if "mem_run lk st t = (Inl e, t')" for st t e t'
    using that by (cases st) (auto simp: mem_rename_def split: if_splits)
  have step: "sql_step lk st (map_of t) (map_of t')" if "mem_run lk st t = (Inr rows, t')" for st t rows t'
    using that by (cases st) (auto simp: map_of_filter_path map_of_mem_update fun_eq_iff mem_rename_ok split: if_splits)
  have cnt: "0 < int (length (filter (\<lambda>(q, r). lk pat q) t)) \<longleftrightarrow> (\<exists>q \<in> dom (map_of t). lk pat q)" for pat t
    by (force simp: dom_map_of_conv_image_fst filter_empty_conv)
  have iter: "rows_like lk pat (map_of t) rows" if "map Inr (filter (\<lambda>(q, r). lk pat q) (canonical t)) = map Inr rows" for pat t rows
    using that canonical_rows [of lk pat t] by (simp add: inj_map_eq_map)
  show ?thesis unfolding sql_laws_def memory_sql_def sql_db.simps
    by (intro conjI allI impI) (use cnt in \<open>auto intro: step canonical_rows dest: fails iter\<close>)
qed

end
