(* ===== verification/Sql_FS.thy ===== *)
theory Sql_FS
  imports Sql_Table
begin

text \<open>
  The crate \<open>racfs-plugin-sqlfs\<close>: files as rows of a table in SQLite. Every operation takes the lock of the connection for each of its statements; the model
  runs one operation at a time.
\<close>

subsection \<open>Configuration and start\<close>

record SqlConfig =
  sq_database_url :: string
  sq_max_file_size :: nat

definition sql_config_default :: SqlConfig where
  "sql_config_default = \<lparr>sq_database_url = ''file::memory:'', sq_max_file_size = 5 * 1024 * 1024\<rparr>"

definition sql_initialize_schema :: "'w sql_db \<Rightarrow> 'w \<Rightarrow> unit fs_result \<times> 'w" where
  "sql_initialize_schema D =
     call_then (sql_io ''Failed to create schema'') (db_run D Create_Table) (\<lambda>_.
     call_then (sql_io ''Failed to create index'') (db_run D (Create_Index ''idx_files_is_dir'')) (\<lambda>_ w. (Ok (), w)))"

definition sql_create_root :: "'w sql_db \<Rightarrow> ('w, unit) fs_op" where
  "sql_create_root D now =
     call_then (sql_io ''Failed to create root'')
       (db_run D (Insert_Or_Ignore ''/'' (new_row D True (S_IFDIR OR S_IRWXU OR S_IRGRP OR S_IXGRP OR S_IROTH OR S_IXOTH) now))) (\<lambda>_ w. (Ok (), w))"

definition sql_with_connection :: "'w sql_db \<Rightarrow> ('w, SqlConfig) fs_op" where
  "sql_with_connection D now =
     bind_op (sql_initialize_schema D) (\<lambda>_. bind_op (sql_create_root D now) (\<lambda>_ w. (Ok sql_config_default, w)))"

text \<open>\<open>opened\<close> is what opening the database returns.\<close>

definition sql_with_config :: "'w sql_db \<Rightarrow> string + unit \<Rightarrow> SqlConfig \<Rightarrow> ('w, SqlConfig) fs_op" where
  "sql_with_config D opened c now =
     call_then (sql_io ''Failed to open database'') (Pair opened) (\<lambda>_.
       bind_op (sql_initialize_schema D) (\<lambda>_. bind_op (sql_create_root D now) (\<lambda>_ w. (Ok c, w))))"

subsection \<open>Helpers\<close>

definition sql_path_to_str :: "path \<Rightarrow> string fs_result" where
  "sql_path_to_str p =
     (if utf8_valid p then Ok (if starts_with p ''/'' then p else ''/'' @ p)
      else Err (InvalidInput ''Path contains invalid UTF-8''))"

definition sql_get_metadata :: "'w sql_db \<Rightarrow> string \<Rightarrow> 'w \<Rightarrow> FileMetadata fs_result \<times> 'w" where
  "sql_get_metadata D k =
     call_then (sql_io ''Failed to prepare query'') (db_prepare D (Select_Path k)) (\<lambda>_.
     call_then (sql_io ''Failed to query metadata'') (db_run D (Select_Path k)) (\<lambda>rows w.
       (case rows of [] \<Rightarrow> Err (NotFound k) | (q, r) # _ \<Rightarrow> Ok (row_metadata D q r), w)))"

definition sql_exists :: "'w sql_db \<Rightarrow> string \<Rightarrow> 'w \<Rightarrow> bool fs_result \<times> 'w" where
  "sql_exists D k =
     call_then (sql_io ''Failed to prepare exists query'') (db_prepare D (Select_Path k)) (\<lambda>_.
     call_then (sql_io ''Failed to query exists'') (db_run D (Select_Path k)) (\<lambda>rows w. (Ok (rows \<noteq> []), w)))"

definition sql_ensure_parent_exists :: "'w sql_db \<Rightarrow> string \<Rightarrow> 'w \<Rightarrow> unit fs_result \<times> 'w" where
  "sql_ensure_parent_exists D k =
     (case parent k of
        None \<Rightarrow> Pair (Ok ())
      | Some par \<Rightarrow> try_then (sql_path_to_str par) (\<lambda>par_str.
          if par_str \<noteq> ''/'' then
            bind_op (sql_get_metadata D par_str) (\<lambda>m w. (if is_directory m then Ok () else Err (NotADirectory par_str), w))
          else Pair (Ok ())))"

definition sql_is_dir :: "'w sql_db \<Rightarrow> string \<Rightarrow> 'w \<Rightarrow> bool fs_result \<times> 'w" where
  "sql_is_dir D k =
     call_then (sql_io ''Failed to prepare is_dir query'') (db_prepare D (Select_Path k)) (\<lambda>_.
     call_then (sql_io ''Failed to query is_dir'') (db_run D (Select_Path k)) (\<lambda>rows w.
       (case rows of [] \<Rightarrow> Err (NotFound k) | (q, r) # _ \<Rightarrow> Ok (sr_is_dir r), w)))"

text \<open>\<open>query_row\<close> for the contents: no row is an error.\<close>

definition first_data :: "'w sql_db \<Rightarrow> string \<Rightarrow> (string \<times> sql_row) list \<Rightarrow> bytes fs_result" where
  "first_data D what rows = (case rows of [] \<Rightarrow> Err (sql_io what (db_no_rows D)) | (q, r) # _ \<Rightarrow> Ok (row_data r))"

subsection \<open>The trait operations\<close>

definition sql_read :: "'w sql_db \<Rightarrow> path \<Rightarrow> int \<Rightarrow> int \<Rightarrow> ('w, bytes) fs_op" where
  "sql_read D p offset sz now =
     try_then (sql_path_to_str p) (\<lambda>k. bind_op (sql_is_dir D k) (\<lambda>dir.
       if dir then Pair (Err (IsDirectory p))
       else
         call_then (sql_io ''Failed to prepare read query'') (db_prepare D (Select_Path k)) (\<lambda>_.
         call_then (sql_io ''Failed to read data'') (db_run D (Select_Path k)) (\<lambda>rows.
           try_then (first_data D ''Failed to read data'' rows) (\<lambda>d w. (read_slice d offset sz, w))))))"

definition sql_stat :: "'w sql_db \<Rightarrow> path \<Rightarrow> ('w, FileMetadata) fs_op" where
  "sql_stat D p now = try_then (sql_path_to_str p) (sql_get_metadata D)"

definition sql_create :: "'w sql_db \<Rightarrow> path \<Rightarrow> ('w, unit) fs_op" where
  "sql_create D p now =
     try_then (sql_path_to_str p) (\<lambda>k. bind_op (sql_ensure_parent_exists D k) (\<lambda>_. bind_op (sql_exists D k) (\<lambda>there.
       if there then Pair (Err (AlreadyExists p))
       else
         call_then (sql_io ''Failed to create file'') (db_run D (Insert k (new_row D False (S_IFREG OR S_IRWXU OR S_IRGRP OR S_IROTH) now)))
           (\<lambda>_ w. (Ok (), w)))))"

definition sql_write_data :: "bytes \<Rightarrow> bytes \<Rightarrow> int \<Rightarrow> flags \<Rightarrow> bytes fs_result" where
  "sql_write_data old data offset flags =
     (let is_truncate = flags_contains flags (write_flags_truncate 0x0020)
      in if contains_append flags \<or> as_usize offset \<ge> length old then
           (let stop = as_usize (max offset 0)
            in and_then (if stop > length old then vec_resize stop old else Ok old) (\<lambda>d. Ok (d @ data)))
         else if is_truncate \<or> offset \<le> 0 then Ok data
         else
           (let start = as_usize offset
            in and_then (if start > length old then vec_resize start old else Ok old) (\<lambda>d.
               and_then (if start + length data > length d then vec_resize (start + length data) d else Ok d) (\<lambda>d'.
               vec_copy_from_slice start (start + length data) data d'))))"

text \<open>A failed query for the old contents counts as no contents.\<close>

definition sql_old_data :: "'w sql_db \<Rightarrow> string \<Rightarrow> 'w \<Rightarrow> bytes fs_result \<times> 'w" where
  "sql_old_data D k =
     call_then (sql_io ''Failed to prepare write read query'') (db_prepare D (Select_Path k)) (\<lambda>_ w.
       let (x, w') = db_run D (Select_Path k) w
       in (Ok (case x of Inr ((q, r) # _) \<Rightarrow> row_data r | _ \<Rightarrow> []), w'))"

definition sql_write :: "'w sql_db \<Rightarrow> SqlConfig \<Rightarrow> path \<Rightarrow> bytes \<Rightarrow> int \<Rightarrow> flags \<Rightarrow> ('w, nat) fs_op" where
  "sql_write D c p data offset flags now =
     try_then (sql_path_to_str p) (\<lambda>k. bind_op (sql_is_dir D k) (\<lambda>dir.
       if dir then Pair (Err (IsDirectory p))
       else if length data > sq_max_file_size c then Pair (Err StorageFull)
       else bind_op (sql_old_data D k) (\<lambda>old. try_then (sql_write_data old data offset flags) (\<lambda>d.
         call_then (sql_io ''Failed to write'') (db_run D (Set_Data_Times d (db_millis D now) (db_millis D now) k)) (\<lambda>_ w. (Ok (length data), w))))))"

definition sql_mkdir :: "'w sql_db \<Rightarrow> path \<Rightarrow> mode \<Rightarrow> ('w, unit) fs_op" where
  "sql_mkdir D p perm now =
     try_then (sql_path_to_str p) (\<lambda>k. bind_op (sql_ensure_parent_exists D k) (\<lambda>_. bind_op (sql_exists D k) (\<lambda>there.
       if there then Pair (Err (AlreadyExists p))
       else
         call_then (sql_io ''Failed to create directory'')
           (db_run D (Insert k (new_row D True (S_IFDIR OR S_IRWXU OR S_IRGRP OR S_IXGRP OR S_IROTH OR S_IXOTH) now))) (\<lambda>_ w. (Ok (), w)))))"

text \<open>The loop over the rows below a path.\<close>

definition direct_child :: "string \<Rightarrow> string \<Rightarrow> bool" where
  "direct_child k q =
     (let relative = (if k = ''/'' then q else case path_strip_prefix q k of Some r \<Rightarrow> r | None \<Rightarrow> q);
          s = from_utf8_lossy relative
      in if k = ''/'' then length (filter (\<lambda>c. c = slash) s) = 1 else slash \<notin> set s)"

fun sql_entries :: "'w sql_db \<Rightarrow> string \<Rightarrow> (string + string \<times> sql_row) list \<Rightarrow> FileMetadata list fs_result" where
  "sql_entries D k [] = Ok []"
| "sql_entries D k (Inl e # xs) = Err (sql_io ''Failed to read row'' e)"
| "sql_entries D k (Inr (q, r) # xs) =
     and_then (sql_entries D k xs) (\<lambda>es. Ok (if direct_child k q then row_metadata D q r # es else es))"

definition sql_read_dir :: "'w sql_db \<Rightarrow> path \<Rightarrow> ('w, FileMetadata list) fs_op" where
  "sql_read_dir D p now =
     try_then (sql_path_to_str p) (\<lambda>k. bind_op (sql_is_dir D k) (\<lambda>dir.
       if \<not> dir then Pair (Err (NotADirectory p))
       else
         (let pattern = (if k = ''/'' then ''/%'' else k @ ''/%'')
          in call_then (sql_io ''Failed to prepare read_dir query'') (db_prepare D (Select_Like pattern)) (\<lambda>_.
             call_then (sql_io ''Failed to query read_dir'') (db_iterate D pattern) (\<lambda>rows w. (sql_entries D k rows, w))))))"

definition sql_remove :: "'w sql_db \<Rightarrow> path \<Rightarrow> ('w, unit) fs_op" where
  "sql_remove D p now =
     try_then (sql_path_to_str p) (\<lambda>k. bind_op (sql_exists D k) (\<lambda>there.
       if \<not> there then Pair (Err (NotFound p))
       else bind_op (sql_is_dir D k) (\<lambda>dir.
         bind_op
           (if dir then
              call_then (sql_io ''Failed to prepare empty check query'') (db_prepare D (Select_Like (k @ ''/%''))) (\<lambda>_.
              call_then (sql_io ''Failed to check if directory is empty'') (db_count D (k @ ''/%'')) (\<lambda>n w.
                (if n > 0 then Err DirectoryNotEmpty else Ok (), w)))
            else Pair (Ok ()))
           (\<lambda>_. call_then (sql_io ''Failed to remove'') (db_run D (Delete_Path k)) (\<lambda>_ w. (Ok (), w))))))"

definition sql_remove_all :: "'w sql_db \<Rightarrow> path \<Rightarrow> ('w, unit) fs_op" where
  "sql_remove_all D p now =
     try_then (sql_path_to_str p) (\<lambda>k. bind_op (sql_exists D k) (\<lambda>there.
       if \<not> there then Pair (Err (NotFound p))
       else call_then (sql_io ''Failed to remove all'') (db_run D (Delete_Tree k (k @ ''/%''))) (\<lambda>_ w. (Ok (), w))))"

definition sql_rename :: "'w sql_db \<Rightarrow> path \<Rightarrow> path \<Rightarrow> ('w, unit) fs_op" where
  "sql_rename D old_path new_path now =
     try_then (sql_path_to_str old_path) (\<lambda>old. try_then (sql_path_to_str new_path) (\<lambda>new.
       bind_op (sql_exists D old) (\<lambda>there.
         if \<not> there then Pair (Err (NotFound old_path))
         else bind_op (sql_exists D new) (\<lambda>taken.
           if taken then Pair (Err (AlreadyExists new_path))
           else bind_op (sql_is_dir D old) (\<lambda>dir.
             if dir then
               call_then (sql_io ''Failed to move directory children'') (db_run D (Move_Like new (length old) (old @ ''/%''))) (\<lambda>_.
               call_then (sql_io ''Failed to move directory'') (db_run D (Set_Path new old)) (\<lambda>_ w. (Ok (), w)))
             else call_then (sql_io ''Failed to rename'') (db_run D (Set_Path new old)) (\<lambda>_ w. (Ok (), w)))))))"

definition sql_chmod :: "'w sql_db \<Rightarrow> path \<Rightarrow> mode \<Rightarrow> ('w, unit) fs_op" where
  "sql_chmod D p m now =
     try_then (sql_path_to_str p) (\<lambda>k. bind_op (sql_exists D k) (\<lambda>there.
       if \<not> there then Pair (Err (NotFound p))
       else call_then (sql_io ''Failed to chmod'') (db_run D (Set_Mode m (db_millis D now) k)) (\<lambda>_ w. (Ok (), w))))"

definition sql_truncate :: "'w sql_db \<Rightarrow> path \<Rightarrow> nat \<Rightarrow> ('w, unit) fs_op" where
  "sql_truncate D p n now =
     try_then (sql_path_to_str p) (\<lambda>k. bind_op (sql_is_dir D k) (\<lambda>dir.
       if dir then Pair (Err (IsDirectory p))
       else
         call_then (sql_io ''Failed to prepare truncate query'') (db_prepare D (Select_Path k)) (\<lambda>_.
         call_then (sql_io ''Failed to read for truncate'') (db_run D (Select_Path k)) (\<lambda>rows.
           try_then (first_data D ''Failed to read for truncate'' rows) (\<lambda>old.
           try_then (if n < length old then Ok (take n old) else vec_resize n old) (\<lambda>d.
             call_then (sql_io ''Failed to truncate'') (db_run D (Set_Data d (db_millis D now) k)) (\<lambda>_ w. (Ok (), w))))))))"

definition sql_touch :: "'w sql_db \<Rightarrow> path \<Rightarrow> ('w, unit) fs_op" where
  "sql_touch D p now =
     try_then (sql_path_to_str p) (\<lambda>k. bind_op (sql_exists D k) (\<lambda>there.
       let stamp = call_then (sql_io ''Failed to touch'') (db_run D (Set_Times (db_millis D now) (db_millis D now) k)) (\<lambda>_ w. (Ok (), w))
       in if there then stamp else bind_op (sql_create D p now) (\<lambda>_. stamp)))"

definition sql_fs :: "'w sql_db \<Rightarrow> SqlConfig \<Rightarrow> 'w FileSystem" where
  "sql_fs D c = \<lparr>fs_read = sql_read D, fs_stat = sql_stat D, fs_create = sql_create D, fs_write = sql_write D c,
     fs_mkdir = sql_mkdir D, fs_read_dir = sql_read_dir D, fs_remove = sql_remove D, fs_remove_all = sql_remove_all D,
     fs_rename = sql_rename D, fs_chmod = sql_chmod D, fs_truncate = sql_truncate D, fs_touch = sql_touch D,
     fs_readlink = default_readlink, fs_symlink = default_symlink, fs_get_xattr = default_get_xattr,
     fs_set_xattr = default_set_xattr, fs_remove_xattr = default_remove_xattr, fs_list_xattr = default_list_xattr\<rparr>"

subsection \<open>What the helpers find\<close>

lemma sql_path_to_str_Ok: "sql_path_to_str p = Ok k \<longleftrightarrow> utf8_valid p \<and> k = abs_path p"
  by (auto simp: sql_path_to_str_def abs_path_def)

lemma sql_exists_ok:
  assumes L: "sql_laws lk D tab" and t: "tab w = t"
  shows "tab_ok tab t (\<lambda>there t'. t' = t \<and> (there \<longleftrightarrow> t k \<noteq> None)) (sql_exists D k w)"
  unfolding sql_exists_def
  by (rule tab_ok_prepare [OF L t], rule tab_ok_select [OF L], assumption, rule tab_ok_Ok) (simp split: option.split)

lemma sql_is_dir_ok:
  assumes L: "sql_laws lk D tab" and t: "tab w = t"
  shows "tab_ok tab t (\<lambda>dir t'. t' = t \<and> (\<exists>r. t k = Some r \<and> dir = sr_is_dir r)) (sql_is_dir D k w)"
  unfolding sql_is_dir_def
  by (rule tab_ok_prepare [OF L t], rule tab_ok_select [OF L], assumption) (simp add: tab_ok_def split: option.split)

lemma sql_get_metadata_ok:
  assumes L: "sql_laws lk D tab" and t: "tab w = t"
  shows "tab_ok tab t (\<lambda>m t'. t' = t \<and> (\<exists>r. t k = Some r \<and> m = row_metadata D k r)) (sql_get_metadata D k w)"
  unfolding sql_get_metadata_def
  by (rule tab_ok_prepare [OF L t], rule tab_ok_select [OF L], assumption) (simp add: tab_ok_def split: option.split)

lemma sql_ensure_parent_ok:
  assumes L: "sql_laws lk D tab" and t: "tab w = t"
  shows "tab_ok tab t (\<lambda>_ t'. t' = t \<and> parent_dir t k) (sql_ensure_parent_exists D k w)"
proof (cases "parent k")
  case (Some par)
  show ?thesis unfolding sql_ensure_parent_exists_def Some option.case
  proof (rule tab_ok_try [of tab w t, OF t], rule tab_ok_If)
    fix s assume s: "sql_path_to_str par = Ok s" and n: "s \<noteq> ''/''"
    show "tab_ok tab t (\<lambda>_ t'. t' = t \<and> parent_dir t k)
        (bind_op (sql_get_metadata D s) (\<lambda>m w. (if is_directory m then Ok () else Err (NotADirectory s), w)) w)"
      by (rule tab_ok_bind, rule sql_get_metadata_ok [OF L t])
        (use s n Some in \<open>auto simp: tab_ok_def parent_dir_def row_is_directory sql_path_to_str_Ok\<close>)
  qed (use t Some in \<open>auto simp: tab_ok_def parent_dir_def sql_path_to_str_Ok\<close>)
qed (simp add: sql_ensure_parent_exists_def tab_ok_def parent_dir_def t)

text \<open>The old contents, or nothing when they could not be read.\<close>

lemma sql_old_data_ok:
  assumes L: "sql_laws lk D tab" and t: "tab w = t" and r: "t k = Some r"
  shows "tab_ok tab t (\<lambda>old t'. t' = t \<and> old \<in> {row_data r, []}) (sql_old_data D k w)"
  unfolding sql_old_data_def
proof (rule tab_ok_prepare [OF L t])
  fix w' assume w': "tab w' = t"
  obtain x w2 where x: "db_run D (Select_Path k) w' = (x, w2)" by (metis prod.exhaust)
  have "tab w2 = t" using sql_lawsD(2,3) [OF L] x w' by (cases x) fastforce+
  moreover have "rows = [(k, r)]" if "x = Inr rows" for rows using sql_lawsD(4) [OF L] x w' r that by fastforce
  ultimately show "tab_ok tab t (\<lambda>old t'. t' = t \<and> old \<in> {row_data r, []})
      (let (x, w') = db_run D (Select_Path k) w' in (Ok (case x of Inr ((q, r) # _) \<Rightarrow> row_data r | _ \<Rightarrow> []), w'))"
    by (cases x) (simp_all add: x tab_ok_def)
qed

lemma sql_write_data_spec:
  assumes "is_i64 offset" "length old \<le> isize_max" "sql_write_data old data offset flags = Ok d"
  shows "d = kept_or_replaced old data offset flags"
proof (cases "offset < 0")
  case True
  then have "length old \<le> as_usize offset" using as_usize_neg_gt [of offset] assms(1,2) by (simp add: is_i64_def)
  then show ?thesis using assms(3) True by (simp add: sql_write_data_def kept_or_replaced_def Let_def max_def)
next
  case False
  then have u: "as_usize offset = nat offset" "max offset 0 = offset" using assms(1) by (simp_all add: is_i64_def)
  show ?thesis
    using assms(3) False truncate_always [of flags]
    by (auto simp: sql_write_data_def kept_or_replaced_def Let_def u vec_resize_def outcome_simps split: if_splits)
qed

subsection \<open>Files\<close>

lemma sql_create_ok:
  assumes L: "sql_laws lk D tab"
  shows "tab_ok tab (tab w) (\<lambda>_ t'. utf8_valid p \<and> tab w (abs_path p) = None \<and> parent_dir (tab w) (abs_path p) \<and>
      t' = (tab w)(abs_path p \<mapsto> new_row D False (S_IFREG OR S_IRWXU OR S_IRGRP OR S_IROTH) now)) (sql_create D p now w)"
  unfolding sql_create_def
  by (rule tab_ok_try [OF refl], rule tab_ok_bind, rule sql_ensure_parent_ok [OF L refl], rule tab_ok_bind, erule sql_exists_ok [OF L],
      rule tab_ok_If, erule tab_ok_Err, erule tab_ok_run [OF L], rule tab_ok_Ok) (simp add: sql_path_to_str_Ok)

lemma sql_write_ok:
  assumes L: "sql_laws lk D tab" and i: "is_i64 offset" and len: "\<And>k r. tab w k = Some r \<Longrightarrow> length (row_data r) \<le> isize_max"
  shows "tab_ok tab (tab w) (\<lambda>n t'. n = length data \<and> n \<le> sq_max_file_size c \<and>
      (\<exists>r old. tab w (abs_path p) = Some r \<and> \<not> sr_is_dir r \<and> old \<in> {row_data r, []} \<and>
        t' = file_written (tab w) (abs_path p) (kept_or_replaced old data offset flags) (db_millis D now)))
    (sql_write D c p data offset flags now w)" (is "tab_ok _ _ ?Q _")
  unfolding sql_write_def
proof (rule tab_ok_try [OF refl], rule tab_ok_bind, rule sql_is_dir_ok [OF L refl], rule tab_ok_If, erule tab_ok_Err, rule tab_ok_If, erule tab_ok_Err)
  fix k dir w1
  assume k: "sql_path_to_str p = Ok k" and row: "\<exists>r. tab w k = Some r \<and> dir = sr_is_dir r" and w1: "tab w1 = tab w"
    and "\<not> dir" and small: "\<not> sq_max_file_size c < length data"
  then obtain r where r: "tab w k = Some r" "\<not> sr_is_dir r" by blast
  show "tab_ok tab (tab w) ?Q
      (bind_op (sql_old_data D k) (\<lambda>old. try_then (sql_write_data old data offset flags) (\<lambda>d.
         call_then (sql_io ''Failed to write'') (db_run D (Set_Data_Times d (db_millis D now) (db_millis D now) k)) (\<lambda>_ w. (Ok (length data), w)))) w1)"
  proof (rule tab_ok_bind, rule sql_old_data_ok [OF L w1 r(1)], rule tab_ok_try, assumption, erule tab_ok_run [OF L], rule tab_ok_Ok)
    fix old w2 d w3
    assume h: "old \<in> {row_data r, []}" "sql_write_data old data offset flags = Ok d"
      "sql_step lk (Set_Data_Times d (db_millis D now) (db_millis D now) k) (tab w) (tab w3)"
    have "d = kept_or_replaced old data offset flags"
      by (rule sql_write_data_spec [OF i _ h(2)]) (use h(1) len [OF r(1)] in auto)
    with h k r small show "?Q (length data) (tab w3)" by (auto simp: sql_path_to_str_Ok file_written_def)
  qed
qed

lemma sql_read_ok:
  assumes L: "sql_laws lk D tab"
  shows "tab_ok tab (tab w) (\<lambda>d t'. t' = tab w \<and> (\<exists>r. tab w (abs_path p) = Some r \<and> \<not> sr_is_dir r \<and> read_slice (row_data r) offset sz = Ok d))
    (sql_read D p offset sz now w)"
  unfolding sql_read_def
  by (rule tab_ok_try [OF refl], rule tab_ok_bind, rule sql_is_dir_ok [OF L refl], rule tab_ok_If, erule tab_ok_Err,
      erule tab_ok_prepare [OF L], erule tab_ok_select [OF L])
    (auto simp: tab_ok_def first_data_def sql_path_to_str_Ok split: option.split outcome.split)

lemma sql_truncate_ok:
  assumes L: "sql_laws lk D tab"
  shows "tab_ok tab (tab w) (\<lambda>_ t'. \<exists>r. tab w (abs_path p) = Some r \<and> \<not> sr_is_dir r \<and>
      t' = file_resized (tab w) (abs_path p) n (db_millis D now)) (sql_truncate D p n now w)" (is "tab_ok _ _ ?Q _")
  unfolding sql_truncate_def
proof (rule tab_ok_try [OF refl], rule tab_ok_bind, rule sql_is_dir_ok [OF L refl], rule tab_ok_If, erule tab_ok_Err,
      erule tab_ok_prepare [OF L], erule tab_ok_select [OF L], rule tab_ok_try, assumption, rule tab_ok_try, assumption, erule tab_ok_run [OF L], rule tab_ok_Ok)
  fix k dir w1 w2 w3 old d w4
  assume "sql_path_to_str p = Ok k" "\<exists>r. tab w k = Some r \<and> dir = sr_is_dir r" "\<not> dir"
    "first_data D ''Failed to read for truncate'' (case tab w k of None \<Rightarrow> [] | Some r \<Rightarrow> [(k, r)]) = Ok old"
    "(if n < length old then Ok (take n old) else vec_resize n old) = Ok d"
    "sql_step lk (Set_Data d (db_millis D now) k) (tab w) (tab w4)"
  then show "?Q () (tab w4)"
    by (auto simp: first_data_def sql_path_to_str_Ok vec_resize_def upd_row_def file_resized_def split: if_splits)
qed

subsection \<open>Trees\<close>

lemma sql_remove_ok:
  assumes L: "sql_laws lk D tab"
  shows "tab_ok tab (tab w) (\<lambda>_ t'. \<exists>r. tab w (abs_path p) = Some r \<and> (sr_is_dir r \<longrightarrow> (\<forall>q \<in> dom (tab w). \<not> lk (abs_path p @ ''/%'') q)) \<and>
      t' = (tab w)(abs_path p := None)) (sql_remove D p now w)" (is "tab_ok _ _ ?Q _")
  unfolding sql_remove_def
proof (rule tab_ok_try [OF refl], rule tab_ok_bind, rule sql_exists_ok [OF L refl], rule tab_ok_If, erule tab_ok_Err, rule tab_ok_bind, erule sql_is_dir_ok [OF L])
  fix k there w1 dir w2
  assume k: "sql_path_to_str p = Ok k" and row: "\<exists>r. tab w k = Some r \<and> dir = sr_is_dir r" and w2: "tab w2 = tab w"
  let ?check = "if dir then call_then (sql_io ''Failed to prepare empty check query'') (db_prepare D (Select_Like (k @ ''/%''))) (\<lambda>_.
      call_then (sql_io ''Failed to check if directory is empty'') (db_count D (k @ ''/%'')) (\<lambda>n w. (if n > 0 then Err DirectoryNotEmpty else Ok (), w)))
    else Pair (Ok ())"
  have "tab_ok tab (tab w) (\<lambda>_ t'. t' = tab w \<and> (dir \<longrightarrow> (\<forall>q \<in> dom (tab w). \<not> lk (k @ ''/%'') q))) (?check w2)"
    by (rule tab_ok_If, rule tab_ok_prepare [OF L w2], erule tab_ok_count [OF L]) (auto simp: tab_ok_def w2)
  then show "tab_ok tab (tab w) ?Q (bind_op ?check (\<lambda>_. call_then (sql_io ''Failed to remove'') (db_run D (Delete_Path k)) (\<lambda>_ w. (Ok (), w))) w2)"
    by (rule tab_ok_bind, intro tab_ok_run [OF L] tab_ok_Ok) (use k row in \<open>auto simp: sql_path_to_str_Ok\<close>)
qed

lemma sql_remove_all_ok:
  assumes L: "sql_laws lk D tab"
  shows "tab_ok tab (tab w) (\<lambda>_ t'. tab w (abs_path p) \<noteq> None \<and> t' = (\<lambda>q. if q = abs_path p \<or> lk (abs_path p @ ''/%'') q then None else tab w q))
    (sql_remove_all D p now w)"
  unfolding sql_remove_all_def
  by (rule tab_ok_try [OF refl], rule tab_ok_bind, rule sql_exists_ok [OF L refl], rule tab_ok_If, erule tab_ok_Err, erule tab_ok_run [OF L], rule tab_ok_Ok)
    (auto simp: sql_path_to_str_Ok)

lemma sql_rename_ok:
  fixes p q :: path and w :: 'w
  assumes L: "sql_laws lk D tab"
  defines "old \<equiv> abs_path p" and "new \<equiv> abs_path q"
  defines "children \<equiv> renamed (\<lambda>x. if lk (old @ ''/%'') x then new @ skip_chars (length old) x else x) (tab w)"
    and "one \<equiv> renamed (\<lambda>x. if x = old then new else x)"
  shows "tab_or tab (\<lambda>t'. t' = tab w \<or> children t')
    (\<lambda>_ t'. \<exists>r. tab w old = Some r \<and> tab w new = None \<and> (if sr_is_dir r then \<exists>t1. children t1 \<and> one t1 t' else one (tab w) t'))
    (sql_rename D p q now w)"
  unfolding sql_rename_def
proof (rule tab_or_try, simp, rule tab_or_try, simp, rule tab_or_bind, rule sql_exists_ok [OF L refl], simp, rule tab_or_If, rule tab_or_Err, simp,
    rule tab_or_bind, erule sql_exists_ok [OF L], simp, rule tab_or_If, rule tab_or_Err, simp, rule tab_or_bind, erule sql_is_dir_ok [OF L], simp, rule tab_or_If)
  fix k l there w1 taken w2 dir w3
  assume kl: "sql_path_to_str p = Ok k" "sql_path_to_str q = Ok l"
    and row: "taken \<longleftrightarrow> tab w l \<noteq> None" "\<not> taken" "\<exists>r. tab w k = Some r \<and> dir = sr_is_dir r" and w3: "tab w3 = tab w"
  have kl: "k = old" "l = new" using kl by (simp_all add: sql_path_to_str_Ok old_def new_def)
  show "tab_or tab (\<lambda>t'. t' = tab w \<or> children t')
    (\<lambda>_ t'. \<exists>r. tab w old = Some r \<and> tab w new = None \<and> (if sr_is_dir r then \<exists>t1. children t1 \<and> one t1 t' else one (tab w) t'))
    (call_then (sql_io ''Failed to move directory children'') (db_run D (Move_Like l (length k) (k @ ''/%''))) (\<lambda>_.
       call_then (sql_io ''Failed to move directory'') (db_run D (Set_Path l k)) (\<lambda>_ w. (Ok (), w))) w3)" if "dir"
    by (rule tab_or_run [OF L], simp add: w3, rule tab_or_run [OF L], simp add: children_def kl w3, rule tab_or_Ok)
      (use that row in \<open>auto simp: children_def one_def kl w3\<close>)
  show "tab_or tab (\<lambda>t'. t' = tab w \<or> children t')
    (\<lambda>_ t'. \<exists>r. tab w old = Some r \<and> tab w new = None \<and> (if sr_is_dir r then \<exists>t1. children t1 \<and> one t1 t' else one (tab w) t'))
    (call_then (sql_io ''Failed to rename'') (db_run D (Set_Path l k)) (\<lambda>_ w. (Ok (), w)) w3)" if "\<not> dir"
    by (rule tab_or_run [OF L], simp add: w3, rule tab_or_Ok) (use that row in \<open>auto simp: one_def kl w3\<close>)
qed



subsection \<open>Examples\<close>

definition sample_table :: "(string \<times> sql_row) list" where
  "sample_table = map (\<lambda>(k, dir, d). (k, (new_row (memory_sql sqlite_like) dir (if dir then S_IFDIR else S_IFREG) 0)\<lparr>sr_data := Some d\<rparr>))
     [(''/'', True, []), (''/d'', True, []), (''/d/f'', False, ''hello''), (''/d_x'', True, []), (''/dyx'', True, []), (''/dyx/g'', False, [])]"

lemma sample_keys: "dom (map_of sample_table) = set [''/'', ''/d'', ''/d/f'', ''/d_x'', ''/dyx'', ''/dyx/g'']"
  by (simp add: dom_map_of_conv_image_fst sample_table_def)

lemma sample_lengths: "\<forall>k r. map_of sample_table k = Some r \<longrightarrow> length (row_data r) \<le> isize_max"
proof (intro allI impI)
  fix k r assume "map_of sample_table k = Some r"
  then have "(k, r) \<in> set sample_table" by (rule map_of_SomeD)
  then show "length (row_data r) \<le> isize_max" by (auto simp: sample_table_def row_data_def new_row_def)
qed



text \<open>
  An underscore in the path matches any character, so removing \<open>/d_x\<close> takes \<open>/dyx/g\<close> with it; the root can be removed although it has children; and moving a directory
  with a name outside of ASCII cuts too much off the children (here the separator).
\<close>

lemma sql_wildcard_removes:
  "map fst (snd (sql_remove_all (memory_sql sqlite_like) ''/d_x'' 0 sample_table)) = [''/'', ''/d'', ''/d/f'', ''/dyx'']"
  by code_simp

lemma sql_root_removed:
  "fst (sql_remove (memory_sql sqlite_like) ''/'' 0 sample_table) = Ok ()"
  by code_simp

lemma sql_rename_cuts:
  "let dir = [slash, CHR 0xC3, CHR 0xA9]; row = (\<lambda>d. new_row (memory_sql sqlite_like) d S_IFDIR 0)
   in map fst (snd (sql_rename (memory_sql sqlite_like) dir ''/n'' 0 [(dir, row True), (dir @ ''/x'', row False)])) = [''/n'', ''/nx'']"
  by code_simp

text \<open>After \<open>chmod\<close> of a directory without its type bits nothing can be created in it.\<close>

lemma sql_chmod_breaks_dir:
  "(let D = memory_sql sqlite_like in fst (sql_create D ''/d/g'' 0 (snd (sql_chmod D ''/d'' 448 0 sample_table)))) = Err (NotADirectory ''/d'')"
  by code_simp

end
