(* ===== verification/Vector_FS.thy ===== *)
theory Vector_FS
  imports Sql_FS Http_Wire
begin

text \<open>
  The crate \<open>racfs-plugin-vectorfs\<close>: documents with vector embeddings in a table of LanceDB, virtual files about the index, and searches as directories. The state
  is the metadata of the paths, the queries, the extended attributes and the state of everything outside; LanceDB, Arrow, the embedding service, \<open>serde_json\<close>, \<open>chrono\<close>,
  the hasher of the standard library and the arithmetic of \<open>f32\<close> (type \<open>'f\<close>) are parameters.
\<close>

subsection \<open>Configuration and parameters\<close>

record VectorConfig =
  vc_storage_uri :: string
  vc_embedding_api :: "string option"
  vc_table_name :: string
  vc_dimension :: nat

definition vector_config_default :: VectorConfig where
  "vector_config_default = \<lparr>vc_storage_uri = ''./vector_db'', vc_embedding_api = None, vc_table_name = ''vectors'', vc_dimension = 384\<rparr>"

datatype data_type = DT_Utf8 | DT_Binary | DT_Float32_List int | DT_UInt32 | DT_Int64

text \<open>Name, type and whether a column may be null.\<close>

definition vectors_schema :: "nat \<Rightarrow> (string \<times> data_type \<times> bool) list" where
  "vectors_schema dimension =
     [(''path'', DT_Utf8, False), (''data'', DT_Binary, False), (''vector'', DT_Float32_List (as_i32 dimension), True),
      (''mode'', DT_UInt32, False), (''created_at'', DT_Int64, True), (''modified_at'', DT_Int64, True)]"

text \<open>
  A batch of rows by columns. A column is \<open>None\<close> when it is missing or of another type, an entry is \<open>None\<close> when it is null; a vector that does not
  consist of \<open>f32\<close> is \<open>Some None\<close>.
\<close>

record 'f batch =
  ba_rows :: nat
  ba_path :: "string option list option"
  ba_data :: "bytes option list option"
  ba_vector :: "'f list option option list option"
  ba_mode :: "mode option list option"
  ba_created :: "int option list option"
  ba_modified :: "int option list option"
  ba_distance :: "'f option list option"

record 'f document =
  dc_data :: bytes
  dc_vector :: "'f list"
  dc_mode :: mode
  dc_created :: "int option"
  dc_modified :: "int option"

record api_answer =
  aa_status :: nat
  aa_status_text :: string
  aa_body :: "string + bytes"

text \<open>A query fails when it is sent (\<open>Inl\<close>) or when its batches are collected (\<open>Inr (Inl e)\<close>).\<close>

record ('w, 'f) vector_env =
  vd_connect :: "string \<Rightarrow> 'w \<Rightarrow> (string + unit) \<times> 'w"
  vd_table_names :: "'w \<Rightarrow> (string + string list) \<times> 'w"
  vd_open_table :: "string \<Rightarrow> 'w \<Rightarrow> (string + unit) \<times> 'w"
  vd_create_table :: "string \<Rightarrow> (string \<times> data_type \<times> bool) list \<Rightarrow> 'w \<Rightarrow> (string + unit) \<times> 'w"
  vd_count :: "'w \<Rightarrow> (string + nat) \<times> 'w"
  vd_select :: "string \<Rightarrow> nat \<Rightarrow> 'w \<Rightarrow> (string + (string + 'f batch list)) \<times> 'w"
  vd_scan :: "'w \<Rightarrow> (string + (string + 'f batch list)) \<times> 'w"
  vd_nearest_to :: "'f list \<Rightarrow> string + unit"
  vd_nearest :: "'f list \<Rightarrow> nat \<Rightarrow> 'w \<Rightarrow> (string + (string + 'f batch list)) \<times> 'w"
  vd_batch :: "nat \<Rightarrow> string \<Rightarrow> 'f document \<Rightarrow> (unit, string) outcome"
  vd_merge :: "string \<Rightarrow> 'f document \<Rightarrow> 'w \<Rightarrow> (string + unit) \<times> 'w"
  vd_delete :: "string \<Rightarrow> 'w \<Rightarrow> (string + unit) \<times> 'w"
  vd_post :: "string \<Rightarrow> string \<Rightarrow> 'w \<Rightarrow> (string + api_answer) \<times> 'w"
  vd_floats :: "bytes \<Rightarrow> string + 'f list"
  vd_json :: "bytes \<Rightarrow> json option"
  vd_print :: "(string \<times> 'f) list \<Rightarrow> bytes option"
  vd_hash :: "bytes \<Rightarrow> 64 word"
  vf_ratio :: "nat \<Rightarrow> 'f"
  vf_zero :: 'f
  vf_add :: "'f \<Rightarrow> 'f \<Rightarrow> 'f"
  vf_mul :: "'f \<Rightarrow> 'f \<Rightarrow> 'f"
  vf_div :: "'f \<Rightarrow> 'f \<Rightarrow> 'f"
  vf_sqrt :: "'f \<Rightarrow> 'f"
  vf_neg :: "'f \<Rightarrow> 'f"
  vf_positive :: "'f \<Rightarrow> bool"
  vd_millis :: "time \<Rightarrow> int"
  vd_from_millis :: "int \<Rightarrow> time option"

record 'w VectorFS =
  vx_config :: VectorConfig
  vx_client :: bool
  vx_metadata :: "(path \<times> FileMetadata) list"
  vx_search_queries :: "(string \<times> bytes) list"
  vx_xattrs :: "(path \<times> (string \<times> bytes) list) list"
  vx_db :: 'w

definition at_db :: "('w \<Rightarrow> 'r \<times> 'w) \<Rightarrow> 'w VectorFS \<Rightarrow> 'r \<times> 'w VectorFS" where
  "at_db call s = (case call (vx_db s) of (r, w) \<Rightarrow> (r, s\<lparr>vx_db := w\<rparr>))"

text \<open>A query with its two errors.\<close>

definition query_then :: "string \<Rightarrow> string \<Rightarrow> ('w \<Rightarrow> (string + (string + 'f batch list)) \<times> 'w) \<Rightarrow>
    ('f batch list \<Rightarrow> 'w VectorFS \<Rightarrow> 'a fs_result \<times> 'w VectorFS) \<Rightarrow> 'w VectorFS \<Rightarrow> 'a fs_result \<times> 'w VectorFS" where
  "query_then sent collected call f =
     call_then (sql_io sent) (at_db call) (\<lambda>r s. case r of Inl e \<Rightarrow> (Err (sql_io collected e), s) | Inr bs \<Rightarrow> f bs s)"

subsection \<open>Start\<close>

definition open_or_create_table :: "('w, 'f) vector_env \<Rightarrow> VectorConfig \<Rightarrow> 'w \<Rightarrow> unit fs_result \<times> 'w" where
  "open_or_create_table E c =
     call_then (sql_io ''LanceDB list tables'') (vd_table_names E) (\<lambda>names.
       if vc_table_name c \<in> set names then call_then (sql_io ''LanceDB open_table'') (vd_open_table E (vc_table_name c)) (\<lambda>_ w. (Ok (), w))
       else call_then (sql_io ''LanceDB create_table'') (vd_create_table E (vc_table_name c) (vectors_schema (vc_dimension c))) (\<lambda>_ w. (Ok (), w)))"

definition init_virtual_paths :: "VectorConfig \<Rightarrow> time \<Rightarrow> (path \<times> FileMetadata) list" where
  "init_virtual_paths c now =
     foldl (\<lambda>m (p, e). pm_insert m p e) []
       [(''/'', metadata_directory now ''/''),
        (''/documents'', metadata_directory now ''/documents''),
        (''/index'', metadata_directory now ''/index''),
        (''/index/count'', metadata_file now ''/index/count'' 0),
        (''/index/dimension'', metadata_file now ''/index/dimension'' (length (dec (vc_dimension c)))),
        (''/index/status'', metadata_file now ''/index/status'' 5),
        (''/search'', metadata_directory now ''/search'')]"

definition with_config_async :: "('w, 'f) vector_env \<Rightarrow> VectorConfig \<Rightarrow> ('w, 'w VectorFS) fs_op" where
  "with_config_async E c now =
     call_then (sql_io ''LanceDB connect failed'') (vd_connect E (vc_storage_uri c)) (\<lambda>_.
     bind_op (open_or_create_table E c) (\<lambda>_ w.
       (Ok \<lparr>vx_config = c, vx_client = (vc_embedding_api c \<noteq> None), vx_metadata = init_virtual_paths c now, vx_search_queries = [], vx_xattrs = [], vx_db = w\<rparr>, w)))"

subsection \<open>Documents\<close>

definition is_virtual_path :: "path \<Rightarrow> bool" where
  "is_virtual_path p \<longleftrightarrow> starts_with (from_utf8_lossy p) ''/index/'' \<or> starts_with (from_utf8_lossy p) ''/search/''"

definition document_count :: "('w, 'f) vector_env \<Rightarrow> 'w VectorFS \<Rightarrow> nat fs_result \<times> 'w VectorFS" where
  "document_count E = call_then (sql_io ''LanceDB count_rows'') (at_db (vd_count E)) (\<lambda>n s. (Ok n, s))"

definition escape_sql_string :: "string \<Rightarrow> string" where
  "escape_sql_string s =
     concat (map (\<lambda>c. if c = CHR 0x27 then [c, c] else [c]) (concat (map (\<lambda>c. if c = CHR 0x5C then [c, c] else [c]) s)))"

definition path_predicate :: "string \<Rightarrow> string" where
  "path_predicate s = ''path = '' @ [CHR 0x27] @ escape_sql_string s @ [CHR 0x27]"

definition column :: "string \<Rightarrow> 'a list option \<Rightarrow> 'a list fs_result" where
  "column what c = ok_or c (Io (''LanceDB: '' @ what))"

definition decode_document :: "'f batch \<Rightarrow> 'f document option fs_result" where
  "decode_document b =
     and_then (column ''path column'' (ba_path b)) (\<lambda>paths.
     and_then (column ''data column'' (ba_data b)) (\<lambda>datas.
     and_then (column ''vector column'' (ba_vector b)) (\<lambda>vectors.
     and_then (column ''mode column'' (ba_mode b)) (\<lambda>modes.
       let created = Option.bind (ba_created b) hd; modified = Option.bind (ba_modified b) hd
       in case (hd paths, hd datas, hd modes) of
            (Some _, Some d, Some m) \<Rightarrow>
              (case hd vectors of
                 None \<Rightarrow> Ok (Some \<lparr>dc_data = d, dc_vector = [], dc_mode = m, dc_created = created, dc_modified = modified\<rparr>)
               | Some None \<Rightarrow> Err (Io ''LanceDB: vector inner Float32'')
               | Some (Some v) \<Rightarrow> Ok (Some \<lparr>dc_data = d, dc_vector = v, dc_mode = m, dc_created = created, dc_modified = modified\<rparr>))
          | _ \<Rightarrow> Ok None))))"

definition first_document :: "'f batch list \<Rightarrow> 'f document option fs_result" where
  "first_document bs = (case bs of b # _ \<Rightarrow> if ba_rows b > 0 then decode_document b else Ok None | [] \<Rightarrow> Ok None)"

definition get_document :: "('w, 'f) vector_env \<Rightarrow> path \<Rightarrow> 'w VectorFS \<Rightarrow> 'f document option fs_result \<times> 'w VectorFS" where
  "get_document E p =
     query_then ''LanceDB query by path'' ''LanceDB query collect'' (vd_select E (path_predicate (from_utf8_lossy p)) 1) (\<lambda>bs s. (first_document bs, s))"

definition found_rows :: "('w, 'f) vector_env \<Rightarrow> 'f batch \<Rightarrow> (path \<times> 'f) list" where
  "found_rows E b =
     (case ba_path b of
        None \<Rightarrow> []
      | Some paths \<Rightarrow>
          List.map_filter (\<lambda>(p, d). map_option (\<lambda>q. (q, case d of Some x \<Rightarrow> vf_neg E x | None \<Rightarrow> vf_zero E)) p)
            (zip paths (case ba_distance b of Some ds \<Rightarrow> ds | None \<Rightarrow> replicate (length paths) None)))"

definition search :: "('w, 'f) vector_env \<Rightarrow> 'f list \<Rightarrow> nat \<Rightarrow> 'w VectorFS \<Rightarrow> (path \<times> 'f) list fs_result \<times> 'w VectorFS" where
  "search E query limit s =
     (let dim = vc_dimension (vx_config s)
      in if length query \<noteq> dim then
           (Err (InvalidInput (''query dimension '' @ dec (length query) @ '' != config dimension '' @ dec dim)), s)
         else case vd_nearest_to E query of
             Inl e \<Rightarrow> (Err (sql_io ''LanceDB nearest_to'' e), s)
           | Inr _ \<Rightarrow> query_then ''LanceDB vector search'' ''LanceDB search collect'' (vd_nearest E query limit) (\<lambda>bs s. (Ok (concat (map (found_rows E) bs)), s)) s)"

text \<open>The row of a document: missing times become 0.\<close>

definition document_row :: "'f document \<Rightarrow> 'f document" where
  "document_row d = d\<lparr>dc_created := Some (case dc_created d of Some t \<Rightarrow> t | None \<Rightarrow> 0), dc_modified := Some (case dc_modified d of Some t \<Rightarrow> t | None \<Rightarrow> 0)\<rparr>"

lemma document_row_fields [simp]: "dc_data (document_row d) = dc_data d" "dc_mode (document_row d) = dc_mode d" "dc_vector (document_row d) = dc_vector d"
  by (simp_all add: document_row_def)

definition persist_document :: "('w, 'f) vector_env \<Rightarrow> string \<Rightarrow> 'f document \<Rightarrow> 'w VectorFS \<Rightarrow> unit fs_result \<times> 'w VectorFS" where
  "persist_document E k d s =
     try_then
       (case vd_batch E (vc_dimension (vx_config s)) k (document_row d) of Ok _ \<Rightarrow> Ok () | Err e \<Rightarrow> Err (sql_io ''RecordBatch'' e) | Panic \<Rightarrow> Panic | Hang \<Rightarrow> Hang)
       (\<lambda>_. call_then (sql_io ''LanceDB merge_insert'') (at_db (vd_merge E k (document_row d))) (\<lambda>_ s. (Ok (), s))) s"

definition delete_from_db :: "('w, 'f) vector_env \<Rightarrow> string \<Rightarrow> 'w VectorFS \<Rightarrow> unit fs_result \<times> 'w VectorFS" where
  "delete_from_db E k = call_then (sql_io ''LanceDB delete'') (at_db (vd_delete E (path_predicate k))) (\<lambda>_ s. (Ok (), s))"

definition list_document_paths :: "('w, 'f) vector_env \<Rightarrow> 'w VectorFS \<Rightarrow> path list fs_result \<times> 'w VectorFS" where
  "list_document_paths E =
     query_then ''LanceDB list paths'' ''LanceDB list collect'' (vd_scan E) (\<lambda>bs s.
       (Ok (concat (map (\<lambda>b. case ba_path b of Some ps \<Rightarrow> List.map_filter (\<lambda>p. p) ps | None \<Rightarrow> []) bs)), s))"

subsection \<open>Embeddings\<close>

fun lcg_values :: "nat \<Rightarrow> 64 word \<Rightarrow> nat list" where
  "lcg_values 0 x = []"
| "lcg_values (Suc n) x = (let y = x * 1103515245 + 12345 in unat (drop_bit 16 y AND 0x7fff) # lcg_values n y)"

definition seed_to_vector :: "('w, 'f) vector_env \<Rightarrow> nat \<Rightarrow> 64 word \<Rightarrow> 'f list" where
  "seed_to_vector E dimension seed =
     (let v = map (vf_ratio E) (lcg_values dimension seed);
          magnitude = vf_sqrt E (foldl (vf_add E) (vf_zero E) (map (\<lambda>x. vf_mul E x x) v))
      in if vf_positive E magnitude then map (\<lambda>x. vf_div E x magnitude) v else v)"

definition content_to_vector :: "('w, 'f) vector_env \<Rightarrow> nat \<Rightarrow> bytes \<Rightarrow> 'f list" where
  "content_to_vector E dimension content = seed_to_vector E dimension (vd_hash E content)"

definition read_answer :: "('w, 'f) vector_env \<Rightarrow> nat \<Rightarrow> api_answer \<Rightarrow> 'f list fs_result" where
  "read_answer E dim a =
     (case aa_body a of
        Inl e \<Rightarrow> Err (InvalidInput (''Embedding API response read failed: '' @ e))
      | Inr body \<Rightarrow>
          if \<not> (200 \<le> aa_status a \<and> aa_status a < 300) then
            Err (InvalidInput (''Embedding API returned '' @ aa_status_text a @ '': '' @ from_utf8_lossy body))
          else (case vd_floats E body of
              Inl e \<Rightarrow> Err (InvalidInput (''Embedding API response not JSON array: '' @ e))
            | Inr v \<Rightarrow>
                if length v \<noteq> dim then
                  Err (InvalidInput (''Embedding API returned dimension '' @ dec (length v) @ '' but expected '' @ dec dim))
                else Ok v))"

definition embed_content :: "('w, 'f) vector_env \<Rightarrow> bytes \<Rightarrow> 'w VectorFS \<Rightarrow> 'f list fs_result \<times> 'w VectorFS" where
  "embed_content E content s =
     (let c = vx_config s
      in if \<not> vx_client s then (Ok (content_to_vector E (vc_dimension c) content), s)
         else try_then (ok_or (vc_embedding_api c) (InvalidInput ''embedding_api not set'')) (\<lambda>url.
           if \<not> utf8_valid content then Pair (Err (InvalidInput ''Content must be valid UTF-8 when using embedding API''))
           else call_then (\<lambda>e. InvalidInput (''Embedding API request failed: '' @ e))
             (at_db (vd_post E (trim_end_char slash url @ ''/embed'') content)) (\<lambda>a s. (read_answer E (vc_dimension c) a, s))) s)"

definition parse_vector_xattr :: "('w, 'f) vector_env \<Rightarrow> bytes \<Rightarrow> nat \<Rightarrow> 'f list fs_result" where
  "parse_vector_xattr E v dim =
     (case vd_floats E v of
        Inl e \<Rightarrow> Err (InvalidInput (''racfs.vector xattr must be JSON array of numbers: '' @ e))
      | Inr xs \<Rightarrow>
          if length xs \<noteq> dim then
            Err (InvalidInput (''racfs.vector dimension '' @ dec (length xs) @ '' does not match config dimension '' @ dec dim))
          else Ok xs)"

subsection \<open>Queries\<close>

text \<open>\<open>str::trim_start_matches\<close> and \<open>trim_end_matches\<close> for a text.\<close>

function trim_start_matches :: "string \<Rightarrow> string \<Rightarrow> string" where
  "trim_start_matches pat s = (if pat \<noteq> [] \<and> starts_with s pat then trim_start_matches pat (drop (length pat) s) else s)"
  by pat_completeness auto
termination
  by (relation "measure (\<lambda>(pat, s). length s)") (auto simp: starts_with_iff)

declare trim_start_matches.simps [simp del]

definition trim_end_matches :: "string \<Rightarrow> string \<Rightarrow> string" where
  "trim_end_matches pat s = rev (trim_start_matches (rev pat) (rev s))"

definition query_id :: "string \<Rightarrow> string \<Rightarrow> string" where
  "query_id suffix s = trim_end_char slash (trim_end_matches suffix (trim_start_matches ''/search/'' s))"

definition search_id :: "string \<Rightarrow> string" where
  "search_id s = trim_end_char slash (trim_start_matches ''/search/'' s)"

definition is_search_file :: "string \<Rightarrow> path \<Rightarrow> bool" where
  "is_search_file suffix p \<longleftrightarrow> str_contains (from_utf8_lossy p) ''/search/'' \<and> ends_with (from_utf8_lossy p) suffix"

definition DEFAULT_SEARCH_LIMIT :: nat where "DEFAULT_SEARCH_LIMIT = 10"
definition MAX_SEARCH_LIMIT :: nat where "MAX_SEARCH_LIMIT = 1000"

definition ascii_ws :: "char \<Rightarrow> bool" where
  "ascii_ws c \<longleftrightarrow> c \<in> {CHR '' '', CHR 0x09, CHR 0x0A, CHR 0x0C, CHR 0x0D}"

definition trim_whitespace :: "bytes \<Rightarrow> bytes fs_result" where
  "trim_whitespace b =
     (let start = length (takeWhile ascii_ws b);
          stop = (if list_all ascii_ws b then 0 else length b - length (takeWhile ascii_ws (rev b)))
      in index_range b start stop)"

definition clamp :: "nat \<Rightarrow> nat \<Rightarrow> nat \<Rightarrow> nat" where
  "clamp lo hi n = (if n < lo then lo else if n > hi then hi else n)"

definition parse_query_and_limit :: "('w, 'f) vector_env \<Rightarrow> bytes \<Rightarrow> (bytes \<times> nat) fs_result" where
  "parse_query_and_limit E query_bytes =
     and_then (trim_whitespace query_bytes) (\<lambda>trimmed.
       if trimmed = [] then Ok ([], DEFAULT_SEARCH_LIMIT)
       else (case vd_json E trimmed of
           Some (JObj obj) \<Rightarrow>
             (let query = Option.bind (map_of obj ''query'') as_str;
                  limit = (case Option.bind (map_of obj ''limit'') as_u64 of Some n \<Rightarrow> n | None \<Rightarrow> DEFAULT_SEARCH_LIMIT)
              in Ok (case query of Some q \<Rightarrow> q | None \<Rightarrow> query_bytes, clamp 1 MAX_SEARCH_LIMIT limit))
         | _ \<Rightarrow> Ok (query_bytes, DEFAULT_SEARCH_LIMIT)))"

definition query_slice :: "bytes \<Rightarrow> int \<Rightarrow> int \<Rightarrow> bytes fs_result" where
  "query_slice data offset sz =
     (let start = as_usize (max offset 0);
          stop = (if sz < 0 then length data else min (u64_add (as_usize offset) (as_usize sz)) (length data))
      in if start \<ge> length data then Ok [] else index_range data start stop)"

subsection \<open>Reading\<close>

definition is_document :: "path \<Rightarrow> bool" where
  "is_document p \<longleftrightarrow> starts_with (from_utf8_lossy p) ''/documents/''"

definition stored_query :: "'w VectorFS \<Rightarrow> string \<Rightarrow> bytes" where
  "stored_query s i = (case hm_get (=) (vx_search_queries s) i of Some q \<Rightarrow> q | None \<Rightarrow> [])"

definition run_search :: "('w, 'f) vector_env \<Rightarrow> bytes \<Rightarrow> 'w VectorFS \<Rightarrow> bytes fs_result \<times> 'w VectorFS" where
  "run_search E query =
     try_then (parse_query_and_limit E query) (\<lambda>(q, limit).
     bind_op (embed_content E q) (\<lambda>v.
     bind_op (search E v limit) (\<lambda>found s.
       (Ok (case vd_print E (map (\<lambda>(p, x). (from_utf8_lossy p, x)) found) of Some d \<Rightarrow> d | None \<Rightarrow> ''[]''), s))))"

definition vector_read :: "('w, 'f) vector_env \<Rightarrow> path \<Rightarrow> int \<Rightarrow> int \<Rightarrow> ('w VectorFS, bytes) fs_op" where
  "vector_read E p offset sz now s =
     (let path_str = from_utf8_lossy p
      in if path_str = ''/index/count'' then bind_op (document_count E) (\<lambda>n s. (read_slice (dec n) offset sz, s)) s
         else if path_str = ''/index/status'' then (read_slice ''ready'' offset sz, s)
         else if path_str = ''/index/dimension'' then (read_slice (dec (vc_dimension (vx_config s))) offset sz, s)
         else if is_document p then
           bind_op (get_document E p) (\<lambda>d s. (case d of None \<Rightarrow> Err (NotFound p) | Some d \<Rightarrow> read_slice (dc_data d) offset sz, s)) s
         else if is_search_file ''/query.txt'' p then (query_slice (stored_query s (query_id ''/query.txt'' path_str)) offset sz, s)
         else if is_search_file ''/matches.txt'' p then
           bind_op (run_search E (stored_query s (query_id ''/matches.txt'' path_str))) (\<lambda>d s. (query_slice d offset sz, s)) s
         else (Err (NotFound p), s))"

definition document_metadata :: "('w, 'f) vector_env \<Rightarrow> path \<Rightarrow> 'f document \<Rightarrow> FileMetadata" where
  "document_metadata E p d =
     (let modified = Option.bind (dc_modified d) (vd_from_millis E)
      in \<lparr>md_path = p, md_size = length (dc_data d), md_mode = dc_mode d, md_created = Option.bind (dc_created d) (vd_from_millis E),
          md_modified = modified, md_accessed = modified, md_is_symlink = False, md_symlink_target = None\<rparr>)"

definition cached_metadata :: "path \<Rightarrow> 'w VectorFS \<Rightarrow> FileMetadata fs_result" where
  "cached_metadata p s = ok_or (pm_get (vx_metadata s) p) (NotFound p)"

definition vector_stat :: "('w, 'f) vector_env \<Rightarrow> path \<Rightarrow> ('w VectorFS, FileMetadata) fs_op" where
  "vector_stat E p now s =
     (let path_str = from_utf8_lossy p
      in if path_str = ''/index/count'' then
           try_then (cached_metadata p s) (\<lambda>m. bind_op (document_count E) (\<lambda>n s. (Ok (m\<lparr>md_size := n\<rparr>), s))) s
         else if path_str = ''/index/status'' \<or> path_str = ''/index/dimension'' then (cached_metadata p s, s)
         else if is_search_file ''/query.txt'' p \<and> pm_contains (vx_metadata s) p then
           (and_then (cached_metadata p s) (\<lambda>m. Ok (m\<lparr>md_size := length (stored_query s (query_id ''/query.txt'' path_str))\<rparr>)), s)
         else if is_search_file ''/matches.txt'' p \<and> pm_contains (vx_metadata s) p then
           (and_then (cached_metadata p s) (\<lambda>m. Ok (m\<lparr>md_size := 0\<rparr>)), s)
         else if is_document p then
           bind_op (get_document E p) (\<lambda>d s. (case d of Some d \<Rightarrow> Ok (document_metadata E p d) | None \<Rightarrow> cached_metadata p s, s)) s
         else (cached_metadata p s, s))"

subsection \<open>Writing\<close>

definition put_metadata :: "path \<Rightarrow> FileMetadata \<Rightarrow> 'w VectorFS \<Rightarrow> 'w VectorFS" where
  "put_metadata p m s = s\<lparr>vx_metadata := pm_insert (vx_metadata s) p m\<rparr>"

definition edit_metadata :: "path \<Rightarrow> (FileMetadata \<Rightarrow> FileMetadata) \<Rightarrow> 'w VectorFS \<Rightarrow> 'w VectorFS" where
  "edit_metadata p f s = (case pm_get (vx_metadata s) p of Some m \<Rightarrow> put_metadata p (f m) s | None \<Rightarrow> s)"

definition vector_create :: "('w, 'f) vector_env \<Rightarrow> path \<Rightarrow> ('w VectorFS, unit) fs_op" where
  "vector_create E p now s =
     (if is_virtual_path p then (Err (PermissionDenied p), s)
      else if \<not> is_document p then (Err (NotSupported ''Can only create files in /documents/''), s)
      else bind_op (get_document E p) (\<lambda>old s.
        if old \<noteq> None then (Err (AlreadyExists p), s)
        else
          bind_op (persist_document E (from_utf8_lossy p) \<lparr>dc_data = [], dc_vector = content_to_vector E (vc_dimension (vx_config s)) [],
              dc_mode = 420, dc_created = Some (vd_millis E now), dc_modified = Some (vd_millis E now)\<rparr>)
            (\<lambda>_ s. (Ok (), put_metadata p (metadata_file now p 0) s)) s) s)"

definition query_data :: "bytes \<Rightarrow> bytes \<Rightarrow> int \<Rightarrow> flags \<Rightarrow> bytes fs_result" where
  "query_data stored data offset flags =
     (if offset \<le> 0 \<and> \<not> contains_append flags then Ok data
      else if contains_append flags \<or> as_usize offset \<ge> length stored then Ok (stored @ data)
      else
        (let start = as_usize offset; stop = start + length data
         in and_then (if stop > length stored then vec_resize stop stored else Ok stored) (\<lambda>d. vec_copy_from_slice start stop data d)))"

definition write_query :: "path \<Rightarrow> bytes \<Rightarrow> int \<Rightarrow> flags \<Rightarrow> 'w VectorFS \<Rightarrow> nat fs_result \<times> 'w VectorFS" where
  "write_query p data offset flags s =
     (let i = query_id ''/query.txt'' (from_utf8_lossy p)
      in if i = [] \<or> slash \<in> set i then (Err (PermissionDenied p), s)
         else try_then (ok_or (hm_get (=) (vx_search_queries s) i) (NotFound p)) (\<lambda>stored.
           try_then (query_data stored data offset flags) (\<lambda>d s.
             (Ok (length data), edit_metadata p (\<lambda>m. m\<lparr>md_size := length d\<rparr>) (s\<lparr>vx_search_queries := hm_insert (=) (vx_search_queries s) i d\<rparr>)))) s)"

definition choose_vector :: "('w, 'f) vector_env \<Rightarrow> path \<Rightarrow> bytes \<Rightarrow> 'w VectorFS \<Rightarrow> 'f list fs_result \<times> 'w VectorFS" where
  "choose_vector E p data s =
     (case Option.bind (pm_get (vx_xattrs s) p) (\<lambda>m. hm_get (=) m ''racfs.vector'') of
        Some v \<Rightarrow> (case parse_vector_xattr E v (vc_dimension (vx_config s)) of Ok x \<Rightarrow> (Ok x, s) | _ \<Rightarrow> embed_content E data s)
      | None \<Rightarrow> embed_content E data s)"

definition vector_write :: "('w, 'f) vector_env \<Rightarrow> path \<Rightarrow> bytes \<Rightarrow> int \<Rightarrow> flags \<Rightarrow> ('w VectorFS, nat) fs_op" where
  "vector_write E p data offset flags now s =
     (if is_search_file ''/query.txt'' p then write_query p data offset flags s
      else if is_virtual_path p then (Err (PermissionDenied p), s)
      else if \<not> is_document p then (Err (NotSupported ''Can only write to files in /documents/''), s)
      else bind_op (get_document E p) (\<lambda>old. try_then (ok_or old (NotFound p)) (\<lambda>d.
        try_then (sql_write_data (dc_data d) data offset flags) (\<lambda>new_data.
        bind_op (choose_vector E p new_data) (\<lambda>v.
        bind_op (persist_document E (from_utf8_lossy p) (d\<lparr>dc_data := new_data, dc_vector := v, dc_modified := Some (vd_millis E now)\<rparr>)) (\<lambda>_ s.
        bind_op (document_count E) (\<lambda>n s. (Ok (length data), edit_metadata ''/index/count'' (\<lambda>m. m\<lparr>md_size := n\<rparr>) s))
          (edit_metadata p (\<lambda>m. m\<lparr>md_size := length new_data, md_modified := vd_from_millis E (vd_millis E now)\<rparr>) s)))))) s)"

definition vector_truncate :: "('w, 'f) vector_env \<Rightarrow> path \<Rightarrow> nat \<Rightarrow> ('w VectorFS, unit) fs_op" where
  "vector_truncate E p n now s =
     (if is_virtual_path p then (Err (PermissionDenied p), s)
      else if \<not> is_document p then (Err (NotSupported ''Can only truncate files in /documents/''), s)
      else bind_op (get_document E p) (\<lambda>old. try_then (ok_or old (NotFound p)) (\<lambda>d.
        try_then (if n < length (dc_data d) then Ok (take n (dc_data d)) else if n > length (dc_data d) then vec_resize n (dc_data d) else Ok (dc_data d)) (\<lambda>new_data.
        bind_op (persist_document E (from_utf8_lossy p) (d\<lparr>dc_data := new_data, dc_modified := Some (vd_millis E now)\<rparr>)) (\<lambda>_ s.
          (Ok (), edit_metadata p (\<lambda>m. m\<lparr>md_size := n, md_modified := vd_from_millis E (vd_millis E now)\<rparr>) s))))) s)"

definition vector_touch :: "('w, 'f) vector_env \<Rightarrow> path \<Rightarrow> ('w VectorFS, unit) fs_op" where
  "vector_touch E p now s =
     (if is_virtual_path p \<and> starts_with (from_utf8_lossy p) ''/index/'' then (Err (PermissionDenied p), s)
      else if \<not> is_document p then (Err (NotSupported ''Can only touch files in /documents/''), s)
      else bind_op (get_document E p) (\<lambda>old. case old of
          Some d \<Rightarrow>
            bind_op (persist_document E (from_utf8_lossy p) (d\<lparr>dc_modified := Some (vd_millis E now)\<rparr>)) (\<lambda>_ s.
              (Ok (), edit_metadata p (\<lambda>m. m\<lparr>md_accessed := vd_from_millis E (vd_millis E now), md_modified := vd_from_millis E (vd_millis E now)\<rparr>) s))
        | None \<Rightarrow>
            bind_op (vector_create E p now) (\<lambda>_ s. (Ok (), edit_metadata p (\<lambda>m. m\<lparr>md_accessed := Some now, md_modified := Some now\<rparr>) s))) s)"

subsection \<open>Directories\<close>

definition vector_mkdir :: "path \<Rightarrow> mode \<Rightarrow> ('w VectorFS, unit) fs_op" where
  "vector_mkdir p perm now s =
     (let path_str = from_utf8_lossy p
      in if \<not> starts_with path_str ''/search/'' then (Err (NotSupported ''Can only create directories under /search/''), s)
         else if pm_contains (vx_metadata s) p then (Err (AlreadyExists p), s)
         else
           (let q = push p ''query.txt''; m = push p ''matches.txt''; i = search_id path_str;
                s' = put_metadata m (metadata_file now m 0) (put_metadata q (metadata_file now q 0) (put_metadata p (metadata_directory now p) s))
            in (Ok (), if i \<noteq> [] \<and> slash \<notin> set i then s'\<lparr>vx_search_queries := hm_insert (=) (vx_search_queries s') i []\<rparr> else s')))"

definition metadata_entry :: "string \<Rightarrow> path \<times> FileMetadata \<Rightarrow> FileMetadata option" where
  "metadata_entry prefix = (\<lambda>(p, m).
     let relative = (if prefix = [] then p else case path_strip_prefix p prefix of Some r \<Rightarrow> r | None \<Rightarrow> p);
         cs = components relative
     in if relative = ''/'' then None
        else if length cs = 1 \<or> length cs = 2 \<and> hd cs = RootDir then Some m else None)"

definition vector_read_dir :: "('w, 'f) vector_env \<Rightarrow> path \<Rightarrow> ('w VectorFS, FileMetadata list) fs_op" where
  "vector_read_dir E p now s =
     (let path_str = from_utf8_lossy p; prefix = (if path_str = ''/'' then [] else path_str);
          entries = List.map_filter (metadata_entry prefix)
            (filter (\<lambda>(q, _). starts_with (from_utf8_lossy q) prefix \<and> from_utf8_lossy q \<noteq> prefix) (vx_metadata s))
      in if path_str = ''/documents'' then
           bind_op (list_document_paths E) (\<lambda>ps s.
             (Ok (entries @ map (\<lambda>q. metadata_file now q 0) (filter (\<lambda>q. case parent q of Some d \<Rightarrow> path_eq d ''/documents'' | None \<Rightarrow> False) ps)), s)) s
         else (Ok entries, s))"

definition drop_metadata :: "path \<Rightarrow> 'w VectorFS \<Rightarrow> 'w VectorFS" where
  "drop_metadata p s = s\<lparr>vx_metadata := pm_remove (vx_metadata s) p\<rparr>"

definition drop_xattrs :: "path \<Rightarrow> 'w VectorFS \<Rightarrow> 'w VectorFS" where
  "drop_xattrs p s = s\<lparr>vx_xattrs := pm_remove (vx_xattrs s) p\<rparr>"

definition remove_document :: "('w, 'f) vector_env \<Rightarrow> path \<Rightarrow> 'w VectorFS \<Rightarrow> unit fs_result \<times> 'w VectorFS" where
  "remove_document E p =
     bind_op (get_document E p) (\<lambda>d.
       if d \<noteq> None then bind_op (delete_from_db E (from_utf8_lossy p)) (\<lambda>_ s. (Ok (), drop_metadata p (drop_xattrs p s)))
       else (\<lambda>s. (Err (NotFound p), drop_xattrs p s)))"

definition remove_search :: "path \<Rightarrow> 'w VectorFS \<Rightarrow> unit fs_result \<times> 'w VectorFS" where
  "remove_search p s =
     (if \<exists>q \<in> fst ` set (vx_metadata s). \<not> path_eq q p \<and> path_starts_with q p then (Err DirectoryNotEmpty, s)
      else
        (let removed = pm_contains (vx_metadata s) p; i = search_id (from_utf8_lossy p); s1 = drop_metadata p s;
             s2 = (if i \<noteq> [] then drop_metadata (push p ''matches.txt'') (drop_metadata (push p ''query.txt'') s1) else s1);
             s3 = (if i \<noteq> [] then s2\<lparr>vx_search_queries := hm_remove (=) (vx_search_queries s2) i\<rparr> else s2)
         in (if removed then Ok () else Err (NotFound p), s3)))"

definition vector_remove :: "('w, 'f) vector_env \<Rightarrow> path \<Rightarrow> ('w VectorFS, unit) fs_op" where
  "vector_remove E p now s =
     (if is_virtual_path p \<and> starts_with (from_utf8_lossy p) ''/index/'' then (Err (PermissionDenied p), s)
      else if is_document p then remove_document E p s
      else if starts_with (from_utf8_lossy p) ''/search/'' then remove_search p s
      else (Err (NotFound p), s))"

fun remove_documents :: "('w, 'f) vector_env \<Rightarrow> path list \<Rightarrow> 'w VectorFS \<Rightarrow> unit fs_result \<times> 'w VectorFS" where
  "remove_documents E [] s = (Ok (), s)"
| "remove_documents E (q # qs) s =
     bind_op (delete_from_db E (from_utf8_lossy q)) (\<lambda>_ s. remove_documents E qs (drop_xattrs q (drop_metadata q s))) s"

definition vector_remove_all :: "('w, 'f) vector_env \<Rightarrow> path \<Rightarrow> ('w VectorFS, unit) fs_op" where
  "vector_remove_all E p now s =
     (if is_virtual_path p \<and> starts_with (from_utf8_lossy p) ''/index/'' then (Err (PermissionDenied p), s)
      else if is_document p then
        (let had_meta = pm_contains (vx_metadata s) p
         in bind_op (list_document_paths E) (\<lambda>ps.
              let to_remove = filter (\<lambda>q. path_starts_with q p) ps
              in bind_op (remove_documents E to_remove) (\<lambda>_ s.
                   (if to_remove = [] \<and> \<not> had_meta then Err (NotFound p) else Ok (), drop_metadata p s))) s)
      else if \<not> pm_contains (vx_metadata s) p then (Err (NotFound p), s)
      else (Ok (), s\<lparr>vx_metadata := hm_retain (\<lambda>q. \<not> path_starts_with q p \<or> path_eq q p) (vx_metadata s)\<rparr>))"

text \<open>
  The attributes are moved inside of an \<open>if let\<close> whose condition holds the lock for writing; taking the lock again in its body never returns.
\<close>

definition move_xattrs :: "path \<Rightarrow> 'w VectorFS \<Rightarrow> unit fs_result \<times> 'w VectorFS" where
  "move_xattrs old s = (if pm_contains (vx_xattrs s) old then (Hang, drop_xattrs old s) else (Ok (), s))"

definition rename_document :: "('w, 'f) vector_env \<Rightarrow> path \<Rightarrow> path \<Rightarrow> ('w VectorFS, unit) fs_op" where
  "rename_document E old new now =
     bind_op (get_document E old) (\<lambda>found. try_then (ok_or found (NotFound old)) (\<lambda>d.
     bind_op (get_document E new) (\<lambda>target.
     bind_op (if target \<noteq> None then delete_from_db E (from_utf8_lossy new) else Pair (Ok ())) (\<lambda>_.
     bind_op (delete_from_db E (from_utf8_lossy old)) (\<lambda>_.
     bind_op (persist_document E (from_utf8_lossy new) (d\<lparr>dc_modified := Some (vd_millis E now)\<rparr>)) (\<lambda>_ s.
       let modified = vd_from_millis E (vd_millis E now);
           m = (metadata_file now new (length (dc_data d)))\<lparr>md_mode := dc_mode d, md_created := Option.bind (dc_created d) (vd_from_millis E),
                 md_modified := modified, md_accessed := modified\<rparr>
       in move_xattrs old (put_metadata new m (drop_metadata old s))))))))"

definition rename_search :: "path \<Rightarrow> path \<Rightarrow> 'w VectorFS \<Rightarrow> unit fs_result \<times> 'w VectorFS" where
  "rename_search old new s =
     (case pm_get (vx_metadata s) old of
        None \<Rightarrow> (Err (NotFound old), s)
      | Some m \<Rightarrow>
          (let new_str = from_utf8_lossy new; prefix = (if ends_with new_str ''/'' then new_str else new_str @ ''/'')
           in if \<exists>q \<in> fst ` set (vx_metadata s). starts_with (from_utf8_lossy q) prefix \<and> from_utf8_lossy q \<noteq> prefix then (Err DirectoryNotEmpty, s)
              else (Ok (), put_metadata new (m\<lparr>md_path := new\<rparr>) (drop_metadata old s))))"

definition vector_rename :: "('w, 'f) vector_env \<Rightarrow> path \<Rightarrow> path \<Rightarrow> ('w VectorFS, unit) fs_op" where
  "vector_rename E old new now s =
     (let old_str = from_utf8_lossy old; new_str = from_utf8_lossy new
      in if starts_with old_str ''/index/'' \<or> starts_with new_str ''/index/'' then (Err (PermissionDenied old), s)
         else if is_document old \<and> is_document new then (if path_eq old new then (Ok (), s) else rename_document E old new now s)
         else if starts_with old_str ''/search/'' \<and> starts_with new_str ''/search/'' then (if path_eq old new then (Ok (), s) else rename_search old new s)
         else (Err (NotSupported ''rename only supported within /documents/ or within /search/''), s))"

definition vector_chmod :: "('w, 'f) vector_env \<Rightarrow> path \<Rightarrow> mode \<Rightarrow> ('w VectorFS, unit) fs_op" where
  "vector_chmod E p mode now s =
     (if is_virtual_path p \<and> starts_with (from_utf8_lossy p) ''/index/'' then (Err (PermissionDenied p), s)
      else if \<not> pm_contains (vx_metadata s) p then (Err (NotFound p), s)
      else
        (let change = edit_metadata p (\<lambda>m. (set_permissions mode m)\<lparr>md_modified := Some now\<rparr>)
         in bind_op
              (if is_document p then
                 bind_op (get_document E p) (\<lambda>found. case found of
                     Some d \<Rightarrow> persist_document E (from_utf8_lossy p) (d\<lparr>dc_mode := mode, dc_modified := Some (vd_millis E now)\<rparr>)
                   | None \<Rightarrow> Pair (Ok ()))
               else Pair (Ok ()))
              (\<lambda>_ s. (Ok (), change s)) (change s)))"

subsection \<open>Extended attributes\<close>

definition on_document :: "('w, 'f) vector_env \<Rightarrow> path \<Rightarrow> ('w VectorFS \<Rightarrow> 'a fs_result \<times> 'w VectorFS) \<Rightarrow> 'w VectorFS \<Rightarrow> 'a fs_result \<times> 'w VectorFS" where
  "on_document E p f s =
     (if \<not> is_document p then (Err (NotSupported ''xattr only supported on document paths''), s)
      else bind_op (get_document E p) (\<lambda>found. try_then (ok_or found (NotFound p)) (\<lambda>_. f)) s)"

definition no_xattr :: FSError where
  "no_xattr = InvalidInput ''extended attribute not found''"

definition vector_get_xattr :: "('w, 'f) vector_env \<Rightarrow> path \<Rightarrow> string \<Rightarrow> ('w VectorFS, bytes) fs_op" where
  "vector_get_xattr E p name now =
     on_document E p (\<lambda>s. (and_then (ok_or (pm_get (vx_xattrs s) p) no_xattr) (\<lambda>m. ok_or (hm_get (=) m name) no_xattr), s))"

definition vector_set_xattr :: "('w, 'f) vector_env \<Rightarrow> path \<Rightarrow> string \<Rightarrow> bytes \<Rightarrow> ('w VectorFS, unit) fs_op" where
  "vector_set_xattr E p name v now =
     on_document E p (\<lambda>s.
       let m = (case pm_get (vx_xattrs s) p of Some m \<Rightarrow> m | None \<Rightarrow> [])
       in (Ok (), s\<lparr>vx_xattrs := pm_insert (vx_xattrs s) p (hm_insert (=) m name v)\<rparr>))"

definition vector_remove_xattr :: "('w, 'f) vector_env \<Rightarrow> path \<Rightarrow> string \<Rightarrow> ('w VectorFS, unit) fs_op" where
  "vector_remove_xattr E p name now =
     on_document E p (\<lambda>s.
       try_then (ok_or (pm_get (vx_xattrs s) p) no_xattr) (\<lambda>m.
         try_then (ok_or (hm_get (=) m name) no_xattr) (\<lambda>_ s. (Ok (), s\<lparr>vx_xattrs := pm_insert (vx_xattrs s) p (hm_remove (=) m name)\<rparr>))) s)"

definition vector_list_xattr :: "('w, 'f) vector_env \<Rightarrow> path \<Rightarrow> ('w VectorFS, string list) fs_op" where
  "vector_list_xattr E p now =
     on_document E p (\<lambda>s. (Ok (case pm_get (vx_xattrs s) p of Some m \<Rightarrow> map fst m | None \<Rightarrow> []), s))"

definition vector_fs :: "('w, 'f) vector_env \<Rightarrow> 'w VectorFS FileSystem" where
  "vector_fs E = \<lparr>fs_read = vector_read E, fs_stat = vector_stat E, fs_create = vector_create E, fs_write = vector_write E,
     fs_mkdir = vector_mkdir, fs_read_dir = vector_read_dir E, fs_remove = vector_remove E, fs_remove_all = vector_remove_all E,
     fs_rename = vector_rename E, fs_chmod = vector_chmod E, fs_truncate = vector_truncate E, fs_touch = vector_touch E,
     fs_readlink = default_readlink, fs_symlink = default_symlink, fs_get_xattr = vector_get_xattr E,
     fs_set_xattr = vector_set_xattr E, fs_remove_xattr = vector_remove_xattr E, fs_list_xattr = vector_list_xattr E\<rparr>"

subsection \<open>What the database promises\<close>

text \<open>
  \<open>tab\<close> is the table by path. Queries change nothing and return documents of the table; a condition on a path selects that path (a backslash is outside of the promise: SQL has no
  escape character in a text); merging puts a document in, deleting only takes out; what fails changes nothing.
\<close>

definition vector_laws :: "('w, 'f) vector_env \<Rightarrow> ('w \<Rightarrow> string \<rightharpoonup> 'f document) \<Rightarrow> bool" where
  "vector_laws E tab \<longleftrightarrow>
     (\<forall>w. tab (snd (vd_count E w)) = tab w \<and> tab (snd (vd_scan E w)) = tab w) \<and>
     (\<forall>v n w. tab (snd (vd_nearest E v n w)) = tab w) \<and>
     (\<forall>u d w. tab (snd (vd_post E u d w)) = tab w) \<and>
     (\<forall>c n w. tab (snd (vd_select E c n w)) = tab w) \<and>
     (\<forall>c n w bs w' d. vd_select E c n w = (Inr (Inr bs), w') \<and> first_document bs = Ok (Some d) \<longrightarrow> d \<in> ran (tab w)) \<and>
     (\<forall>k w bs w'. CHR 0x5C \<notin> set k \<and> vd_select E (path_predicate k) 1 w = (Inr (Inr bs), w') \<longrightarrow> first_document bs = Ok (tab w k)) \<and>
     (\<forall>k d w r w'. vd_merge E k d w = (r, w') \<longrightarrow> tab w' = (case r of Inl _ \<Rightarrow> tab w | Inr _ \<Rightarrow> (tab w)(k \<mapsto> d))) \<and>
     (\<forall>c w r w'. vd_delete E c w = (r, w') \<longrightarrow> (case r of Inl _ \<Rightarrow> tab w' = tab w | Inr _ \<Rightarrow> tab w' \<subseteq>\<^sub>m tab w)) \<and>
     (\<forall>k w w'. CHR 0x5C \<notin> set k \<and> vd_delete E (path_predicate k) w = (Inr (), w') \<longrightarrow> tab w' = (tab w)(k := None))"

lemma vector_lawsD:
  assumes "vector_laws E tab"
  shows "tab (snd (vd_count E w)) = tab w" "tab (snd (vd_scan E w)) = tab w" "tab (snd (vd_nearest E v n w)) = tab w"
    and "tab (snd (vd_post E u d w)) = tab w" "tab (snd (vd_select E c n w)) = tab w"
    and "vd_select E c n w = (Inr (Inr bs), w') \<Longrightarrow> first_document bs = Ok (Some doc) \<Longrightarrow> doc \<in> ran (tab w)"
    and "CHR 0x5C \<notin> set k \<Longrightarrow> vd_select E (path_predicate k) 1 w = (Inr (Inr bs), w') \<Longrightarrow> first_document bs = Ok (tab w k)"
    and "vd_merge E k doc w = (r, w') \<Longrightarrow> tab w' = (case r of Inl _ \<Rightarrow> tab w | Inr _ \<Rightarrow> (tab w)(k \<mapsto> doc))"
    and "vd_delete E c w = (r, w') \<Longrightarrow> (case r of Inl _ \<Rightarrow> tab w' = tab w | Inr _ \<Rightarrow> tab w' \<subseteq>\<^sub>m tab w)"
    and "CHR 0x5C \<notin> set k \<Longrightarrow> vd_delete E (path_predicate k) w = (Inr (), w') \<Longrightarrow> tab w' = (tab w)(k := None)"
proof -
  note L = assms [unfolded vector_laws_def]
  show "tab (snd (vd_count E w)) = tab w"
    using L [THEN conjunct1] by blast
  show "tab (snd (vd_scan E w)) = tab w"
    using L [THEN conjunct1] by blast
  show "tab (snd (vd_nearest E v n w)) = tab w"
    using L [THEN conjunct2, THEN conjunct1] by blast
  show "tab (snd (vd_post E u d w)) = tab w"
    using L [THEN conjunct2, THEN conjunct2, THEN conjunct1] by blast
  show "tab (snd (vd_select E c n w)) = tab w"
    using L [THEN conjunct2, THEN conjunct2, THEN conjunct2, THEN conjunct1] by blast
  show "vd_select E c n w = (Inr (Inr bs), w') \<Longrightarrow> first_document bs = Ok (Some doc) \<Longrightarrow> doc \<in> ran (tab w)"
    using L [THEN conjunct2, THEN conjunct2, THEN conjunct2, THEN conjunct2, THEN conjunct1] by blast
  show "CHR 0x5C \<notin> set k \<Longrightarrow> vd_select E (path_predicate k) 1 w = (Inr (Inr bs), w') \<Longrightarrow> first_document bs = Ok (tab w k)"
    using L [THEN conjunct2, THEN conjunct2, THEN conjunct2, THEN conjunct2, THEN conjunct2, THEN conjunct1] by blast
  show "vd_merge E k doc w = (r, w') \<Longrightarrow> tab w' = (case r of Inl _ \<Rightarrow> tab w | Inr _ \<Rightarrow> (tab w)(k \<mapsto> doc))"
    using L [THEN conjunct2, THEN conjunct2, THEN conjunct2, THEN conjunct2, THEN conjunct2, THEN conjunct2, THEN conjunct1] by blast
  show "vd_delete E c w = (r, w') \<Longrightarrow> (case r of Inl _ \<Rightarrow> tab w' = tab w | Inr _ \<Rightarrow> tab w' \<subseteq>\<^sub>m tab w)"
    using L [THEN conjunct2, THEN conjunct2, THEN conjunct2, THEN conjunct2, THEN conjunct2, THEN conjunct2, THEN conjunct2, THEN conjunct1] by blast
  show "CHR 0x5C \<notin> set k \<Longrightarrow> vd_delete E (path_predicate k) w = (Inr (), w') \<Longrightarrow> tab w' = (tab w)(k := None)"
    using L [THEN conjunct2, THEN conjunct2, THEN conjunct2, THEN conjunct2, THEN conjunct2, THEN conjunct2, THEN conjunct2, THEN conjunct2] by blast
qed

subsection \<open>The dimension of the vectors\<close>

text \<open>A call that keeps \<open>I\<close>, and whose value satisfies \<open>P\<close>.\<close>

definition keeps :: "('s \<Rightarrow> bool) \<Rightarrow> ('a \<Rightarrow> bool) \<Rightarrow> 'a fs_result \<times> 's \<Rightarrow> bool" where
  "keeps I P x \<longleftrightarrow> I (snd x) \<and> (\<forall>a. fst x = Ok a \<longrightarrow> P a)"

lemma keeps_bind: "keeps I P (m s) \<Longrightarrow> (\<And>a s'. I s' \<Longrightarrow> P a \<Longrightarrow> keeps I Q (f a s')) \<Longrightarrow> keeps I Q (bind_op m f s)"
  by (cases "m s", rename_tac r s', case_tac r) (auto simp: bind_op_def keeps_def)

lemma keeps_call:
  "(\<And>r s'. at_db call s = (r, s') \<Longrightarrow> I s') \<Longrightarrow> (\<And>a s'. at_db call s = (Inr a, s') \<Longrightarrow> keeps I Q (f a s')) \<Longrightarrow> keeps I Q (call_then g (at_db call) f s)"
  by (auto simp: call_then_def keeps_def split: prod.splits sum.splits)

definition has_dimension :: "('w \<Rightarrow> string \<rightharpoonup> 'f document) \<Rightarrow> nat \<Rightarrow> 'w VectorFS \<Rightarrow> bool" where
  "has_dimension tab n s \<longleftrightarrow> vc_dimension (vx_config s) = n \<and> (\<forall>d \<in> ran (tab (vx_db s)). length (dc_vector d) = n)"

lemma has_dimension_updates [simp]:
  "has_dimension tab n (s\<lparr>vx_metadata := m\<rparr>) = has_dimension tab n s"
  "has_dimension tab n (s\<lparr>vx_search_queries := q\<rparr>) = has_dimension tab n s"
  "has_dimension tab n (s\<lparr>vx_xattrs := x\<rparr>) = has_dimension tab n s"
  "has_dimension tab n (put_metadata p e s) = has_dimension tab n s"
  "has_dimension tab n (edit_metadata p f s) = has_dimension tab n s"
  "has_dimension tab n (drop_metadata p s) = has_dimension tab n s"
  "has_dimension tab n (drop_xattrs p s) = has_dimension tab n s"
  by (simp_all add: has_dimension_def put_metadata_def edit_metadata_def drop_metadata_def drop_xattrs_def split: option.split)

lemma keeps_ret: "I s \<Longrightarrow> (\<And>a. r = Ok a \<Longrightarrow> P a) \<Longrightarrow> keeps I P (r, s)"
  by (simp add: keeps_def)

lemma keeps_try: "I s \<Longrightarrow> (\<And>a. r = Ok a \<Longrightarrow> keeps I Q (f a s)) \<Longrightarrow> keeps I Q (try_then r f s)"
  by (cases r) (simp_all add: keeps_def)

lemma keeps_If: "(b \<Longrightarrow> keeps I Q x) \<Longrightarrow> (\<not> b \<Longrightarrow> keeps I Q y) \<Longrightarrow> keeps I Q (if b then x else y)"
  by simp

lemma keeps_If2: "(b \<Longrightarrow> keeps I Q (f s)) \<Longrightarrow> (\<not> b \<Longrightarrow> keeps I Q (g s)) \<Longrightarrow> keeps I Q ((if b then f else g) s)"
  by simp

lemma keeps_mono: "keeps I P x \<Longrightarrow> (\<And>a. P a \<Longrightarrow> Q a) \<Longrightarrow> keeps I Q x"
  by (auto simp: keeps_def)

lemmas keeps_rules = keeps_ret keeps_try keeps_If keeps_If2

lemma at_db_dimension:
  "has_dimension tab n s \<Longrightarrow> tab (snd (call (vx_db s))) = tab (vx_db s) \<Longrightarrow> at_db call s = (r, s') \<Longrightarrow> has_dimension tab n s'"
  by (auto simp: has_dimension_def at_db_def split: prod.splits)

lemma at_db_view: "at_db call s = (r, s') \<Longrightarrow> call (vx_db s) = (r, vx_db s') \<and> s' = s\<lparr>vx_db := vx_db s'\<rparr>"
  by (auto simp: at_db_def split: prod.splits)

text \<open>Each helper, on a database that keeps its promises.\<close>

lemma query_keeps:
  assumes I: "has_dimension tab n s" and same: "tab (snd (call (vx_db s))) = tab (vx_db s)"
    and f: "\<And>bs s'. call (vx_db s) = (Inr (Inr bs), vx_db s') \<Longrightarrow> has_dimension tab n s' \<Longrightarrow> keeps (has_dimension tab n) Q (f bs s')"
  shows "keeps (has_dimension tab n) Q (query_then a b call f s)"
  unfolding query_then_def
proof (rule keeps_call)
  show "has_dimension tab n s'" if "at_db call s = (r, s')" for r s' by (rule at_db_dimension [OF I same that])
  show "keeps (has_dimension tab n) Q (case x of Inl e \<Rightarrow> (Err (sql_io b e), s') | Inr bs \<Rightarrow> f bs s')" if "at_db call s = (Inr x, s')" for x s'
    using f at_db_view [OF that] at_db_dimension [OF I same that] by (cases x) (auto simp: keeps_def)
qed

lemma reads_keep:
  assumes I: "has_dimension tab n s" and same: "\<And>w. tab (snd (call w)) = tab w"
    and f: "\<And>a s'. has_dimension tab n s' \<Longrightarrow> keeps (has_dimension tab n) Q (f a s')"
  shows "keeps (has_dimension tab n) Q (call_then g (at_db call) f s)"
proof (rule keeps_call)
  show kept: "has_dimension tab n s'" if "at_db call s = (r, s')" for r s' by (rule at_db_dimension, rule I, rule same, rule that)
  show "keeps (has_dimension tab n) Q (f a s')" if "at_db call s = (Inr a, s')" for a s' by (rule f, rule kept, rule that)
qed

lemma count_keeps:
  assumes L: "vector_laws E tab" and I: "has_dimension tab n s"
  shows "keeps (has_dimension tab n) (\<lambda>_. True) (document_count E s)"
  unfolding document_count_def
  by (rule reads_keep, rule I, rule vector_lawsD(1) [OF L]) (simp add: keeps_def)

lemma get_document_keeps:
  assumes L: "vector_laws E tab" and I: "has_dimension tab n s"
  shows "keeps (has_dimension tab n) (\<lambda>x. \<forall>d. x = Some d \<longrightarrow> length (dc_vector d) = n) (get_document E p s)"
  unfolding get_document_def
proof (rule query_keeps, rule I, rule vector_lawsD(5) [OF L], rule keeps_ret, assumption, intro allI impI)
  fix bs s' x d
  assume "vd_select E (path_predicate (from_utf8_lossy p)) 1 (vx_db s) = (Inr (Inr bs), vx_db s')" "first_document bs = Ok x" "x = Some d"
  then have "d \<in> ran (tab (vx_db s))" using vector_lawsD(6) [OF L] by blast
  then show "length (dc_vector d) = n" using I by (simp add: has_dimension_def)
qed

lemma search_keeps:
  assumes L: "vector_laws E tab" and I: "has_dimension tab n s"
  shows "keeps (has_dimension tab n) (\<lambda>_. length v = n) (search E v limit s)"
proof -
  have n: "vc_dimension (vx_config s) = n" using I by (simp add: has_dimension_def)
  have "keeps (has_dimension tab n) (\<lambda>_. True) (query_then a b (vd_nearest E v limit) (\<lambda>bs s. (Ok (concat (map (found_rows E) bs)), s)) s)" for a b
    by (rule query_keeps, rule I, rule vector_lawsD(3) [OF L]) (simp add: keeps_def)
  then show ?thesis unfolding search_def Let_def n by (cases "vd_nearest_to E v") (auto simp: keeps_def I)
qed

lemma persist_keeps:
  assumes L: "vector_laws E tab" and I: "has_dimension tab n s" and d: "length (dc_vector d) = n"
  shows "keeps (has_dimension tab n) (\<lambda>_. True) (persist_document E k d s)"
  unfolding persist_document_def
proof (rule keeps_try, rule I, rule keeps_call)
  show kept: "has_dimension tab n s'" if "at_db (vd_merge E k (document_row d)) s = (r, s')" for r s'
  proof -
    have "tab (vx_db s') = (case r of Inl _ \<Rightarrow> tab (vx_db s) | Inr _ \<Rightarrow> (tab (vx_db s))(k \<mapsto> document_row d))"
      using at_db_view [OF that] vector_lawsD(8) [OF L] by blast
    moreover have "vx_config s' = vx_config s" using that by (auto simp: at_db_def split: prod.splits)
    ultimately show ?thesis using I d by (auto simp: has_dimension_def ran_def document_row_def split: sum.splits if_splits)
  qed
  show "keeps (has_dimension tab n) (\<lambda>_. True) (Ok (), s')" if "at_db (vd_merge E k (document_row d)) s = (Inr a, s')" for a s'
    using kept [OF that] by (simp add: keeps_def)
qed

lemma delete_keeps:
  assumes L: "vector_laws E tab" and I: "has_dimension tab n s"
  shows "keeps (has_dimension tab n) (\<lambda>_. True) (delete_from_db E k s)"
  unfolding delete_from_db_def
proof (rule keeps_call)
  show kept: "has_dimension tab n s'" if "at_db (vd_delete E (path_predicate k)) s = (r, s')" for r s'
  proof -
    have "tab (vx_db s') \<subseteq>\<^sub>m tab (vx_db s)" using at_db_view [OF that] vector_lawsD(9) [OF L] by (cases r) (fastforce simp: map_le_def)+
    moreover have "vx_config s' = vx_config s" using that by (auto simp: at_db_def split: prod.splits)
    ultimately show ?thesis using I by (fastforce simp: has_dimension_def map_le_def ran_def dom_def)
  qed
  show "keeps (has_dimension tab n) (\<lambda>_. True) (Ok (), s')" if "at_db (vd_delete E (path_predicate k)) s = (Inr a, s')" for a s'
    using kept [OF that] by (simp add: keeps_def)
qed

lemma list_paths_keeps:
  assumes L: "vector_laws E tab" and I: "has_dimension tab n s"
  shows "keeps (has_dimension tab n) (\<lambda>_. True) (list_document_paths E s)"
  unfolding list_document_paths_def by (rule query_keeps, rule I, rule vector_lawsD(2) [OF L]) (simp add: keeps_def)

lemma length_lcg [simp]: "length (lcg_values n x) = n"
  by (induction n arbitrary: x) (simp_all add: Let_def)

lemma length_content_to_vector [simp]: "length (content_to_vector E n d) = n"
  by (simp add: content_to_vector_def seed_to_vector_def Let_def)

lemma embed_keeps:
  assumes L: "vector_laws E tab" and I: "has_dimension tab n s"
  shows "keeps (has_dimension tab n) (\<lambda>v. length v = n) (embed_content E d s)"
proof -
  have n: "vc_dimension (vx_config s) = n" using I by (simp add: has_dimension_def)
  have "keeps (has_dimension tab n) (\<lambda>v. length v = n) (call_then g (at_db (vd_post E u b)) (\<lambda>a s. (read_answer E n a, s)) s)" for g u b
    by (rule reads_keep, rule I, rule vector_lawsD(4) [OF L]) (auto simp: keeps_def read_answer_def split: sum.splits if_splits)
  then show ?thesis unfolding embed_content_def Let_def n by (intro keeps_rules I) (auto simp: keeps_def I)
qed

lemma choose_keeps:
  assumes L: "vector_laws E tab" and I: "has_dimension tab n s"
  shows "keeps (has_dimension tab n) (\<lambda>v. length v = n) (choose_vector E p d s)"
proof -
  have n: "vc_dimension (vx_config s) = n" using I by (simp add: has_dimension_def)
  show ?thesis unfolding choose_vector_def n
    using embed_keeps [OF L I, of d] I
    by (auto simp: keeps_def parse_vector_xattr_def split: option.split outcome.split sum.splits if_splits)
qed

text \<open>Every operation.\<close>

lemmas keeps_helpers = count_keeps get_document_keeps search_keeps persist_keeps delete_keeps list_paths_keeps embed_keeps choose_keeps

lemma run_search_keeps:
  assumes L: "vector_laws E tab" and I: "has_dimension tab n s"
  shows "keeps (has_dimension tab n) (\<lambda>_. True) (run_search E q s)"
  unfolding run_search_def
  by (rule keeps_try, rule I, simp only: split_beta, rule keeps_bind, rule embed_keeps [OF L I], rule keeps_bind, erule search_keeps [OF L]) (simp add: keeps_def)

lemma create_keeps:
  assumes L: "vector_laws E tab" and I: "has_dimension tab n s"
  shows "keeps (has_dimension tab n) (\<lambda>_. True) (vector_create E p now s)"
  unfolding vector_create_def
  by (intro keeps_If keeps_ret I TrueI, rule keeps_bind, rule get_document_keeps [OF L I], rule keeps_If, simp add: keeps_def, rule keeps_bind, rule persist_keeps [OF L], assumption,
      simp add: has_dimension_def) (simp add: keeps_def)

lemma read_keeps:
  assumes L: "vector_laws E tab" and I: "has_dimension tab n s"
  shows "keeps (has_dimension tab n) (\<lambda>_. True) (vector_read E p off sz now s)"
proof -
  have "keeps (has_dimension tab n) (\<lambda>_. True) (bind_op (document_count E) (\<lambda>n s. (g n, s)) s)" for g :: "nat \<Rightarrow> bytes fs_result"
    by (rule keeps_bind, rule count_keeps [OF L I]) (simp add: keeps_def)
  moreover have "keeps (has_dimension tab n) (\<lambda>_. True) (bind_op (get_document E p) (\<lambda>d s. (g d, s)) s)" for g :: "_ \<Rightarrow> bytes fs_result"
    by (rule keeps_bind, rule get_document_keeps [OF L I]) (simp add: keeps_def)
  moreover have "keeps (has_dimension tab n) (\<lambda>_. True) (bind_op (run_search E q) (\<lambda>d s. (g d, s)) s)" for q and g :: "bytes \<Rightarrow> bytes fs_result"
    by (rule keeps_bind, rule run_search_keeps [OF L I]) (simp add: keeps_def)
  ultimately show ?thesis unfolding vector_read_def Let_def by (intro keeps_If keeps_ret I TrueI)
qed

lemma stat_keeps:
  assumes L: "vector_laws E tab" and I: "has_dimension tab n s"
  shows "keeps (has_dimension tab n) (\<lambda>_. True) (vector_stat E p now s)"
proof -
  have "keeps (has_dimension tab n) (\<lambda>_. True) (try_then r (\<lambda>m. bind_op (document_count E) (\<lambda>n s. (g m n, s))) s)" for r :: "'x fs_result" and g :: "'x \<Rightarrow> nat \<Rightarrow> FileMetadata fs_result"
    by (rule keeps_try, rule I, rule keeps_bind, rule count_keeps [OF L I]) (simp add: keeps_def)
  moreover have "keeps (has_dimension tab n) (\<lambda>_. True) (bind_op (get_document E p) (\<lambda>d s. (g d s, s)) s)" for g :: "_ \<Rightarrow> _ \<Rightarrow> FileMetadata fs_result"
    by (rule keeps_bind, rule get_document_keeps [OF L I]) (simp add: keeps_def)
  ultimately show ?thesis unfolding vector_stat_def Let_def by (intro keeps_If keeps_ret I TrueI)
qed

lemma write_keeps:
  assumes L: "vector_laws E tab" and I: "has_dimension tab n s"
  shows "keeps (has_dimension tab n) (\<lambda>_. True) (vector_write E p d off fl now s)"
proof -
  have "keeps (has_dimension tab n) (\<lambda>_. True) (write_query p d off fl s)"
    unfolding write_query_def Let_def by (intro keeps_If keeps_ret keeps_try I TrueI) (simp add: I)
  moreover have "keeps (has_dimension tab n) (\<lambda>_. True) (bind_op (get_document E p) (\<lambda>old. try_then (ok_or old (NotFound p)) (\<lambda>doc.
        try_then (sql_write_data (dc_data doc) d off fl) (\<lambda>new_data.
        bind_op (choose_vector E p new_data) (\<lambda>v.
        bind_op (persist_document E (from_utf8_lossy p) (doc\<lparr>dc_data := new_data, dc_vector := v, dc_modified := Some (vd_millis E now)\<rparr>)) (\<lambda>_ s.
        bind_op (document_count E) (\<lambda>n s. (Ok (length d), edit_metadata ''/index/count'' (\<lambda>m. m\<lparr>md_size := n\<rparr>) s))
          (edit_metadata p (\<lambda>m. m\<lparr>md_size := length new_data, md_modified := vd_from_millis E (vd_millis E now)\<rparr>) s)))))) s)"
    by (rule keeps_bind, rule get_document_keeps [OF L I], rule keeps_try, assumption, rule keeps_try, assumption, rule keeps_bind, erule choose_keeps [OF L],
        rule keeps_bind, erule persist_keeps [OF L], simp, rule keeps_bind, rule count_keeps [OF L], simp) (simp add: keeps_def)
  ultimately show ?thesis unfolding vector_write_def by (intro keeps_If keeps_ret I TrueI)
qed

lemma truncate_keeps:
  assumes L: "vector_laws E tab" and I: "has_dimension tab n s"
  shows "keeps (has_dimension tab n) (\<lambda>_. True) (vector_truncate E p k now s)"
  unfolding vector_truncate_def
  by (intro keeps_If keeps_ret I TrueI, rule keeps_bind, rule get_document_keeps [OF L I], rule keeps_try, assumption, rule keeps_try, assumption,
      rule keeps_bind, erule persist_keeps [OF L]) (auto simp: keeps_def ok_or_def split: option.splits)

lemma touch_keeps:
  assumes L: "vector_laws E tab" and I: "has_dimension tab n s"
  shows "keeps (has_dimension tab n) (\<lambda>_. True) (vector_touch E p now s)"
proof -
  have "keeps (has_dimension tab n) (\<lambda>_. True)
      (bind_op (persist_document E k (d\<lparr>dc_modified := m\<rparr>)) (\<lambda>_ s. (Ok (), edit_metadata p f s)) s)"
    if "has_dimension tab n s" "length (dc_vector d) = n" for s k d m f
    by (rule keeps_bind, rule persist_keeps [OF L that(1)]) (use that in \<open>simp_all add: keeps_def\<close>)
  moreover have "keeps (has_dimension tab n) (\<lambda>_. True) (bind_op (vector_create E p now) (\<lambda>_ s. (Ok (), edit_metadata p f s)) s)"
    if "has_dimension tab n s" for s f
    by (rule keeps_bind, rule create_keeps [OF L that]) (simp add: keeps_def)
  ultimately show ?thesis unfolding vector_touch_def
    by (intro keeps_If keeps_ret I TrueI, intro keeps_bind [where P = "\<lambda>x. \<forall>d. x = Some d \<longrightarrow> length (dc_vector d) = n"] get_document_keeps [OF L I])
      (simp split: option.split)
qed

lemma remove_keeps:
  assumes L: "vector_laws E tab" and I: "has_dimension tab n s"
  shows "keeps (has_dimension tab n) (\<lambda>_. True) (vector_remove E p now s)"
proof -
  have "keeps (has_dimension tab n) (\<lambda>_. True) (remove_document E p s)"
    unfolding remove_document_def
    by (rule keeps_bind, rule get_document_keeps [OF L I], rule keeps_If2, rule keeps_bind, erule delete_keeps [OF L]) (simp_all add: keeps_def)
  moreover have "keeps (has_dimension tab n) (\<lambda>_. True) (remove_search p s)"
    using I by (simp add: remove_search_def keeps_def Let_def)
  ultimately show ?thesis unfolding vector_remove_def by (intro keeps_If keeps_ret I TrueI)
qed

lemma remove_documents_keeps:
  assumes L: "vector_laws E tab"
  shows "has_dimension tab n s \<Longrightarrow> keeps (has_dimension tab n) (\<lambda>_. True) (remove_documents E qs s)"
proof (induction qs arbitrary: s)
  case (Cons q qs)
  show ?case unfolding remove_documents.simps
    by (rule keeps_bind, rule delete_keeps [OF L Cons.prems], rule Cons.IH) simp
qed (simp add: keeps_def)

lemma remove_all_keeps:
  assumes L: "vector_laws E tab" and I: "has_dimension tab n s"
  shows "keeps (has_dimension tab n) (\<lambda>_. True) (vector_remove_all E p now s)"
proof -
  have "keeps (has_dimension tab n) (\<lambda>_. True) (bind_op (list_document_paths E) (\<lambda>ps. bind_op (remove_documents E (f ps)) (\<lambda>_ s. (r ps, drop_metadata p s))) s)"
    for f and r :: "path list \<Rightarrow> unit fs_result"
    by (rule keeps_bind, rule list_paths_keeps [OF L I], rule keeps_bind, erule remove_documents_keeps [OF L]) (simp add: keeps_def)
  then show ?thesis unfolding vector_remove_all_def Let_def by (intro keeps_If keeps_ret I TrueI) (simp_all add: I)
qed

lemma rename_keeps:
  assumes L: "vector_laws E tab" and I: "has_dimension tab n s"
  shows "keeps (has_dimension tab n) (\<lambda>_. True) (vector_rename E p q now s)"
proof -
  have d: "keeps (has_dimension tab n) (\<lambda>_. True) ((if b then delete_from_db E k else Pair (Ok ())) s)" if "has_dimension tab n s" for b k s
    using delete_keeps [OF L that] that by (simp add: keeps_def)
  have "keeps (has_dimension tab n) (\<lambda>_. True) (rename_document E p q now s)"
    unfolding rename_document_def
    by (rule keeps_bind, rule get_document_keeps [OF L I], rule keeps_try, assumption, rule keeps_bind, erule get_document_keeps [OF L], rule keeps_bind, erule d,
        rule keeps_bind, erule delete_keeps [OF L], rule keeps_bind, erule persist_keeps [OF L])
      (simp_all add: keeps_def move_xattrs_def Let_def outcome_simps)
  moreover have "keeps (has_dimension tab n) (\<lambda>_. True) (rename_search p q s)"
    using I by (simp add: rename_search_def keeps_def Let_def split: option.split)
  ultimately show ?thesis unfolding vector_rename_def Let_def by (intro keeps_If keeps_ret I TrueI)
qed

lemma chmod_keeps:
  assumes L: "vector_laws E tab" and I: "has_dimension tab n s"
  shows "keeps (has_dimension tab n) (\<lambda>_. True) (vector_chmod E p m now s)"
proof -
  have "keeps (has_dimension tab n) (\<lambda>_. True)
      ((if is_document p then bind_op (get_document E p) (\<lambda>found. case found of
           Some d \<Rightarrow> persist_document E (from_utf8_lossy p) (d\<lparr>dc_mode := m, dc_modified := Some (vd_millis E now)\<rparr>) | None \<Rightarrow> Pair (Ok ()))
        else Pair (Ok ())) s)" if I: "has_dimension tab n s" for s
    by (rule keeps_If2, rule keeps_bind, rule get_document_keeps [OF L I]) (auto simp: keeps_def I intro: persist_keeps [OF L, unfolded keeps_def, THEN conjunct1] split: option.split)
  then show ?thesis unfolding vector_chmod_def Let_def
    by (intro keeps_If keeps_ret I TrueI, intro keeps_bind [where P = "\<lambda>_. True"]) (simp_all add: I keeps_def)
qed

lemma on_document_keeps:
  assumes L: "vector_laws E tab" and I: "has_dimension tab n s" and f: "\<And>s. has_dimension tab n s \<Longrightarrow> has_dimension tab n (snd (f s))"
  shows "keeps (has_dimension tab n) (\<lambda>_. True) (on_document E p f s)"
  unfolding on_document_def
  by (intro keeps_If keeps_ret I TrueI, rule keeps_bind, rule get_document_keeps [OF L I], rule keeps_try, assumption) (simp add: keeps_def f)

lemma xattr_keeps:
  assumes L: "vector_laws E tab" and I: "has_dimension tab n s"
  shows "keeps (has_dimension tab n) (\<lambda>_. True) (vector_get_xattr E p a now s)"
    and "keeps (has_dimension tab n) (\<lambda>_. True) (vector_set_xattr E p a v now s)"
    and "keeps (has_dimension tab n) (\<lambda>_. True) (vector_remove_xattr E p a now s)"
    and "keeps (has_dimension tab n) (\<lambda>_. True) (vector_list_xattr E p now s)"
proof -
  show "keeps (has_dimension tab n) (\<lambda>_. True) (vector_get_xattr E p a now s)"
    unfolding vector_get_xattr_def by (rule on_document_keeps [OF L I]) simp
  show "keeps (has_dimension tab n) (\<lambda>_. True) (vector_set_xattr E p a v now s)"
    unfolding vector_set_xattr_def by (rule on_document_keeps [OF L I]) (simp add: Let_def)
  show "keeps (has_dimension tab n) (\<lambda>_. True) (vector_remove_xattr E p a now s)"
    unfolding vector_remove_xattr_def
  proof (rule on_document_keeps [OF L I])
    show "has_dimension tab n (snd (try_then (ok_or (pm_get (vx_xattrs s) p) no_xattr) (\<lambda>m. try_then (ok_or (hm_get (=) m a) no_xattr)
        (\<lambda>_ s. (Ok (), s\<lparr>vx_xattrs := pm_insert (vx_xattrs s) p (hm_remove (=) m a)\<rparr>))) s))" if "has_dimension tab n s" for s
      using that by (simp add: ok_or_def split: option.split)
  qed
  show "keeps (has_dimension tab n) (\<lambda>_. True) (vector_list_xattr E p now s)"
    unfolding vector_list_xattr_def by (rule on_document_keeps [OF L I]) simp
qed

lemma read_dir_keeps:
  assumes L: "vector_laws E tab" and I: "has_dimension tab n s"
  shows "keeps (has_dimension tab n) (\<lambda>_. True) (vector_read_dir E p now s)"
  unfolding vector_read_dir_def Let_def
  by (rule keeps_If, rule keeps_bind, rule list_paths_keeps [OF L I]) (simp_all add: keeps_def I)

lemma mkdir_keeps: "has_dimension tab n s \<Longrightarrow> keeps (has_dimension tab n) (\<lambda>_. True) (vector_mkdir p m now s)"
  by (simp add: keeps_def vector_mkdir_def Let_def)

lemmas ops_keep = read_keeps stat_keeps create_keeps write_keeps read_dir_keeps remove_keeps remove_all_keeps rename_keeps chmod_keeps truncate_keeps touch_keeps xattr_keeps

lemma vector_step_keeps:
  assumes L: "vector_laws E tab" and st: "fs_step (vector_fs E) s s'" and I: "has_dimension tab n s"
  shows "has_dimension tab n s'"
  using st by (cases rule: fs_step.cases)
    (simp_all add: vector_fs_def ops_keep [OF L I, unfolded keeps_def, THEN conjunct1] mkdir_keeps [OF I, unfolded keeps_def, THEN conjunct1]
      I default_readlink_def default_symlink_def)

text \<open>
  \<^bold>\<open>C21\<close>. The vectors of VectorFS: on a database that keeps its promises, in every state that calls can reach, whatever they return, every stored document has a vector of the
  configured dimension, if this held at the start; no vector from the embedding service, from an attribute or from the contents gets in with another length. So a search on a query vector
  that the code has embedded is never refused for its dimension.
\<close>

theorem vector_dimension:
  assumes L: "vector_laws E tab" and r: "fs_reachable (vector_fs E) s0 s"
    and start: "\<forall>d \<in> ran (tab (vx_db s0)). length (dc_vector d) = vc_dimension (vx_config s0)"
  shows "(\<forall>d \<in> ran (tab (vx_db s)). length (dc_vector d) = vc_dimension (vx_config s0)) \<and> vc_dimension (vx_config s) = vc_dimension (vx_config s0) \<and>
    (\<forall>q v s'. embed_content E q s = (Ok v, s') \<longrightarrow> length v = vc_dimension (vx_config s'))"
proof -
  let ?n = "vc_dimension (vx_config s0)"
  have I: "has_dimension tab ?n s"
    by (rule fs_reachable_inv [OF r]) (use start in \<open>simp add: has_dimension_def\<close>, rule vector_step_keeps [OF L])
  have "length v = vc_dimension (vx_config s')" if "embed_content E q s = (Ok v, s')" for q v s'
    using embed_keeps [OF L I, of q] that by (simp add: keeps_def has_dimension_def)
  with I show ?thesis by (auto simp: has_dimension_def)
qed

subsection \<open>Documents\<close>

definition vtab :: "('w \<Rightarrow> string \<rightharpoonup> 'f document) \<Rightarrow> 'w VectorFS \<Rightarrow> string \<rightharpoonup> 'f document" where
  "vtab tab s = tab (vx_db s)"

lemma vtab_updates [simp]:
  "vtab tab (put_metadata p e s) = vtab tab s" "vtab tab (edit_metadata p f s) = vtab tab s"
  "vtab tab (drop_metadata p s) = vtab tab s" "vtab tab (drop_xattrs p s) = vtab tab s"
  by (simp_all add: vtab_def put_metadata_def edit_metadata_def drop_metadata_def drop_xattrs_def split: option.split)

lemma at_db_vtab: "at_db call s = (r, s') \<Longrightarrow> call (vx_db s) = (r, w) \<Longrightarrow> vtab tab s' = tab w"
  by (auto simp: at_db_def vtab_def)

lemma reads_ok:
  assumes "vtab tab s = t" "\<And>w. tab (snd (call w)) = tab w" "\<And>a s'. vtab tab s' = t \<Longrightarrow> tab_ok (vtab tab) t Q (f a s')"
  shows "tab_ok (vtab tab) t Q (call_then g (at_db call) f s)"
proof -
  obtain r w where r: "call (vx_db s) = (r, w)" by (metis prod.exhaust)
  then have "tab w = t" using assms(1) assms(2) [of "vx_db s"] by (simp add: vtab_def)
  then have w: "vtab tab (s\<lparr>vx_db := w\<rparr>) = t" by (simp add: vtab_def)
  show ?thesis by (cases r) (use assms(3) [OF w] w in \<open>simp_all add: call_then_def at_db_def r tab_ok_def\<close>)
qed

lemma count_ok:
  assumes L: "vector_laws E tab" and t: "vtab tab s = t"
  shows "tab_ok (vtab tab) t (\<lambda>_ t'. t' = t \<and> True) (document_count E s)"
  unfolding document_count_def by (rule reads_ok, rule t, rule vector_lawsD(1) [OF L]) (simp add: tab_ok_def)

lemma get_document_ok:
  assumes L: "vector_laws E tab" and t: "vtab tab s = t" and k: "CHR 0x5C \<notin> set (from_utf8_lossy p)"
  shows "tab_ok (vtab tab) t (\<lambda>x t'. t' = t \<and> x = t (from_utf8_lossy p)) (get_document E p s)"
proof -
  let ?call = "vd_select E (path_predicate (from_utf8_lossy p)) 1"
  obtain r w where r: "?call (vx_db s) = (r, w)" by (metis prod.exhaust)
  then have w: "tab w = t" using t vector_lawsD(5) [OF L, of "path_predicate (from_utf8_lossy p)" 1 "vx_db s"] by (simp add: vtab_def)
  have "first_document bs = Ok (t (from_utf8_lossy p))" if "r = Inr (Inr bs)" for bs
    using vector_lawsD(7) [OF L k r [unfolded that]] t by (simp add: vtab_def)
  then show ?thesis
    using w by (cases r) (auto simp: get_document_def query_then_def call_then_def at_db_def r tab_ok_def vtab_def simp del: One_nat_def split: sum.split)
qed

lemma persist_ok:
  assumes L: "vector_laws E tab" and t: "vtab tab s = t"
  shows "tab_ok (vtab tab) t (\<lambda>_ t'. t' = t(k \<mapsto> document_row d)) (persist_document E k d s)"
proof -
  obtain r w where r: "vd_merge E k (document_row d) (vx_db s) = (r, w)" by (metis prod.exhaust)
  then have w: "tab w = (case r of Inl _ \<Rightarrow> t | Inr _ \<Rightarrow> t(k \<mapsto> document_row d))" using vector_lawsD(8) [OF L r] t [unfolded vtab_def] by (auto split: sum.split)
  have "tab_ok (vtab tab) t (\<lambda>_ t'. t' = t(k \<mapsto> document_row d))
      (call_then g (at_db (vd_merge E k (document_row d))) (\<lambda>_ s. (Ok (), s)) s)" for g
    using w by (cases r) (simp_all add: call_then_def at_db_def r tab_ok_def vtab_def fun_upd_def)
  then show ?thesis unfolding persist_document_def by (intro tab_ok_try t)
qed

lemma delete_ok:
  assumes L: "vector_laws E tab" and t: "vtab tab s = t" and k: "CHR 0x5C \<notin> set k"
  shows "tab_ok (vtab tab) t (\<lambda>_ t'. t' = t(k := None)) (delete_from_db E k s)"
proof -
  obtain r w where r: "vd_delete E (path_predicate k) (vx_db s) = (r, w)" by (metis prod.exhaust)
  then have "tab w = (case r of Inl _ \<Rightarrow> t | Inr _ \<Rightarrow> t(k := None))"
    using vector_lawsD(9) [OF L r] vector_lawsD(10) [OF L k] t by (cases r) (auto simp: vtab_def)
  then show ?thesis by (cases r) (simp_all add: delete_from_db_def call_then_def at_db_def r tab_ok_def vtab_def fun_upd_def)
qed

lemma embed_ok:
  assumes L: "vector_laws E tab" and t: "vtab tab s = t"
  shows "tab_ok (vtab tab) t (\<lambda>v t'. t' = t \<and> True) (embed_content E d s)"
proof -
  have "tab_ok (vtab tab) t (\<lambda>v t'. t' = t \<and> True) (call_then g (at_db (vd_post E u b)) (\<lambda>a s. (read_answer E n a, s)) s)" for g u b n
    by (rule reads_ok, rule t, rule vector_lawsD(4) [OF L]) (simp add: tab_ok_def split: outcome.split)
  then show ?thesis unfolding embed_content_def Let_def by (intro tab_ok_If2 tab_ok_try tab_ok_If) (simp_all add: tab_ok_def t)
qed

lemma choose_ok:
  assumes L: "vector_laws E tab" and t: "vtab tab s = t"
  shows "tab_ok (vtab tab) t (\<lambda>v t'. t' = t \<and> True) (choose_vector E p d s)"
proof (cases "Option.bind (pm_get (vx_xattrs s) p) (\<lambda>m. hm_get (=) m ''racfs.vector'')")
  case (Some v)
  then show ?thesis unfolding choose_vector_def using embed_ok [OF L t, of d]
    by (cases "parse_vector_xattr E v (vc_dimension (vx_config s))") (simp_all add: tab_ok_Ok t)
qed (simp add: choose_vector_def embed_ok [OF L t, simplified])

lemma document_not_virtual:
  assumes "is_document p"
  shows "\<not> is_virtual_path p" "from_utf8_lossy p \<noteq> ''/index/count''" "from_utf8_lossy p \<noteq> ''/index/status''" "from_utf8_lossy p \<noteq> ''/index/dimension''"
  using assms by (auto simp: is_document_def is_virtual_path_def starts_with_iff)

lemma vector_create_ok:
  assumes L: "vector_laws E tab" and p: "is_document p" and k: "CHR 0x5C \<notin> set (from_utf8_lossy p)" and t: "vtab tab s = t"
  shows "tab_ok (vtab tab) t (\<lambda>_ t'. t (from_utf8_lossy p) = None \<and> (\<exists>d. dc_data d = [] \<and> t' = t(from_utf8_lossy p \<mapsto> d))) (vector_create E p now s)"
proof -
  have "tab_ok (vtab tab) t (\<lambda>_ t'. t (from_utf8_lossy p) = None \<and> (\<exists>d. dc_data d = [] \<and> t' = t(from_utf8_lossy p \<mapsto> d)))
      (bind_op (persist_document E (from_utf8_lossy p) d) (\<lambda>_ s. (Ok (), put_metadata p e s)) s')"
    if "t (from_utf8_lossy p) = None" "dc_data d = []" "vtab tab s' = t" for d e s'
    using persist_ok [OF L that(3), of "from_utf8_lossy p" d] that
    by (cases "persist_document E (from_utf8_lossy p) d s'", rename_tac r w, case_tac r) (auto simp: bind_op_def tab_ok_def intro!: exI [of _ "document_row d"])
  with p show ?thesis unfolding vector_create_def
    by (simp only: document_not_virtual if_False not_True_eq_False, intro tab_ok_bind [where P = "\<lambda>x. x = t (from_utf8_lossy p)"] get_document_ok [OF L t k])
      (auto intro!: tab_ok_If2 tab_ok_Err)
qed

lemma vector_read_ok:
  assumes L: "vector_laws E tab" and p: "is_document p" and k: "CHR 0x5C \<notin> set (from_utf8_lossy p)" and t: "vtab tab s = t"
  shows "tab_ok (vtab tab) t (\<lambda>b t'. t' = t \<and> (\<exists>d. t (from_utf8_lossy p) = Some d \<and> read_slice (dc_data d) offset sz = Ok b)) (vector_read E p offset sz now s)"
  unfolding vector_read_def using p
  by (simp add: document_not_virtual, intro tab_ok_bind [where P = "\<lambda>x. x = t (from_utf8_lossy p)"] get_document_ok [OF L t k])
    (auto simp: tab_ok_def split: option.split outcome.split)

lemma vector_remove_ok:
  assumes L: "vector_laws E tab" and p: "is_document p" and k: "CHR 0x5C \<notin> set (from_utf8_lossy p)" and t: "vtab tab s = t"
  shows "tab_ok (vtab tab) t (\<lambda>_ t'. t (from_utf8_lossy p) \<noteq> None \<and> t' = t(from_utf8_lossy p := None)) (vector_remove E p now s)"
proof -
  have "tab_ok (vtab tab) t (\<lambda>_ t'. t (from_utf8_lossy p) \<noteq> None \<and> t' = t(from_utf8_lossy p := None))
      (bind_op (delete_from_db E (from_utf8_lossy p)) (\<lambda>_ s. (Ok (), drop_metadata p (drop_xattrs p s))) s')"
    if "t (from_utf8_lossy p) \<noteq> None" "vtab tab s' = t" for s'
    using delete_ok [OF L that(2) k] that(1)
    by (cases "delete_from_db E (from_utf8_lossy p) s'", rename_tac r w, case_tac r) (auto simp: bind_op_def tab_ok_def)
  with p show ?thesis unfolding vector_remove_def remove_document_def
    by (simp only: document_not_virtual if_False if_True simp_thms, intro tab_ok_bind [where P = "\<lambda>x. x = t (from_utf8_lossy p)"] get_document_ok [OF L t k])
      (auto intro!: tab_ok_If tab_ok_Err)
qed

text \<open>What a write that reaches the table leaves there.\<close>

definition document_written :: "(string \<rightharpoonup> 'f document) \<Rightarrow> string \<Rightarrow> bytes \<Rightarrow> int \<Rightarrow> flags \<Rightarrow> (string \<rightharpoonup> 'f document) \<Rightarrow> bool" where
  "document_written t k data offset flags t' \<longleftrightarrow>
     (\<exists>old new. t k = Some old \<and> dc_data new = kept_or_replaced (dc_data old) data offset flags \<and> dc_mode new = dc_mode old \<and> t' = t(k \<mapsto> new))"

lemma vector_write_ok:
  fixes data :: bytes and flags :: flags
  assumes L: "vector_laws E tab" and p: "is_document p" and k: "CHR 0x5C \<notin> set (from_utf8_lossy p)" and t: "vtab tab s = t"
    and q: "\<not> is_search_file ''/query.txt'' p" and i: "is_i64 offset" and len: "\<forall>d \<in> ran t. length (dc_data d) \<le> isize_max"
  defines "W \<equiv> document_written t (from_utf8_lossy p) data offset flags"
  shows "tab_or (vtab tab) (\<lambda>t'. t' = t \<or> W t') (\<lambda>m t'. m = length data \<and> W t') (vector_write E p data offset flags now s)"
proof -
  let ?F = "\<lambda>t'. t' = t \<or> W t'" and ?Q = "\<lambda>m t'. m = length data \<and> W t'" and ?k = "from_utf8_lossy p"
  have count: "tab_or (vtab tab) ?F ?Q (bind_op (document_count E) (\<lambda>n s. (Ok (length data), edit_metadata c (f n) s)) s')" if "W (vtab tab s')" for s' c f
    by (rule tab_or_bind, rule count_ok [OF L refl]) (use that in \<open>auto simp: tab_or_def\<close>)
  have persist: "tab_or (vtab tab) ?F ?Q (bind_op (persist_document E ?k (d\<lparr>dc_data := b, dc_vector := v, dc_modified := m\<rparr>))
      (\<lambda>_ s. bind_op (document_count E) (\<lambda>n s. (Ok (length data), edit_metadata c (f n) s)) (edit_metadata p g s)) s')"
    if d: "t ?k = Some d" and b: "b = kept_or_replaced (dc_data d) data offset flags" and s': "vtab tab s' = t" for d b v m c f g s'
  proof (rule tab_or_seq [where P = "\<lambda>_. W"])
    let ?new = "d\<lparr>dc_data := b, dc_vector := v, dc_modified := m\<rparr>"
    have "W (t(?k \<mapsto> document_row ?new))" using d b by (auto simp: W_def document_written_def intro!: exI [of _ "document_row ?new"])
    then show "tab_or (vtab tab) ?F (\<lambda>_. W) (persist_document E ?k ?new s')"
      using persist_ok [OF L s', of ?k ?new] by (auto simp: tab_ok_def tab_or_def split: outcome.splits)
  qed (rule count, simp)
  have new: "b = kept_or_replaced (dc_data d) data offset flags" if "t ?k = Some d" "sql_write_data (dc_data d) data offset flags = Ok b" for d b
    by (rule sql_write_data_spec [OF i _ that(2)]) (use len that(1) in \<open>auto simp: ran_def\<close>)
  have found: "tab_or (vtab tab) ?F ?Q (try_then (ok_or x (NotFound p)) (\<lambda>d. try_then (sql_write_data (dc_data d) data offset flags) (\<lambda>b.
      bind_op (choose_vector E p b) (\<lambda>v. bind_op (persist_document E ?k (d\<lparr>dc_data := b, dc_vector := v, dc_modified := m\<rparr>))
      (\<lambda>_ s. bind_op (document_count E) (\<lambda>n s. (Ok (length data), edit_metadata c (f n) s)) (edit_metadata p (g b) s))))) s')"
    if x: "x = t ?k" and s': "vtab tab s' = t" for x m c f g s'
    by (rule tab_or_try, simp add: s', rule tab_or_try, simp add: s', rule tab_or_bind, rule choose_ok [OF L s'], simp, rule persist)
      (use x new in \<open>simp_all add: outcome_simps\<close>)
  show ?thesis unfolding vector_write_def using p q
    by (simp only: document_not_virtual if_False not_True_eq_False, intro tab_or_bind [where P = "\<lambda>x. x = t ?k"] found) (rule get_document_ok [OF L t k], simp_all)
qed

text \<open>
  \<^bold>\<open>C22\<close>. The documents of VectorFS, for a path without a backslash, whatever calls of the database or of the embedding service fail: \<open>create\<close> adds an empty document for
  a free path, \<open>read\<close> returns the requested window of the stored bytes, \<open>remove\<close> takes out that document alone, and each of them changes nothing when it does not succeed. \<open>write\<close>
  keeps the mode, appends (after padding with zeros) when the append flag is given or the offset is negative or not inside the contents, and in every other case replaces the whole contents;
  when it does not succeed it has changed nothing or (when only the count of the documents failed afterwards) has written the document.
\<close>

theorem vector_documents:
  fixes p :: path
  assumes L: "vector_laws E tab" and p: "is_document p" and b: "CHR 0x5C \<notin> set (from_utf8_lossy p)" and q: "\<not> is_search_file ''/query.txt'' p"
    and i: "is_i64 offset" and len: "\<forall>d \<in> ran (vtab tab s). length (dc_data d) \<le> isize_max"
  defines "t \<equiv> vtab tab s" and "k \<equiv> from_utf8_lossy p"
  shows "tab_ok (vtab tab) t (\<lambda>_ t'. t k = None \<and> (\<exists>d. dc_data d = [] \<and> t' = t(k \<mapsto> d))) (vector_create E p now s) \<and>
    tab_ok (vtab tab) t (\<lambda>b t'. t' = t \<and> (\<exists>d. t k = Some d \<and> read_slice (dc_data d) offset sz = Ok b)) (vector_read E p offset sz now s) \<and>
    tab_ok (vtab tab) t (\<lambda>_ t'. t k \<noteq> None \<and> t' = t(k := None)) (vector_remove E p now s) \<and>
    tab_or (vtab tab) (\<lambda>t'. t' = t \<or> document_written t k data offset flags t') (\<lambda>m t'. m = length data \<and> document_written t k data offset flags t')
      (vector_write E p data offset flags now s)"
  unfolding t_def k_def
  by (intro conjI vector_create_ok [OF L p b refl] vector_read_ok [OF L p b refl] vector_remove_ok [OF L p b refl] vector_write_ok [OF L p b refl q i len])

subsection \<open>A database in memory\<close>

definition doc_batch :: "string \<Rightarrow> 'f document \<Rightarrow> 'f batch" where
  "doc_batch k d = \<lparr>ba_rows = 1, ba_path = Some [Some k], ba_data = Some [Some (dc_data d)], ba_vector = Some [Some (Some (dc_vector d))],
     ba_mode = Some [Some (dc_mode d)], ba_created = Some [dc_created d], ba_modified = Some [dc_modified d], ba_distance = None\<rparr>"

definition memory_select :: "string \<Rightarrow> (string \<times> 'f document) list \<Rightarrow> 'f batch list" where
  "memory_select c w = (case find (\<lambda>(k, d). path_predicate k = c) w of None \<Rightarrow> [] | Some (k, d) \<Rightarrow> [doc_batch k d])"

definition memory_vectors :: "((string \<times> int document) list, int) vector_env" where
  "memory_vectors = \<lparr>vd_connect = \<lambda>_. Pair (Inr ()), vd_table_names = Pair (Inr []), vd_open_table = \<lambda>_. Pair (Inr ()), vd_create_table = \<lambda>_ _. Pair (Inr ()),
     vd_count = \<lambda>w. (Inr (length w), w), vd_select = \<lambda>c n w. (Inr (Inr (memory_select c w)), w),
     vd_scan = \<lambda>w. (Inr (Inr (map (\<lambda>(k, d). doc_batch k d) w)), w), vd_nearest_to = \<lambda>_. Inr (),
     vd_nearest = \<lambda>v n w. (Inr (Inr (map (\<lambda>(k, d). doc_batch k d) (take n w))), w), vd_batch = \<lambda>_ _ _. Ok (),
     vd_merge = \<lambda>k d w. (Inr (), (k, d) # filter (\<lambda>(q, _). q \<noteq> k) w), vd_delete = \<lambda>c w. (Inr (), filter (\<lambda>(k, _). path_predicate k \<noteq> c) w),
     vd_post = \<lambda>_ _. Pair (Inl ''offline''), vd_floats = \<lambda>_. Inl ''no numbers'', vd_json = \<lambda>_. None, vd_print = \<lambda>_. None, vd_hash = \<lambda>_. 0,
     vf_ratio = int, vf_zero = 0, vf_add = (+), vf_mul = (*), vf_div = (div), vf_sqrt = \<lambda>x. x, vf_neg = uminus, vf_positive = \<lambda>x. x > 0,
     vd_millis = int, vd_from_millis = \<lambda>m. Some (nat m)\<rparr>"

lemma doubled_inj: "concat (map (\<lambda>c. if c = q then [c, c] else [c]) xs) = concat (map (\<lambda>c. if c = q then [c, c] else [c]) ys) \<Longrightarrow> xs = ys"
proof (induction xs arbitrary: ys)
  case Nil
  then show ?case by (cases ys) (auto split: if_splits)
next
  case (Cons x xs)
  then show ?case by (cases ys) (auto split: if_splits)
qed

text \<open>Different paths have different conditions, so a condition selects at most one path.\<close>

lemma path_predicate_inj [simp]: "path_predicate k = path_predicate l \<longleftrightarrow> k = l"
  by (auto simp: path_predicate_def escape_sql_string_def dest: doubled_inj)

lemma first_document_batch [simp]: "first_document [doc_batch k d] = Ok (Some d)"
  by (simp add: first_document_def decode_document_def doc_batch_def column_def)

lemma find_path: "find (\<lambda>(k, _). k = l) w = map_option (Pair l) (map_of w l)"
  by (induction w) auto

lemma memory_select_path: "first_document (memory_select (path_predicate k) w) = Ok (map_of w k)"
  by (simp add: memory_select_def find_path split: option.split) (simp add: first_document_def)

lemma memory_select_ran:
  assumes "first_document (memory_select c w) = Ok (Some d)"
  shows "d \<in> ran (map_of w)"
proof -
  obtain k where "find (\<lambda>(k, d). path_predicate k = c) w = Some (k, d)"
    using assms by (cases "find (\<lambda>(k, d). path_predicate k = c) w") (auto simp: memory_select_def first_document_def [of "[]"])
  then have "c = path_predicate k" by (auto simp: find_Some_iff)
  with assms have "map_of w k = Some d" using memory_select_path [of k w] by simp
  then show ?thesis by (rule ranI)
qed

lemma memory_vectors_laws: "vector_laws memory_vectors map_of"
  unfolding vector_laws_def memory_vectors_def vector_env.simps
  by (intro conjI allI impI)
    (auto simp: memory_select_path map_of_filter_path map_le_def fun_eq_iff dest: memory_select_ran split: if_splits)

definition sample_vectors :: "(string \<times> int document) list VectorFS" where
  "sample_vectors = \<lparr>vx_config = vector_config_default\<lparr>vc_dimension := 2\<rparr>, vx_client = False, vx_metadata = init_virtual_paths vector_config_default 0,
     vx_search_queries = [], vx_xattrs = [],
     vx_db = [(''/documents/a'', \<lparr>dc_data = ''hello'', dc_vector = [1, 0], dc_mode = 420, dc_created = Some 0, dc_modified = Some 0\<rparr>)]\<rparr>"

lemma memory_calls [simp]:
  "get_document memory_vectors p s = (Ok (map_of (vx_db s) (from_utf8_lossy p)), s)"
  "persist_document memory_vectors k d s = (Ok (), s\<lparr>vx_db := (k, document_row d) # filter (\<lambda>(q, _). q \<noteq> k) (vx_db s)\<rparr>)"
  "document_count memory_vectors s = (Ok (length (vx_db s)), s)"
  "delete_from_db memory_vectors k s = (Ok (), s\<lparr>vx_db := filter (\<lambda>(q, _). q \<noteq> k) (vx_db s)\<rparr>)"
  by (simp_all add: get_document_def query_then_def persist_document_def document_count_def delete_from_db_def call_then_def at_db_def memory_vectors_def memory_select_path)

lemma sample_paths: "from_utf8_lossy ''/documents/a'' = ''/documents/a''" "from_utf8_lossy ''/documents/b'' = ''/documents/b''"
    "is_document ''/documents/a''" "is_document ''/documents/b''" "\<not> is_search_file ''/query.txt'' ''/documents/a''"
  by code_simp+

theorem vector_dimension_witness:
  "let s = snd (vector_create memory_vectors ''/documents/b'' 0 sample_vectors)
   in ''/documents/b'' \<in> dom (map_of (vx_db s)) \<and> (\<forall>d \<in> ran (map_of (vx_db s)). length (dc_vector d) = 2)"
proof -
  let ?s = "snd (vector_create memory_vectors ''/documents/b'' 0 sample_vectors)"
  have "fs_step (vector_fs memory_vectors) sample_vectors ?s"
    using fs_step.create [of "vector_fs memory_vectors"] by (simp add: vector_fs_def)
  then have r: "fs_reachable (vector_fs memory_vectors) sample_vectors ?s" by (rule fs_reachable.step [OF fs_reachable.start])
  have start: "\<forall>d \<in> ran (map_of (vx_db sample_vectors)). length (dc_vector d) = vc_dimension (vx_config sample_vectors)"
    by (simp add: sample_vectors_def ran_def)
  have "map fst (vx_db ?s) = [''/documents/b'', ''/documents/a'']"
    by (simp add: vector_create_def document_not_virtual sample_paths bind_op_def put_metadata_def sample_vectors_def)
  then have "''/documents/b'' \<in> set (map fst (vx_db ?s))" by simp
  moreover have "vc_dimension (vx_config sample_vectors) = 2" by (simp add: sample_vectors_def)
  ultimately show ?thesis using vector_dimension [OF memory_vectors_laws r start] by (simp add: Let_def dom_map_of_conv_image_fst)
qed

theorem vector_documents_witness:
  "let (r, s) = vector_write memory_vectors ''/documents/a'' ''J'' 0 WF_NONE 0 sample_vectors
   in r = Ok 1 \<and> map_option dc_data (map_of (vx_db s) ''/documents/a'') = Some ''J''"
proof -
  obtain r s where rs: "vector_write memory_vectors ''/documents/a'' ''J'' 0 WF_NONE 0 sample_vectors = (r, s)" by (metis prod.exhaust)
  have "fst (vector_write memory_vectors ''/documents/a'' ''J'' 0 WF_NONE 0 sample_vectors) = Ok 1"
    by (simp add: vector_write_def document_not_virtual sample_paths bind_op_def choose_vector_def embed_content_def sample_vectors_def sql_write_data_def truncate_always)
  then have r: "r = Ok 1" using rs by simp
  have old: "\<exists>d. vtab map_of sample_vectors ''/documents/a'' = Some d \<and> dc_data d = ''hello''" by (simp add: vtab_def sample_vectors_def)
  have len: "\<forall>d \<in> ran (vtab map_of sample_vectors). length (dc_data d) \<le> isize_max" by (simp add: vtab_def sample_vectors_def ran_def)
  have b: "CHR 0x5C \<notin> set (from_utf8_lossy ''/documents/a'')" by (simp add: sample_paths)
  have i: "is_i64 0" by (simp add: is_i64_def)
  note docs = vector_documents [where p = "''/documents/a''" and now = 0 and data = "''J''" and flags = WF_NONE,
      OF memory_vectors_laws sample_paths(3) b sample_paths(5) i len]
  from docs [THEN conjunct2, THEN conjunct2, THEN conjunct2] rs old show ?thesis
    unfolding sample_paths tab_or_def r by (auto simp: document_written_def kept_or_replaced_def vtab_def r)
qed

text \<open>
  Renaming a document with an attribute never returns; a query of white space alone panics when its matches are read; the limit of a search is within its bounds; and the mode of a new
  document has no file type.
\<close>

lemma vector_rename_hangs:
  "let s = snd (vector_set_xattr memory_vectors ''/documents/a'' ''tag'' ''x'' 0 sample_vectors)
   in fst (vector_rename memory_vectors ''/documents/a'' ''/documents/b'' 0 s) = Hang"
proof -
  have "\<not> path_eq ''/documents/a'' ''/documents/b''" "pm_contains [(''/documents/a'', [(''tag'', ''x'')])] ''/documents/a''" by code_simp+
  then show ?thesis
    by (simp add: vector_set_xattr_def on_document_def vector_rename_def rename_document_def sample_paths bind_op_def sample_vectors_def Let_def
        move_xattrs_def put_metadata_def drop_metadata_def starts_with_def)
qed

lemma vector_blank_query_panics: "b \<noteq> [] \<Longrightarrow> list_all ascii_ws b \<Longrightarrow> parse_query_and_limit E b = Panic"
  by (simp add: parse_query_and_limit_def trim_whitespace_def index_range_def list_all_iff takeWhile_eq_all_conv [THEN iffD2])

lemma vector_limit: "parse_query_and_limit E b = Ok (q, n) \<Longrightarrow> 1 \<le> n \<and> n \<le> MAX_SEARCH_LIMIT"
  by (auto simp: parse_query_and_limit_def clamp_def MAX_SEARCH_LIMIT_def DEFAULT_SEARCH_LIMIT_def Let_def outcome_simps split: if_splits option.splits json.splits)

lemma vector_document_without_type:
  "map_of (vx_db (snd (vector_create memory_vectors ''/documents/b'' 0 sample_vectors))) ''/documents/b'' = Some d \<Longrightarrow> dc_mode d AND S_IFMT = 0"
  by (auto simp: vector_create_def document_not_virtual sample_paths bind_op_def put_metadata_def sample_vectors_def S_IFMT_def)

end
