(* ===== verification/Server_Config.thy ===== *)
theory Server_Config
  imports Mountable_FS Stream_FS Auth Rate_Limit Server_Api Vector_FS
begin

text \<open>
  Configuration and start-up of the server (\<open>racfs-server/src/config.rs\<close>, \<open>racfs-server/src/main.rs\<close>): the defaults, the overrides from the
  environment, validation, the mounting of the configured file systems and the reload on a signal. Reading a TOML file and opening a
  backend that needs one (a database, a vector store) are parameters.
\<close>

subsection \<open>Configuration\<close>

record RatelimitConfigOption =
  rco_max_requests :: nat
  rco_window_secs :: nat

definition default_max_requests :: nat where "default_max_requests = 100"
definition default_window_secs :: nat where "default_window_secs = 60"

definition ratelimit_option_default :: RatelimitConfigOption where
  "ratelimit_option_default = \<lparr>rco_max_requests = default_max_requests, rco_window_secs = default_window_secs\<rparr>"

record StatCacheConfigOption =
  sco_ttl_secs :: nat

definition default_stat_cache_ttl_secs :: nat where "default_stat_cache_ttl_secs = 2"

definition stat_cache_option_default :: StatCacheConfigOption where
  "stat_cache_option_default = \<lparr>sco_ttl_secs = default_stat_cache_ttl_secs\<rparr>"

record MountCacheConfig =
  mcc_enabled :: bool
  mcc_ttl_secs :: "nat option"
  mcc_max_entries :: "nat option"

record MountConfig =
  mc_path :: string
  mc_fs_type :: string
  mc_url :: "string option"
  mc_root :: "string option"
  mc_buffer_size :: "nat option"
  mc_history_size :: "nat option"
  mc_max_streams :: "nat option"
  mc_storage_uri :: "string option"
  mc_db_path :: "string option"
  mc_database_path :: "string option"
  mc_embedding_url :: "string option"
  mc_table_name :: "string option"
  mc_dimension :: "nat option"
  mc_cache :: "MountCacheConfig option"
  mc_perm :: mode

record ServerConfig =
  sc_host :: string
  sc_port :: nat
  sc_mounts :: "(string, MountConfig) hash_map"
  sc_jwt :: JwtConfig
  sc_ratelimit :: RatelimitConfigOption
  sc_stat_cache :: StatCacheConfigOption

definition default_host :: string where "default_host = ''127.0.0.1''"
definition default_port :: nat where "default_port = 8080"

definition server_config_default :: "string \<Rightarrow> ServerConfig" where
  "server_config_default uuid = \<lparr>sc_host = default_host, sc_port = default_port, sc_mounts = [], sc_jwt = jwt_config_default uuid,
     sc_ratelimit = ratelimit_option_default, sc_stat_cache = stat_cache_option_default\<rparr>"

text \<open>A TOML file with one mount that gives only what has no default.\<close>

definition default_fs_type :: string where "default_fs_type = ''memfs''"
definition default_permissions :: mode where "default_permissions = 493"
definition default_buffer_size :: "nat option" where "default_buffer_size = Some 1000"
definition default_history_size :: "nat option" where "default_history_size = Some 100"
definition default_max_streams :: "nat option" where "default_max_streams = Some 100"

definition mount_config_minimal :: "string \<Rightarrow> MountConfig" where
  "mount_config_minimal p = \<lparr>mc_path = p, mc_fs_type = default_fs_type, mc_url = None, mc_root = None, mc_buffer_size = default_buffer_size,
     mc_history_size = default_history_size, mc_max_streams = default_max_streams, mc_storage_uri = None, mc_db_path = None,
     mc_database_path = None, mc_embedding_url = None, mc_table_name = None, mc_dimension = None, mc_cache = None,
     mc_perm = default_permissions\<rparr>"

type_synonym toml_loader = "string \<Rightarrow> string + ServerConfig"

definition from_file_or_default :: "toml_loader \<Rightarrow> string \<Rightarrow> string option \<Rightarrow> string + ServerConfig" where
  "from_file_or_default load uuid path = (case path of Some p \<Rightarrow> load p | None \<Rightarrow> Inr (server_config_default uuid))"

definition apply_env_overrides :: "(string \<Rightarrow> string option) \<Rightarrow> ServerConfig \<Rightarrow> ServerConfig" where
  "apply_env_overrides env c =
     (let c1 = (case env ''RACFS_HOST'' of Some s \<Rightarrow> c\<lparr>sc_host := s\<rparr> | None \<Rightarrow> c)
      in case Option.bind (env ''RACFS_PORT'') (parse_uint 65535) of Some p \<Rightarrow> c1\<lparr>sc_port := p\<rparr> | None \<Rightarrow> c1)"

subsection \<open>Validation\<close>

definition blank :: "string option \<Rightarrow> bool" where
  "blank s \<longleftrightarrow> (case s of None \<Rightarrow> True | Some t \<Rightarrow> trim t = [])"

definition mount_prefix :: "string \<Rightarrow> string" where
  "mount_prefix name = ''mounts.'' @ name @ '': ''"

definition zero_issue :: "string \<Rightarrow> nat option \<Rightarrow> string \<Rightarrow> string list" where
  "zero_issue name n msg = (if n = Some 0 then [mount_prefix name @ msg] else [])"

definition path_issues :: "string \<Rightarrow> MountConfig \<Rightarrow> string list" where
  "path_issues name m =
     (if trim (mc_path m) = [] then [mount_prefix name @ ''path must be non-empty'']
      else if \<not> starts_with (mc_path m) ''/'' then [mount_prefix name @ ''path must start with '' @ [CHR 0x27] @ ''/'' @ [CHR 0x27]]
      else [])"

definition type_issues :: "string \<Rightarrow> MountConfig \<Rightarrow> string list" where
  "type_issues name m =
     (if mc_fs_type m = ''localfs'' then
        (if blank (mc_root m) then [mount_prefix name @ ''localfs requires '' @ [CHR 0x27] @ ''root'' @ [CHR 0x27] @ '' path''] else [])
      else if mc_fs_type m = ''proxyfs'' then
        (if blank (mc_url m) then [mount_prefix name @ ''proxyfs requires '' @ [CHR 0x27] @ ''url'' @ [CHR 0x27]] else [])
      else if mc_fs_type m = ''streamfs'' then
        zero_issue name (mc_buffer_size m) ''streamfs buffer_size must be > 0'' @
        zero_issue name (mc_history_size m) ''streamfs history_size must be > 0'' @
        zero_issue name (mc_max_streams m) ''streamfs max_streams must be > 0''
      else [])"

definition cache_issues :: "string \<Rightarrow> MountConfig \<Rightarrow> string list" where
  "cache_issues name m =
     (case mc_cache m of
        Some cache \<Rightarrow>
          if mcc_enabled cache then
            zero_issue name (mcc_ttl_secs cache) ''cache.ttl_secs must be > 0 when cache is enabled'' @
            zero_issue name (mcc_max_entries cache) ''cache.max_entries must be > 0 when cache is enabled''
          else []
      | None \<Rightarrow> [])"

definition config_issues :: "ServerConfig \<Rightarrow> string list" where
  "config_issues c =
     (if trim (sc_host c) = [] then [''host must be non-empty''] else []) @
     concat (map (\<lambda>(name, m). path_issues name m @ type_issues name m @ cache_issues name m) (sc_mounts c))"

definition validate :: "ServerConfig \<Rightarrow> (unit, string) outcome" where
  "validate c = (let errors = config_issues c in if errors = [] then Ok () else Err (join ''; '' errors))"

subsection \<open>Mounting\<close>

text \<open>The file system that is built for a mount, and the cache around it: its capacity and the prefix of its keys.\<close>

datatype backend =
    B_Mem | B_Dev | B_Local path | B_Proxy string | B_Stream StreamConfig | B_Vector VectorConfig | B_Queue | B_Kv "string option"

record mounted =
  mt_backend :: backend
  mt_cache :: "(nat \<times> string) option"

definition or_else :: "'a option \<Rightarrow> 'a option \<Rightarrow> 'a option" where
  "or_else a b = (case a of Some x \<Rightarrow> Some x | None \<Rightarrow> b)"

definition or_value :: "'a option \<Rightarrow> 'a \<Rightarrow> 'a" where
  "or_value a x = (case a of Some y \<Rightarrow> y | None \<Rightarrow> x)"

definition stream_config_of :: "MountConfig \<Rightarrow> StreamConfig" where
  "stream_config_of m = \<lparr>sfc_buffer_size = or_value (mc_buffer_size m) 1000, sfc_history_size = or_value (mc_history_size m) 100,
     sfc_max_streams = or_value (mc_max_streams m) 100, sfc_compression = None\<rparr>"

definition vector_config_of :: "MountConfig \<Rightarrow> VectorConfig" where
  "vector_config_of m = \<lparr>vc_storage_uri = or_value (or_else (mc_storage_uri m) (mc_db_path m)) ''./vector_db'',
     vc_embedding_api = mc_embedding_url m, vc_table_name = or_value (mc_table_name m) ''vectors'', vc_dimension = or_value (mc_dimension m) 384\<rparr>"

text \<open>The outer option is \<open>None\<close> for a type that is not known; \<open>opens\<close> says why a backend cannot be opened.\<close>

definition build_backend :: "(backend \<Rightarrow> string option) \<Rightarrow> MountConfig \<Rightarrow> (backend, string) outcome option" where
  "build_backend opens m =
     (let open_it = (\<lambda>b. case opens b of None \<Rightarrow> Ok b | Some e \<Rightarrow> Err e) in
      if mc_fs_type m = ''memfs'' then Some (Ok B_Mem)
      else if mc_fs_type m = ''devfs'' then Some (Ok B_Dev)
      else if mc_fs_type m = ''localfs'' then
        Some (case mc_root m of Some r \<Rightarrow> Ok (B_Local r) | None \<Rightarrow> Err (''localfs requires '' @ [CHR 0x27] @ ''root'' @ [CHR 0x27] @ '' path''))
      else if mc_fs_type m = ''proxyfs'' then
        Some (case mc_url m of Some u \<Rightarrow> Ok (B_Proxy u) | None \<Rightarrow> Err (''proxyfs requires '' @ [CHR 0x27] @ ''url'' @ [CHR 0x27]))
      else if mc_fs_type m = ''streamfs'' then Some (Ok (B_Stream (stream_config_of m)))
      else if mc_fs_type m = ''vectorfs'' then Some (open_it (B_Vector (vector_config_of m)))
      else if mc_fs_type m = ''queuefs'' then Some (Ok B_Queue)
      else if mc_fs_type m = ''kvfs'' then
        Some (case mc_database_path m of Some p \<Rightarrow> open_it (B_Kv (Some p)) | None \<Rightarrow> Ok (B_Kv None))
      else None)"

definition cache_tier :: "MountConfig \<Rightarrow> (nat \<times> string) option" where
  "cache_tier m =
     (case mc_cache m of
        Some c \<Rightarrow> if mcc_enabled c then map_option (\<lambda>n. (n, mc_path m @ '':'')) (mcc_max_entries c) else None
      | None \<Rightarrow> None)"

text \<open>The router and the file systems built so far; a file system is referred to by its position.\<close>

type_synonym ('t, 's) mounts = "('t, 's) MountableFS \<times> mounted list"

definition mount_at :: "'t trie_api \<Rightarrow> string \<Rightarrow> mounted \<Rightarrow> ('t, 's) mounts \<Rightarrow> unit fs_result \<times> ('t, 's) mounts" where
  "mount_at T p b s = (let (r, m) = mount T p (length (snd s)) (fst s) in (r, (m, if is_ok r then snd s @ [b] else snd s)))"

definition mount_default :: "'t trie_api \<Rightarrow> ('t, 's) mounts \<Rightarrow> (('t, 's) mounts, string) outcome" where
  "mount_default T s =
     (case mount_at T ''/memfs'' \<lparr>mt_backend = B_Mem, mt_cache = None\<rparr> s of
        (Ok _, s1) \<Rightarrow>
          (case mount_at T ''/dev'' \<lparr>mt_backend = B_Dev, mt_cache = None\<rparr> s1 of
             (Ok _, s2) \<Rightarrow> Ok s2 | (Err e, _) \<Rightarrow> Err (fs_error_display e) | (Panic, _) \<Rightarrow> Panic | (Hang, _) \<Rightarrow> Hang)
      | (Err e, _) \<Rightarrow> Err (fs_error_display e) | (Panic, _) \<Rightarrow> Panic | (Hang, _) \<Rightarrow> Hang)"

fun mount_configured ::
    "'t trie_api \<Rightarrow> (backend \<Rightarrow> string option) \<Rightarrow> (string \<times> MountConfig) list \<Rightarrow> ('t, 's) mounts \<Rightarrow> (('t, 's) mounts, string) outcome" where
  "mount_configured T opens [] s = Ok s"
| "mount_configured T opens ((name, m) # ms) s =
     (case build_backend opens m of
        None \<Rightarrow> mount_configured T opens ms s
      | Some (Err e) \<Rightarrow> Err e
      | Some Panic \<Rightarrow> Panic
      | Some Hang \<Rightarrow> Hang
      | Some (Ok b) \<Rightarrow>
          (case mount_at T (mc_path m) \<lparr>mt_backend = b, mt_cache = cache_tier m\<rparr> s of
             (Ok _, s') \<Rightarrow> mount_configured T opens ms s'
           | (Err e, _) \<Rightarrow> Err (''Failed to mount '' @ name @ '': '' @ fs_error_display e)
           | (Panic, _) \<Rightarrow> Panic
           | (Hang, _) \<Rightarrow> Hang))"

subsection \<open>Start-up and reload\<close>

definition rate_limit_of :: "ServerConfig \<Rightarrow> RateLimitConfig" where
  "rate_limit_of c = \<lparr>rlc_max_requests = rco_max_requests (sc_ratelimit c), rlc_window = rco_window_secs (sc_ratelimit c) * 10 ^ 9,
     rlc_headers = rate_limit_headers_default\<rparr>"

record Args =
  ar_host :: string
  ar_port :: nat
  ar_config :: "string option"

record ('t, 's) running =
  ru_host :: string
  ru_port :: nat
  ru_config_path :: "string option"
  ru_mounted :: "mounted list"
  ru_state :: "('t, 's) MountableFS AppState"
  ru_limiter :: RateLimiter

definition load_config :: "toml_loader \<Rightarrow> (string \<Rightarrow> string option) \<Rightarrow> string \<Rightarrow> string option \<Rightarrow> ServerConfig" where
  "load_config load env uuid path =
     apply_env_overrides env (case from_file_or_default load uuid path of Inr c \<Rightarrow> c | Inl _ \<Rightarrow> server_config_default uuid)"

definition server_run :: "'t trie_api \<Rightarrow> (fs_ref \<Rightarrow> 's) \<Rightarrow> (backend \<Rightarrow> string option) \<Rightarrow> toml_loader \<Rightarrow> (string \<Rightarrow> string option) \<Rightarrow> string \<Rightarrow>
    Args \<Rightarrow> (('t, 's) running, string) outcome" where
  "server_run T B opens load env uuid args =
     (let config_path = or_else (ar_config args) (env ''RACFS_CONFIG'');
          c = load_config load env uuid config_path
      in and_then (case validate c of Err e \<Rightarrow> Err (''Configuration error: '' @ e) | r \<Rightarrow> r) (\<lambda>_.
         and_then (if sc_mounts c = [] then mount_default T (mountable_new T B, [])
                   else mount_configured T opens (sc_mounts c) (mountable_new T B, [])) (\<lambda>(vfs, bs).
         Ok \<lparr>ru_host = sc_host c, ru_port = sc_port c, ru_config_path = config_path, ru_mounted = bs,
             ru_state = app_state_new vfs (sco_ttl_secs (sc_stat_cache c)), ru_limiter = rate_limiter_new (rate_limit_of c)\<rparr>)))"

text \<open>One turn of the loop of \<open>reload_on_sighup\<close>.\<close>

definition reload_on_sighup :: "toml_loader \<Rightarrow> (string \<Rightarrow> string option) \<Rightarrow> ('t, 's) running \<Rightarrow> ('t, 's) running" where
  "reload_on_sighup load env ru =
     (case ru_config_path ru of
        None \<Rightarrow> ru
      | Some p \<Rightarrow>
          (case load p of
             Inl _ \<Rightarrow> ru
           | Inr c0 \<Rightarrow>
               (let c = apply_env_overrides env c0
                in if \<not> is_ok (validate c) then ru
                   else ru\<lparr>ru_limiter := update_config (rate_limit_of c) (ru_limiter ru),
                     ru_state := (ru_state ru)\<lparr>as_stat_cache :=
                       sc_set_ttl (sco_ttl_secs (sc_stat_cache c) * 10 ^ 9) (as_stat_cache (ru_state ru))\<rparr>\<rparr>)))"

subsection \<open>What validation accepts\<close>

definition mount_valid :: "MountConfig \<Rightarrow> bool" where
  "mount_valid m \<longleftrightarrow> trim (mc_path m) \<noteq> [] \<and> starts_with (mc_path m) ''/'' \<and>
     (mc_fs_type m = ''localfs'' \<longrightarrow> (\<exists>r. mc_root m = Some r \<and> trim r \<noteq> [])) \<and>
     (mc_fs_type m = ''proxyfs'' \<longrightarrow> (\<exists>u. mc_url m = Some u \<and> trim u \<noteq> [])) \<and>
     (mc_fs_type m = ''streamfs'' \<longrightarrow> mc_buffer_size m \<noteq> Some 0 \<and> mc_history_size m \<noteq> Some 0 \<and> mc_max_streams m \<noteq> Some 0) \<and>
     (\<forall>k. mc_cache m = Some k \<and> mcc_enabled k \<longrightarrow> mcc_ttl_secs k \<noteq> Some 0 \<and> mcc_max_entries k \<noteq> Some 0)"

definition mount_issues :: "string \<Rightarrow> MountConfig \<Rightarrow> string list" where
  "mount_issues name m = path_issues name m @ type_issues name m @ cache_issues name m"

lemma mount_issues_Nil: "mount_issues name m = [] \<longleftrightarrow> mount_valid m"
proof -
  have p: "path_issues name m = [] \<longleftrightarrow> trim (mc_path m) \<noteq> [] \<and> starts_with (mc_path m) ''/''" by (simp add: path_issues_def)
  have c: "cache_issues name m = [] \<longleftrightarrow>
      (\<forall>k. mc_cache m = Some k \<and> mcc_enabled k \<longrightarrow> mcc_ttl_secs k \<noteq> Some 0 \<and> mcc_max_entries k \<noteq> Some 0)"
    by (cases "mc_cache m") (auto simp: cache_issues_def zero_issue_def)
  have t: "type_issues name m = [] \<longleftrightarrow>
      (mc_fs_type m = ''localfs'' \<longrightarrow> (\<exists>r. mc_root m = Some r \<and> trim r \<noteq> [])) \<and>
      (mc_fs_type m = ''proxyfs'' \<longrightarrow> (\<exists>u. mc_url m = Some u \<and> trim u \<noteq> [])) \<and>
      (mc_fs_type m = ''streamfs'' \<longrightarrow> mc_buffer_size m \<noteq> Some 0 \<and> mc_history_size m \<noteq> Some 0 \<and> mc_max_streams m \<noteq> Some 0)"
    by (simp add: type_issues_def zero_issue_def blank_def split: option.split)
  show ?thesis by (simp add: mount_issues_def mount_valid_def p c t)
qed

lemma mount_issues_named: "i \<in> set (mount_issues name m) \<Longrightarrow> starts_with i (mount_prefix name)"
  by (auto simp: mount_issues_def path_issues_def type_issues_def cache_issues_def zero_issue_def starts_with_iff split: if_splits option.splits)

lemma config_issues_alt:
  "config_issues c = (if trim (sc_host c) = [] then [''host must be non-empty''] else []) @ concat (map (\<lambda>(name, m). mount_issues name m) (sc_mounts c))"
  by (simp add: config_issues_def mount_issues_def)

lemma validate_Ok: "validate c = Ok () \<longleftrightarrow> trim (sc_host c) \<noteq> [] \<and> (\<forall>(name, m) \<in> set (sc_mounts c). mount_valid m)"
  by (simp add: validate_def config_issues_alt Let_def mount_issues_Nil case_prod_beta)

text \<open>
  \<^bold>\<open>C40\<close>. Validation of the configuration accepts exactly the configurations with a host that is not blank and mounts whose path is absolute and
  whose file system has what it needs (a root, a URL, sizes that are not zero, a cache that can hold something). Otherwise it reports all issues at
  once: every mount that is not valid is named by one of them, and every issue but the one on the host names such a mount.
\<close>

theorem config_validation:
  "(validate c = Ok () \<longleftrightarrow> trim (sc_host c) \<noteq> [] \<and> (\<forall>(name, m) \<in> set (sc_mounts c). mount_valid m)) \<and>
   (\<forall>e. validate c = Err e \<longrightarrow> (\<exists>is. e = join ''; '' is \<and>
      (\<forall>(name, m) \<in> set (sc_mounts c). \<not> mount_valid m \<longrightarrow> (\<exists>i \<in> set is. starts_with i (mount_prefix name))) \<and>
      (\<forall>i \<in> set is. i = ''host must be non-empty'' \<and> trim (sc_host c) = [] \<or>
         (\<exists>(name, m) \<in> set (sc_mounts c). \<not> mount_valid m \<and> starts_with i (mount_prefix name)))))"
proof (intro conjI allI impI validate_Ok)
  fix e assume "validate c = Err e"
  then have e: "e = join ''; '' (config_issues c)" by (simp add: validate_def Let_def split: if_splits)
  have "\<exists>i \<in> set (config_issues c). starts_with i (mount_prefix name)" if m: "(name, m) \<in> set (sc_mounts c)" "\<not> mount_valid m" for name m
  proof -
    obtain i where i: "i \<in> set (mount_issues name m)" using m(2) mount_issues_Nil [of name m] by (cases "mount_issues name m") auto
    with m(1) have "i \<in> set (config_issues c)" by (force simp: config_issues_alt)
    with mount_issues_named [OF i] show ?thesis by blast
  qed
  moreover have "i = ''host must be non-empty'' \<and> trim (sc_host c) = [] \<or>
      (\<exists>(name, m) \<in> set (sc_mounts c). \<not> mount_valid m \<and> starts_with i (mount_prefix name))" if "i \<in> set (config_issues c)" for i
  proof (cases "i = ''host must be non-empty'' \<and> trim (sc_host c) = []")
    case False
    with that obtain name m where "(name, m) \<in> set (sc_mounts c)" "i \<in> set (mount_issues name m)"
      by (auto simp: config_issues_alt split: if_splits)
    moreover from this(2) have "\<not> mount_valid m" using mount_issues_Nil [of name m] by auto
    ultimately show ?thesis using mount_issues_named [of i name m] by blast
  qed simp
  ultimately show "\<exists>is. e = join ''; '' is \<and>
      (\<forall>(name, m) \<in> set (sc_mounts c). \<not> mount_valid m \<longrightarrow> (\<exists>i \<in> set is. starts_with i (mount_prefix name))) \<and>
      (\<forall>i \<in> set is. i = ''host must be non-empty'' \<and> trim (sc_host c) = [] \<or>
         (\<exists>(name, m) \<in> set (sc_mounts c). \<not> mount_valid m \<and> starts_with i (mount_prefix name)))"
    using e by (intro exI [of _ "config_issues c"]) blast
qed

theorem config_validation_witness:
  "let c = (server_config_default [])\<lparr>sc_mounts := [(''a'', mount_config_minimal ''/a''), (''b'', mount_config_minimal ''b'')]\<rparr>
   in \<not> is_ok (validate c)"
proof -
  let ?c = "(server_config_default [])\<lparr>sc_mounts := [(''a'', mount_config_minimal ''/a''), (''b'', mount_config_minimal ''b'')]\<rparr>"
  have "\<not> mount_valid (mount_config_minimal ''b'')" by (simp add: mount_valid_def mount_config_minimal_def starts_with_def)
  then have "validate ?c \<noteq> Ok ()" using config_validation [of ?c] by simp
  then show ?thesis by (cases "validate ?c") auto
qed

subsection \<open>What is mounted\<close>

text \<open>The rows of the mount table a configuration asks for, with the file systems behind them.\<close>

definition mount_rows :: "(string \<times> MountConfig) list \<Rightarrow> (string list \<times> mounted) list" where
  "mount_rows ms = List.map_filter (\<lambda>(name, m).
     case build_backend (\<lambda>_. None) m of
       Some (Ok b) \<Rightarrow> Some (norm_names (mc_path m), \<lparr>mt_backend = b, mt_cache = cache_tier m\<rparr>)
     | _ \<Rightarrow> None) ms"

definition server_rows :: "ServerConfig \<Rightarrow> (string list \<times> mounted) list" where
  "server_rows c =
     (if sc_mounts c = [] then
        [([''memfs''], \<lparr>mt_backend = B_Mem, mt_cache = None\<rparr>), ([''dev''], \<lparr>mt_backend = B_Dev, mt_cache = None\<rparr>)]
      else mount_rows (sc_mounts c))"

definition canonical_mount :: "MountConfig \<Rightarrow> bool" where
  "canonical_mount m \<longleftrightarrow> mount_names (norm_names (mc_path m)) \<and> mc_path m = render True (norm_names (mc_path m))"

text \<open>The rows and their references in a state of the start-up.\<close>

definition mounted_rows :: "'t trie_api \<Rightarrow> (string list \<times> mounted) list \<Rightarrow> ('t, 's) mounts \<Rightarrow> bool" where
  "mounted_rows T rows s \<longleftrightarrow> mo_table T (fst s) (zip (map fst rows) [0..<length rows]) \<and> snd s = map snd rows"

lemma mount_at_row:
  assumes T: "trie_laws T" and s: "mounted_rows T rows s" and ns: "mount_names ns"
  shows "if ns \<in> fst ` set rows then \<exists>e. fst (mount_at T (render True ns) b s) = Err e
    else \<exists>s'. mount_at T (render True ns) b s = (Ok (), s') \<and> mounted_rows T (rows @ [(ns, b)]) s'"
proof -
  let ?tab = "zip (map fst rows) [0..<length rows]"
  have len: "length (snd s) = length rows" and tab: "mo_table T (fst s) ?tab" using s by (simp_all add: mounted_rows_def)
  have in_tab: "map_of ?tab ns = None \<longleftrightarrow> ns \<notin> fst ` set rows" by (simp add: map_of_zip_is_None)
  note step = mount_table_step [OF T tab ns, of "length rows"]
  obtain r m where m: "mount T (render True ns) (length rows) (fst s) = (r, m)" by (metis prod.exhaust)
  have at: "mount_at T (render True ns) b s = (r, (m, if is_ok r then snd s @ [b] else snd s))" by (simp add: mount_at_def len m)
  show ?thesis
  proof (cases "ns \<in> fst ` set rows")
    case True
    with step in_tab m have "r = Err (AlreadyExists (render True ns))" by (simp split: if_splits)
    with True at show ?thesis by simp
  next
    case False
    with step in_tab m have "r = Ok ()" "mo_table T m (?tab @ [(ns, length rows)])" by simp_all
    with False at s show ?thesis by (simp add: mounted_rows_def zip_append)
  qed
qed

lemma build_validated:
  assumes "mount_valid m" "\<And>b. opens b = None"
  shows "build_backend opens m = build_backend (\<lambda>_. None) m \<and> (\<forall>r. build_backend opens m = Some r \<longrightarrow> is_ok r)"
  using assms by (auto simp: build_backend_def mount_valid_def Let_def split: option.splits)

lemma mount_configured_rows:
  assumes T: "trie_laws T" and opens: "\<And>b. opens b = None"
  shows "\<forall>(name, m) \<in> set ms. mount_valid m \<and> canonical_mount m \<Longrightarrow> mounted_rows T rows s \<Longrightarrow> distinct (map fst rows) \<Longrightarrow>
    if distinct (map fst (rows @ mount_rows ms))
    then \<exists>s'. mount_configured T opens ms s = Ok s' \<and> mounted_rows T (rows @ mount_rows ms) s'
    else \<exists>e. mount_configured T opens ms s = Err e"
proof (induction ms arbitrary: rows s)
  case Nil
  then show ?case by (simp add: mount_rows_def map_filter_simps)
next
  case (Cons nm ms)
  obtain name m where nm: "nm = (name, m)" by (cases nm)
  have m: "mount_valid m" "canonical_mount m" and rest: "\<forall>(name, m) \<in> set ms. mount_valid m \<and> canonical_mount m"
    using Cons.prems(1) nm by auto
  note same = build_validated [where opens = opens, OF m(1) opens]
  show ?case
  proof (cases "build_backend opens m")
    case None
    with same have "mount_rows (nm # ms) = mount_rows ms" by (simp add: nm mount_rows_def map_filter_simps)
    moreover have "mount_configured T opens (nm # ms) s = mount_configured T opens ms s" using None by (simp add: nm)
    ultimately show ?thesis using Cons.IH [OF rest Cons.prems(2,3)] by (simp only:)
  next
    case (Some r)
    from same Some have "is_ok r" by blast
    then obtain b where "r = Ok b" by (cases r) auto
    with Some have b: "build_backend opens m = Some (Ok b)" by simp
    with same have b': "build_backend (\<lambda>_. None) m = Some (Ok b)" by simp
    let ?b = "\<lparr>mt_backend = b, mt_cache = cache_tier m\<rparr>" and ?ns = "norm_names (mc_path m)"
    have rows: "mount_rows (nm # ms) = (?ns, ?b) # mount_rows ms" using b' by (simp add: nm mount_rows_def map_filter_simps)
    from m(2) have path: "mc_path m = render True ?ns" "mount_names ?ns" by (simp_all add: canonical_mount_def)
    have at: "if ?ns \<in> fst ` set rows then \<exists>e. fst (mount_at T (mc_path m) ?b s) = Err e
      else \<exists>s'. mount_at T (mc_path m) ?b s = (Ok (), s') \<and> mounted_rows T (rows @ [(?ns, ?b)]) s'"
      using mount_at_row [OF T Cons.prems(2) path(2), of ?b] by (simp only: path(1) [symmetric])
    show ?thesis
    proof (cases "?ns \<in> fst ` set rows")
      case True
      with at obtain e where "fst (mount_at T (mc_path m) ?b s) = Err e" by auto
      with b have "mount_configured T opens (nm # ms) s = Err (''Failed to mount '' @ name @ '': '' @ fs_error_display e)"
        by (cases "mount_at T (mc_path m) ?b s") (simp add: nm)
      moreover have "\<not> distinct (map fst (rows @ mount_rows (nm # ms)))" using True by (simp add: rows)
      ultimately show ?thesis by simp
    next
      case False
      with at obtain s' where s': "mount_at T (mc_path m) ?b s = (Ok (), s')" "mounted_rows T (rows @ [(?ns, ?b)]) s'" by auto
      have d: "distinct (map fst (rows @ [(?ns, ?b)]))" using Cons.prems(3) False by simp
      have "mount_configured T opens (nm # ms) s = mount_configured T opens ms s'" using s'(1) b by (simp add: nm)
      then show ?thesis using Cons.IH [OF rest s'(2) d] by (simp only: rows append_assoc append.simps)
    qed
  qed
qed

lemma mounted_rows_new: "trie_laws T \<Longrightarrow> mounted_rows T [] (mountable_new T B, [])"
  by (simp add: mounted_rows_def mo_table_new)

lemma mount_default_rows:
  assumes T: "trie_laws T"
  shows "\<exists>s'. mount_default T (mountable_new T B, []) = Ok s' \<and>
    mounted_rows T [([''memfs''], \<lparr>mt_backend = B_Mem, mt_cache = None\<rparr>), ([''dev''], \<lparr>mt_backend = B_Dev, mt_cache = None\<rparr>)] s'"
proof -
  let ?mem = "([''memfs''], \<lparr>mt_backend = B_Mem, mt_cache = None\<rparr>)" and ?dev = "([''dev''], \<lparr>mt_backend = B_Dev, mt_cache = None\<rparr>)"
  have n: "mount_names [''memfs'']" "mount_names [''dev'']" "render True [''memfs''] = ''/memfs''" "render True [''dev''] = ''/dev''"
    by (simp_all add: mount_names_def valid_name_def render_def)
  obtain s1 where s1: "mount_at T ''/memfs'' (snd ?mem) (mountable_new T B, []) = (Ok (), s1)" "mounted_rows T ([] @ [?mem]) s1"
    using mount_at_row [OF T mounted_rows_new [OF T] n(1), of "snd ?mem" B] n(3) by auto
  obtain s2 where "mount_at T ''/dev'' (snd ?dev) s1 = (Ok (), s2)" "mounted_rows T (([] @ [?mem]) @ [?dev]) s2"
    using mount_at_row [OF T s1(2) n(2), of "snd ?dev"] n(4) by auto
  with s1(1) show ?thesis by (simp add: mount_default_def)
qed

lemma reload_effect:
  "let ru' = reload_on_sighup load env ru; c = (case ru_config_path ru of Some p \<Rightarrow> (case load p of Inr c \<Rightarrow> Some (apply_env_overrides env c) | Inl _ \<Rightarrow> None) | None \<Rightarrow> None)
   in if (\<exists>c'. c = Some c' \<and> validate c' = Ok ())
      then ru' = ru\<lparr>ru_limiter := (ru_limiter ru)\<lparr>rl_config := rate_limit_of (the c)\<rparr>,
          ru_state := (ru_state ru)\<lparr>as_stat_cache := (as_stat_cache (ru_state ru))\<lparr>sc_ttl := sco_ttl_secs (sc_stat_cache (the c)) * 10 ^ 9\<rparr>\<rparr>\<rparr>
      else ru' = ru"
proof -
  have "is_ok (validate c) \<longleftrightarrow> validate c = Ok ()" for c by (cases "validate c") auto
  then show ?thesis by (auto simp: reload_on_sighup_def Let_def update_config_def sc_set_ttl_def split: option.splits sum.splits)
qed



end
