(* ===== verification/Local_FS.thy ===== *)
theory Local_FS
  imports Fs_Contract
begin

text \<open>
  The crate \<open>racfs-plugin-localfs\<close>: a directory of the host as a file system. The calls to the host (\<open>std::fs\<close>) are a parameter with a state of its own; what the
  crate adds is the mapping of paths below a root directory, and the order of the calls. Paths are checked by their spelling only, so links of the host
  are outside of what is shown here.
\<close>

subsection \<open>The host\<close>

type_synonym io_error = "io_error_kind \<times> string"

datatype open_mode = Open_Read | Open_Write | Open_Truncate | Open_Create bool

record host_metadata =
  hmd_is_dir :: bool
  hmd_is_symlink :: bool
  hmd_len :: nat
  hmd_created :: "time option"
  hmd_modified :: "time option"
  hmd_accessed :: "time option"

type_synonym ('w, 'a) host_call = "'w \<Rightarrow> (io_error + 'a) \<times> 'w"

text \<open>
  \<open>Open_Truncate\<close> is \<open>File::create\<close> and \<open>Open_Create append\<close> is \<open>OpenOptions\<close> with write, create and append. An entry of a directory
  that cannot be read, or whose metadata cannot, is \<open>None\<close>.
\<close>

record 'w host_api =
  ho_open :: "open_mode \<Rightarrow> path \<Rightarrow> ('w, nat) host_call"
  ho_seek :: "nat \<Rightarrow> nat \<Rightarrow> ('w, unit) host_call"
  ho_read :: "nat \<Rightarrow> nat \<Rightarrow> ('w, bytes) host_call"
  ho_write :: "nat \<Rightarrow> bytes \<Rightarrow> ('w, nat) host_call"
  ho_set_len :: "nat \<Rightarrow> nat \<Rightarrow> ('w, unit) host_call"
  ho_create_dir_all :: "path \<Rightarrow> ('w, unit) host_call"
  ho_metadata :: "path \<Rightarrow> ('w, host_metadata) host_call"
  ho_exists :: "path \<Rightarrow> 'w \<Rightarrow> bool"
  ho_read_dir :: "path \<Rightarrow> ('w, (string \<times> host_metadata) option list) host_call"
  ho_remove_dir :: "path \<Rightarrow> ('w, unit) host_call"
  ho_remove_file :: "path \<Rightarrow> ('w, unit) host_call"
  ho_remove_dir_all :: "path \<Rightarrow> ('w, unit) host_call"
  ho_rename :: "path \<Rightarrow> path \<Rightarrow> ('w, unit) host_call"
  ho_set_permissions :: "path \<Rightarrow> mode \<Rightarrow> ('w, unit) host_call"

definition io_err :: "io_error \<Rightarrow> FSError" where
  "io_err e = Io (snd e)"

definition not_found_or_io :: "path \<Rightarrow> io_error \<Rightarrow> FSError" where
  "not_found_or_io p e = (if fst e = Kind_NotFound then NotFound p else Io (snd e))"

definition return_ok :: "'b \<Rightarrow> 'w \<Rightarrow> 'b fs_result \<times> 'w" where
  "return_ok b w = (Ok b, w)"

subsection \<open>Paths\<close>

record LocalFS =
  lf_root :: path

definition local_new :: "path \<Rightarrow> LocalFS" where
  "local_new root = \<lparr>lf_root = root\<rparr>"

text \<open>One component of the loop of \<open>resolve\<close>; \<open>None\<close> is the early return.\<close>

fun resolve_step :: "path \<Rightarrow> path option \<Rightarrow> component \<Rightarrow> path option" where
  "resolve_step root None c = None"
| "resolve_step root (Some n) ParentDir =
     (if \<not> path_starts_with n root then None
      else case parent n of Some q \<Rightarrow> Some q | None \<Rightarrow> Some (push n ''..''))"
| "resolve_step root (Some n) c = Some (push n (component_str c))"

definition resolve :: "LocalFS \<Rightarrow> path \<Rightarrow> path fs_result" where
  "resolve fs p =
     (let relative = (case path_strip_prefix p ''/'' of Some r \<Rightarrow> r | None \<Rightarrow> p);
          resolved = push (lf_root fs) relative
      in case foldl (resolve_step (lf_root fs)) (Some []) (components resolved) of
           None \<Rightarrow> Err (PermissionDenied p)
         | Some n \<Rightarrow> if path_starts_with n (lf_root fs) then Ok n else Err (PermissionDenied p))"

subsection \<open>The trait operations\<close>

definition local_read :: "'w host_api \<Rightarrow> LocalFS \<Rightarrow> path \<Rightarrow> int \<Rightarrow> int \<Rightarrow> ('w, bytes) fs_op" where
  "local_read H fs p offset sz now =
     try_then (resolve fs p) (\<lambda>q.
     call_then io_err (ho_open H Open_Read q) (\<lambda>f.
     call_then io_err (if offset > 0 then ho_seek H f (nat offset) else (\<lambda>w. (Inr (), w))) (\<lambda>_.
     call_then io_err (ho_read H f (if sz < 0 then 65536 else nat sz)) return_ok)))"

definition host_mode :: "host_metadata \<Rightarrow> mode" where
  "host_mode md = (if hmd_is_dir md then S_IFDIR OR 0x1ED else if hmd_is_symlink md then S_IFLNK OR 0x1ED else S_IFREG OR 0x1A4)"

definition local_stat :: "'w host_api \<Rightarrow> LocalFS \<Rightarrow> path \<Rightarrow> ('w, FileMetadata) fs_op" where
  "local_stat H fs p now =
     try_then (resolve fs p) (\<lambda>q. call_then (not_found_or_io p) (ho_metadata H q) (\<lambda>md.
       return_ok \<lparr>md_path = p, md_size = hmd_len md, md_mode = host_mode md, md_created = hmd_created md, md_modified = hmd_modified md,
         md_accessed = hmd_accessed md, md_is_symlink = hmd_is_symlink md, md_symlink_target = None\<rparr>))"

definition create_parents :: "'w host_api \<Rightarrow> path \<Rightarrow> ('w, unit) host_call" where
  "create_parents H q = (case parent q of Some par \<Rightarrow> ho_create_dir_all H par | None \<Rightarrow> (\<lambda>w. (Inr (), w)))"

definition local_create :: "'w host_api \<Rightarrow> LocalFS \<Rightarrow> path \<Rightarrow> ('w, unit) fs_op" where
  "local_create H fs p now =
     try_then (resolve fs p) (\<lambda>q.
     call_then io_err (create_parents H q) (\<lambda>_. call_then io_err (ho_open H Open_Truncate q) (\<lambda>_. return_ok ())))"

definition local_write :: "'w host_api \<Rightarrow> LocalFS \<Rightarrow> path \<Rightarrow> bytes \<Rightarrow> int \<Rightarrow> flags \<Rightarrow> ('w, nat) fs_op" where
  "local_write H fs p data offset flags now =
     try_then (resolve fs p) (\<lambda>q.
     call_then io_err (create_parents H q) (\<lambda>_.
     call_then io_err (ho_open H (if contains_append flags \<or> offset > 0 then Open_Create (contains_append flags) else Open_Truncate) q) (\<lambda>f.
     call_then io_err (if offset > 0 \<and> \<not> contains_append flags then ho_seek H f (nat offset) else (\<lambda>w. (Inr (), w))) (\<lambda>_.
     call_then io_err (ho_write H f data) return_ok))))"

definition local_mkdir :: "'w host_api \<Rightarrow> LocalFS \<Rightarrow> path \<Rightarrow> mode \<Rightarrow> ('w, unit) fs_op" where
  "local_mkdir H fs p perm now = try_then (resolve fs p) (\<lambda>q. call_then io_err (ho_create_dir_all H q) return_ok)"

definition host_entry :: "path \<Rightarrow> string \<times> host_metadata \<Rightarrow> FileMetadata" where
  "host_entry dir e =
     (let md = snd e
      in \<lparr>md_path = push dir (fst e), md_size = hmd_len md, md_mode = host_mode md, md_created = None, md_modified = hmd_modified md,
          md_accessed = hmd_accessed md, md_is_symlink = hmd_is_symlink md, md_symlink_target = None\<rparr>)"

definition local_read_dir :: "'w host_api \<Rightarrow> LocalFS \<Rightarrow> path \<Rightarrow> ('w, FileMetadata list) fs_op" where
  "local_read_dir H fs p now =
     try_then (resolve fs p) (\<lambda>q. call_then io_err (ho_read_dir H q) (\<lambda>es. return_ok (List.map_filter (map_option (host_entry q)) es)))"

definition local_remove :: "'w host_api \<Rightarrow> LocalFS \<Rightarrow> path \<Rightarrow> ('w, unit) fs_op" where
  "local_remove H fs p now =
     try_then (resolve fs p) (\<lambda>q. call_then (not_found_or_io p) (ho_metadata H q) (\<lambda>md.
       call_then io_err (if hmd_is_dir md then ho_remove_dir H q else ho_remove_file H q) return_ok))"

definition local_remove_all :: "'w host_api \<Rightarrow> LocalFS \<Rightarrow> path \<Rightarrow> ('w, unit) fs_op" where
  "local_remove_all H fs p now =
     try_then (resolve fs p) (\<lambda>q w. if \<not> ho_exists H q w then (Err (NotFound p), w) else call_then io_err (ho_remove_dir_all H q) return_ok w)"

definition local_rename :: "'w host_api \<Rightarrow> LocalFS \<Rightarrow> path \<Rightarrow> path \<Rightarrow> ('w, unit) fs_op" where
  "local_rename H fs old new now =
     try_then (resolve fs old) (\<lambda>q. try_then (resolve fs new) (\<lambda>q'. call_then io_err (ho_rename H q q') return_ok))"

definition local_chmod :: "'w host_api \<Rightarrow> LocalFS \<Rightarrow> path \<Rightarrow> mode \<Rightarrow> ('w, unit) fs_op" where
  "local_chmod H fs p m now = try_then (resolve fs p) (\<lambda>q. call_then io_err (ho_set_permissions H q m) return_ok)"

definition local_truncate :: "'w host_api \<Rightarrow> LocalFS \<Rightarrow> path \<Rightarrow> nat \<Rightarrow> ('w, unit) fs_op" where
  "local_truncate H fs p n now =
     try_then (resolve fs p) (\<lambda>q. call_then io_err (ho_open H Open_Write q) (\<lambda>f. call_then io_err (ho_set_len H f n) return_ok))"

definition local_touch :: "'w host_api \<Rightarrow> LocalFS \<Rightarrow> path \<Rightarrow> ('w, unit) fs_op" where
  "local_touch H fs p now =
     try_then (resolve fs p) (\<lambda>q w.
       if ho_exists H q w then (Ok (), w) else call_then io_err (ho_open H Open_Truncate q) (\<lambda>_. return_ok ()) w)"

definition local_fs :: "'w host_api \<Rightarrow> LocalFS \<Rightarrow> 'w FileSystem" where
  "local_fs H fs = \<lparr>fs_read = local_read H fs, fs_stat = local_stat H fs, fs_create = local_create H fs, fs_write = local_write H fs,
     fs_mkdir = local_mkdir H fs, fs_read_dir = local_read_dir H fs, fs_remove = local_remove H fs, fs_remove_all = local_remove_all H fs,
     fs_rename = local_rename H fs, fs_chmod = local_chmod H fs, fs_truncate = local_truncate H fs, fs_touch = local_touch H fs,
     fs_readlink = default_readlink, fs_symlink = default_symlink, fs_get_xattr = default_get_xattr,
     fs_set_xattr = default_set_xattr, fs_remove_xattr = default_remove_xattr, fs_list_xattr = default_list_xattr\<rparr>"

subsection \<open>Confinement\<close>

text \<open>A root the check can protect: it has a name, and no current or parent directory among its components.\<close>

definition good_root :: "path \<Rightarrow> bool" where
  "good_root root \<longleftrightarrow> (\<exists>n. Normal n \<in> set (components root)) \<and> ParentDir \<notin> set (components root) \<and> CurDir \<notin> set (components root)"

definition below :: "path \<Rightarrow> path \<Rightarrow> bool" where
  "below root q \<longleftrightarrow> path_starts_with q root \<and> ParentDir \<notin> set (components q)"

lemma CurDir_components: "CurDir \<in> set (components p) \<longleftrightarrow> include_cur_dir p \<and> \<not> has_root p"
  by (auto simp: components_def seg_component_def)

lemma include_cur_dir_append: "root \<noteq> [] \<Longrightarrow> \<not> include_cur_dir root \<or> has_root root \<Longrightarrow> \<not> include_cur_dir (root @ t) \<or> has_root (root @ t)"
  by (cases root rule: include_cur_dir.cases; cases t) (auto simp: has_root_def)

lemma CurDir_push: "good_root root \<Longrightarrow> CurDir \<notin> set (components (push root rel))"
proof -
  assume r: "good_root root"
  then have "root \<noteq> []" by (auto simp: good_root_def components_def has_root_def body_segs_def trivial_seg_def)
  moreover have "\<not> include_cur_dir root \<or> has_root root" using r by (auto simp: good_root_def CurDir_components)
  ultimately show ?thesis by (auto simp: CurDir_components push_def dest: include_cur_dir_append)
qed

lemma resolve_step_None: "foldl (resolve_step root) None cs = None"
  by (induction cs) auto

lemma resolve_loop:
  assumes "good_root root"
  shows "valid_names ns \<Longrightarrow> \<forall>n. Normal n \<in> set cs \<longrightarrow> valid_name n \<Longrightarrow> RootDir \<notin> set cs \<Longrightarrow> CurDir \<notin> set cs \<Longrightarrow>
    foldl (resolve_step root) (Some (render a ns)) cs = Some q \<Longrightarrow> \<exists>ms. valid_names ms \<and> q = render a ms"
proof (induction cs arbitrary: ns)
  case Nil
  then show ?case by (intro exI [of _ ns]) simp
next
  case (Cons c cs)
  show ?case
  proof (cases c)
    case ParentDir
    have start: "path_starts_with (render a ns) root"
      using Cons.prems(5) ParentDir by (auto simp: resolve_step_None split: if_splits)
    have "ns \<noteq> []"
    proof
      assume "ns = []"
      moreover have "set (components root) \<subseteq> set (components (render a ns))"
        using start unfolding path_starts_with_def by (metis set_take_subset)
      ultimately have "set (components root) \<subseteq> {RootDir}" by (auto simp: path_simps lead_def split: if_splits)
      with assms show False by (auto simp: good_root_def)
    qed
    then have "parent (render a ns) = Some (render a (butlast ns))" using Cons.prems(1) by (simp add: path_simps)
    moreover have "valid_names (butlast ns)" using Cons.prems(1) by (auto dest: in_set_butlastD)
    ultimately show ?thesis using Cons.IH [of "butlast ns"] Cons.prems ParentDir start by simp
  next
    case (Normal n)
    with Cons.prems have "valid_name n" by simp
    with Cons Normal show ?thesis using Cons.IH [of "ns @ [n]"] by (simp add: path_simps)
  qed (use Cons.prems in auto)
qed

lemma resolve_confined:
  assumes root: "good_root (lf_root fs)" and q: "resolve fs p = Ok q"
  shows "below (lf_root fs) q"
proof -
  obtain res where res: "foldl (resolve_step (lf_root fs)) (Some []) (components res) = Some q" "CurDir \<notin> set (components res)"
    "path_starts_with q (lf_root fs)"
    using q CurDir_push [OF root] by (auto simp: resolve_def Let_def split: option.splits if_splits)
  obtain cs where cs: "components res = lead (has_root res) @ cs" "RootDir \<notin> set cs" using components_split by blast
  have "foldl (resolve_step (lf_root fs)) (Some []) (lead (has_root res)) = Some (render (has_root res) [])"
    by (simp add: lead_def render_def push_def has_root_def)
  with res(1) cs have "foldl (resolve_step (lf_root fs)) (Some (render (has_root res) [])) cs = Some q" by simp
  moreover have "\<forall>n. Normal n \<in> set cs \<longrightarrow> valid_name n" using cs(1) components_Normal_valid [of _ res] by simp
  ultimately obtain ms where "valid_names ms" "q = render (has_root res) ms"
    using resolve_loop [OF root, of "[]" cs "has_root res" q] cs res(2) by auto
  with res(3) show ?thesis by (auto simp: below_def path_simps lead_def)
qed

text \<open>Two hosts that cannot be told apart by calls on files below the root; to create a file the directories above it are created as well.\<close>

definition agree_below :: "path \<Rightarrow> 'w host_api \<Rightarrow> 'w host_api \<Rightarrow> bool" where
  "agree_below root H H' \<longleftrightarrow>
     (\<forall>q. below root q \<longrightarrow>
        (\<forall>m. ho_open H m q = ho_open H' m q) \<and> ho_create_dir_all H q = ho_create_dir_all H' q \<and> ho_metadata H q = ho_metadata H' q \<and>
        ho_exists H q = ho_exists H' q \<and> ho_read_dir H q = ho_read_dir H' q \<and> ho_remove_dir H q = ho_remove_dir H' q \<and>
        ho_remove_file H q = ho_remove_file H' q \<and> ho_remove_dir_all H q = ho_remove_dir_all H' q \<and>
        ho_set_permissions H q = ho_set_permissions H' q \<and> (\<forall>q'. below root q' \<longrightarrow> ho_rename H q q' = ho_rename H' q q') \<and>
        (\<forall>par. parent q = Some par \<longrightarrow> ho_create_dir_all H par = ho_create_dir_all H' par)) \<and>
     ho_seek H = ho_seek H' \<and> ho_read H = ho_read H' \<and> ho_write H = ho_write H' \<and> ho_set_len H = ho_set_len H'"

lemma local_ops_agree:
  assumes root: "good_root (lf_root fs)" and H: "agree_below (lf_root fs) H H'"
  shows "local_read H fs = local_read H' fs" "local_stat H fs = local_stat H' fs" "local_create H fs = local_create H' fs"
    "local_write H fs = local_write H' fs" "local_mkdir H fs = local_mkdir H' fs" "local_read_dir H fs = local_read_dir H' fs"
    "local_remove H fs = local_remove H' fs" "local_remove_all H fs = local_remove_all H' fs" "local_rename H fs = local_rename H' fs"
    "local_chmod H fs = local_chmod H' fs" "local_truncate H fs = local_truncate H' fs" "local_touch H fs = local_touch H' fs"
proof -
  note b = resolve_confined [OF root]
  have par: "create_parents H q = create_parents H' q" if "below (lf_root fs) q" for q
    using H that by (cases "parent q") (auto simp: agree_below_def create_parents_def)
  note ag = H [unfolded agree_below_def, THEN conjunct1, rule_format]
  note fds = H [unfolded agree_below_def, THEN conjunct2]
  note ops = local_read_def local_stat_def local_create_def local_write_def local_mkdir_def local_read_dir_def local_remove_def
    local_remove_all_def local_rename_def local_chmod_def local_truncate_def local_touch_def
  show "local_read H fs = local_read H' fs" "local_stat H fs = local_stat H' fs" "local_create H fs = local_create H' fs"
    "local_write H fs = local_write H' fs" "local_mkdir H fs = local_mkdir H' fs" "local_read_dir H fs = local_read_dir H' fs"
    "local_remove H fs = local_remove H' fs" "local_remove_all H fs = local_remove_all H' fs" "local_rename H fs = local_rename H' fs"
    "local_chmod H fs = local_chmod H' fs" "local_truncate H fs = local_truncate H' fs" "local_touch H fs = local_touch H' fs"
    unfolding fun_eq_iff ops by (intro allI fun_cong [OF try_then_cong] try_then_cong; simp add: b ag fds par cong: if_cong)+
qed

text \<open>A path of ordinary names goes to the same names below the root.\<close>

lemma resolve_push_names:
  "valid_names (ms @ ns) \<Longrightarrow> foldl (resolve_step root) (Some (render a ms)) (map Normal ns) = Some (render a (ms @ ns))"
proof (induction ns arbitrary: ms)
  case (Cons n ns)
  then show ?case using Cons.IH [of "ms @ [n]"] by (simp add: path_simps)
qed simp

lemma last_root:
  assumes "valid_names rs" "rs \<noteq> []"
  shows "last (render True rs) \<noteq> slash" "render True rs \<noteq> []"
proof -
  obtain ms m where rs: "rs = ms @ [m]" using assms(2) by (cases rs rule: rev_cases) auto
  with assms(1) have m: "valid_name m" "last (join [slash] rs) = last m" using last_join [of ms m] by auto
  have "join [slash] rs \<noteq> []" using join_not_Nil [of "hd rs" "tl rs"] assms by simp
  with m show "last (render True rs) \<noteq> slash" by (simp add: render_def) (metis last_in_set valid_nameD(3,4))
qed (simp add: render_def)

lemma resolve_names:
  assumes v: "valid_names (rs @ ns)" and ne: "rs \<noteq> []"
  shows "resolve (local_new (render True rs)) (render True ns) = Ok (render True (rs @ ns))"
proof -
  let ?root = "render True rs"
  have "components ''/'' = lead True @ map Normal []" by code_simp
  from path_strip_prefix_render [of "[]" ns, OF _ this] v
  have rel: "path_strip_prefix (render True ns) ''/'' = Some (join [slash] ns)" by simp
  have c: "components (push ?root (join [slash] ns)) = lead True @ map Normal (rs @ ns)"
  proof (cases "ns = []")
    case True
    have "last ?root \<noteq> slash" "?root \<noteq> []"
      using last_root [OF _ ne] v by auto
    with True v ne show ?thesis by (simp add: push_def has_root_def components_render_slash)
  next
    case False
    have root: "last ?root \<noteq> slash" "?root \<noteq> []"
      using last_root [OF _ ne] v by auto
    have "\<not> has_root (join [slash] ns)" using has_root_render [of ns False] v by (simp add: render_def)
    with root have "push ?root (join [slash] ns) = ?root @ slash # join [slash] ns" by (simp add: push_def)
    also have "\<dots> = render True (rs @ ns)" using ne False join_append by (simp add: render_def)
    finally have "push ?root (join [slash] ns) = render True (rs @ ns)" .
    with v show ?thesis by (simp add: path_simps)
  qed
  have "foldl (resolve_step ?root) (Some []) (lead True @ map Normal (rs @ ns)) = Some (render True (rs @ ns))"
    using resolve_push_names [of "[]" "rs @ ns" ?root True] v by (simp add: lead_def push_def has_root_def render_def)
  moreover have "path_starts_with (render True (rs @ ns)) ?root" using v by (simp add: path_starts_with_def path_simps lead_def)
  ultimately show ?thesis by (simp add: resolve_def Let_def rel c local_new_def)
qed

text \<open>
  \<^bold>\<open>C15\<close>. LocalFS stays below its root: for a root that has a name and no dots among its components, every operation behaves the same on any two
  hosts that agree on the files below the root (and on creating the directories above such a file), so no operation depends on or
  touches anything else by name. The path handed to the host starts with the components of the root and has no parent
  component, whatever path is asked for; a path of ordinary names goes to those names below the root.
\<close>

theorem local_confined:
  assumes root: "good_root root"
  shows "(\<forall>H H'. agree_below root H H' \<longrightarrow> local_fs H (local_new root) = local_fs H' (local_new root)) \<and>
    (\<forall>p q. resolve (local_new root) p = Ok q \<longrightarrow> path_starts_with q root \<and> ParentDir \<notin> set (components q)) \<and>
    (\<forall>rs ns. root = render True rs \<and> valid_names (rs @ ns) \<longrightarrow> resolve (local_new root) (render True ns) = Ok (render True (rs @ ns)))"
proof (intro conjI allI impI; (elim conjE)?)
  have lf: "lf_root (local_new root) = root" by (simp add: local_new_def)
  show "local_fs H (local_new root) = local_fs H' (local_new root)" if "agree_below root H H'" for H H'
    using local_ops_agree [of "local_new root" H H'] root that by (simp add: lf local_fs_def)
  show "path_starts_with q root" "ParentDir \<notin> set (components q)" if "resolve (local_new root) p = Ok q" for p q
    using resolve_confined [of "local_new root"] root that by (simp_all add: lf below_def)
  show "resolve (local_new root) (render True ns) = Ok (render True (rs @ ns))" if "root = render True rs" "valid_names (rs @ ns)" for rs ns
  proof -
    have "rs \<noteq> []" using root that by (auto simp: good_root_def path_simps lead_def)
    then show ?thesis using resolve_names that by simp
  qed
qed

theorem local_confined_witness:
  "resolve (local_new ''/srv'') ''/a/b'' = Ok ''/srv/a/b'' \<and> \<not> is_ok (resolve (local_new ''/srv'') ''/a/../../etc'')"
proof -
  have g: "good_root ''/srv''"
  proof -
    have "components ''/srv'' = [RootDir, Normal ''srv'']" by code_simp
    then show ?thesis by (simp add: good_root_def)
  qed
  have "valid_names ([''srv''] @ [''a'', ''b''])" "render True [''srv''] = ''/srv''" "render True [''a'', ''b''] = ''/a/b''"
    "render True ([''srv''] @ [''a'', ''b'']) = ''/srv/a/b''"
    by (simp_all add: valid_name_def render_def)
  then have "resolve (local_new ''/srv'') ''/a/b'' = Ok ''/srv/a/b''"
    using local_confined [OF g, THEN conjunct2, THEN conjunct2] by metis
  moreover have "\<not> is_ok (resolve (local_new ''/srv'') ''/a/../../etc'')" by code_simp
  ultimately show ?thesis ..
qed

text \<open>A root with a parent component is refused for every path, and an empty root protects nothing.\<close>

lemma resolve_dotted_root: "resolve (local_new ''/a/../b'') ''/x'' = Err (PermissionDenied ''/x'')"
  by code_simp

lemma resolve_empty_root: "resolve (local_new []) ''/../x'' = Ok ''../x''"
  by code_simp

end
