(* ===== verification/S3_FS.thy ===== *)
theory S3_FS
  imports Fs_Contract
begin

text \<open>
  The crate \<open>racfs-plugin-s3fs\<close>: objects of an S3 bucket as files. The service (the crate \<open>aws_sdk_s3\<close>) is a parameter with a state of its own. Modelled are the translation
  of paths to keys, every trait operation, listing page by page and uploading in parts.
\<close>

subsection \<open>The service\<close>

text \<open>An error of the SDK with its text; the code only asks whether the service says that the object is not found.\<close>

datatype sdk_error = Sdk_Not_Found string | Sdk_Failed string

fun sdk_message :: "sdk_error \<Rightarrow> string" where
  "sdk_message (Sdk_Not_Found m) = m"
| "sdk_message (Sdk_Failed m) = m"

text \<open>A last modification, where the service gives one, is as \<open>chrono\<close> converts it: nothing when it is out of range.\<close>

record s3_object =
  ob_key :: "string option"
  ob_size :: "int option"
  ob_last_modified :: "time option option"

record s3_page =
  pg_contents :: "s3_object list"
  pg_common_prefixes :: "string option list"
  pg_key_count :: "int option"
  pg_is_truncated :: "bool option"
  pg_next_continuation_token :: "string option"

record s3_head =
  hd_content_length :: "int option"
  hd_last_modified :: "time option option"

type_synonym ('w, 'a) sdk_call = "'w \<Rightarrow> (sdk_error + 'a) \<times> 'w"

text \<open>The first argument is the bucket. Getting an object includes collecting its body.\<close>

record 'w s3_api =
  sx_list :: "string \<Rightarrow> string \<Rightarrow> string option \<Rightarrow> nat \<Rightarrow> string option \<Rightarrow> ('w, s3_page) sdk_call"
  sx_head :: "string \<Rightarrow> string \<Rightarrow> ('w, s3_head) sdk_call"
  sx_get :: "string \<Rightarrow> string \<Rightarrow> string option \<Rightarrow> ('w, bytes) sdk_call"
  sx_put :: "string \<Rightarrow> string \<Rightarrow> bytes \<Rightarrow> ('w, unit) sdk_call"
  sx_copy :: "string \<Rightarrow> string \<Rightarrow> string \<Rightarrow> ('w, unit) sdk_call"
  sx_delete :: "string \<Rightarrow> string \<Rightarrow> ('w, unit) sdk_call"
  sx_delete_objects :: "string \<Rightarrow> string list \<Rightarrow> ('w, unit) sdk_call"
  sx_create_upload :: "string \<Rightarrow> string \<Rightarrow> ('w, string option) sdk_call"
  sx_upload_part :: "string \<Rightarrow> string \<Rightarrow> string \<Rightarrow> int \<Rightarrow> bytes \<Rightarrow> ('w, string option) sdk_call"
  sx_complete :: "string \<Rightarrow> string \<Rightarrow> string \<Rightarrow> (int \<times> string) list \<Rightarrow> ('w, unit) sdk_call"
  sx_abort :: "string \<Rightarrow> string \<Rightarrow> string \<Rightarrow> ('w, unit) sdk_call"

subsection \<open>Configuration and keys\<close>

record S3Config =
  s3_bucket :: string
  s3_region :: string
  s3_endpoint :: "string option"
  s3_access_key :: string
  s3_secret_key :: string
  s3_cache_enabled :: bool
  s3_cache_size :: nat
  s3_multipart_threshold :: nat
  s3_multipart_part_size :: nat

definition s3_config_default :: S3Config where
  "s3_config_default = \<lparr>s3_bucket = [], s3_region = ''us-east-1'', s3_endpoint = None, s3_access_key = [], s3_secret_key = [],
     s3_cache_enabled = False, s3_cache_size = 1024 * 1024 * 1024, s3_multipart_threshold = 5 * 1024 * 1024,
     s3_multipart_part_size = 5 * 1024 * 1024\<rparr>"

definition s3_validate_config :: "S3Config \<Rightarrow> unit fs_result" where
  "s3_validate_config c =
     (if s3_bucket c = [] then Err (InvalidInput ''S3 bucket name cannot be empty'')
      else if s3_region c = [] then Err (InvalidInput ''S3 region cannot be empty'')
      else if s3_access_key c = [] then Err (InvalidInput ''S3 access key cannot be empty'')
      else if s3_secret_key c = [] then Err (InvalidInput ''S3 secret key cannot be empty'')
      else Ok ())"

definition key_to_path :: "string \<Rightarrow> path" where
  "key_to_path key = (if key = [] \<or> key = ''/'' then ''/'' else push ''/'' key)"

definition s3_path_to_key :: "path \<Rightarrow> string" where
  "s3_path_to_key p =
     (let s = from_utf8_lossy p
      in if s = ''/'' then [] else case str_strip_prefix s ''/'' of Some t \<Rightarrow> t | None \<Rightarrow> s)"

definition sdk_err :: "sdk_error \<Rightarrow> FSError" where
  "sdk_err e = Io (sdk_message e)"

subsection \<open>Listing\<close>

definition object_metadata :: "time \<Rightarrow> s3_object \<Rightarrow> FileMetadata" where
  "object_metadata now ob =
     (let m = metadata_file now (key_to_path (case ob_key ob of Some k \<Rightarrow> k | None \<Rightarrow> []))
                (as_usize (case ob_size ob of Some n \<Rightarrow> n | None \<Rightarrow> 0))
      in case ob_last_modified ob of None \<Rightarrow> m | Some t \<Rightarrow> m\<lparr>md_modified := t, md_accessed := t\<rparr>)"

definition prefix_metadata :: "time \<Rightarrow> string option \<Rightarrow> FileMetadata option" where
  "prefix_metadata now p = (case p of Some q \<Rightarrow> if q = [] then None else Some (metadata_directory now (key_to_path q)) | None \<Rightarrow> None)"

definition page_entries :: "time \<Rightarrow> s3_page \<Rightarrow> FileMetadata list" where
  "page_entries now pg = map (object_metadata now) (pg_contents pg) @ List.map_filter (prefix_metadata now) (pg_common_prefixes pg)"

text \<open>Where the next page starts, if there is one.\<close>

definition next_page :: "s3_page \<Rightarrow> string option" where
  "next_page pg = (if pg_is_truncated pg = Some True then pg_next_continuation_token pg else None)"

partial_function (option) list_pages ::
    "'w s3_api \<Rightarrow> S3Config \<Rightarrow> string \<Rightarrow> string option \<Rightarrow> time \<Rightarrow> string option \<Rightarrow> FileMetadata list \<Rightarrow> 'w \<Rightarrow> (FileMetadata list fs_result \<times> 'w) option" where
  "list_pages S c prefix delimiter now token results w =
     (case sx_list S (s3_bucket c) prefix delimiter 1000 token w of (r, w') \<Rightarrow>
        (case r of
           Inl e \<Rightarrow> Some (Err (sdk_err e), w')
         | Inr pg \<Rightarrow>
             (case next_page pg of
                None \<Rightarrow> Some (Ok (results @ page_entries now pg), w')
              | Some t \<Rightarrow> list_pages S c prefix delimiter now (Some t) (results @ page_entries now pg) w')))"

text \<open>A loop that does not end is \<open>Hang\<close>.\<close>

definition or_hang :: "('w \<Rightarrow> ('a fs_result \<times> 'w) option) \<Rightarrow> 'w \<Rightarrow> 'a fs_result \<times> 'w" where
  "or_hang f w = (case f w of Some x \<Rightarrow> x | None \<Rightarrow> (Hang, w))"

definition list_objects_v2 :: "'w s3_api \<Rightarrow> S3Config \<Rightarrow> string \<Rightarrow> string option \<Rightarrow> ('w, FileMetadata list) fs_op" where
  "list_objects_v2 S c prefix delimiter now =
     try_then (s3_validate_config c) (\<lambda>_. or_hang (list_pages S c prefix delimiter now None []))"

definition s3_exists :: "'w s3_api \<Rightarrow> S3Config \<Rightarrow> path \<Rightarrow> 'w \<Rightarrow> bool fs_result \<times> 'w" where
  "s3_exists S c p w =
     (let key = s3_path_to_key p
      in if key = [] then (Ok True, w)
         else (case sx_head S (s3_bucket c) key w of
             (Inr _, w') \<Rightarrow> (Ok True, w')
           | (Inl (Sdk_Not_Found _), w') \<Rightarrow> (Ok False, w')
           | (Inl e, w') \<Rightarrow> (Err (sdk_err e), w')))"

definition s3_is_directory :: "'w s3_api \<Rightarrow> S3Config \<Rightarrow> path \<Rightarrow> 'w \<Rightarrow> bool fs_result \<times> 'w" where
  "s3_is_directory S c p w =
     (if from_utf8_lossy p = ''/'' then (Ok True, w)
      else call_then sdk_err (sx_list S (s3_bucket c) (s3_path_to_key p @ ''/'') None 1 None) (\<lambda>pg w.
        (Ok ((case pg_key_count pg of Some n \<Rightarrow> n | None \<Rightarrow> 0) > 0 \<or> pg_common_prefixes pg \<noteq> []), w)) w)"

subsection \<open>Uploading in parts\<close>

definition create_multipart_upload :: "'w s3_api \<Rightarrow> S3Config \<Rightarrow> string \<Rightarrow> 'w \<Rightarrow> string fs_result \<times> 'w" where
  "create_multipart_upload S c key =
     call_then sdk_err (sx_create_upload S (s3_bucket c) key) (\<lambda>u w. (ok_or u (Io ''CreateMultipartUpload: missing UploadId''), w))"

definition upload_part :: "'w s3_api \<Rightarrow> S3Config \<Rightarrow> string \<Rightarrow> string \<Rightarrow> int \<Rightarrow> bytes \<Rightarrow> 'w \<Rightarrow> string fs_result \<times> 'w" where
  "upload_part S c key upload_id n body =
     call_then sdk_err (sx_upload_part S (s3_bucket c) key upload_id n body) (\<lambda>etag w. (ok_or etag (Io ''UploadPart: missing ETag''), w))"

definition complete_multipart_upload :: "'w s3_api \<Rightarrow> S3Config \<Rightarrow> string \<Rightarrow> string \<Rightarrow> string list \<Rightarrow> 'w \<Rightarrow> unit fs_result \<times> 'w" where
  "complete_multipart_upload S c key upload_id etags =
     call_then sdk_err (sx_complete S (s3_bucket c) key upload_id (map (\<lambda>(i, e). (as_i32 (i + 1), e)) (enumerate 0 etags))) (\<lambda>_ w. (Ok (), w))"

definition abort_multipart_upload :: "'w s3_api \<Rightarrow> S3Config \<Rightarrow> string \<Rightarrow> string \<Rightarrow> 'w \<Rightarrow> 'w" where
  "abort_multipart_upload S c key upload_id w = snd (sx_abort S (s3_bucket c) key upload_id w)"

text \<open>The loop over the parts: \<open>etags\<close> are those of the parts before, so the next part has the number after them.\<close>

function upload_parts :: "'w s3_api \<Rightarrow> S3Config \<Rightarrow> string \<Rightarrow> string \<Rightarrow> nat \<Rightarrow> bytes \<Rightarrow> string list \<Rightarrow> 'w \<Rightarrow> string list fs_result \<times> 'w" where
  "upload_parts S c key upload_id part_size data etags w =
     (if data = [] \<or> part_size = 0 then (Ok etags, w)
      else case upload_part S c key upload_id (as_i32 (length etags + 1)) (take part_size data) w of
          (Ok etag, w') \<Rightarrow> upload_parts S c key upload_id part_size (drop part_size data) (etags @ [etag]) w'
        | (Err e, w') \<Rightarrow> (Err e, abort_multipart_upload S c key upload_id w')
        | (Panic, w') \<Rightarrow> (Panic, w')
        | (Hang, w') \<Rightarrow> (Hang, w'))"
  by pat_completeness auto
termination
  by (relation "measure (\<lambda>(S, c, key, u, k, data, etags, w). length data)") auto

declare upload_parts.simps [simp del]

subsection \<open>The trait operations\<close>

definition s3_range :: "int \<Rightarrow> int \<Rightarrow> string option" where
  "s3_range offset sz =
     (if offset > 0 \<or> sz > 0 then
        Some (if sz > 0 then ''bytes='' @ int_dec offset @ ''-'' @ int_dec (i64_add (i64_add offset sz) (- 1)) else ''bytes='' @ int_dec offset @ ''-'')
      else None)"

definition s3_read :: "'w s3_api \<Rightarrow> S3Config \<Rightarrow> path \<Rightarrow> int \<Rightarrow> int \<Rightarrow> ('w, bytes) fs_op" where
  "s3_read S c p offset sz now =
     try_then (s3_validate_config c) (\<lambda>_.
       let key = s3_path_to_key p
       in if key = [] then Pair (Err (IsDirectory p))
          else call_then sdk_err (sx_get S (s3_bucket c) key (s3_range offset sz)) (\<lambda>d w. (Ok d, w)))"

definition head_metadata :: "time \<Rightarrow> path \<Rightarrow> s3_head \<Rightarrow> FileMetadata" where
  "head_metadata now p h =
     (let m = metadata_file now p (as_usize (case hd_content_length h of Some n \<Rightarrow> n | None \<Rightarrow> 0))
      in case hd_last_modified h of None \<Rightarrow> m | Some t \<Rightarrow> m\<lparr>md_modified := t, md_accessed := t\<rparr>)"

definition s3_stat :: "'w s3_api \<Rightarrow> S3Config \<Rightarrow> path \<Rightarrow> ('w, FileMetadata) fs_op" where
  "s3_stat S c p now =
     try_then (s3_validate_config c) (\<lambda>_ w.
       if from_utf8_lossy p = ''/'' then (Ok (metadata_directory now ''/''), w)
       else
         (let (d, w1) = s3_is_directory S c p w
          in try_then d (\<lambda>dir w.
            if dir then (Ok (metadata_directory now p), w)
            else (case sx_head S (s3_bucket c) (s3_path_to_key p) w of
                (Inr h, w') \<Rightarrow> (Ok (head_metadata now p h), w')
              | (Inl (Sdk_Not_Found _), w') \<Rightarrow>
                  (let (d2, w2) = s3_is_directory S c p w'
                   in try_then d2 (\<lambda>dir w. (if dir then Ok (metadata_directory now p) else Err (NotFound p), w)) w2)
              | (Inl e, w') \<Rightarrow> (Err (sdk_err e), w'))) w1))"

definition s3_create :: "'w s3_api \<Rightarrow> S3Config \<Rightarrow> path \<Rightarrow> ('w, unit) fs_op" where
  "s3_create S c p now =
     try_then (s3_validate_config c) (\<lambda>_.
       let key = s3_path_to_key p
       in if key = [] then Pair (Ok ()) else call_then sdk_err (sx_put S (s3_bucket c) key []) (\<lambda>_ w. (Ok (), w)))"

text \<open>The new contents of an object.\<close>

definition s3_contents :: "bytes \<Rightarrow> bytes \<Rightarrow> int \<Rightarrow> flags \<Rightarrow> bytes" where
  "s3_contents existing data offset flags =
     (if offset > 0 \<and> contains_append flags then existing @ data
      else if offset > 0 then (if nat offset < length existing then take (nat offset) existing else existing) @ data
      else data)"

definition s3_store :: "'w s3_api \<Rightarrow> S3Config \<Rightarrow> string \<Rightarrow> bytes \<Rightarrow> 'w \<Rightarrow> unit fs_result \<times> 'w" where
  "s3_store S c key data w =
     (if length data \<ge> s3_multipart_threshold c \<and> s3_multipart_part_size c > 0 then
        (let (u, w1) = create_multipart_upload S c key w
         in try_then u (\<lambda>upload_id w.
           let (r, w2) = upload_parts S c key upload_id (s3_multipart_part_size c) data [] w
           in try_then r (\<lambda>etags w.
             case complete_multipart_upload S c key upload_id etags w of
               (Err e, w') \<Rightarrow> (Err e, abort_multipart_upload S c key upload_id w')
             | x \<Rightarrow> x) w2) w1)
      else call_then sdk_err (sx_put S (s3_bucket c) key data) (\<lambda>_ w. (Ok (), w)) w)"

definition s3_write :: "'w s3_api \<Rightarrow> S3Config \<Rightarrow> path \<Rightarrow> bytes \<Rightarrow> int \<Rightarrow> flags \<Rightarrow> ('w, nat) fs_op" where
  "s3_write S c p data offset flags now =
     try_then (s3_validate_config c) (\<lambda>_ w.
       let key = s3_path_to_key p
       in if key = [] then (Err (IsDirectory p), w)
          else
            (let (existing, w1) =
                   (if offset > 0 \<or> contains_append flags
                    then (let (r, w1) = s3_read S c p 0 (- 1) now w in (case r of Ok d \<Rightarrow> d | _ \<Rightarrow> [], w1)) else ([], w));
                 (r, w2) = s3_store S c key (s3_contents existing data offset flags) w1
             in try_then r (\<lambda>_ w. (Ok (length data), w)) w2))"

definition s3_mkdir :: "'w s3_api \<Rightarrow> S3Config \<Rightarrow> path \<Rightarrow> mode \<Rightarrow> ('w, unit) fs_op" where
  "s3_mkdir S c p perm now =
     try_then (s3_validate_config c) (\<lambda>_.
       let key = s3_path_to_key p; dir_key = (if key = [] then ''/'' else key @ ''/'')
       in call_then sdk_err (sx_put S (s3_bucket c) dir_key []) (\<lambda>_ w. (Ok (), w)))"

definition s3_read_dir :: "'w s3_api \<Rightarrow> S3Config \<Rightarrow> path \<Rightarrow> ('w, FileMetadata list) fs_op" where
  "s3_read_dir S c p now =
     try_then (s3_validate_config c) (\<lambda>_.
       if from_utf8_lossy p = ''/'' then list_objects_v2 S c [] (Some ''/'') now
       else (let key = s3_path_to_key p in list_objects_v2 S c (if key = [] then [] else key @ ''/'') (Some ''/'') now))"

definition s3_remove :: "'w s3_api \<Rightarrow> S3Config \<Rightarrow> path \<Rightarrow> ('w, unit) fs_op" where
  "s3_remove S c p now =
     try_then (s3_validate_config c) (\<lambda>_.
       let key = s3_path_to_key p
       in if key = [] then Pair (Err (PermissionDenied p)) else call_then sdk_err (sx_delete S (s3_bucket c) key) (\<lambda>_ w. (Ok (), w)))"

partial_function (option) delete_pages :: "'w s3_api \<Rightarrow> S3Config \<Rightarrow> string \<Rightarrow> string option \<Rightarrow> 'w \<Rightarrow> (unit fs_result \<times> 'w) option" where
  "delete_pages S c prefix token w =
     (case sx_list S (s3_bucket c) prefix None 1000 token w of (r, w1) \<Rightarrow>
        (case r of
           Inl e \<Rightarrow> Some (Err (sdk_err e), w1)
         | Inr pg \<Rightarrow>
             (case (let keys = List.map_filter ob_key (pg_contents pg)
                    in if keys = [] then (Inr (), w1) else sx_delete_objects S (s3_bucket c) keys w1) of (d, w2) \<Rightarrow>
                (case d of
                   Inl e \<Rightarrow> Some (Err (sdk_err e), w2)
                 | Inr _ \<Rightarrow>
                     (case next_page pg of None \<Rightarrow> Some (Ok (), w2) | Some t \<Rightarrow> delete_pages S c prefix (Some t) w2)))))"

definition s3_remove_all :: "'w s3_api \<Rightarrow> S3Config \<Rightarrow> path \<Rightarrow> ('w, unit) fs_op" where
  "s3_remove_all S c p now =
     try_then (s3_validate_config c) (\<lambda>_ w.
       let key = s3_path_to_key p
       in if from_utf8_lossy p = ''/'' then (Err (PermissionDenied p), w)
          else if key = [] then (Ok (), w)
          else
            (let (r, w1) = or_hang (delete_pages S c (key @ ''/'') None) w
             in try_then r (\<lambda>_ w. (Ok (), snd (sx_delete S (s3_bucket c) key w))) w1))"

definition s3_rename :: "'w s3_api \<Rightarrow> S3Config \<Rightarrow> path \<Rightarrow> path \<Rightarrow> ('w, unit) fs_op" where
  "s3_rename S c old new now =
     try_then (s3_validate_config c) (\<lambda>_.
       let old_key = s3_path_to_key old; new_key = s3_path_to_key new
       in if old_key = [] \<or> new_key = [] then Pair (Err (PermissionDenied old))
          else call_then sdk_err (sx_copy S (s3_bucket c) new_key (s3_bucket c @ ''/'' @ old_key)) (\<lambda>_. s3_remove S c old now))"

definition s3_chmod :: "path \<Rightarrow> mode \<Rightarrow> ('w, unit) fs_op" where
  "s3_chmod p m now w = (Ok (), w)"

definition s3_truncate :: "'w s3_api \<Rightarrow> S3Config \<Rightarrow> path \<Rightarrow> nat \<Rightarrow> ('w, unit) fs_op" where
  "s3_truncate S c p n now =
     try_then (s3_validate_config c) (\<lambda>_ w.
       let (r, w1) = s3_read S c p 0 (- 1) now w
       in try_then r (\<lambda>current w.
         if length current \<le> n then (Ok (), w)
         else call_then sdk_err (sx_put S (s3_bucket c) (s3_path_to_key p) (take n current)) (\<lambda>_ w. (Ok (), w)) w) w1)"

definition s3_touch :: "'w s3_api \<Rightarrow> S3Config \<Rightarrow> path \<Rightarrow> ('w, unit) fs_op" where
  "s3_touch S c p now =
     try_then (s3_validate_config c) (\<lambda>_ w.
       let key = s3_path_to_key p
       in if key = [] then (Ok (), w)
          else
            (let (r, w1) = s3_exists S c p w
             in try_then r (\<lambda>there w.
               if there then call_then sdk_err (sx_copy S (s3_bucket c) key (s3_bucket c @ ''/'' @ key)) (\<lambda>_ w. (Ok (), w)) w
               else s3_create S c p now w) w1))"

definition s3_fs :: "'w s3_api \<Rightarrow> S3Config \<Rightarrow> 'w FileSystem" where
  "s3_fs S c = \<lparr>fs_read = s3_read S c, fs_stat = s3_stat S c, fs_create = s3_create S c, fs_write = s3_write S c,
     fs_mkdir = s3_mkdir S c, fs_read_dir = s3_read_dir S c, fs_remove = s3_remove S c, fs_remove_all = s3_remove_all S c,
     fs_rename = s3_rename S c, fs_chmod = s3_chmod, fs_truncate = s3_truncate S c, fs_touch = s3_touch S c,
     fs_readlink = default_readlink, fs_symlink = default_symlink, fs_get_xattr = default_get_xattr,
     fs_set_xattr = default_set_xattr, fs_remove_xattr = default_remove_xattr, fs_list_xattr = default_list_xattr\<rparr>"

subsection \<open>What the service promises\<close>

text \<open>
  The objects of a bucket and its open uploads: the key of an upload and its parts by number, each with its entity tag. A call that fails changes no object;
  completing an upload with the tags of its parts stores their concatenation.
\<close>

type_synonym s3_uploads = "string \<rightharpoonup> string \<times> (int \<rightharpoonup> bytes \<times> string)"

definition s3_laws :: "'w s3_api \<Rightarrow> string \<Rightarrow> ('w \<Rightarrow> string \<rightharpoonup> bytes) \<Rightarrow> ('w \<Rightarrow> s3_uploads) \<Rightarrow> bool" where
  "s3_laws S b objs ups \<longleftrightarrow>
     (\<forall>k d w r w'. sx_put S b k d w = (r, w') \<longrightarrow> objs w' = (case r of Inr _ \<Rightarrow> (objs w)(k \<mapsto> d) | Inl _ \<Rightarrow> objs w)) \<and>
     (\<forall>k w r w'. sx_get S b k None w = (r, w') \<longrightarrow> objs w' = objs w \<and> (\<forall>d. r = Inr d \<longrightarrow> objs w k = Some d)) \<and>
     (\<forall>k w r w'. sx_create_upload S b k w = (r, w') \<longrightarrow> objs w' = objs w \<and> (\<forall>u. r = Inr (Some u) \<longrightarrow> ups w' u = Some (k, Map.empty))) \<and>
     (\<forall>k u n d w r w'. sx_upload_part S b k u n d w = (r, w') \<longrightarrow> objs w' = objs w \<and>
        (\<forall>m e. r = Inr (Some e) \<and> ups w u = Some (k, m) \<longrightarrow> ups w' u = Some (k, m(n \<mapsto> (d, e))))) \<and>
     (\<forall>k u ps w r w'. sx_complete S b k u ps w = (r, w') \<longrightarrow>
        (case r of
           Inl _ \<Rightarrow> objs w' = objs w
         | Inr _ \<Rightarrow> \<forall>m. ups w u = Some (k, m) \<and> (\<forall>(n, e) \<in> set ps. \<exists>d. m n = Some (d, e)) \<longrightarrow>
             objs w' = (objs w)(k \<mapsto> concat (map (\<lambda>(n, e). fst (the (m n))) ps)))) \<and>
     (\<forall>k u w. objs (snd (sx_abort S b k u w)) = objs w)"

lemma s3_lawsD:
  assumes "s3_laws S b objs ups"
  shows "sx_put S b k d w = (r, w') \<Longrightarrow> objs w' = (case r of Inr _ \<Rightarrow> (objs w)(k \<mapsto> d) | Inl _ \<Rightarrow> objs w)"
    and "sx_get S b k None w = (r2, w') \<Longrightarrow> objs w' = objs w \<and> (\<forall>d. r2 = Inr d \<longrightarrow> objs w k = Some d)"
    and "sx_create_upload S b k w = (r3, w') \<Longrightarrow> objs w' = objs w \<and> (\<forall>u. r3 = Inr (Some u) \<longrightarrow> ups w' u = Some (k, Map.empty))"
    and "sx_upload_part S b k u n d w = (r3, w') \<Longrightarrow> objs w' = objs w \<and>
        (\<forall>m e. r3 = Inr (Some e) \<and> ups w u = Some (k, m) \<longrightarrow> ups w' u = Some (k, m(n \<mapsto> (d, e))))"
    and "sx_complete S b k u ps w = (Inl e, w') \<Longrightarrow> objs w' = objs w"
    and "sx_complete S b k u ps w = (Inr (), w') \<Longrightarrow> ups w u = Some (k, m) \<Longrightarrow> \<forall>(n, e) \<in> set ps. \<exists>d. m n = Some (d, e) \<Longrightarrow>
        objs w' = (objs w)(k \<mapsto> concat (map (\<lambda>(n, e). fst (the (m n))) ps))"
    and "objs (snd (sx_abort S b k u w)) = objs w"
proof -
  note L = assms [unfolded s3_laws_def]
  show "sx_put S b k d w = (r, w') \<Longrightarrow> objs w' = (case r of Inr _ \<Rightarrow> (objs w)(k \<mapsto> d) | Inl _ \<Rightarrow> objs w)"
    by (rule L [THEN conjunct1, rule_format])
  show "sx_get S b k None w = (r2, w') \<Longrightarrow> objs w' = objs w \<and> (\<forall>d. r2 = Inr d \<longrightarrow> objs w k = Some d)"
    by (rule L [THEN conjunct2, THEN conjunct1, THEN spec, THEN spec, THEN spec, THEN spec, THEN mp])
  show "sx_create_upload S b k w = (r3, w') \<Longrightarrow> objs w' = objs w \<and> (\<forall>u. r3 = Inr (Some u) \<longrightarrow> ups w' u = Some (k, Map.empty))"
    by (rule L [THEN conjunct2, THEN conjunct2, THEN conjunct1, THEN spec, THEN spec, THEN spec, THEN spec, THEN mp])
  show "sx_upload_part S b k u n d w = (r3, w') \<Longrightarrow> objs w' = objs w \<and>
      (\<forall>m e. r3 = Inr (Some e) \<and> ups w u = Some (k, m) \<longrightarrow> ups w' u = Some (k, m(n \<mapsto> (d, e))))"
    by (rule L [THEN conjunct2, THEN conjunct2, THEN conjunct2, THEN conjunct1,
          THEN spec, THEN spec, THEN spec, THEN spec, THEN spec, THEN spec, THEN spec, THEN mp])
  note C = L [THEN conjunct2, THEN conjunct2, THEN conjunct2, THEN conjunct2, THEN conjunct1, rule_format, of k u ps w]
  show "sx_complete S b k u ps w = (Inl e, w') \<Longrightarrow> objs w' = objs w" using C [of "Inl e" w'] by simp
  show "sx_complete S b k u ps w = (Inr (), w') \<Longrightarrow> ups w u = Some (k, m) \<Longrightarrow> \<forall>(n, e) \<in> set ps. \<exists>d. m n = Some (d, e) \<Longrightarrow>
      objs w' = (objs w)(k \<mapsto> concat (map (\<lambda>(n, e). fst (the (m n))) ps))" using C [of "Inr ()" w'] by simp
  show "objs (snd (sx_abort S b k u w)) = objs w" using L by blast
qed

subsection \<open>Uploading in parts stores the data\<close>

text \<open>The parts a running upload holds, with their tags.\<close>

definition holds_parts :: "s3_uploads \<Rightarrow> string \<Rightarrow> string \<Rightarrow> string list \<Rightarrow> bytes list \<Rightarrow> bool" where
  "holds_parts ups u key etags ds \<longleftrightarrow> length ds = length etags \<and>
     (\<exists>m. ups u = Some (key, m) \<and> (\<forall>i < length etags. m (as_i32 (i + 1)) = Some (ds ! i, etags ! i)))"

lemma parts_room:
  fixes k n d :: nat
  assumes "n * k + d \<le> M * k" "0 < d"
  shows "n < M" "(n + 1) * k + (d - k) \<le> M * k"
proof -
  have "n * k < M * k" using assms by linarith
  then show "n < M" by simp
  then have "(n + 1) * k \<le> M * k" by (intro mult_le_mono1) simp
  with assms show "(n + 1) * k + (d - k) \<le> M * k" by (cases "k \<le> d") simp_all
qed

lemma upload_parts_spec:
  assumes L: "s3_laws S (s3_bucket c) objs ups" and k: "0 < k"
  shows "holds_parts (ups w) u key etags ds \<Longrightarrow> length etags * k + length data \<le> 2147483647 * k \<Longrightarrow>
    upload_parts S c key u k data etags w = (r, w') \<Longrightarrow>
    objs w' = objs w \<and> (\<forall>es. r = Ok es \<longrightarrow> (\<exists>ds'. holds_parts (ups w') u key es ds' \<and> concat ds' = concat ds @ data)) \<and> r \<noteq> Panic \<and> r \<noteq> Hang"
proof (induction "length data" arbitrary: data etags ds w rule: less_induct)
  case less
  show ?case
  proof (cases "data = []")
    case True
    then show ?thesis using less.prems k by (auto simp: upload_parts.simps)
  next
    case False
    let ?n = "as_i32 (length etags + 1)"
    have room: "length etags < 2147483647" "(length etags + 1) * k + (length data - k) \<le> 2147483647 * k"
      using parts_room [OF less.prems(2)] False by auto
    obtain x w1 where x: "sx_upload_part S (s3_bucket c) key u ?n (take k data) w = (x, w1)" by (metis prod.exhaust)
    note part = s3_lawsD(4) [OF L x]
    show ?thesis
    proof (cases "\<exists>e. x = Inr (Some e)")
      case True
      then obtain e where e: "x = Inr (Some e)" by blast
      obtain m where m: "ups w u = Some (key, m)" "\<forall>i < length etags. m (as_i32 (i + 1)) = Some (ds ! i, etags ! i)" "length ds = length etags"
        using less.prems(1) by (auto simp: holds_parts_def)
      have "ups w1 u = Some (key, m(?n \<mapsto> (take k data, e)))" using part e m(1) by blast
      moreover have "(m(?n \<mapsto> (take k data, e))) (as_i32 (i + 1)) = Some ((ds @ [take k data]) ! i, (etags @ [e]) ! i)" if "i < length (etags @ [e])" for i
        using that m(2,3) room(1) by (auto simp: as_i32_small nth_append less_Suc_eq)
      ultimately have "holds_parts (ups w1) u key (etags @ [e]) (ds @ [take k data])"
        using m(3) unfolding holds_parts_def by (metis length_append_singleton)
      moreover have "length (etags @ [e]) * k + length (drop k data) \<le> 2147483647 * k" using room(2) by simp
      moreover have "upload_parts S c key u k (drop k data) (etags @ [e]) w1 = (r, w')"
        using less.prems(3) False k x e by (subst (asm) upload_parts.simps) (simp add: upload_part_def call_then_def)
      ultimately show ?thesis using less.hyps [of "drop k data" w1 "etags @ [e]" "ds @ [take k data]"] False k part
        by simp
    next
      case False
      then have "\<exists>e. upload_part S c key u ?n (take k data) w = (Err e, w1)"
        using x by (cases x) (auto simp: upload_part_def call_then_def ok_or_def split: option.split)
      then obtain e where "r = Err e" "w' = abort_multipart_upload S c key u w1"
        using less.prems(3) \<open>data \<noteq> []\<close> k by (subst (asm) upload_parts.simps) auto
      then show ?thesis using part s3_lawsD(7) [OF L] by (simp add: abort_multipart_upload_def)
    qed
  qed
qed

lemma complete_spec:
  assumes L: "s3_laws S (s3_bucket c) objs ups" and h: "holds_parts (ups w) u key etags ds"
    and r: "complete_multipart_upload S c key u etags w = (r, w')"
  shows "(r = Ok () \<and> objs w' = (objs w)(key \<mapsto> concat ds)) \<or> (\<exists>e. r = Err e \<and> objs w' = objs w)"
proof -
  let ?ps = "map (\<lambda>(i, e). (as_i32 (i + 1), e)) (enumerate 0 etags)"
  obtain m where m: "ups w u = Some (key, m)" "\<forall>i < length etags. m (as_i32 (i + 1)) = Some (ds ! i, etags ! i)" "length ds = length etags"
    using h by (auto simp: holds_parts_def)
  have "\<forall>(n, e) \<in> set ?ps. \<exists>d. m n = Some (d, e)" using m(2) by (auto simp: in_set_enumerate_eq)
  moreover have "map (\<lambda>(n, e). fst (the (m n))) ?ps = ds"
    using m(2,3) by (intro nth_equalityI) (simp_all add: nth_enumerate_eq)
  moreover obtain x w1 where x: "sx_complete S (s3_bucket c) key u ?ps w = (x, w1)" by (metis prod.exhaust)
  ultimately show ?thesis
    using r s3_lawsD(5,6) [OF L] m(1) by (cases x) (fastforce simp: complete_multipart_upload_def call_then_def)+
qed

text \<open>Storing, in one piece or in parts, is atomic.\<close>

lemma store_atomic:
  assumes L: "s3_laws S (s3_bucket c) objs ups" and room: "s3_multipart_part_size c = 0 \<or> length data \<le> 2147483647 * s3_multipart_part_size c"
    and r: "s3_store S c key data w = (r, w')"
  shows "(r = Ok () \<and> objs w' = (objs w)(key \<mapsto> data)) \<or> (\<exists>e. r = Err e \<and> objs w' = objs w)"
proof (cases "length data \<ge> s3_multipart_threshold c \<and> s3_multipart_part_size c > 0")
  case False
  obtain x w1 where x: "sx_put S (s3_bucket c) key data w = (x, w1)" by (metis prod.exhaust)
  with False r s3_lawsD(1) [OF L x] show ?thesis by (cases x) (auto simp: s3_store_def call_then_def)
next
  case True
  let ?k = "s3_multipart_part_size c"
  obtain x w1 where x: "sx_create_upload S (s3_bucket c) key w = (x, w1)" by (metis prod.exhaust)
  note create = s3_lawsD(3) [OF L x]
  show ?thesis
  proof (cases "\<exists>u. x = Inr (Some u)")
    case False
    then have "\<exists>e. create_multipart_upload S c key w = (Err e, w1)"
      using x by (cases x) (auto simp: create_multipart_upload_def call_then_def ok_or_def split: option.split)
    with True r create show ?thesis by (auto simp: s3_store_def)
  next
    case ex: True
    then obtain u where u: "x = Inr (Some u)" by blast
    then have cu: "create_multipart_upload S c key w = (Ok u, w1)" using x by (simp add: create_multipart_upload_def call_then_def ok_or_def)
    obtain y w2 where y: "upload_parts S c key u ?k data [] w1 = (y, w2)" by (metis prod.exhaust)
    have "holds_parts (ups w1) u key [] []" using create u by (simp add: holds_parts_def)
    from upload_parts_spec [OF L _ this _ y] True room
    have parts: "objs w2 = objs w1" "\<And>es. y = Ok es \<Longrightarrow> \<exists>ds. holds_parts (ups w2) u key es ds \<and> concat ds = data" "y \<noteq> Panic" "y \<noteq> Hang" by simp_all
    show ?thesis
    proof (cases y)
      case (Ok es)
      then obtain ds where ds: "holds_parts (ups w2) u key es ds" "concat ds = data" using parts(2) by blast
      obtain z w3 where z: "complete_multipart_upload S c key u es w2 = (z, w3)" by (metis prod.exhaust)
      from complete_spec [OF L ds(1) z] ds(2) parts(1) create r True cu y Ok z s3_lawsD(7) [OF L]
      show ?thesis by (auto simp: s3_store_def abort_multipart_upload_def)
    qed (use parts create r True cu y in \<open>auto simp: s3_store_def\<close>)
  qed
qed


text \<open>A service in memory, with one upload at a time.\<close>

record s3_memory =
  sm_objects :: "string \<rightharpoonup> bytes"
  sm_uploads :: s3_uploads

definition memory_s3 :: "s3_memory s3_api" where
  "memory_s3 = \<lparr>
     sx_list = \<lambda>b prefix delimiter n token w.
       (Inr \<lparr>pg_contents = [], pg_common_prefixes = [], pg_key_count = Some 0, pg_is_truncated = None, pg_next_continuation_token = None\<rparr>, w),
     sx_head = \<lambda>b k w. (case sm_objects w k of
       None \<Rightarrow> (Inl (Sdk_Not_Found ''NotFound''), w)
     | Some d \<Rightarrow> (Inr \<lparr>hd_content_length = Some (int (length d)), hd_last_modified = None\<rparr>, w)),
     sx_get = \<lambda>b k rg w. (case sm_objects w k of None \<Rightarrow> (Inl (Sdk_Not_Found ''NoSuchKey''), w) | Some d \<Rightarrow> (Inr d, w)),
     sx_put = \<lambda>b k d w. (Inr (), w\<lparr>sm_objects := (sm_objects w)(k \<mapsto> d)\<rparr>),
     sx_copy = \<lambda>b k src w. (Inl (Sdk_Failed ''NotImplemented''), w),
     sx_delete = \<lambda>b k w. (Inr (), w\<lparr>sm_objects := (sm_objects w)(k := None)\<rparr>),
     sx_delete_objects = \<lambda>b ks w. (Inr (), w\<lparr>sm_objects := \<lambda>k. if k \<in> set ks then None else sm_objects w k\<rparr>),
     sx_create_upload = \<lambda>b k w. (Inr (Some ''u''), w\<lparr>sm_uploads := (sm_uploads w)(''u'' \<mapsto> (k, Map.empty))\<rparr>),
     sx_upload_part = \<lambda>b k u n d w. (case sm_uploads w u of
       None \<Rightarrow> (Inl (Sdk_Failed ''NoSuchUpload''), w)
     | Some (k', m) \<Rightarrow> (Inr (Some ''e''), w\<lparr>sm_uploads := (sm_uploads w)(u \<mapsto> (k', m(n \<mapsto> (d, ''e''))))\<rparr>)),
     sx_complete = \<lambda>b k u ps w. (case sm_uploads w u of
       None \<Rightarrow> (Inl (Sdk_Failed ''NoSuchUpload''), w)
     | Some (k', m) \<Rightarrow> (Inr (), w\<lparr>sm_objects := (sm_objects w)(k' \<mapsto> concat (map (\<lambda>(n, e). fst (the (m n))) ps))\<rparr>)),
     sx_abort = \<lambda>b k u w. (Inr (), w\<lparr>sm_uploads := (sm_uploads w)(u := None)\<rparr>)\<rparr>"

lemma memory_s3_laws: "s3_laws memory_s3 b sm_objects sm_uploads"
  by (auto simp: s3_laws_def memory_s3_def split: option.splits sum.splits)


text \<open>An append at offset 0 replaces the object.\<close>

lemma s3_append_replaces: "s3_contents old data 0 WF_APPEND = data"
  by (simp add: s3_contents_def)

subsection \<open>Listing\<close>

text \<open>The pages a service returns from a token on.\<close>

inductive pages :: "'w s3_api \<Rightarrow> string \<Rightarrow> string \<Rightarrow> string option \<Rightarrow> string option \<Rightarrow> 'w \<Rightarrow> s3_page list \<Rightarrow> 'w \<Rightarrow> bool" for S b prefix delimiter where
  last_page: "sx_list S b prefix delimiter 1000 token w = (Inr pg, w') \<Longrightarrow> next_page pg = None \<Longrightarrow> pages S b prefix delimiter token w [pg] w'"
| more: "sx_list S b prefix delimiter 1000 token w = (Inr pg, w') \<Longrightarrow> next_page pg = Some t \<Longrightarrow> pages S b prefix delimiter (Some t) w' pgs w'' \<Longrightarrow>
    pages S b prefix delimiter token w (pg # pgs) w''"

lemma list_pages_all:
  "pages S (s3_bucket c) prefix delimiter token w pgs w' \<Longrightarrow>
     list_pages S c prefix delimiter now token results w = Some (Ok (results @ concat (map (page_entries now) pgs)), w')"
  by (induction arbitrary: results rule: pages.induct) (subst list_pages.simps, simp)+

end
