(* ===== verification/Kv_Sqlite.thy ===== *)
theory Kv_Sqlite
  imports Kv_FS Sql_FS
begin

text \<open>
  The crate \<open>racfs-plugin-kvfs\<close> with its SQLite backend (\<open>KvBackend::Sqlite\<close>): one table with the path as its primary key. As for SqlFS, the database (\<open>rusqlite\<close>) is a
  parameter with a state of its own and what SQL says of the statements is a predicate on it, \<open>kv_laws\<close>; the contents a write stores are computed as in memory.
\<close>

subsection \<open>The database\<close>

record kv_row =
  kr_data :: bytes
  kr_is_dir :: bool
  kr_mode :: mode

type_synonym kv_table = "string \<rightharpoonup> kv_row"

datatype kv_stmt =
    KV_Create_Table
  | KV_Insert string kv_row
  | KV_Insert_Or_Ignore string kv_row
  | KV_Delete string
  | KV_Delete_Tree string string
  | KV_Set_Data bytes string
  | KV_Set_Mode mode string
  | KV_Set_Path string string

text \<open>
  Executing a statement returns the number of rows it has changed. A query for one row takes the path and whether only files count; it fails when there is no such row or a column has
  another type. The listing has the pattern and the path that is left out, and each of its rows may fail.
\<close>

record 'w kv_db =
  kd_open :: "path \<Rightarrow> 'w \<Rightarrow> (string + unit) \<times> 'w"
  kd_execute :: "kv_stmt \<Rightarrow> 'w \<Rightarrow> (string + nat) \<times> 'w"
  kd_query_row :: "bool \<Rightarrow> string \<Rightarrow> 'w \<Rightarrow> (string + string \<times> kv_row) \<times> 'w"
  kd_count :: "string \<Rightarrow> 'w \<Rightarrow> (string + int) \<times> 'w"
  kd_prepare :: "'w \<Rightarrow> (string + unit) \<times> 'w"
  kd_iterate :: "string \<Rightarrow> string \<Rightarrow> 'w \<Rightarrow> (string + (string + string \<times> kv_row) list) \<times> 'w"

subsection \<open>Start\<close>

definition kv_path_to_str :: "path \<Rightarrow> string fs_result" where
  "kv_path_to_str p =
     (if utf8_valid p then Ok (if starts_with p ''/'' then p else ''/'' @ p) else Err (InvalidInput ''Path contains invalid UTF-8''))"

definition kv_initialize_schema :: "'w kv_db \<Rightarrow> 'w \<Rightarrow> unit fs_result \<times> 'w" where
  "kv_initialize_schema D = call_then (sql_io ''Failed to create schema'') (kd_execute D KV_Create_Table) (\<lambda>_ w. (Ok (), w))"

definition kv_create_root :: "'w kv_db \<Rightarrow> 'w \<Rightarrow> unit fs_result \<times> 'w" where
  "kv_create_root D =
     call_then (sql_io ''Failed to create root'')
       (kd_execute D (KV_Insert_Or_Ignore ''/'' \<lparr>kr_data = [], kr_is_dir = True, kr_mode = S_IFDIR OR 0x1ED\<rparr>)) (\<lambda>_ w. (Ok (), w))"

definition kv_with_database :: "'w kv_db \<Rightarrow> path \<Rightarrow> 'w \<Rightarrow> unit fs_result \<times> 'w" where
  "kv_with_database D p =
     call_then (sql_io ''Failed to open database'') (kd_open D p) (\<lambda>_. bind_op (kv_initialize_schema D) (\<lambda>_. kv_create_root D))"

subsection \<open>Operations\<close>

definition kv_sql_read :: "'w kv_db \<Rightarrow> path \<Rightarrow> int \<Rightarrow> int \<Rightarrow> ('w, bytes) fs_op" where
  "kv_sql_read D p offset sz now =
     try_then (kv_path_to_str p) (\<lambda>k. call_then (\<lambda>_. NotFound p) (kd_query_row D True k) (\<lambda>(_, r) w. (read_slice (kr_data r) offset sz, w)))"

definition kv_row_metadata :: "string \<times> kv_row \<Rightarrow> FileMetadata" where
  "kv_row_metadata = (\<lambda>(q, r). \<lparr>md_path = q, md_size = (if kr_is_dir r then 0 else length (kr_data r)), md_mode = kr_mode r, md_created = None,
     md_modified = None, md_accessed = None, md_is_symlink = False, md_symlink_target = None\<rparr>)"

definition kv_sql_stat :: "'w kv_db \<Rightarrow> path \<Rightarrow> ('w, FileMetadata) fs_op" where
  "kv_sql_stat D p now =
     try_then (kv_path_to_str p) (\<lambda>k. call_then (\<lambda>_. NotFound p) (kd_query_row D False k) (\<lambda>x w. (Ok (kv_row_metadata x), w)))"

definition kv_sql_create :: "'w kv_db \<Rightarrow> path \<Rightarrow> ('w, unit) fs_op" where
  "kv_sql_create D p now =
     try_then (kv_path_to_str p) (\<lambda>k. call_then (sql_io ''Failed to create'')
       (kd_execute D (KV_Insert k \<lparr>kr_data = [], kr_is_dir = False, kr_mode = S_IFREG OR 0x1A4\<rparr>)) (\<lambda>_ w. (Ok (), w)))"

definition kv_sql_write :: "'w kv_db \<Rightarrow> path \<Rightarrow> bytes \<Rightarrow> int \<Rightarrow> flags \<Rightarrow> ('w, nat) fs_op" where
  "kv_sql_write D p data offset flags now =
     try_then (kv_path_to_str p) (\<lambda>k. call_then (\<lambda>_. NotFound p) (kd_query_row D True k) (\<lambda>(_, r).
       try_then (kv_write_data (kr_data r) data offset flags) (\<lambda>d.
         call_then (sql_io ''Failed to write'') (kd_execute D (KV_Set_Data d k)) (\<lambda>_ w. (Ok (length data), w)))))"

definition kv_sql_mkdir :: "'w kv_db \<Rightarrow> path \<Rightarrow> mode \<Rightarrow> ('w, unit) fs_op" where
  "kv_sql_mkdir D p perm now =
     try_then (kv_path_to_str p) (\<lambda>k. call_then (sql_io ''Failed to mkdir'')
       (kd_execute D (KV_Insert k \<lparr>kr_data = [], kr_is_dir = True, kr_mode = S_IFDIR OR 0x1ED\<rparr>)) (\<lambda>_ w. (Ok (), w)))"

text \<open>The listing stops at the first row that fails.\<close>

fun kv_rows :: "string \<Rightarrow> (string + string \<times> kv_row) list \<Rightarrow> FileMetadata list fs_result" where
  "kv_rows prefix [] = Ok []"
| "kv_rows prefix (Inl e # rows) = Err (sql_io ''Row error'' e)"
| "kv_rows prefix (Inr (q, r) # rows) =
     (let rest = (if starts_with q prefix then drop (length prefix) q else q)
      in and_then (kv_rows prefix rows) (\<lambda>es. Ok (if slash \<in> set rest then es else kv_row_metadata (q, r) # es)))"

definition kv_dir_prefix :: "string \<Rightarrow> string" where
  "kv_dir_prefix k = (if k = ''/'' then ''/'' else trim_end_char slash k @ ''/'')"

definition kv_sql_read_dir :: "'w kv_db \<Rightarrow> path \<Rightarrow> ('w, FileMetadata list) fs_op" where
  "kv_sql_read_dir D p now =
     try_then (kv_path_to_str p) (\<lambda>k.
       call_then (sql_io ''Failed to prepare read_dir'') (kd_prepare D) (\<lambda>_.
       call_then (sql_io ''Failed to read_dir'') (kd_iterate D (kv_dir_prefix k @ ''%'') k) (\<lambda>rows w. (kv_rows (kv_dir_prefix k) rows, w))))"

definition kv_sql_remove :: "'w kv_db \<Rightarrow> path \<Rightarrow> ('w, unit) fs_op" where
  "kv_sql_remove D p now =
     try_then (kv_path_to_str p) (\<lambda>k. call_then (sql_io ''Failed to remove'') (kd_execute D (KV_Delete k))
       (\<lambda>changed w. (if changed = 0 then Err (NotFound p) else Ok (), w)))"

definition kv_sql_remove_all :: "'w kv_db \<Rightarrow> path \<Rightarrow> ('w, unit) fs_op" where
  "kv_sql_remove_all D p now =
     try_then (kv_path_to_str p) (\<lambda>k. call_then (sql_io ''Failed to remove_all'')
       (kd_execute D (KV_Delete_Tree k (trim_end_char slash k @ ''/%''))) (\<lambda>_ w. (Ok (), w)))"

definition kv_sql_rename :: "'w kv_db \<Rightarrow> path \<Rightarrow> path \<Rightarrow> ('w, unit) fs_op" where
  "kv_sql_rename D old new now =
     try_then (kv_path_to_str old) (\<lambda>k. try_then (kv_path_to_str new) (\<lambda>l.
       call_then (sql_io ''Failed to check rename target'') (kd_count D l) (\<lambda>exists.
         if exists \<noteq> 0 then Pair (Err (AlreadyExists new))
         else call_then (sql_io ''Failed to rename'') (kd_execute D (KV_Set_Path l k))
           (\<lambda>changed w. (if changed = 0 then Err (NotFound old) else Ok (), w)))))"

definition kv_sql_chmod :: "'w kv_db \<Rightarrow> path \<Rightarrow> mode \<Rightarrow> ('w, unit) fs_op" where
  "kv_sql_chmod D p mode now =
     try_then (kv_path_to_str p) (\<lambda>k. call_then (\<lambda>_. NotFound p) (kd_query_row D False k) (\<lambda>(_, r).
       call_then (sql_io ''Failed to chmod'') (kd_execute D (KV_Set_Mode ((kr_mode r AND S_IFMT) OR (mode AND 0x1FF)) k)) (\<lambda>_ w. (Ok (), w))))"

definition kv_sql_fs :: "'w kv_db \<Rightarrow> 'w FileSystem" where
  "kv_sql_fs D = \<lparr>fs_read = kv_sql_read D, fs_stat = kv_sql_stat D, fs_create = kv_sql_create D, fs_write = kv_sql_write D, fs_mkdir = kv_sql_mkdir D,
     fs_read_dir = kv_sql_read_dir D, fs_remove = kv_sql_remove D, fs_remove_all = kv_sql_remove_all D, fs_rename = kv_sql_rename D,
     fs_chmod = kv_sql_chmod D, fs_truncate = default_truncate, fs_touch = default_touch, fs_readlink = default_readlink,
     fs_symlink = default_symlink, fs_get_xattr = default_get_xattr, fs_set_xattr = default_set_xattr,
     fs_remove_xattr = default_remove_xattr, fs_list_xattr = default_list_xattr\<rparr>"

subsection \<open>What the statements do\<close>

fun kv_step :: "(string \<Rightarrow> string \<Rightarrow> bool) \<Rightarrow> kv_stmt \<Rightarrow> nat \<Rightarrow> kv_table \<Rightarrow> kv_table \<Rightarrow> bool" where
  "kv_step lk KV_Create_Table n t t' \<longleftrightarrow> t' = t"
| "kv_step lk (KV_Insert k r) n t t' \<longleftrightarrow> t k = None \<and> t' = t(k \<mapsto> r)"
| "kv_step lk (KV_Insert_Or_Ignore k r) n t t' \<longleftrightarrow> t' = (if t k = None then t(k \<mapsto> r) else t)"
| "kv_step lk (KV_Delete k) n t t' \<longleftrightarrow> t' = t(k := None) \<and> (n = 0 \<longleftrightarrow> t k = None)"
| "kv_step lk (KV_Delete_Tree k pat) n t t' \<longleftrightarrow> t' = (\<lambda>q. if q = k \<or> lk pat q then None else t q)"
| "kv_step lk (KV_Set_Data d k) n t t' \<longleftrightarrow> t' = t(k := map_option (\<lambda>r. r\<lparr>kr_data := d\<rparr>) (t k))"
| "kv_step lk (KV_Set_Mode m k) n t t' \<longleftrightarrow> t' = t(k := map_option (\<lambda>r. r\<lparr>kr_mode := m\<rparr>) (t k))"
| "kv_step lk (KV_Set_Path new old) n t t' \<longleftrightarrow> (n = 0 \<longleftrightarrow> t old = None) \<and>
     (if t old = None then t' = t else (new = old \<or> t new = None) \<and> t' = (t(old := None))(new := t old))"

text \<open>The promises of SQL; \<open>tab\<close> is the table in a state of the database. What fails changes nothing.\<close>

definition kv_laws :: "(string \<Rightarrow> string \<Rightarrow> bool) \<Rightarrow> 'w kv_db \<Rightarrow> ('w \<Rightarrow> kv_table) \<Rightarrow> bool" where
  "kv_laws lk D tab \<longleftrightarrow>
     (\<forall>st w x w'. kd_execute D st w = (x, w') \<longrightarrow> (case x of Inl _ \<Rightarrow> tab w' = tab w | Inr n \<Rightarrow> kv_step lk st n (tab w) (tab w'))) \<and>
     (\<forall>files k w x w'. kd_query_row D files k w = (x, w') \<longrightarrow> tab w' = tab w \<and>
        (\<forall>q r. x = Inr (q, r) \<longrightarrow> q = k \<and> tab w k = Some r \<and> (files \<longrightarrow> \<not> kr_is_dir r))) \<and>
     (\<forall>k w x w'. kd_count D k w = (x, w') \<longrightarrow> tab w' = tab w \<and> (\<forall>n. x = Inr n \<longrightarrow> (n = 0 \<longleftrightarrow> tab w k = None))) \<and>
     (\<forall>w. tab (snd (kd_prepare D w)) = tab w) \<and>
     (\<forall>pat k w x w'. kd_iterate D pat k w = (x, w') \<longrightarrow> tab w' = tab w \<and>
        (\<forall>rows. x = Inr (map Inr rows) \<longrightarrow> distinct (map fst rows) \<and> set rows = {(q, r). tab w q = Some r \<and> lk pat q \<and> q \<noteq> k}))"

lemma kv_lawsD:
  assumes "kv_laws lk D tab"
  shows "kd_execute D st w = (Inl e, w') \<Longrightarrow> tab w' = tab w"
    and "kd_execute D st w = (Inr n, w') \<Longrightarrow> kv_step lk st n (tab w) (tab w')"
    and "kd_query_row D files k w = (x, w') \<Longrightarrow> tab w' = tab w"
    and "kd_query_row D files k w = (Inr (q, r), w') \<Longrightarrow> q = k \<and> tab w k = Some r \<and> (files \<longrightarrow> \<not> kr_is_dir r)"
    and "kd_count D k w = (y, w') \<Longrightarrow> tab w' = tab w"
    and "kd_count D k w = (Inr i, w') \<Longrightarrow> i = 0 \<longleftrightarrow> tab w k = None"
    and "kd_prepare D w = (u, w') \<Longrightarrow> tab w' = tab w"
    and "kd_iterate D pat k w = (z, w') \<Longrightarrow> tab w' = tab w"
    and "kd_iterate D pat k w = (Inr (map Inr rows), w') \<Longrightarrow> distinct (map fst rows) \<and> set rows = {(q, r). tab w q = Some r \<and> lk pat q \<and> q \<noteq> k}"
proof -
  note L = assms [unfolded kv_laws_def]
  show "kd_execute D st w = (Inl e, w') \<Longrightarrow> tab w' = tab w"
    using L [THEN conjunct1, rule_format, of st w "Inl e" w'] by simp
  show "kd_execute D st w = (Inr n, w') \<Longrightarrow> kv_step lk st n (tab w) (tab w')"
    using L [THEN conjunct1, rule_format, of st w "Inr n" w'] by simp
  show "kd_query_row D files k w = (x, w') \<Longrightarrow> tab w' = tab w"
    and "kd_query_row D files k w = (Inr (q, r), w') \<Longrightarrow> q = k \<and> tab w k = Some r \<and> (files \<longrightarrow> \<not> kr_is_dir r)"
    using L [THEN conjunct2, THEN conjunct1] by blast+
  show "kd_count D k w = (y, w') \<Longrightarrow> tab w' = tab w" and "kd_count D k w = (Inr i, w') \<Longrightarrow> i = 0 \<longleftrightarrow> tab w k = None"
    using L [THEN conjunct2, THEN conjunct2, THEN conjunct1] by blast+
  show "kd_prepare D w = (u, w') \<Longrightarrow> tab w' = tab w"
    using L [THEN conjunct2, THEN conjunct2, THEN conjunct2, THEN conjunct1, rule_format, of w] by simp
  show "kd_iterate D pat k w = (z, w') \<Longrightarrow> tab w' = tab w"
    and "kd_iterate D pat k w = (Inr (map Inr rows), w') \<Longrightarrow> distinct (map fst rows) \<and> set rows = {(q, r). tab w q = Some r \<and> lk pat q \<and> q \<noteq> k}"
    using L [THEN conjunct2, THEN conjunct2, THEN conjunct2, THEN conjunct2] by blast+
qed

lemma kv_exec_ok:
  "kv_laws lk D tab \<Longrightarrow> tab w = t \<Longrightarrow> (\<And>n w'. kv_step lk st n t (tab w') \<Longrightarrow> tab_ok tab t Q (f n w')) \<Longrightarrow> tab_ok tab t Q (call_then g (kd_execute D st) f w)"
  by (rule tab_ok_call) (auto dest: kv_lawsD(1,2))

lemma kv_row_ok:
  assumes L: "kv_laws lk D tab" and t: "tab w = t"
    and f: "\<And>r w'. tab w' = t \<Longrightarrow> t k = Some r \<Longrightarrow> (files \<longrightarrow> \<not> kr_is_dir r) \<Longrightarrow> tab_ok tab t Q (f (k, r) w')"
  shows "tab_ok tab t Q (call_then g (kd_query_row D files k) f w)"
proof (rule tab_ok_call)
  show "tab w' = t" if "kd_query_row D files k w = (Inl e, w')" for e w' using kv_lawsD(3) [OF L that] t by simp
  show "tab_ok tab t Q (f x w')" if x: "kd_query_row D files k w = (Inr x, w')" for x w'
    using kv_lawsD(4) [OF L, of files k w "fst x" "snd x" w'] kv_lawsD(3) [OF L x] f [of w' "snd x"] x t by auto
qed

lemma kv_path_to_str_Ok: "kv_path_to_str p = Ok k \<longleftrightarrow> utf8_valid p \<and> k = abs_path p"
  by (auto simp: kv_path_to_str_def abs_path_def)

subsection \<open>Each operation\<close>

lemma kv_sql_create_ok:
  assumes L: "kv_laws lk D tab" and t: "tab w = t"
  shows "tab_ok tab t (\<lambda>_ t'. t (abs_path p) = None \<and> t' = t(abs_path p \<mapsto> \<lparr>kr_data = [], kr_is_dir = False, kr_mode = S_IFREG OR 0x1A4\<rparr>)) (kv_sql_create D p now w)"
  unfolding kv_sql_create_def
  by (rule tab_ok_try, rule t, rule kv_exec_ok, rule L, rule t) (auto simp: kv_path_to_str_Ok intro: tab_ok_Ok)

lemma kv_sql_mkdir_ok:
  assumes L: "kv_laws lk D tab" and t: "tab w = t"
  shows "tab_ok tab t (\<lambda>_ t'. t (abs_path p) = None \<and> t' = t(abs_path p \<mapsto> \<lparr>kr_data = [], kr_is_dir = True, kr_mode = S_IFDIR OR 0x1ED\<rparr>)) (kv_sql_mkdir D p m now w)"
  unfolding kv_sql_mkdir_def
  by (rule tab_ok_try, rule t, rule kv_exec_ok, rule L, rule t) (auto simp: kv_path_to_str_Ok intro: tab_ok_Ok)

lemma kv_sql_read_ok:
  assumes L: "kv_laws lk D tab" and t: "tab w = t"
  shows "tab_ok tab t (\<lambda>d t'. t' = t \<and> (\<exists>r. t (abs_path p) = Some r \<and> \<not> kr_is_dir r \<and> read_slice (kr_data r) offset sz = Ok d)) (kv_sql_read D p offset sz now w)"
  unfolding kv_sql_read_def
  by (rule tab_ok_try, rule t, rule kv_row_ok, rule L, rule t) (auto simp: kv_path_to_str_Ok tab_ok_def split: outcome.split)

lemma kv_sql_write_ok:
  assumes L: "kv_laws lk D tab" and t: "tab w = t"
  shows "tab_ok tab t (\<lambda>n t'. n = length data \<and> (\<exists>r d. t (abs_path p) = Some r \<and> \<not> kr_is_dir r \<and> kv_write_data (kr_data r) data offset flags = Ok d \<and>
      t' = t(abs_path p \<mapsto> r\<lparr>kr_data := d\<rparr>))) (kv_sql_write D p data offset flags now w)"
  unfolding kv_sql_write_def
  by (rule tab_ok_try, rule t, rule kv_row_ok, rule L, rule t, simp only: prod.case, rule tab_ok_try, assumption, rule kv_exec_ok, rule L, assumption, rule tab_ok_Ok)
    (simp add: kv_path_to_str_Ok)

lemma kv_sql_remove_ok:
  assumes L: "kv_laws lk D tab" and t: "tab w = t"
  shows "tab_ok tab t (\<lambda>_ t'. t (abs_path p) \<noteq> None \<and> t' = t(abs_path p := None)) (kv_sql_remove D p now w)"
  unfolding kv_sql_remove_def
  by (rule tab_ok_try, rule t, rule kv_exec_ok, rule L, rule t) (auto simp: kv_path_to_str_Ok tab_ok_def)

lemma kv_sql_remove_all_ok:
  assumes L: "kv_laws lk D tab" and t: "tab w = t"
  shows "tab_ok tab t (\<lambda>_ t'. t' = (\<lambda>q. if q = abs_path p \<or> lk (trim_end_char slash (abs_path p) @ ''/%'') q then None else t q)) (kv_sql_remove_all D p now w)"
  unfolding kv_sql_remove_all_def
  by (rule tab_ok_try, rule t, rule kv_exec_ok, rule L, rule t) (auto simp: kv_path_to_str_Ok tab_ok_def)

lemma kv_sql_rename_ok:
  assumes L: "kv_laws lk D tab" and t: "tab w = t"
  shows "tab_ok tab t (\<lambda>_ t'. t (abs_path p) \<noteq> None \<and> t (abs_path q) = None \<and> t' = (t(abs_path p := None))(abs_path q := t (abs_path p))) (kv_sql_rename D p q now w)"
  unfolding kv_sql_rename_def
proof (rule tab_ok_try, rule t, rule tab_ok_try, rule t, rule tab_ok_call)
  fix k l n w'
  assume k: "kv_path_to_str p = Ok k" "kv_path_to_str q = Ok l" and n: "kd_count D l w = (Inr n, w')"
  have w': "tab w' = t" and l: "n = 0 \<longleftrightarrow> t l = None" using kv_lawsD(5,6) [OF L n] t by simp_all
  have "tab_ok tab t (\<lambda>_ t'. t (abs_path p) \<noteq> None \<and> t (abs_path q) = None \<and> t' = (t(abs_path p := None))(abs_path q := t (abs_path p)))
      (call_then g (kd_execute D (KV_Set_Path l k)) (\<lambda>changed w. (if changed = 0 then Err (NotFound p) else Ok (), w)) w')" if "n = 0" for g
    by (rule kv_exec_ok [OF L w']) (use that k l in \<open>auto simp: kv_path_to_str_Ok tab_ok_def split: if_splits\<close>)
  then show "tab_ok tab t (\<lambda>_ t'. t (abs_path p) \<noteq> None \<and> t (abs_path q) = None \<and> t' = (t(abs_path p := None))(abs_path q := t (abs_path p)))
      ((if n \<noteq> 0 then Pair (Err (AlreadyExists q)) else call_then (sql_io ''Failed to rename'') (kd_execute D (KV_Set_Path l k))
         (\<lambda>changed w. (if changed = 0 then Err (NotFound p) else Ok (), w))) w')"
    using w' by (simp add: tab_ok_Err)
qed (use kv_lawsD(5) [OF L] t in blast)

lemma kv_sql_chmod_ok:
  assumes L: "kv_laws lk D tab" and t: "tab w = t"
  shows "tab_ok tab t (\<lambda>_ t'. \<exists>r. t (abs_path p) = Some r \<and> t' = t(abs_path p \<mapsto> r\<lparr>kr_mode := (kr_mode r AND S_IFMT) OR (m AND 0x1FF)\<rparr>)) (kv_sql_chmod D p m now w)"
  unfolding kv_sql_chmod_def
  by (rule tab_ok_try, rule t, rule kv_row_ok, rule L, rule t, simp only: prod.case, rule kv_exec_ok, rule L, assumption, rule tab_ok_Ok)
    (simp add: kv_path_to_str_Ok)

subsection \<open>Listings\<close>

lemma kv_dir_prefix_eq: "kv_dir_prefix k = trim_end_char slash k @ ''/''"
  by (simp add: kv_dir_prefix_def trim_end_char_def)

definition child_of :: "string \<Rightarrow> string \<Rightarrow> bool" where
  "child_of d q \<longleftrightarrow> (\<exists>name. q = d @ ''/'' @ name \<and> slash \<notin> set name)"

lemma kv_rows_all: "kv_rows pre xs = Ok es \<Longrightarrow> \<exists>rows. xs = map Inr rows"
proof (induction pre xs arbitrary: es rule: kv_rows.induct)
  case (3 pre q r xs)
  then obtain rows where "xs = map Inr rows" by (auto simp: Let_def outcome_simps)
  then show ?case by (intro exI [of _ "(q, r) # rows"]) simp
qed simp_all

lemma kv_rows_children:
  "\<forall>(q, r) \<in> set rows. slash \<in> set q \<Longrightarrow> kv_rows (d @ ''/'') (map Inr rows) = Ok (map kv_row_metadata (filter (\<lambda>(q, r). child_of d q) rows))"
proof (induction rows)
  case (Cons x rows)
  obtain q r where x: "x = (q, r)" by (cases x)
  have "child_of d q \<longleftrightarrow> slash \<notin> set (if starts_with q (d @ ''/'') then drop (length (d @ ''/'')) q else q)"
    using Cons.prems x by (auto simp: child_of_def starts_with_iff)
  then show ?case using Cons by (simp add: x Let_def)
qed simp

lemma kv_sql_read_dir_ok:
  assumes L: "kv_laws sqlite_like D tab" and t: "tab w = t" and plain: "plain (trim_end_char slash (abs_path p))" and keys: "\<forall>q \<in> dom t. slash \<in> set q"
  shows "tab_ok tab t (\<lambda>es t'. t' = t \<and> (\<exists>rows. es = map kv_row_metadata rows \<and> distinct (map fst rows) \<and>
      set rows = {(q, r). t q = Some r \<and> q \<noteq> abs_path p \<and> child_of (trim_end_char slash (abs_path p)) q})) (kv_sql_read_dir D p now w)"
    (is "tab_ok tab t ?Q _")
  unfolding kv_sql_read_dir_def
proof (rule tab_ok_try, rule t, rule tab_ok_call)
  fix k u w1
  assume k: "kv_path_to_str p = Ok k" and "kd_prepare D w = (Inr u, w1)"
  then have w1: "tab w1 = t" and ke: "k = abs_path p" using kv_lawsD(7) [OF L] t by (auto simp: kv_path_to_str_Ok)
  let ?d = "trim_end_char slash k"
  show "tab_ok tab t ?Q (call_then (sql_io ''Failed to read_dir'') (kd_iterate D (kv_dir_prefix k @ ''%'') k) (\<lambda>rows w. (kv_rows (kv_dir_prefix k) rows, w)) w1)"
  proof (rule tab_ok_call)
    fix xs w2
    assume x: "kd_iterate D (kv_dir_prefix k @ ''%'') k w1 = (Inr xs, w2)"
    then have w2: "tab w2 = t" using kv_lawsD(8) [OF L] w1 by metis
    have "?Q es t" if es: "kv_rows (kv_dir_prefix k) xs = Ok es" for es
    proof -
      obtain rows where rows: "xs = map Inr rows" using kv_rows_all [OF es] by blast
      have all: "distinct (map fst rows)" "set rows = {(q, r). t q = Some r \<and> sqlite_like (?d @ ''/%'') q \<and> q \<noteq> k}"
        using kv_lawsD(9) [OF L x [unfolded rows]] w1 by (simp_all add: kv_dir_prefix_eq)
      then have "es = map kv_row_metadata (filter (\<lambda>(q, r). child_of ?d q) rows)"
        using es keys kv_rows_children [of rows ?d] by (auto simp: rows kv_dir_prefix_eq)
      moreover have "sqlite_like (?d @ ''/%'') q" if "child_of ?d q" for q
        using sqlite_like_below [OF plain] that by (auto simp: child_of_def ke)
      then have "set (filter (\<lambda>(q, r). child_of ?d q) rows) = {(q, r). t q = Some r \<and> q \<noteq> abs_path p \<and> child_of (trim_end_char slash (abs_path p)) q}"
        using all(2) by (auto simp: ke)
      ultimately show ?thesis using all(1) by (auto intro!: exI [of _ "filter (\<lambda>(q, r). child_of ?d q) rows"] distinct_map_filter)
    qed
    then show "tab_ok tab t ?Q (kv_rows (kv_dir_prefix k) xs, w2)" by (simp add: tab_ok_def w2 split: outcome.split)
  qed (use kv_lawsD(8) [OF L] w1 in blast)
qed (use kv_lawsD(7) [OF L] t in blast)


subsection \<open>A database in memory\<close>

definition memory_kv_step :: "kv_stmt \<Rightarrow> (string \<times> kv_row) list \<Rightarrow> (string + nat) \<times> (string \<times> kv_row) list" where
  "memory_kv_step st w =
     (let n = (\<lambda>k. if map_of w k = None then 0 else 1); upd = (\<lambda>k f. (Inr (n k), map (\<lambda>(q, r). (q, if q = k then f r else r)) w))
      in case st of
           KV_Create_Table \<Rightarrow> (Inr 0, w)
         | KV_Insert k r \<Rightarrow> if map_of w k = None then (Inr 1, (k, r) # w) else (Inl ''UNIQUE constraint failed: kvfs.path'', w)
         | KV_Insert_Or_Ignore k r \<Rightarrow> if map_of w k = None then (Inr 1, (k, r) # w) else (Inr 0, w)
         | KV_Delete k \<Rightarrow> (Inr (n k), filter (\<lambda>(q, _). q \<noteq> k) w)
         | KV_Delete_Tree k pat \<Rightarrow> (Inr 0, filter (\<lambda>(q, _). \<not> (q = k \<or> sqlite_like pat q)) w)
         | KV_Set_Data d k \<Rightarrow> upd k (\<lambda>r. r\<lparr>kr_data := d\<rparr>)
         | KV_Set_Mode m k \<Rightarrow> upd k (\<lambda>r. r\<lparr>kr_mode := m\<rparr>)
         | KV_Set_Path new old \<Rightarrow>
             (case map_of w old of None \<Rightarrow> (Inr 0, w)
              | Some r \<Rightarrow> if new = old \<or> map_of w new = None then (Inr 1, (new, r) # filter (\<lambda>(q, _). q \<noteq> old) w) else (Inl ''UNIQUE constraint failed: kvfs.path'', w)))"

definition memory_kv :: "(string \<times> kv_row) list kv_db" where
  "memory_kv = \<lparr>kd_open = \<lambda>_. Pair (Inr ()), kd_execute = memory_kv_step,
     kd_query_row = \<lambda>files k w. (case map_of w k of Some r \<Rightarrow> if files \<and> kr_is_dir r then Inl ''Query returned no rows'' else Inr (k, r) | None \<Rightarrow> Inl ''Query returned no rows'', w),
     kd_count = \<lambda>k w. (Inr (if map_of w k = None then 0 else 1), w), kd_prepare = Pair (Inr ()),
     kd_iterate = \<lambda>pat k w. (Inr (map (\<lambda>q. Inr (q, the (map_of w q))) (filter (\<lambda>q. sqlite_like pat q \<and> q \<noteq> k) (remdups (map fst w)))), w)\<rparr>"

lemma map_of_update_path: "map_of (map (\<lambda>(q, r). (q, if q = k then f r else r)) w) = (map_of w)(k := map_option f (map_of w k))"
  by (induction w) (auto simp: fun_eq_iff)

lemma memory_kv_execute:
  "memory_kv_step st w = (x, w') \<Longrightarrow> case x of Inl _ \<Rightarrow> map_of w' = map_of w | Inr n \<Rightarrow> kv_step sqlite_like st n (map_of w) (map_of w')"
  by (cases st) (auto simp: memory_kv_step_def Let_def map_of_update_path map_of_filter_path fun_eq_iff split: if_splits option.splits)

lemma memory_kv_iterate:
  assumes "map (\<lambda>q. Inr (q, the (map_of w q))) (filter (\<lambda>q. P q) (remdups (map fst w))) = map Inr rows"
  shows "distinct (map fst rows) \<and> set rows = {(q, r). map_of w q = Some r \<and> P q}"
proof -
  have rows: "rows = map (\<lambda>q. (q, the (map_of w q))) (filter P (remdups (map fst w)))"
    using arg_cong [OF assms, of "map projr"] by (simp add: comp_def)
  have "q \<in> fst ` set w \<longleftrightarrow> (\<exists>r. map_of w q = Some r)" for q by (metis map_of_eq_None_iff not_None_eq)
  then show ?thesis by (auto simp: rows comp_def)
qed

lemma memory_kv_laws: "kv_laws sqlite_like memory_kv map_of"
  unfolding kv_laws_def memory_kv_def kv_db.simps
proof (intro conjI allI impI)
  fix st w x w' assume "memory_kv_step st w = (x, w')"
  then show "case x of Inl _ \<Rightarrow> map_of w' = map_of w | Inr n \<Rightarrow> kv_step sqlite_like st n (map_of w) (map_of w')" by (rule memory_kv_execute)
qed (auto split: option.splits if_splits dest: memory_kv_iterate)

definition sample_kv :: "(string \<times> kv_row) list" where
  "sample_kv = map (\<lambda>(k, dir, d). (k, \<lparr>kr_data = d, kr_is_dir = dir, kr_mode = (if dir then S_IFDIR else S_IFREG)\<rparr>))
     [(''/'', True, []), (''/d'', True, []), (''/d/f'', False, ''hello''), (''/dx'', False, [])]"


text \<open>
  Creating a path that exists is an input/output error here and \<open>AlreadyExists\<close> in memory; renaming a directory leaves its children under the old path.
\<close>

lemma kv_sqlite_create_existing:
  "fst (kv_sql_create memory_kv ''/dx'' 0 sample_kv) = Err (Io ''Failed to create: UNIQUE constraint failed: kvfs.path'')"
  by code_simp

lemma kv_sqlite_rename_orphans:
  "map fst (snd (kv_sql_rename memory_kv ''/d'' ''/e'' 0 sample_kv)) = [''/e'', ''/'', ''/d/f'', ''/dx'']"
  by code_simp

end
