(* ===== verification/Fuse_Mount.thy ===== *)
theory Fuse_Mount
  imports Blocking_Adapter
begin

text \<open>
  Mounting (\<open>racfs-fuse/src/lib.rs\<close>, \<open>racfs-fuse/src/error.rs\<close>): the front end is built and handed to the crate \<open>fuser\<close>, whose session runs until the file system is
  unmounted. \<open>fuser\<close> and the runtime of \<open>tokio\<close> are parameters.
\<close>

datatype FuseError =
    FE_MountFailed string string
  | FE_Client ClientError
  | FE_InvalidPath string
  | FE_InodeNotFound nat
  | FE_Io string

fun fuse_error_display :: "FuseError \<Rightarrow> string" where
  "fuse_error_display (FE_MountFailed p m) = ''Failed to mount at '' @ p @ '': '' @ m"
| "fuse_error_display (FE_Client e) = ''Client error: '' @ client_error_display e"
| "fuse_error_display (FE_InvalidPath p) = ''Invalid path: '' @ p"
| "fuse_error_display (FE_InodeNotFound i) = ''Inode not found: '' @ dec i"
| "fuse_error_display (FE_Io e) = ''IO error: '' @ e"

datatype mount_option = FSName string | AutoUnmount | RO

text \<open>What the host offers: starting a runtime, and the session of a file system at a mount point with options.\<close>

record ('fs, 'w) fuse_host =
  fh_runtime :: "'w \<Rightarrow> (string + unit) \<times> 'w"
  fh_mount2 :: "'fs \<Rightarrow> path \<Rightarrow> mount_option list \<Rightarrow> 'w \<Rightarrow> (unit, string) outcome \<times> 'w"

definition mount_failed :: "path \<Rightarrow> (unit, string) outcome \<Rightarrow> (unit, FuseError) outcome" where
  "mount_failed p r = (case r of Ok _ \<Rightarrow> Ok () | Err m \<Rightarrow> Err (FE_MountFailed (from_utf8_lossy p) m) | Panic \<Rightarrow> Panic | Hang \<Rightarrow> Hang)"

definition fuse_mount :: "('a, 'b, 'c, 'd, 'e, 'f, 'w) fuse_params \<Rightarrow> (('a, 'b, 'c, 'd, 'e, 'f) BlockingAdapter, 'w) fuse_host \<Rightarrow> string \<Rightarrow> path \<Rightarrow> 'w \<Rightarrow>
    (unit, FuseError) outcome \<times> 'w" where
  "fuse_mount P H server_url mount_point w =
     (case fh_runtime H w of
        (Inl e, w1) \<Rightarrow> (Err (FE_Io e), w1)
      | (Inr _, w1) \<Rightarrow> apfst (mount_failed mount_point) (fh_mount2 H (adapter_new P server_url) mount_point [FSName ''racfs'', AutoUnmount] w1))"

definition fuse_mount_async :: "('a, 'b, 'c, 'd, 'e, 'f, 'w) fuse_params \<Rightarrow> (('a, 'b, 'c, 'd, 'e, 'f) RacfsAsyncFs, 'w) fuse_host \<Rightarrow> string \<Rightarrow> path \<Rightarrow> 'w \<Rightarrow>
    (unit, FuseError) outcome \<times> 'w" where
  "fuse_mount_async P H server_url mount_point w =
     apfst (mount_failed mount_point) (fh_mount2 H (async_fs_new P server_url) mount_point [FSName ''racfs'', AutoUnmount, RO] w)"

text \<open>
  \<open>mount_multi\<close> runs one thread for each mount and joins them in the order of the list; \<open>thread i url p\<close> is what the call of \<open>mount\<close> in the i-th thread returns. A
  thread that never ends keeps the call from returning.
\<close>

fun join_mounts :: "(path \<times> (unit, FuseError) outcome) list \<Rightarrow> (unit, FuseError) outcome \<Rightarrow> (unit, FuseError) outcome" where
  "join_mounts [] first_error = first_error"
| "join_mounts ((p, r) # threads) first_error =
     (case r of
        Ok _ \<Rightarrow> join_mounts threads first_error
      | Err e \<Rightarrow> join_mounts threads (if is_ok first_error then Err e else first_error)
      | Panic \<Rightarrow> join_mounts threads (if is_ok first_error then Err (FE_MountFailed (from_utf8_lossy p) ''mount thread panicked'') else first_error)
      | Hang \<Rightarrow> Hang)"

definition mount_multi :: "(nat \<Rightarrow> string \<Rightarrow> path \<Rightarrow> (unit, FuseError) outcome) \<Rightarrow> (string \<times> path) list \<Rightarrow> (unit, FuseError) outcome" where
  "mount_multi thread mounts =
     (if mounts = [] then Ok () else join_mounts (map (\<lambda>(i, url, p). (p, thread i url p)) (enumerate 0 mounts)) (Ok ()))"

lemma join_keeps_error: "\<forall>(p, r) \<in> set threads. r \<noteq> Hang \<Longrightarrow> join_mounts threads (Err e) = Err e"
  by (induction threads) (auto split: outcome.split)

text \<open>All threads are waited for, and the first failure in the order of the mounts is reported.\<close>

lemma join_mounts_first:
  assumes "\<forall>(p, r) \<in> set threads. r \<noteq> Hang"
  shows "join_mounts threads (Ok ()) =
    (case find (\<lambda>(p, r). \<not> is_ok r) threads of
       None \<Rightarrow> Ok ()
     | Some (p, Err e) \<Rightarrow> Err e
     | Some (p, _) \<Rightarrow> Err (FE_MountFailed (from_utf8_lossy p) ''mount thread panicked''))"
  using assms
proof (induction threads)
  case (Cons x threads)
  obtain p r where x: "x = (p, r)" by (cases x)
  show ?case
  proof (cases r)
    case (Ok u)
    then show ?thesis using Cons by (simp add: x)
  qed (use Cons in \<open>simp_all add: x join_keeps_error\<close>)
qed simp

lemma mount_multi_ok: "(\<And>i url p. is_ok (thread i url p)) \<Longrightarrow> mount_multi thread mounts = Ok ()"
proof -
  assume ok: "\<And>i url p. is_ok (thread i url p)"
  then have "r \<noteq> Hang" "is_ok r" if "(p, r) \<in> set (map (\<lambda>(i, url, p). (p, thread i url p)) (enumerate 0 mounts))" for p r
    using that by (auto simp: is_ok_iff)
  then have "find (\<lambda>(p, r). \<not> is_ok r) (map (\<lambda>(i, url, p). (p, thread i url p)) (enumerate 0 mounts)) = None"
    and "\<forall>(p, r) \<in> set (map (\<lambda>(i, url, p). (p, thread i url p)) (enumerate 0 mounts)). r \<noteq> Hang"
    unfolding find_None_iff by (auto simp del: set_map)
  then show ?thesis by (simp add: mount_multi_def join_mounts_first)
qed

end
