(* ===== verification/Cli.thy ===== *)
theory Cli
  imports Fuse_Mount Fuse_Stack Kv_FS "HOL-Library.Multiset"
begin

text \<open>
  The command line client (\<open>racfs-cli/src/main.rs\<close>): its commands as calls of the client, and what they print. The parser of the arguments is the crate \<open>clap\<close>'s, and the
  progress bar of a copy is drawn by \<open>indicatif\<close> on the standard error; neither is modelled. Standard output is part of the state.
\<close>

subsection \<open>Printing and calls\<close>

record 'w cli =
  cli_out :: string
  cli_client :: Client
  cli_world :: 'w

type_synonym ('w, 'a) cli_op = "'w cli \<Rightarrow> ('a, string) outcome \<times> 'w cli"

definition newline :: char where "newline = CHR 0x0A"

definition print :: "string \<Rightarrow> 'w cli \<Rightarrow> 'w cli" where
  "print t s = s\<lparr>cli_out := cli_out s @ t\<rparr>"

definition println :: "string \<Rightarrow> 'w cli \<Rightarrow> 'w cli" where
  "println t = print (t @ [newline])"

text \<open>A call of the client; its error is boxed and later displayed.\<close>

definition cli_call :: "('w, 'a) client_op \<Rightarrow> ('a \<Rightarrow> ('w, 'b) cli_op) \<Rightarrow> ('w, 'b) cli_op" where
  "cli_call call k s =
     (let (r, c, w) = call (cli_client s) (cli_world s); s' = s\<lparr>cli_client := c, cli_world := w\<rparr>
      in case r of Ok a \<Rightarrow> k a s' | Err e \<Rightarrow> (Err (client_error_display e), s') | Panic \<Rightarrow> (Panic, s') | Hang \<Rightarrow> (Hang, s'))"

definition cli_message :: "('w, string) client_op \<Rightarrow> ('w, unit) cli_op" where
  "cli_message call = cli_call call (\<lambda>m s. (Ok (), println m s))"

text \<open>The format \<open>{:>10}\<close>.\<close>

definition right10 :: "string \<Rightarrow> string" where
  "right10 t = replicate (10 - length t) CHR '' '' @ t"

definition or_unknown :: "string option \<Rightarrow> string" where
  "or_unknown m = (case m of Some t \<Rightarrow> t | None \<Rightarrow> ''unknown'')"

subsection \<open>Commands\<close>

datatype Commands =
    Ls string
  | Cat string
  | Write string string
  | Mkdir string
  | Rm string
  | Rmdir string
  | Stat string
  | Mv string string
  | Cp string string
  | Tree string
  | Mount string
  | Chmod string mode
  | Health
  | Capabilities

definition cli_ls :: "'w net_api \<Rightarrow> string \<Rightarrow> ('w, unit) cli_op" where
  "cli_ls N path = cli_call (client_read_dir N path) (\<lambda>entries s.
     (Ok (), fold (\<lambda>e. println (cde_permissions e @ '' '' @ right10 (dec (cde_size e)) @ '' '' @ or_unknown (cde_modified e) @ '' '' @ cde_path e)) entries s))"

definition cli_cat :: "'w net_api \<Rightarrow> string \<Rightarrow> ('w, unit) cli_op" where
  "cli_cat N path = cli_call (client_read_file N path) (\<lambda>content s. (Ok (), print content s))"

definition cli_write_file :: "'w net_api \<Rightarrow> string \<Rightarrow> string \<Rightarrow> ('w, unit) cli_op" where
  "cli_write_file N path data = cli_message (client_write_file N path data None)"

definition cli_mkdir :: "'w net_api \<Rightarrow> string \<Rightarrow> ('w, unit) cli_op" where
  "cli_mkdir N path = cli_message (client_mkdir N path None)"

definition cli_rm :: "'w net_api \<Rightarrow> string \<Rightarrow> ('w, unit) cli_op" where
  "cli_rm N path = cli_message (client_remove N path)"

definition cli_rmdir :: "'w net_api \<Rightarrow> string \<Rightarrow> ('w, unit) cli_op" where
  "cli_rmdir N path = cli_message (client_remove N path)"

definition cli_stat :: "'w net_api \<Rightarrow> string \<Rightarrow> ('w, unit) cli_op" where
  "cli_stat N path = cli_call (client_stat N path) (\<lambda>m s.
     (Ok (), fold println [''Type: '' @ fmr_file_type m, ''Permissions: '' @ fmr_permissions m, ''Size: '' @ dec (fmr_size m),
        ''Modified: '' @ or_unknown (fmr_modified m), ''Path: '' @ fmr_path m] s))"

definition cli_mv :: "'w net_api \<Rightarrow> string \<Rightarrow> string \<Rightarrow> ('w, unit) cli_op" where
  "cli_mv N source dest = cli_message (client_rename N source dest)"

definition CP_PROGRESS_THRESHOLD :: nat where "CP_PROGRESS_THRESHOLD = 64 * 1024"

definition cli_cp :: "'w net_api \<Rightarrow> string \<Rightarrow> string \<Rightarrow> ('w, unit) cli_op" where
  "cli_cp N source dest =
     cli_call (client_stat N source) (\<lambda>meta.
     cli_call (client_read_file N source) (\<lambda>content.
     cli_call (client_create_file N dest) (\<lambda>_.
     cli_call (client_write_file N dest content None) (\<lambda>_ s.
       (Ok (), if fmr_size meta \<ge> CP_PROGRESS_THRESHOLD then s
               else println (''Copied '' @ source @ '' to '' @ dest @ '' ('' @ dec (fmr_size meta) @ '' bytes)'') s)))))"

definition cli_chmod :: "'w net_api \<Rightarrow> string \<Rightarrow> mode \<Rightarrow> ('w, unit) cli_op" where
  "cli_chmod N path mode = cli_message (client_chmod N path mode)"

definition cli_health :: "'w net_api \<Rightarrow> ('w, unit) cli_op" where
  "cli_health N = cli_call (client_health N) (\<lambda>h s. (Ok (), println (''Version: '' @ hr_version h) (println (''Status: '' @ hr_status h) s)))"

definition cli_capabilities :: "'w net_api \<Rightarrow> ('w, unit) cli_op" where
  "cli_capabilities N = cli_call (client_capabilities N) (\<lambda>c s.
     (Ok (), println (''Max file size: '' @ dec (ca_max_file_size c) @ '' bytes'')
        (fold (\<lambda>f. println (''  - '' @ f)) (ca_features c) (println ''Features:'' s))))"

subsection \<open>The tree\<close>

definition last_segment :: "string \<Rightarrow> string" where
  "last_segment s = rev (takeWhile (\<lambda>c. c \<noteq> slash) (rev s))"

definition entry_name :: "ClientDirectoryEntry \<Rightarrow> string" where
  "entry_name e = last_segment (trim_end_char slash (cde_path e))"

text \<open>The branches in box-drawing characters, in UTF-8.\<close>

definition dash :: string where "dash = [CHR 0xE2, CHR 0x94, CHR 0x80]"
definition last_branch :: string where "last_branch = [CHR 0xE2, CHR 0x94, CHR 0x94] @ dash @ dash @ '' ''"
definition inner_branch :: string where "inner_branch = [CHR 0xE2, CHR 0x94, CHR 0x9C] @ dash @ dash @ '' ''"
definition inner_prefix :: string where "inner_prefix = [CHR 0xE2, CHR 0x94, CHR 0x82] @ ''   ''"

definition subpath :: "string \<Rightarrow> string \<Rightarrow> string" where
  "subpath path name =
     (if ends_with path ''/'' then path @ name else if path = ''/'' then ''/'' @ name else path @ ''/'' @ name)"

text \<open>The loop over the entries of a directory; an entry whose metadata cannot be read is printed and skipped.\<close>

fun tree_entries :: "'w net_api \<Rightarrow> string \<Rightarrow> string \<Rightarrow> ClientDirectoryEntry list \<Rightarrow> ('w, (string \<times> string) list) cli_op" where
  "tree_entries N prefix path [] s = (Ok [], s)"
| "tree_entries N prefix path (e # es) s =
     (let (branch, next_prefix) = (if es = [] then (last_branch, ''    '') else (inner_branch, inner_prefix));
          s1 = println (prefix @ branch @ entry_name e) s;
          (r, c, w) = client_stat N (trim_end_char slash (cde_path e)) (cli_client s1) (cli_world s1);
          s2 = s1\<lparr>cli_client := c, cli_world := w\<rparr>
      in case r of
           Ok m \<Rightarrow>
             (case tree_entries N prefix path es s2 of
                (Ok dirs, s3) \<Rightarrow> (Ok (if fmr_file_type m = ''directory'' then (prefix @ next_prefix, subpath path (entry_name e)) # dirs else dirs), s3)
              | x \<Rightarrow> x)
         | Err _ \<Rightarrow> tree_entries N prefix path es s2
         | Panic \<Rightarrow> (Panic, s2)
         | Hang \<Rightarrow> (Hang, s2))"

definition tree_level :: "'w net_api \<Rightarrow> string \<Rightarrow> string \<Rightarrow> ('w, (string \<times> string) list) cli_op" where
  "tree_level N prefix path =
     cli_call (client_read_dir N path) (\<lambda>entries.
       tree_entries N prefix path (filter (\<lambda>e. entry_name e \<noteq> ''.'' \<and> entry_name e \<noteq> ''..'') entries))"

text \<open>The stack with its top first. The loop may run forever; then its value is \<open>None\<close>.\<close>

partial_function (option) tree_loop :: "'w net_api \<Rightarrow> (string \<times> string) list \<Rightarrow> 'w cli \<Rightarrow> ((unit, string) outcome \<times> 'w cli) option" where
  "tree_loop N stack s =
     (case stack of
        [] \<Rightarrow> Some (Ok (), s)
      | item # rest \<Rightarrow>
          (case tree_level N (fst item) (snd item) s of (r, s') \<Rightarrow>
             (case r of Ok dirs \<Rightarrow> tree_loop N (dirs @ rest) s' | Err e \<Rightarrow> Some (Err e, s') | Panic \<Rightarrow> Some (Panic, s') | Hang \<Rightarrow> Some (Hang, s'))))"

declare tree_loop.simps [code]

definition cli_tree :: "'w net_api \<Rightarrow> string \<Rightarrow> 'w cli \<Rightarrow> ((unit, string) outcome \<times> 'w cli) option" where
  "cli_tree N path s = tree_loop N [([], path)] (println path s)"

subsection \<open>Mounting and the dispatch\<close>

text \<open>\<open>join_error\<close> is the text for a mount that panicked.\<close>

definition cli_mount :: "string \<Rightarrow> ('a, 'b, 'c, 'd, 'e, 'f, 'w) fuse_params \<Rightarrow> (('a, 'b, 'c, 'd, 'e, 'f) BlockingAdapter, 'w) fuse_host \<Rightarrow> string \<Rightarrow> string \<Rightarrow>
    ('w, unit) cli_op" where
  "cli_mount join_error P H server path s =
     (let s1 = println (''Unmount with: fusermount -u '' @ path @ ''  (Linux)  or  umount '' @ path @ ''  (macOS)'')
                 (println (''Mounting '' @ server @ '' at '' @ path) s);
          (r, w) = fuse_mount P H server path (cli_world s1)
      in (case r of Ok _ \<Rightarrow> Ok () | Err e \<Rightarrow> Err (fuse_error_display e) | Panic \<Rightarrow> Err join_error | Hang \<Rightarrow> Hang, s1\<lparr>cli_world := w\<rparr>))"

definition cli_dispatch :: "string \<Rightarrow> ('a, 'b, 'c, 'd, 'e, 'f, 'w) fuse_params \<Rightarrow> (('a, 'b, 'c, 'd, 'e, 'f) BlockingAdapter, 'w) fuse_host \<Rightarrow> 'w net_api \<Rightarrow> string \<Rightarrow>
    Commands \<Rightarrow> 'w cli \<Rightarrow> ((unit, string) outcome \<times> 'w cli) option" where
  "cli_dispatch join_error P H N server cmd s =
     (case cmd of
        Ls path \<Rightarrow> Some (cli_ls N path s)
      | Cat path \<Rightarrow> Some (cli_cat N path s)
      | Write path data \<Rightarrow> Some (cli_write_file N path data s)
      | Mkdir path \<Rightarrow> Some (cli_mkdir N path s)
      | Rm path \<Rightarrow> Some (cli_rm N path s)
      | Rmdir path \<Rightarrow> Some (cli_rmdir N path s)
      | Stat path \<Rightarrow> Some (cli_stat N path s)
      | Mv source dest \<Rightarrow> Some (cli_mv N source dest s)
      | Cp source dest \<Rightarrow> Some (cli_cp N source dest s)
      | Tree path \<Rightarrow> cli_tree N path s
      | Mount path \<Rightarrow> Some (cli_mount join_error P H server path s)
      | Chmod path mode \<Rightarrow> Some (cli_chmod N path mode s)
      | Health \<Rightarrow> Some (cli_health N s)
      | Capabilities \<Rightarrow> Some (cli_capabilities N s))"

text \<open>The exit status, what was printed, and the message on the standard error.\<close>

definition cli_main :: "string \<Rightarrow> ('a, 'b, 'c, 'd, 'e, 'f, 'w) fuse_params \<Rightarrow> (('a, 'b, 'c, 'd, 'e, 'f) BlockingAdapter, 'w) fuse_host \<Rightarrow> 'w net_api \<Rightarrow> string \<Rightarrow>
    Commands \<Rightarrow> 'w \<Rightarrow> ((nat \<times> string \<times> string, unit) outcome \<times> 'w) option" where
  "cli_main join_error P H N server cmd w =
     map_option (\<lambda>(r, s).
       (case r of
          Ok _ \<Rightarrow> Ok (0, cli_out s, [])
        | Err e \<Rightarrow> Ok (1, cli_out s, ''Error: '' @ e @ [newline])
        | Panic \<Rightarrow> Panic
        | Hang \<Rightarrow> Hang, cli_world s))
     (cli_dispatch join_error P H N server cmd \<lparr>cli_out = [], cli_client = client_new server, cli_world = w\<rparr>)"

subsection \<open>The tree ends\<close>

lemma subpath_longer: "name \<noteq> [] \<Longrightarrow> length path < length (subpath path name)"
  by (simp add: subpath_def)

lemma entry_name_empty:
  assumes "entry_name e = []"
  shows "trim_end_char slash (cde_path e) = []"
proof (rule ccontr)
  assume "trim_end_char slash (cde_path e) \<noteq> []"
  then have ne: "dropWhile (\<lambda>x. x = slash) (rev (cde_path e)) \<noteq> []" by (simp add: trim_end_char_def)
  then have "hd (dropWhile (\<lambda>x. x = slash) (rev (cde_path e))) \<noteq> slash" by (rule hd_dropWhile)
  with ne assms show False by (cases "dropWhile (\<lambda>x. x = slash) (rev (cde_path e))") (auto simp: entry_name_def last_segment_def trim_end_char_def)
qed

text \<open>What the loop over the entries finds are entries whose metadata say that they are directories.\<close>

definition says_directory :: "'w net_api \<Rightarrow> string \<Rightarrow> bool" where
  "says_directory N p \<longleftrightarrow> (\<exists>c w m c' w'. client_stat N p c w = (Ok m, c', w') \<and> fmr_file_type m = ''directory'')"

lemma tree_entries_found:
  "tree_entries N prefix path es s = (Ok dirs, s') \<Longrightarrow> d \<in> set dirs \<Longrightarrow>
    \<exists>e \<in> set es. snd d = subpath path (entry_name e) \<and> says_directory N (trim_end_char slash (cde_path e))"
proof (induction es arbitrary: s dirs)
  case (Cons e es)
  define s1 where "s1 = println (prefix @ (if es = [] then last_branch else inner_branch) @ entry_name e) s"
  obtain r c w where st: "client_stat N (trim_end_char slash (cde_path e)) (cli_client s1) (cli_world s1) = (r, c, w)" by (metis prod.exhaust)
  define s2 where "s2 = s1\<lparr>cli_client := c, cli_world := w\<rparr>"
  have "tree_entries N prefix path (e # es) s =
      (case r of Ok m \<Rightarrow> (case tree_entries N prefix path es s2 of
           (Ok dirs, s3) \<Rightarrow> (Ok (if fmr_file_type m = ''directory'' then (prefix @ (if es = [] then ''    '' else inner_prefix), subpath path (entry_name e)) # dirs else dirs), s3)
         | x \<Rightarrow> x)
       | Err _ \<Rightarrow> tree_entries N prefix path es s2 | Panic \<Rightarrow> (Panic, s2) | Hang \<Rightarrow> (Hang, s2))"
    using st unfolding s2_def s1_def by (cases es; cases r) (simp_all add: Let_def)
  note found = Cons.prems(1) [unfolded this]
  show ?case
  proof (cases r)
    case (Ok m)
    then obtain ds where ds: "tree_entries N prefix path es s2 = (Ok ds, s')"
      and dirs: "dirs = (if fmr_file_type m = ''directory'' then (prefix @ (if es = [] then ''    '' else inner_prefix), subpath path (entry_name e)) # ds else ds)"
      using found by (auto split: prod.splits outcome.splits)
    have "says_directory N (trim_end_char slash (cde_path e))" if "fmr_file_type m = ''directory''"
      using st Ok that unfolding says_directory_def by blast
    then show ?thesis using Cons.prems(2) Cons.IH [OF ds] by (auto simp: dirs split: if_splits)
  qed (use Cons.IH [of s2] Cons.prems(2) found in auto)
qed simp

lemma tree_level_found:
  assumes "tree_level N prefix path s = (Ok dirs, s')" "d \<in> set dirs"
  shows "\<exists>es c w c' w' e. client_read_dir N path c w = (Ok es, c', w') \<and> e \<in> set es \<and> snd d = subpath path (entry_name e) \<and>
    says_directory N (trim_end_char slash (cde_path e))"
proof -
  obtain r c w where r: "client_read_dir N path (cli_client s) (cli_world s) = (r, c, w)" by (metis prod.exhaust)
  with assms(1) obtain es where es: "r = Ok es" by (cases r) (auto simp: tree_level_def cli_call_def)
  with r assms(1) have "tree_entries N prefix path (filter (\<lambda>e. entry_name e \<noteq> ''.'' \<and> entry_name e \<noteq> ''..'') es) (s\<lparr>cli_client := c, cli_world := w\<rparr>) = (Ok dirs, s')"
    by (simp add: tree_level_def cli_call_def Let_def)
  from tree_entries_found [OF this assms(2)] obtain e where "e \<in> set es" "snd d = subpath path (entry_name e)" "says_directory N (trim_end_char slash (cde_path e))"
    by auto
  with r es show ?thesis by blast
qed

text \<open>A directory that is found lies deeper.\<close>

lemma tree_level_deeper:
  assumes root: "\<not> says_directory N []" and l: "tree_level N prefix path s = (Ok dirs, s')" and d: "d \<in> set dirs"
  shows "length path < length (snd d)"
proof -
  obtain e where e: "snd d = subpath path (entry_name e)" "says_directory N (trim_end_char slash (cde_path e))" using tree_level_found [OF l d] by blast
  then have "entry_name e \<noteq> []" using entry_name_empty [of e] root by auto
  then show ?thesis using subpath_longer [of "entry_name e" path] e(1) by simp
qed

text \<open>
  \<^bold>\<open>C25\<close>. The command \<open>tree\<close> ends: when no directory that it finds has a path longer than some bound, and the server never calls the empty path a directory, the walk over the
  stack returns from every stack, whatever the calls of the client return.
\<close>

theorem cli_tree_ends:
  fixes N :: "'w net_api"
  assumes root: "\<not> says_directory N []"
    and bound: "\<forall>prefix path s dirs s'. tree_level N prefix path s = (Ok dirs, s') \<longrightarrow> (\<forall>d \<in> set dirs. length (snd d) \<le> D)"
  shows "\<exists>r s'. cli_tree N path s = Some (r, s')"
proof -
  define rank :: "string \<times> string \<Rightarrow> nat" where "rank d = Suc D - length (snd d)" for d
  have "\<exists>r s'. tree_loop N stack s = Some (r, s')" for stack and s :: "'w cli"
  proof (induction "mset (map rank stack)" arbitrary: stack s rule: wf_induct_rule [OF wf_mult [OF wf_less_than], case_names less])
    case less
    show ?case
    proof (cases stack)
      case (Cons item rest)
      obtain r s' where l: "tree_level N (fst item) (snd item) s = (r, s')" by (metis prod.exhaust)
      have "\<exists>r s''. tree_loop N (dirs @ rest) s' = Some (r, s'')" if "r = Ok dirs" for dirs
      proof (rule less)
        have "rank d < rank item" if "d \<in> set dirs" for d
          using tree_level_deeper [OF root l [unfolded \<open>r = Ok dirs\<close>] that] bound l that \<open>r = Ok dirs\<close> by (fastforce simp: rank_def)
        then show "(mset (map rank (dirs @ rest)), mset (map rank stack)) \<in> mult less_than"
          unfolding Cons using one_step_implies_mult [of "{#rank item#}" "mset (map rank dirs)" less_than "mset (map rank rest)"]
          by (auto simp: add.commute)
      qed
      then show ?thesis by (subst tree_loop.simps) (cases r; simp add: Cons l)
    qed (simp add: tree_loop.simps)
  qed
  then show ?thesis by (simp add: cli_tree_def)
qed

subsection \<open>A copy\<close>

lemma answered_same [simp]: "ci_open_until (cl_circuit (answered c)) = ci_open_until (cl_circuit c)" "cl_base_url (answered c) = cl_base_url c"
  by (simp_all add: answered_def)

lemma cli_call_deliver:
  assumes "call (cli_client s) (cli_world s) = deliver W f (cli_client s) sv t (Ok a, st)"
  shows "cli_call call k s = k (f a) (s\<lparr>cli_client := answered (cli_client s), cli_world := (sv\<lparr>sv_app := st\<rparr>, t)\<rparr>)"
  using assms by (simp add: cli_call_def deliver_def)

text \<open>
  \<^bold>\<open>C24\<close>. What \<open>racfs cp\<close> does to the server, for any file system behind it: when the source can be read and the destination created, the command is the handlers of stat, read, create and
  write, one after the other, and the bytes that are written are the JSON text of the contents of the source, not the contents; it reports the size of the source. A failing write is reported
  after the destination was created.
\<close>

theorem cli_cp_calls:
  assumes c: "ci_open_until (cl_circuit (cli_client s)) = None" "cl_base_url (cli_client s) = base" and w: "cli_world s = (sv, t)"
    and st: "stat_request (sp_fmt_time S) V p t (sv_app sv) = (Ok md, st1)" "mr_size md \<le> u64_max"
    and rd: "read_file V p t st1 = (Ok d, st2)" and cr: "create_file V q t st2 = (Ok m, st3)"
    and acc: "accepts S (write_body q (wt_json_text W (JStr d)) None)"
  shows "\<exists>c'. cli_cp (direct_net W S V base) p q s =
    (let (r, st4) = write_file V \<lparr>wr_path = q, wr_data = wt_json_text W (JStr d), wr_offset = None\<rparr> t st3;
         s' = s\<lparr>cli_client := c', cli_world := (sv\<lparr>sv_app := st4\<rparr>, t)\<rparr>
     in case r of
          Ok _ \<Rightarrow> (Ok (), if mr_size md \<ge> CP_PROGRESS_THRESHOLD then s'
            else println (''Copied '' @ p @ '' to '' @ q @ '' ('' @ dec (mr_size md) @ '' bytes)'') s')
        | Err e \<Rightarrow> (Err (client_error_display (CE_Api (error_code_display (her_code e)) (her_message e) (her_detail e))), s')
        | Panic \<Rightarrow> (Err (client_error_display (CE_Http (lost W))), s')
        | Hang \<Rightarrow> (Hang, s'))"
proof -
  let ?N = "direct_net W S V base" and ?c = "cli_client s"
  have 1: "client_stat ?N p ?c (cli_world s) = deliver W client_metadata ?c sv t (Ok md, st1)"
    using direct_stat [OF c, of S V p t sv W] st w by simp
  define s1 where "s1 = s\<lparr>cli_client := answered ?c, cli_world := (sv\<lparr>sv_app := st1\<rparr>, t)\<rparr>"
  have 2: "client_read_file ?N p (cli_client s1) (cli_world s1) = deliver W (\<lambda>x. wt_json_text W (JStr x)) (cli_client s1) (sv\<lparr>sv_app := st1\<rparr>) t (Ok d, st2)"
    using direct_read_file [of "answered ?c" base W S V p "sv\<lparr>sv_app := st1\<rparr>" t] c rd by (simp add: s1_def)
  define s2 where "s2 = s\<lparr>cli_client := answered (answered ?c), cli_world := (sv\<lparr>sv_app := st2\<rparr>, t)\<rparr>"
  have 3: "client_create_file ?N q (cli_client s2) (cli_world s2) = deliver W (\<lambda>x. x) (cli_client s2) (sv\<lparr>sv_app := st2\<rparr>) t (Ok m, st3)"
    using direct_create_file [of "answered (answered ?c)" base W S V q "sv\<lparr>sv_app := st2\<rparr>" t] c cr by (simp add: s2_def)
  let ?c3 = "answered (answered (answered ?c))"
  define s3 where "s3 = s\<lparr>cli_client := ?c3, cli_world := (sv\<lparr>sv_app := st3\<rparr>, t)\<rparr>"
  obtain r st4 where wr: "write_file V \<lparr>wr_path = q, wr_data = wt_json_text W (JStr d), wr_offset = None\<rparr> t st3 = (r, st4)" by (metis prod.exhaust)
  have 4: "client_write_file ?N q (wt_json_text W (JStr d)) None (cli_client s3) (cli_world s3) = deliver W (\<lambda>x. x) ?c3 (sv\<lparr>sv_app := st3\<rparr>) t (r, st4)"
    using direct_write_file [of ?c3 base S q "wt_json_text W (JStr d)" None W V "sv\<lparr>sv_app := st3\<rparr>" t] c acc wr by (simp add: s3_def)
  have eq: "cli_cp ?N p q s = cli_call (client_write_file ?N q (wt_json_text W (JStr d)) None) (\<lambda>_ s. (Ok (), if mr_size md \<ge> CP_PROGRESS_THRESHOLD then s
      else println (''Copied '' @ p @ '' to '' @ q @ '' ('' @ dec (mr_size md) @ '' bytes)'') s)) s3"
  proof -
    have "cli_call (client_stat ?N p) k s = k (client_metadata md) s1" for k :: "_ \<Rightarrow> _ \<Rightarrow> (unit, string) outcome \<times> _" unfolding s1_def by (rule cli_call_deliver) (rule 1)
    moreover have "cli_call (client_read_file ?N p) k s1 = k (wt_json_text W (JStr d)) s2" for k :: "_ \<Rightarrow> _ \<Rightarrow> (unit, string) outcome \<times> _"
      by (subst cli_call_deliver [where call = "client_read_file ?N p" and s = s1], rule 2) (simp add: s1_def s2_def)
    moreover have "cli_call (client_create_file ?N q) k s2 = k m s3" for k :: "_ \<Rightarrow> _ \<Rightarrow> (unit, string) outcome \<times> _"
      by (subst cli_call_deliver [where call = "client_create_file ?N q" and s = s2], rule 3) (simp add: s2_def s3_def)
    ultimately show ?thesis by (simp add: cli_cp_def client_metadata_def cong: if_cong)
  qed
  show ?thesis unfolding eq cli_call_def 4 wr
    by (cases r) (auto simp: deliver_def s3_def)
qed

subsection \<open>Examples\<close>

text \<open>A server with a KvFS that has one file.\<close>

definition kv_server :: "KvFS Server \<times> time" where
  "kv_server = (plain_server (kv_with_data 0 [(''/x'', ''hello'')]), 1)"

lemma kv_server_handlers:
  "\<exists>md st1 st2 m st3. stat_request (sp_fmt_time plain_params) kv_fs ''/x'' 1 (sv_app (fst kv_server)) = (Ok md, st1) \<and> mr_size md = 5 \<and>
     read_file kv_fs ''/x'' 1 st1 = (Ok ''hello'', st2) \<and> create_file kv_fs ''/y'' 1 st2 = (Ok m, st3) \<and> kv_contents (as_vfs st3) ''/y'' = Some []"
proof -
  have v: "validate_path ''/x'' = Ok ()" "validate_path ''/y'' = Ok ()"
    by (simp_all add: validate_path_def starts_with_def MAX_PATH_LEN_def)
  have p: "\<not> path_eq ''/x'' ''/y''" "\<not> path_eq ''/y'' ''/x''" "from_utf8_lossy ''hello'' = ''hello''" by code_simp+
  have "read_slice ''hello'' 0 (- 1) = Ok ''hello''" by (simp add: read_slice_all is_i64_def)
  with v p show ?thesis
    by (simp add: kv_server_def plain_server_def app_state_new_def stat_request_def validated_def get_or_fetch_def sc_lookup_def sc_new_with_ttl_def kv_fs_def kv_stat_def
        kv_with_data_def metadata_response_def metadata_file_def read_file_def vfs_then_def inc_metric_def kv_read_def create_file_def kv_create_def kv_contents_def
        hm_contains_def drop_stat_def Let_def kv_map_simps)
qed

theorem cli_cp_calls_witness:
  "let N = direct_net plain_texts plain_params kv_fs ''http://h'';
       (r, s) = cli_cp N ''/x'' ''/y'' \<lparr>cli_out = [], cli_client = client_new ''http://h'', cli_world = kv_server\<rparr>
   in r = Ok () \<and> kv_contents (as_vfs (sv_app (fst (cli_world s)))) ''/y'' = Some ([CHR 0x22] @ ''hello'' @ [CHR 0x22])"
proof -
  let ?N = "direct_net plain_texts plain_params kv_fs ''http://h''" and ?s = "\<lparr>cli_out = [], cli_client = client_new ''http://h'', cli_world = kv_server\<rparr>"
  obtain md st1 st2 m st3 where h: "stat_request (sp_fmt_time plain_params) kv_fs ''/x'' 1 (sv_app (fst kv_server)) = (Ok md, st1)" "mr_size md = 5"
    "read_file kv_fs ''/x'' 1 st1 = (Ok ''hello'', st2)" "create_file kv_fs ''/y'' 1 st2 = (Ok m, st3)" "kv_contents (as_vfs st3) ''/y'' = Some []"
    using kv_server_handlers by blast
  let ?d = "[CHR 0x22] @ ''hello'' @ [CHR 0x22]"
  have quoted: "wt_json_text plain_texts (JStr ''hello'') = ?d" by (simp add: plain_texts_def)
  have v: "validate_path ''/y'' = Ok ()" by (simp add: validate_path_def starts_with_def MAX_PATH_LEN_def)
  have a: "\<not> contains_append WF_NONE" by code_simp
  have "kv_write_data [] ?d 0 WF_NONE = Ok ?d" using a by (simp add: kv_write_data_def vec_resize_def)
  then have "\<exists>st4. write_file kv_fs \<lparr>wr_path = ''/y'', wr_data = ?d, wr_offset = None\<rparr> 1 st3 = (Ok (''Wrote '' @ dec (length ?d) @ '' bytes''), st4) \<and>
      kv_contents (as_vfs st4) ''/y'' = Some ?d"
    using h(5) v by (simp add: write_file_def validated_def validate_write_data_len_def MAX_WRITE_BODY_LEN_def vfs_then_def kv_fs_def kv_write_def kv_contents_def inc_metric_def
        drop_stat_def kv_map_simps Let_def)
  then obtain st4 where w: "write_file kv_fs \<lparr>wr_path = ''/y'', wr_data = ?d, wr_offset = None\<rparr> 1 st3 = (Ok (''Wrote '' @ dec (length ?d) @ '' bytes''), st4)"
    "kv_contents (as_vfs st4) ''/y'' = Some ?d" by blast
  have world: "cli_world ?s = (fst kv_server, 1)" by (simp add: kv_server_def)
  have c: "ci_open_until (cl_circuit (cli_client ?s)) = None" "cl_base_url (cli_client ?s) = ''http://h''" by (simp_all add: client_new_def)
  have size: "mr_size md \<le> u64_max" using h(2) by simp
  from cli_cp_calls [OF c world h(1) size h(3,4) accepts_plain, of plain_texts] w h(2) show ?thesis
    unfolding quoted by (auto simp: CP_PROGRESS_THRESHOLD_def println_def print_def)
qed

text \<open>A server whose root has one empty directory.\<close>

definition two_level_answer :: "http_request \<Rightarrow> http_response" where
  "two_level_answer rq =
     (let path = map_of (hq_query rq) ''path''
      in if last (hq_url rq) = CHR ''t'' then
           (if path = Some ''/a'' then \<lparr>hp_status = 200, hp_body = B_Json (metadata_json \<lparr>mr_file_type = ''directory'', mr_permissions = ''755'', mr_size = 0,
                mr_modified = None, mr_path = ''/a'', mr_symlink_target = None\<rparr>)\<rparr>
            else \<lparr>hp_status = 404, hp_body = B_Text []\<rparr>)
         else \<lparr>hp_status = 200, hp_body = B_Json (entries_json (if path = Some ''/'' then
                [\<lparr>de_permissions = ''755'', de_size = 0, de_modified = None, de_path = ''/a'', de_file_type = ''directory''\<rparr>] else []))\<rparr>)"

definition two_level_net :: "unit net_api" where
  "two_level_net = \<lparr>net_now = \<lambda>_. 0, net_sleep = \<lambda>_ w. w, net_send = \<lambda>rq w. (Ok (two_level_answer rq), w), net_json_text = \<lambda>_. [],
     net_decode_error = \<lparr>re_connect = False, re_timeout = False, re_message = []\<rparr>, net_status_text = \<lambda>_. []\<rparr>"

lemma two_level_call:
  assumes "client_call two_level_net m u q b f c w = (Ok a, c', w')" and "u \<noteq> []"
  shows "\<exists>rq. f (two_level_answer rq) = Ok a \<and> hq_query rq = q \<and> last (hq_url rq) = last u"
proof -
  let ?rq = "build_request (http_call m u q b c) c"
  have "f (two_level_answer ?rq) = Ok a"
    using assms(1) by (auto simp: client_call_def exchange_def send_with_retry_def send_attempts.simps two_level_net_def split: option.splits if_splits)
  moreover have "hq_query ?rq = q" "last (hq_url ?rq) = last u"
    using assms(2) by (simp_all add: build_request_def http_call_def split: option.split)
  ultimately show ?thesis by blast
qed

lemma two_level_stat:
  assumes "client_stat two_level_net p c w = (Ok m, c', w')"
  shows "p = ''/a''"
  using two_level_call [OF assms [unfolded client_stat_def]] by (auto simp: two_level_answer_def handle_response_def is_success_def split: if_splits)

lemma two_level_list:
  assumes "client_read_dir two_level_net p c w = (Ok es, c', w')"
  shows "es = [] \<or> p = ''/'' \<and> map cde_path es = [''/a'']"
  using two_level_call [OF assms [unfolded client_read_dir_def]]
  by (auto simp: two_level_answer_def handle_response_ok client_entry_def split: if_splits)

lemma two_level_bound: "tree_level two_level_net prefix path s = (Ok dirs, s') \<Longrightarrow> d \<in> set dirs \<Longrightarrow> length (snd d) \<le> 2"
proof -
  assume "tree_level two_level_net prefix path s = (Ok dirs, s')" "d \<in> set dirs"
  from tree_level_found [OF this] obtain e where e: "path = ''/''" "cde_path e = ''/a''" "snd d = subpath path (entry_name e)"
    using two_level_list by fastforce
  moreover have "subpath ''/'' (last_segment (trim_end_char slash ''/a'')) = ''/a''" by code_simp
  ultimately show ?thesis by (simp add: entry_name_def)
qed

theorem cli_tree_ends_witness:
  "\<exists>r s'. cli_tree two_level_net ''/'' \<lparr>cli_out = [], cli_client = client_new [], cli_world = ()\<rparr> = Some (r, s')"
proof (rule cli_tree_ends)
  show "\<not> says_directory two_level_net []" using two_level_stat by (fastforce simp: says_directory_def)
  show "\<forall>prefix path s dirs s'. tree_level two_level_net prefix path s = (Ok dirs, s') \<longrightarrow> (\<forall>d \<in> set dirs. length (snd d) \<le> 2)"
    using two_level_bound by blast
qed

end
