(* ===== verification/Spec2Isabelle.thy ===== *)
theory Spec2Isabelle
  imports Mem_FS Kv_FS Queue_FS Stream_FS Stream_Rotate_FS Handle_Manager Mountable_FS Cached_FS Inode_Manager Rate_Limit Server_Api Fuse_Stack
    Blocking_Adapter Static_FS Heartbeat_FS Dev_FS Proxy_FS Http_FS Server_Config Local_FS S3_FS Pgs_FS Kv_Sqlite Cli
begin

text \<open>
  A verification library for \<^bold>\<open>RACFS\<close>, a virtual file system in Rust: file system plugins with
  one trait (\<open>FileSystem\<close>), a router that mounts them under one tree, caches and handle
  tables around it, a REST server, an HTTP client, a FUSE front end and a command line client. This theory holds the properties that span
  components; every other theory models one component of the sources under \<open>src/crates\<close>.

  \<^bold>\<open>How the parts interact.\<close> The kernel calls the FUSE front end, which numbers paths with its inode manager, caches
  attributes and contents, buffers writes and calls the server through the HTTP client. A request reaches a REST handler of \<open>racfs-server\<close>, passes the rate
  limiter and the validation of its parameters, and is forwarded to the router
  \<open>MountableFS\<close>, which resolves the path to a mounted file system and calls the same trait operation there with
  the rest of the path. A mounted file system is a plugin, or a plugin wrapped in \<open>CachedFs\<close>. The server keeps a cache of \<open>stat\<close>
  results that the mutating handlers invalidate.

  \<^bold>\<open>Common theories.\<close>
  \<^item> \<open>Prelude\<close>: outcomes of calls (\<open>Ok\<close>, \<open>Err\<close>, \<open>Panic\<close>, \<open>Hang\<close>), 64-bit arithmetic with the release
    profile's wrap-around, \<open>Vec<u8>\<close> primitives, the POSIX reference for reads and writes.
  \<^item> \<open>Rust_Maps\<close>, \<open>Rust_Strings\<close>, \<open>Rust_Paths\<close>: what the sources use of the standard library.
    Maps are association lists under the key type's equality (locales \<open>map_provider\<close>,
    \<open>key_equivalence\<close>); iteration order of a hash map is the list's, and no property depends
    on it. Paths are compared by components, as \<open>std::path\<close> does.
  \<^item> \<open>Core_Types\<close>: \<open>racfs-core\<close> errors, flags, metadata, handles, and the trait as a record of
    operations over a backend state.
  \<^item> \<open>Fs_Contract\<close>, \<open>Queue_Contract\<close>: contracts as locales (\<open>byte_store\<close>, \<open>message_queue\<close>), runs of a
    backend (\<open>fs_step\<close>, \<open>fs_reachable\<close>), the abstract flat store of nodes (\<open>flat_step\<close>), the sequencing of fallible calls
    (\<open>try_then\<close>, \<open>call_then\<close>, \<open>bind_op\<close>) and file systems that nothing changes.

  \<^bold>\<open>Components.\<close>
  \<^item> \<open>Mem_FS\<close> (\<open>racfs-plugin-memfs/src/fs\<close>): refinement of the flat store, invariant, write
    against the POSIX reference, read-back, \<open>remove\<close>, \<open>remove_all\<close>, \<open>rename\<close>, \<open>read_dir\<close>,
    \<open>mkdir\<close> on every branch, termination of symbolic links.
  \<^item> \<open>Kv_FS\<close>, \<open>Kv_Sqlite\<close> (\<open>racfs-plugin-kvfs/src/fs\<close>): the store in memory, with the same contract, where its
    \<open>write\<close> panics and its \<open>remove\<close> leaves metadata; and the backend in SQLite, operation by operation.
  \<^item> \<open>Queue_FS\<close> (\<open>racfs-plugin-queuefs/src/fs\<close>): exactly-once in-order delivery through the
    virtual files, and its bound of 999,999 messages.
  \<^item> \<open>Stream_FS\<close> (\<open>racfs-plugin-streamfs/src/fs\<close>, \<open>racfs-core/src/compression.rs\<close>): a stream is a
    ring buffer of messages, and which operations keep its bounds.
  \<^item> \<open>Stream_Rotate_FS\<close> (\<open>racfs-plugin-streamrotatefs/src/fs\<close>): the archives and the current log
    cut what was logged into consecutive pieces.
  \<^item> \<open>Static_FS\<close>, \<open>Heartbeat_FS\<close>, \<open>Dev_FS\<close> (\<open>racfs-plugin-hellofs\<close>, \<open>serverinfofs\<close>, \<open>heartbeatfs\<close>, \<open>devfs\<close>): fixed files, a counter
    and devices.
  \<^item> \<open>Local_FS\<close> (\<open>racfs-plugin-localfs\<close>): no operation leaves the root that is configured, and when that fails.
  \<^item> \<open>Proxy_FS\<close>, \<open>Http_FS\<close>, \<open>S3_FS\<close> (\<open>racfs-plugin-proxyfs\<close>, \<open>httpfs\<close>, \<open>s3fs\<close>): the requests each operation sends, the cache of
    responses, and what a write leaves in an object.
  \<^item> \<open>Sql_Table\<close>, \<open>Sql_FS\<close>, \<open>Pgs_FS\<close> (\<open>racfs-plugin-sqlfs\<close>, \<open>pgsfs\<close>): SQL statements on a table of paths, \<open>LIKE\<close> of both
    databases, and what every operation does to the table, also when statements fail half-way.
  \<^item> \<open>Vector_FS\<close> (\<open>racfs-plugin-vectorfs\<close>): documents with embeddings, searches as directories; every stored vector has the
    configured dimension.
  \<^item> \<open>Handle_Manager\<close> (\<open>racfs-vfs/src/handle_manager.rs\<close>): agreement of the two indexes, life
    cycle, leases, and the race at the limit.
  \<^item> \<open>Mountable_FS\<close> (\<open>racfs-vfs/src/mountable_fs.rs\<close>): mount table, resolution by longest prefix,
    forwarding of every operation.
  \<^item> \<open>Cached_FS\<close> (\<open>racfs-core/src/cache.rs\<close>, \<open>racfs-vfs/src/cached_fs.rs\<close>): coherence of the
    cache over any file system whose reads are steady (locales \<open>cache\<close>, \<open>steady_reads\<close>, \<open>cached_reads\<close>).
  \<^item> \<open>Inode_Manager\<close> (\<open>racfs-fuse/src/inode_manager.rs\<close>): inodes and paths are in bijection.
  \<^item> \<open>Rate_Limit\<close>, \<open>Stat_Cache\<close>, \<open>Http_Error\<close>, \<open>Server_Api\<close> (\<open>racfs-server\<close>,
    \<open>racfs-http-error\<close>): admission bound, bounded staleness, validation and error mapping, and
    every REST handler on the application state.
  \<^item> \<open>Http_Wire\<close>, \<open>Rest_Client\<close> (\<open>racfs-client/src\<close>): requests, responses and the JSON of both sides; every call
    of the client, its retries and its circuit breaker.
  \<^item> \<open>Auth\<close> (\<open>racfs-server/src/auth\<close>, \<open>api/auth_api.rs\<close>): who gets a token.
  \<^item> \<open>Server_Http\<close>, \<open>Client_Server\<close> (\<open>racfs-server/src/main.rs\<close>, the route table): a call of the client is a
    call of one handler.
  \<^item> \<open>Fuse_Cache\<close>, \<open>Async_Fs\<close>, \<open>Fuse_Writes\<close> (\<open>racfs-fuse/src/cache.rs\<close>, \<open>async_fs.rs\<close>): every operation of
    the front end; merging, bounds and loss of buffered writes, behaviour without a server.
  \<^item> \<open>File_Locks\<close>, \<open>Blocking_Adapter\<close>, \<open>Fuse_Mount\<close> (\<open>racfs-fuse/src/advanced.rs\<close>, \<open>blocking_adapter.rs\<close>, \<open>lib.rs\<close>): the table of
    byte-range locks, what the kernel calls, and how a mount starts.
  \<^item> \<open>Server_Config\<close> (\<open>racfs-server/src/config.rs\<close>, \<open>main.rs\<close>): defaults, overrides, validation, the mounts at the start and
    the reload.
  \<^item> \<open>Cli\<close> (\<open>racfs-cli/src/main.rs\<close>): every command as calls of the client; what a copy really writes, and that the walk of
    \<open>tree\<close> ends.
  \<^item> \<open>Server_Stack\<close>, \<open>Fuse_Stack\<close>: one file followed through the layers, for the properties of this theory.

  \<^bold>\<open>Conventions.\<close> Clock readings are arguments, one per call. Locks are not modelled where one
  call is one critical section; where a call has several, each is a definition of its own and
  the interleaving is stated. Third-party code is a parameter with its documented laws as named
  hypotheses: the trie (\<open>trie_api\<close>), the concurrent map (\<open>dash_api\<close>), JSON, base64, time
  formatting, header maps, hashes, signatures, the network (\<open>net_api\<close>) and
  the rejections of the web framework. Lengths above \<open>isize::MAX\<close> are Rust's capacity panic.

  Databases (\<open>sql_db\<close>, \<open>kv_db\<close>, \<open>vector_env\<close>), object stores, remote servers and the host file system have a state of their
  own; what SQL or the service promises of a statement is a predicate on it (\<open>sql_laws\<close>, \<open>kv_laws\<close>, \<open>vector_laws\<close>), every call
  may fail, and an implementation in memory satisfies each predicate.

  \<^bold>\<open>Fuel and loops.\<close> \<open>mem_follow\<close> follows symbolic links with fuel one more than the number of entries; a
  chain that long repeats a path, so running out is exactly not returning (\<open>mem_read_hang\<close>). The loops that follow pages of
  an object store and the walk of the command \<open>tree\<close> may run forever and are partial functions whose value is then \<open>None\<close>;
  the theory \<open>Cli\<close> says when the walk returns. All other functions are total.

  \<^bold>\<open>Not modelled.\<close> The inside of third-party crates: databases and their drivers, FoyerCache, the HTTP framework, the text of
  JSON and TOML, the kernel side of FUSE. Tracing, the export of metrics and the OpenAPI document, which only describe the
  program; parsing command line arguments; binding the socket; building the clients and connection pools of SDKs; the deprecated
  blocking constructor of VectorFS; benchmarks, examples and tests.
\<close>

subsection \<open>Properties across components\<close>

lemma mounted_projection:
  "fs_reachable (mountable_fs T V) m0 m \<Longrightarrow>
     mo_mounts m = mo_mounts m0 \<and> mo_trie m = mo_trie m0 \<and>
     fs_reachable (V f) (mo_backends m0 f) (mo_backends m f)"
proof (induction rule: fs_reachable.induct)
  case start
  show ?case by (simp add: fs_reachable.start)
next
  case (step m m')
  from mo_step_touches [OF step.hyps(2)] step.IH show ?case
    by (auto simp: touches_def intro: fs_reachable.step)
qed



subsection \<open>A file through the whole stack\<close>

text \<open>
  \<^bold>\<open>C2\<close>. A file through the whole stack (server, router, MemFS): when the path resolves to a
  mounted MemFS and the server has created the file, writing text to it through the API reports
  its length, reading it back returns the same text, and its stat, whatever was
  cached before, is a file of that size. Nothing behind the other mounts changes.
\<close>

theorem server_file_roundtrip:
  assumes res: "resolve_fs T (as_vfs st) p = Ok (f, rel)" and V: "V f = mem_fs"
    and c: "create_file (mountable_fs T V) p now st = (Ok msg, st1)"
    and d: "utf8_valid d" "length d \<le> MAX_WRITE_BODY_LEN"
    and clock: "now + sc_ttl (as_stat_cache st) \<le> instant_max"
  shows "\<exists>st2. write_file (mountable_fs T V) \<lparr>wr_path = p, wr_data = d, wr_offset = None\<rparr> now st1 =
        (Ok (''Wrote '' @ dec (length d) @ '' bytes''), st2) \<and>
      fst (read_file (mountable_fs T V) p now st2) = Ok d \<and>
      (\<exists>md. fst (stat_request fmt (mountable_fs T V) p now st2) = Ok md \<and>
        mr_size md = length d \<and> mr_file_type md = ''file'') \<and>
      (\<forall>g. g \<noteq> f \<longrightarrow> mo_backends (as_vfs st2) g = mo_backends (as_vfs st) g)"
proof -
  note created = create_serves [where V = V, OF res V c]
  then obtain st2 where w: "write_file (mountable_fs T V) \<lparr>wr_path = p, wr_data = d, wr_offset = None\<rparr> now st1 =
      (Ok (''Wrote '' @ dec (length d) @ '' bytes''), st2)"
    "serves_file T V p f rel d st2" "uncached p st2" "only_file f st1 st2"
    using write_serves [of T V p f rel "[]" st1 d None now] d(2) by blast
  have only: "only_file f st st2" using only_file_trans created w(4) by blast
  then have "now + sc_ttl (as_stat_cache st2) \<le> instant_max" using clock by (simp add: only_file_def)
  from read_serves [OF w(2) d(1), of now] stat_serves [OF w(2,3) this, of fmt] w(1) only show ?thesis
    by (fastforce simp: only_file_def)
qed

theorem server_file_roundtrip_witness:
  "\<exists>st1 st2. create_file (mountable_fs list_trie (\<lambda>_. mem_fs)) ''/a/x'' 1
       (app_state_new (snd (mount list_trie ''/a'' 3 (mountable_new list_trie (\<lambda>_. mem_new 0)))) 2) =
       (Ok ''Created file: /a/x'', st1) \<and>
     write_file (mountable_fs list_trie (\<lambda>_. mem_fs))
       \<lparr>wr_path = ''/a/x'', wr_data = ''hello'', wr_offset = None\<rparr> 1 st1 = (Ok ''Wrote 5 bytes'', st2) \<and>
     fst (read_file (mountable_fs list_trie (\<lambda>_. mem_fs)) ''/a/x'' 1 st2) = Ok ''hello''"
proof -
  obtain st1 where c: "create_file (mountable_fs list_trie (\<lambda>_. mem_fs)) ''/a/x'' 1 example_state = (Ok ''Created file: /a/x'', st1)"
    using example_file(2) by blast
  from server_file_roundtrip [OF example_file(1) refl c example_text(1) example_bounds(2,1), where fmt = "\<lambda>_. []"] c show ?thesis
    unfolding example_text(2) by blast
qed

subsection \<open>A file through the FUSE front end\<close>

text \<open>
  \<^bold>\<open>C3\<close>. A file through every layer (FUSE front end, client, server, router, MemFS): a new file is created, the
  bytes written to it are buffered and its release sends them to the server, after which a read
  of \<open>n\<close> bytes returns the first \<open>n\<close> of the JSON text of the contents (the client takes the body of the response
  as it stands) and its attributes are those of a regular file of the length written, with no permission
  bits (the front end does not understand the server's octal text). The other mounts keep their state.
\<close>

theorem fuse_file_roundtrip:
  assumes F: "fuse_laws (fp_maps P)" "dash_laws (=) (fp_paths P)" and N: "fp_net P = direct_net W S (mountable_fs T V) base"
    and c: "ci_open_until (cl_circuit (rf_client fs)) = None" "cl_base_url (rf_client fs) = base"
    and dir: "get_path (fp_paths P) dir (rf_inodes fs) = Some q" "push q (from_utf8_lossy name) = p"
    and new: "get_inode (fp_inodes P) p (rf_inodes fs) = None" and u: "from_utf8_lossy p = p"
    and res: "resolve_fs T (as_vfs (sv_app sv)) p = Ok (f, rel)" "V f = mem_fs"
    and cr: "create_file (mountable_fs T V) p t (sv_app sv) = (Ok msg, app)"
    and clock: "t + sc_ttl (as_stat_cache (sv_app sv)) \<le> instant_max" "t + fc_ttl (rf_cache fs) \<le> instant_max"
    and d: "utf8_valid d" "length d \<le> DEFAULT_WRITE_BACK_MAX_CHUNK" "accepts S (write_body p d (Some 0))" and n: "n \<le> u64_max"
  shows "\<exists>i a s1 s2 s3. create_async P dir name (fs, (sv, t)) = (Ok (TTL, a, 0), s1) \<and> fa_ino a = i \<and>
    write_async P i 0 d s1 = (Ok (length d), s2) \<and> release_async P i s2 = (Ok (), s3) \<and>
    fst (read_async P i 0 n s3) = Ok (take n (wt_json_text W (JStr d))) \<and>
    (\<exists>b. fst (getattr_async P i s3) = Ok (TTL, b) \<and> fa_size b = length d \<and> fa_kind b = FT_RegularFile \<and> fa_perm b = 0) \<and>
    (\<forall>g. g \<noteq> f \<longrightarrow> mo_backends (as_vfs (sv_app (fst (snd s3)))) g = mo_backends (as_vfs (sv_app sv)) g)"
proof -
  obtain i a fs1 sv1 where s1: "create_async P dir name (fs, (sv, t)) = (Ok (TTL, a, 0), (fs1, (sv1, t)))" "fa_ino a = i"
    "holds_file P base (fc_ttl (rf_cache fs)) i p None fs1" "serves_file T V p f rel [] (sv_app sv1)"
    "only_file f (sv_app sv) (sv_app sv1)"
    using create_known [where V = V, OF F N c dir new u res cr clock(1)] by blast
  obtain fs2 where s2: "write_async P i 0 d (fs1, (sv1, t)) = (Ok (length d), (fs2, (sv1, t)))"
    "holds_file P base (fc_ttl (rf_cache fs)) i p (Some \<lparr>wb_segments = [(0, d)], wb_total_bytes = length d\<rparr>) fs2"
    using write_buffers [OF F(1) s1(3) d(2), of "(sv1, t)"] by blast
  have len: "length d \<le> MAX_WRITE_BODY_LEN" "length d \<le> u64_max"
    using d(2) by (simp_all add: MAX_WRITE_BODY_LEN_def DEFAULT_WRITE_BACK_MAX_CHUNK_def)
  have "from_utf8_lossy d = d" using d(1) by (simp add: utf8_valid_def from_utf8_lossy_valid)
  then obtain fs3 sv3 where s3: "release_async P i (fs2, (sv1, t)) = (Ok (), (fs3, (sv3, t)))"
    "holds_file P base (fc_ttl (rf_cache fs)) i p None fs3" "serves_file T V p f rel d (sv_app sv3)" "uncached p (sv_app sv3)"
    "only_file f (sv_app sv1) (sv_app sv3)"
    using release_stores [OF F(1) N s2(2) u _ d(3) s1(4) len(1), of t] by blast
  have only: "only_file f (sv_app sv) (sv_app sv3)" using only_file_trans s1(5) s3(5) by blast
  then have "t + sc_ttl (as_stat_cache (sv_app sv3)) \<le> instant_max" using clock(1) by (simp add: only_file_def)
  from attributes_back [OF N s3(2) u s3(3,4) this clock(2) len(2)] read_back [OF N s3(2) u d(1) s3(3) n, of t]
    s1(1,2) s2(1) s3(1) only show ?thesis
    by (fastforce simp: only_file_def)
qed

theorem fuse_file_roundtrip_witness:
  "let V = mountable_fs list_trie (\<lambda>_. mem_fs); P = list_params (direct_net plain_texts plain_params V ''http://h'');
       fs0 = async_fs_new P ''http://h'';
       (i, m) = allocate (fp_paths P) (fp_inodes P) ''/a'' (rf_inodes fs0); fs = fs0\<lparr>rf_inodes := m\<rparr>;
       sv = plain_server (snd (mount list_trie ''/a'' 3 (mountable_new list_trie (\<lambda>_. mem_new 0))))
   in \<exists>a s1 s2 s3. create_async P i ''x'' (fs, (sv, 1)) = (Ok (TTL, a, 0), s1) \<and>
        write_async P (fa_ino a) 0 ''hello'' s1 = (Ok 5, s2) \<and> release_async P (fa_ino a) s2 = (Ok (), s3) \<and>
        fst (read_async P (fa_ino a) 0 3 s3) = Ok (CHR 0x22 # ''he'')"
proof -
  let ?V = "mountable_fs list_trie (\<lambda>_. mem_fs)" let ?P = "list_params (direct_net plain_texts plain_params ?V ''http://h'')"
  let ?fs0 = "async_fs_new ?P ''http://h''"
  let ?sv = "plain_server (snd (mount list_trie ''/a'' 3 (mountable_new list_trie (\<lambda>_. mem_new 0))))"
  let ?im = "allocate (fp_paths ?P) (fp_inodes ?P) ''/a'' (rf_inodes ?fs0)" let ?fs = "?fs0\<lparr>rf_inodes := snd ?im\<rparr>"
  note defs = list_params_def async_fs_new_def with_cache_def with_default_ttl_def fuse_cache_new_def
    list_fuse_maps_def list_dash_def inode_manager_new_def ROOT_INODE_def client_new_def
  have sv: "sv_app ?sv = example_state" by (simp add: plain_server_def)
  have laws: "fuse_laws (fp_maps ?P)" "dash_laws (=) (fp_paths ?P)" by (simp_all add: list_params_def list_fuse_laws list_dash_laws)
  have N: "fp_net ?P = direct_net plain_texts plain_params ?V ''http://h''" by (simp add: list_params_def)
  have c: "ci_open_until (cl_circuit (rf_client ?fs)) = None" "cl_base_url (rf_client ?fs) = ''http://h''" by (simp_all add: defs)
  have paths: "\<not> path_eq ''/'' ''/a''" "\<not> path_eq ''/'' ''/a/x''" "\<not> path_eq ''/a'' ''/a/x''" "push ''/a'' (from_utf8_lossy ''x'') = ''/a/x''"
    "from_utf8_lossy ''/a/x'' = ''/a/x''" by code_simp+
  have al: "fst ?im = 2" "get_path (fp_paths ?P) 2 (rf_inodes ?fs) = Some ''/a''"
    "get_inode (fp_inodes ?P) ''/a/x'' (rf_inodes ?fs) = None"
    by (simp_all add: defs allocate_def get_inode_def alloc_commit_def Let_def get_path_def paths)
  obtain st1 where cr: "create_file ?V ''/a/x'' 1 (sv_app ?sv) = (Ok ''Created file: /a/x'', st1)"
    unfolding sv using example_file(2) by blast
  have res: "resolve_fs list_trie (as_vfs (sv_app ?sv)) ''/a/x'' = Ok (3, ''/x'')" unfolding sv by (rule example_file(1))
  have clock: "1 + sc_ttl (as_stat_cache (sv_app ?sv)) \<le> instant_max" "1 + fc_ttl (rf_cache ?fs) \<le> instant_max"
    unfolding sv by (rule example_bounds(1)) (simp add: defs DEFAULT_TTL_SECS_def)
  have three: "(3::nat) \<le> u64_max" by simp
  have len: "length ''hello'' \<le> DEFAULT_WRITE_BACK_MAX_CHUNK" by (simp add: DEFAULT_WRITE_BACK_MAX_CHUNK_def)
  have quoted: "take 3 (wt_json_text plain_texts (JStr ''hello'')) = CHR 0x22 # ''he''" by (simp add: plain_texts_def)
  have "\<exists>i a s1 s2 s3. create_async ?P 2 ''x'' (?fs, (?sv, 1)) = (Ok (TTL, a, 0), s1) \<and> fa_ino a = i \<and>
      write_async ?P i 0 ''hello'' s1 = (Ok (length ''hello''), s2) \<and> release_async ?P i s2 = (Ok (), s3) \<and>
      fst (read_async ?P i 0 3 s3) = Ok (CHR 0x22 # ''he'')"
    by (insert fuse_file_roundtrip [OF laws N c al(2) paths(4) al(3) paths(5) res refl cr clock example_text(1) len accepts_plain three])
      (elim exE conjE, intro exI conjI, assumption+, simp only: quoted)
  moreover have "length ''hello'' = 5" by simp
  ultimately show ?thesis unfolding Let_def case_prod_beta al(1) by metis
qed

end
